(* ===== verification/Prelude.thy ===== *)
theory Prelude
  imports Main "HOL-Library.List_Lexorder" "HOL-Library.Word" "HOL-Library.Code_Target_Nat"
begin

text \<open>
  Shared vocabulary of the development: Rust strings as lists of Unicode scalar values,
  Rust's \<open>Result\<close> as a sum with its sequencing operators, machine integer types, and the
  association lists that stand for \<open>BTreeMap\<close> (sorted by key).
\<close>

named_theorems res_simps \<open>evaluation rules of the result operators\<close>
named_theorems map_simps \<open>laws of the sorted association lists\<close>

section \<open>Strings\<close>

text \<open>
  A Rust \<open>String\<close> is the list of its \<open>char\<close>s, each the number of its Unicode scalar
  value.  The order of \<^theory_text>\<open>HOL-Library.List_Lexorder\<close> on such lists is the order of
  Rust's \<open>str\<close> (byte order of UTF-8 and order of scalar values agree).
\<close>

type_synonym str = "nat list"

definition lit :: "string \<Rightarrow> str" where
  "lit s = map of_char s"

lemma of_char_nat_inject [simp]: "(of_char c :: nat) = of_char d \<longleftrightarrow> c = d"
  by (simp add: of_char_eq_iff)

lemma lit_inject [simp]: "lit s = lit t \<longleftrightarrow> s = t"
  by (simp add: lit_def inj_map_eq_map inj_on_def)

lemma lit_empty [simp]: "lit [] = []"
  by (simp add: lit_def)

lemma lit_eq_Nil [simp]: "lit s = [] \<longleftrightarrow> s = []"
  by (simp add: lit_def)

lemma length_lit [simp]: "length (lit s) = length s"
  by (simp add: lit_def)

type_synonym u8 = "8 word"
type_synonym u16 = "16 word"
type_synonym u32 = "32 word"
type_synonym u64 = "64 word"
type_synonym i64 = "64 word"

text \<open>Decimal notation of an unsigned integer (\<open>to_string\<close>).\<close>

fun nat_str :: "nat \<Rightarrow> str" where
  "nat_str n = (if n < 10 then [48 + n] else nat_str (n div 10) @ [48 + n mod 10])"

declare nat_str.simps [simp del]

section \<open>Results\<close>

text \<open>
  \<open>Result<T, E>\<close> is \<open>'e + 'a\<close> with \<open>Inl\<close> for \<open>Err\<close>; \<open>bindR\<close> is the \<open>?\<close> operator and
  \<open>mapR\<close> the loop that pushes one result per element and stops at the first error.
\<close>

definition bindR :: "'e + 'a \<Rightarrow> ('a \<Rightarrow> 'e + 'b) \<Rightarrow> 'e + 'b" where
  "bindR m f = (case m of Inl e \<Rightarrow> Inl e | Inr x \<Rightarrow> f x)"

lemma bindR_Inl [simp, res_simps]: "bindR (Inl e) f = Inl e"
  by (simp add: bindR_def)

lemma bindR_Inr [simp, res_simps]: "bindR (Inr x) f = f x"
  by (simp add: bindR_def)

lemma bindR_eq_Inr: "bindR m f = Inr y \<longleftrightarrow> (\<exists>x. m = Inr x \<and> f x = Inr y)"
  by (cases m) auto

lemma bindR_eq_Inl: "bindR m f = Inl e \<longleftrightarrow> m = Inl e \<or> (\<exists>x. m = Inr x \<and> f x = Inl e)"
  by (cases m) auto

lemma bindR_cong [fundef_cong]:
  "m = m' \<Longrightarrow> (\<And>x. m' = Inr x \<Longrightarrow> f x = g x) \<Longrightarrow> bindR m f = bindR m' g"
  by (cases m') auto

fun mapR :: "('a \<Rightarrow> 'e + 'b) \<Rightarrow> 'a list \<Rightarrow> 'e + 'b list" where
  "mapR f [] = Inr []"
| "mapR f (x # xs) = bindR (f x) (\<lambda>y. bindR (mapR f xs) (\<lambda>ys. Inr (y # ys)))"

lemma mapR_cong [fundef_cong]:
  "xs = ys \<Longrightarrow> (\<And>x. x \<in> set ys \<Longrightarrow> f x = g x) \<Longrightarrow> mapR f xs = mapR g ys"
proof (induction ys arbitrary: xs)
  case Nil
  then show ?case by simp
next
  case (Cons y ys)
  from Cons.IH [of ys] Cons.prems have "mapR f ys = mapR g ys" by simp
  with Cons.prems show ?case by simp
qed

definition flat_mapR :: "('a \<Rightarrow> 'e + 'b list) \<Rightarrow> 'a list \<Rightarrow> 'e + 'b list" where
  "flat_mapR f xs = bindR (mapR f xs) (\<lambda>yss. Inr (concat yss))"

lemma flat_mapR_cong [fundef_cong]:
  "xs = ys \<Longrightarrow> (\<And>x. x \<in> set ys \<Longrightarrow> f x = g x) \<Longrightarrow> flat_mapR f xs = flat_mapR g ys"
  unfolding flat_mapR_def by (metis mapR_cong)

lemma flat_mapR_Nil [simp, res_simps]: "flat_mapR f [] = Inr []"
  by (simp add: flat_mapR_def)

lemma flat_mapR_Cons [simp, res_simps]:
  "flat_mapR f (x # xs) = bindR (f x) (\<lambda>y. bindR (flat_mapR f xs) (\<lambda>ys. Inr (y @ ys)))"
  by (cases "f x"; cases "mapR f xs") (auto simp: flat_mapR_def)

lemma mapR_Inr_set:
  "mapR f xs = Inr ys \<Longrightarrow> y \<in> set ys \<Longrightarrow> \<exists>x \<in> set xs. f x = Inr y"
  by (induction xs arbitrary: ys) (auto simp: bindR_eq_Inr)

lemma mapR_Inr_length: "mapR f xs = Inr ys \<Longrightarrow> length ys = length xs"
  by (induction xs arbitrary: ys) (auto simp: bindR_eq_Inr)

lemma mapR_Inr_nth: "mapR f xs = Inr ys \<Longrightarrow> i < length xs \<Longrightarrow> f (xs ! i) = Inr (ys ! i)"
  by (induction xs arbitrary: ys i) (auto simp: bindR_eq_Inr nth_Cons split: nat.splits)

lemma mapR_pure: "(\<And>x. x \<in> set xs \<Longrightarrow> f x = Inr (g x)) \<Longrightarrow> mapR f xs = Inr (map g xs)"
  by (induction xs) auto

lemma flat_mapR_Inr_set:
  "flat_mapR f xs = Inr ys \<Longrightarrow> y \<in> set ys \<Longrightarrow> \<exists>x \<in> set xs. \<exists>zs. f x = Inr zs \<and> y \<in> set zs"
  by (fastforce simp: flat_mapR_def bindR_eq_Inr dest: mapR_Inr_set)

text \<open>A sequence of steps on a state that stops at the first error.\<close>

fun run_steps :: "('op \<Rightarrow> 's \<Rightarrow> 'e + 's) \<Rightarrow> 'op list \<Rightarrow> 's \<Rightarrow> 'e + 's" where
  "run_steps step [] s = Inr s"
| "run_steps step (p # ps) s = bindR (step p s) (run_steps step ps)"

lemma run_steps_append:
  "run_steps step (ps @ qs) s = bindR (run_steps step ps s) (run_steps step qs)"
  by (induction ps arbitrary: s) (auto simp: bindR_def split: sum.splits)

lemma run_steps_invariant:
  assumes "run_steps step ps s = Inr t" "I s"
    and "\<And>p s t. p \<in> set ps \<Longrightarrow> I s \<Longrightarrow> step p s = Inr t \<Longrightarrow> I t"
  shows "I t"
  using assms by (induction ps arbitrary: s) (auto simp: bindR_eq_Inr)

lemma run_steps_collects:
  assumes "run_steps step ps s = Inr t"
    and "\<And>p s t. p \<in> set ps \<Longrightarrow> step p s = Inr t \<Longrightarrow> view t = view s @ out p"
  shows "view t = view s @ concat (map out ps)"
  using assms by (induction ps arbitrary: s) (fastforce simp: bindR_eq_Inr)+

definition last_or :: "'a \<Rightarrow> 'a list \<Rightarrow> 'a" where
  "last_or d xs = (if xs = [] then d else last xs)"

definition first_or :: "'a \<Rightarrow> 'a list \<Rightarrow> 'a" where
  "first_or d xs = (case xs of [] \<Rightarrow> d | x # _ \<Rightarrow> x)"

lemma last_or_in: "xs \<noteq> [] \<Longrightarrow> last_or d xs \<in> set xs"
  by (simp add: last_or_def)

lemma first_or_in: "xs \<noteq> [] \<Longrightarrow> first_or d xs \<in> set xs"
  by (cases xs) (simp_all add: first_or_def)

lemma last_or_single [simp]: "last_or d [x] = x"
  by (simp add: last_or_def)

lemma first_or_Cons [simp]: "first_or d (x # xs) = x"
  by (simp add: first_or_def)

lemma first_or_Nil [simp]: "first_or d [] = d"
  by (simp add: first_or_def)

section \<open>Sorted association lists\<close>

text \<open>
  \<open>serde_json::Map\<close> is a \<open>BTreeMap\<close> in this build (the \<open>preserve_order\<close> feature is off in
  Cargo.lock): iteration is in key order and \<open>insert\<close> replaces.  The interface is a locale,
  so that facts about repeated insertion (\<open>extend\<close>, \<open>collect\<close>) are proved once.
\<close>

locale ordered_map =
  fixes emp :: "'m"
    and ins :: "'k \<Rightarrow> 'v \<Rightarrow> 'm \<Rightarrow> 'm"
    and look :: "'m \<Rightarrow> 'k \<Rightarrow> 'v option"
    and ok :: "'m \<Rightarrow> bool"
  assumes look_emp: "look emp k = None"
    and look_ins: "look (ins k v m) k' = (if k' = k then Some v else look m k')"
    and ok_emp: "ok emp"
    and ok_ins: "ok m \<Longrightarrow> ok (ins k v m)"
begin

definition extend_with :: "('k \<times> 'v) list \<Rightarrow> 'm \<Rightarrow> 'm" where
  "extend_with kvs m = fold (\<lambda>(k, v). ins k v) kvs m"

lemma extend_with_Nil: "extend_with [] m = m"
  by (simp add: extend_with_def)

lemma extend_with_Cons: "extend_with ((k, v) # kvs) m = extend_with kvs (ins k v m)"
  by (simp add: extend_with_def)

lemma look_extend_with:
  "look (extend_with kvs m) k =
     (case map_of (rev kvs) k of Some v \<Rightarrow> Some v | None \<Rightarrow> look m k)"
proof (induction kvs arbitrary: m)
  case Nil
  then show ?case by (simp add: extend_with_Nil)
next
  case (Cons kv kvs)
  obtain k' v where "kv = (k', v)" by force
  with Cons show ?case
    by (simp add: extend_with_Cons look_ins map_add_def split: option.splits)
qed

lemma ok_extend_with: "ok m \<Longrightarrow> ok (extend_with kvs m)"
  by (induction kvs arbitrary: m) (auto simp: extend_with_def ok_ins)

lemma look_extend_with_absent:
  "k \<notin> fst ` set kvs \<Longrightarrow> look (extend_with kvs m) k = look m k"
  by (simp add: look_extend_with map_of_eq_None_iff split: option.split)
     (metis map_of_eq_None_iff option.distinct(1) image_set set_rev)

end

type_synonym ('k, 'v) amap = "('k \<times> 'v) list"

fun map_insert :: "'k::linorder \<Rightarrow> 'v \<Rightarrow> ('k, 'v) amap \<Rightarrow> ('k, 'v) amap" where
  "map_insert k v [] = [(k, v)]"
| "map_insert k v ((k', v') # m) =
     (if k < k' then (k, v) # (k', v') # m
      else if k = k' then (k, v) # m
      else (k', v') # map_insert k v m)"

fun map_remove :: "'k \<Rightarrow> ('k, 'v) amap \<Rightarrow> ('k, 'v) amap" where
  "map_remove k [] = []"
| "map_remove k ((k', v') # m) = (if k = k' then map_remove k m else (k', v') # map_remove k m)"

abbreviation map_extend :: "('k::linorder \<times> 'v) list \<Rightarrow> ('k, 'v) amap \<Rightarrow> ('k, 'v) amap" where
  "map_extend kvs m \<equiv> fold (\<lambda>(k, v). map_insert k v) kvs m"

definition map_ok :: "('k::linorder, 'v) amap \<Rightarrow> bool" where
  "map_ok m \<longleftrightarrow> sorted_wrt (<) (map fst m)"

lemma map_ok_Nil [simp, map_simps]: "map_ok []"
  by (simp add: map_ok_def)

lemma map_ok_Cons [map_simps]:
  "map_ok ((k, v) # m) \<longleftrightarrow> (\<forall>k' \<in> fst ` set m. k < k') \<and> map_ok m"
  by (simp add: map_ok_def)

lemma map_of_map_insert [simp, map_simps]:
  "map_of (map_insert k v m) k' = (if k' = k then Some v else map_of m k')"
  by (induction m) auto

lemma keys_map_insert [map_simps]: "fst ` set (map_insert k v m) = insert k (fst ` set m)"
  by (induction m) (force split: if_splits)+

lemma map_ok_map_insert [map_simps]: "map_ok m \<Longrightarrow> map_ok (map_insert k v m)"
proof (induction m)
  case Nil
  then show ?case by (simp add: map_ok_Cons)
next
  case (Cons kv m)
  obtain k' v' where kv: "kv = (k', v')" by force
  from Cons.prems have ok: "map_ok m" and less: "\<forall>j \<in> fst ` set m. k' < j"
    by (simp_all add: kv map_ok_Cons)
  consider "k < k'" | "k = k'" | "k' < k" by force
  then show ?case
  proof cases
    case 1
    with ok less show ?thesis by (auto simp: kv map_ok_Cons dest: less_trans)
  next
    case 2
    with ok less show ?thesis by (simp add: kv map_ok_Cons)
  next
    case 3
    then have "\<not> k < k'" "k \<noteq> k'" by auto
    with Cons.IH [OF ok] 3 less show ?thesis
      by (simp add: kv map_ok_Cons keys_map_insert)
  qed
qed

lemma map_insert_values: "snd ` set (map_insert k v m) \<subseteq> insert v (snd ` set m)"
  by (induction m) (force split: if_splits)+

lemma map_insert_pairs: "set (map_insert k v m) \<subseteq> insert (k, v) (set m)"
  by (induction m) (auto split: if_splits)

lemma map_of_map_remove [simp, map_simps]:
  "map_of (map_remove k m) k' = (if k' = k then None else map_of m k')"
  by (induction m) auto

lemma keys_map_remove: "fst ` set (map_remove k m) = fst ` set m - {k}"
  by (induction m) (force split: if_splits)+

lemma map_ok_map_remove: "map_ok m \<Longrightarrow> map_ok (map_remove k m)"
proof (induction m)
  case Nil
  then show ?case by simp
next
  case (Cons kv m)
  then show ?case
    by (cases kv) (auto simp: map_ok_Cons keys_map_remove)
qed

declare map_insert.simps [simp del]

interpretation btree: ordered_map "[]" map_insert map_of map_ok
  by unfold_locales (auto simp: map_simps)

lemma map_extend_btree: "map_extend kvs m = btree.extend_with kvs m"
  by (simp add: btree.extend_with_def)

lemma map_of_map_extend [map_simps]:
  "map_of (map_extend kvs m) k =
     (case map_of (rev kvs) k of Some v \<Rightarrow> Some v | None \<Rightarrow> map_of m k)"
  unfolding map_extend_btree by (rule btree.look_extend_with)

lemma map_ok_map_extend: "map_ok m \<Longrightarrow> map_ok (map_extend kvs m)"
  unfolding map_extend_btree by (rule btree.ok_extend_with)

lemma map_extend_pairs: "set (map_extend kvs m) \<subseteq> set kvs \<union> set m"
proof (induction kvs arbitrary: m)
  case Nil
  then show ?case by simp
next
  case (Cons kv kvs)
  obtain k v where kv: "kv = (k, v)" by force
  from Cons.IH [of "map_insert k v m"] map_insert_pairs [of k v m] show ?case
    by (auto simp: kv)
qed

lemma map_ok_distinct: "map_ok m \<Longrightarrow> distinct (map fst m)"
  by (induction m) (force simp: map_ok_Cons)+

text \<open>Two sorted association lists with the same lookups are the same list.\<close>

lemma map_ok_eqI: "map_ok m \<Longrightarrow> map_ok m' \<Longrightarrow> map_of m = map_of m' \<Longrightarrow> m = m'"
proof (induction m arbitrary: m')
  case Nil
  then show ?case by (cases m') (auto simp: fun_eq_iff split: if_splits)
next
  case (Cons kv m)
  obtain k v where kv: "kv = (k, v)" by force
  have ne: "m' \<noteq> []" using Cons.prems(3) by (auto simp: kv fun_eq_iff split: if_splits)
  then obtain k' v' n where m': "m' = (k', v') # n" by (cases m') auto
  have below: "\<forall>j \<in> fst ` set m. k < j" "\<forall>j \<in> fst ` set n. k' < j"
    and oks: "map_ok m" "map_ok n"
    using Cons.prems(1,2) by (simp_all add: kv m' map_ok_Cons)
  have dom: "insert k (fst ` set m) = insert k' (fst ` set n)"
    using arg_cong [OF Cons.prems(3), of dom]
    by (simp add: kv m' dom_map_of_conv_image_fst del: fun_upd_apply)
  have kk: "k = k'"
    using below dom by (metis insertE insertI1 less_asym)
  have vv: "v = v'" using fun_cong [OF Cons.prems(3), of k] by (simp add: kv m' kk)
  have "map_of m j = map_of n j" for j
  proof (cases "j = k")
    case True
    have "k \<notin> fst ` set m" "k \<notin> fst ` set n" using below kk by auto
    with True show ?thesis by (metis map_of_eq_None_iff)
  next
    case False
    with fun_cong [OF Cons.prems(3), of j] show ?thesis by (simp add: kv m' kk)
  qed
  with Cons.IH [of n] oks have "m = n" by blast
  with kk vv show ?case by (simp add: kv m')
qed

section \<open>Small list facts\<close>

definition starts_with :: "'a list \<Rightarrow> 'a list \<Rightarrow> bool" where
  "starts_with s p \<longleftrightarrow> take (length p) s = p"

definition ends_with :: "'a list \<Rightarrow> 'a list \<Rightarrow> bool" where
  "ends_with s p \<longleftrightarrow> length p \<le> length s \<and> drop (length s - length p) s = p"

lemma starts_with_iff: "starts_with s p \<longleftrightarrow> (\<exists>t. s = p @ t)"
  by (auto simp: starts_with_def) (metis append_take_drop_id)

lemma ends_with_iff: "ends_with s p \<longleftrightarrow> (\<exists>t. s = t @ p)"
  by (auto simp: ends_with_def) (metis append_take_drop_id)

fun position :: "('a \<Rightarrow> bool) \<Rightarrow> 'a list \<Rightarrow> nat option" where
  "position P [] = None"
| "position P (x # xs) = (if P x then Some 0 else map_option Suc (position P xs))"

lemma position_SomeD: "position P xs = Some i \<Longrightarrow> i < length xs \<and> P (xs ! i) \<and> (\<forall>j < i. \<not> P (xs ! j))"
proof (induction xs arbitrary: i)
  case Nil
  then show ?case by simp
next
  case (Cons x xs)
  then show ?case by (fastforce simp: nth_Cons split: if_splits nat.splits)
qed

lemma position_None: "position P xs = None \<longleftrightarrow> (\<forall>x \<in> set xs. \<not> P x)"
  by (induction xs) auto

end
