(* ===== verification/Float64.thy ===== *)
theory Float64
  imports Complex_Main Prelude
begin

text \<open>
  An executable model of Rust's \<open>f64\<close> (IEEE 754 binary64, round to nearest, ties to even):
  the arithmetic, comparisons, casts and the decimal parser that the expression engine and the
  duration parser use.  A finite value is \<open>(-1)\<^sup>s * m * 2\<^sup>e\<close> with \<open>m < 2\<^sup>53\<close> and
  \<open>-1074 \<le> e\<close>.
\<close>

datatype f64 = NaN | Infinite bool | Finite bool nat int

datatype ordering = Less | Equal | Greater

fun f64_is_finite :: "f64 \<Rightarrow> bool" where
  "f64_is_finite (Finite s m e) = True"
| "f64_is_finite _ = False"

section \<open>Rounding\<close>

fun bitlen :: "nat \<Rightarrow> nat" where
  "bitlen n = (if n = 0 then 0 else Suc (bitlen (n div 2)))"

declare bitlen.simps [simp del]

lemma bitlen_0 [simp]: "bitlen 0 = 0"
  by (subst bitlen.simps) simp

lemma bitlen_upper: "n < 2 ^ bitlen n"
proof (induction n rule: bitlen.induct)
  case (1 n)
  show ?case
  proof (cases "n = 0")
    case False
    then have "n div 2 < 2 ^ bitlen (n div 2)" using "1.IH" by simp
    then have "n < 2 * 2 ^ bitlen (n div 2)" by simp
    with False show ?thesis by (subst bitlen.simps) simp
  qed simp
qed

lemma bitlen_lower: "0 < n \<Longrightarrow> 2 ^ (bitlen n - 1) \<le> n"
proof (induction n rule: bitlen.induct)
  case (1 n)
  have eq: "bitlen n = Suc (bitlen (n div 2))" using "1.prems" by (subst bitlen.simps) simp
  show ?case
  proof (cases "n div 2 = 0")
    case True
    with "1.prems" show ?thesis by (simp add: eq)
  next
    case False
    then have pos: "0 < bitlen (n div 2)" by (subst bitlen.simps) simp
    from False "1.IH" "1.prems" have "2 ^ (bitlen (n div 2) - 1) \<le> n div 2" by simp
    then have "2 * 2 ^ (bitlen (n div 2) - 1) \<le> n" by linarith
    moreover have "2 * 2 ^ (bitlen (n div 2) - 1) = (2::nat) ^ bitlen (n div 2)"
      using pos by (cases "bitlen (n div 2)") simp_all
    ultimately show ?thesis by (simp add: eq)
  qed
qed

lemma bitlen_pos: "0 < n \<Longrightarrow> 0 < bitlen n"
  by (subst bitlen.simps) simp

lemma bitlen_le: "n < 2 ^ k \<Longrightarrow> bitlen n \<le> k"
proof (cases "n = 0")
  case False
  assume "n < 2 ^ k"
  with False bitlen_lower [of n] have "(2::nat) ^ (bitlen n - 1) < 2 ^ k" by linarith
  then have "bitlen n - 1 < k" by simp
  with False show ?thesis using bitlen_pos [of n] by simp
qed simp

definition f64_scale :: "nat \<Rightarrow> nat \<Rightarrow> int \<Rightarrow> nat \<times> nat" where
  "f64_scale n d e = (if 0 \<le> e then (n, d * 2 ^ nat e) else (n * 2 ^ nat (- e), d))"

definition round_half_even :: "nat \<Rightarrow> nat \<Rightarrow> nat" where
  "round_half_even a b =
     (let q = a div b; r = a mod b
      in if 2 * r < b then q else if b < 2 * r then q + 1 else if even q then q else q + 1)"

text \<open>The double nearest to \<open>(-1)\<^sup>s * n / d\<close>.\<close>

definition f64_round :: "bool \<Rightarrow> nat \<Rightarrow> nat \<Rightarrow> f64" where
  "f64_round s n d =
     (if n = 0 then Finite s 0 (- 1074)
      else
        let e1 = max (int (bitlen n) - int (bitlen d) - 53) (- 1074);
            (a1, b1) = f64_scale n d e1;
            e2 = (if 2 ^ 53 \<le> a1 div b1 then e1 + 1 else e1);
            (a2, b2) = f64_scale n d e2;
            q = round_half_even a2 b2;
            (m, e) = (if q = 2 ^ 53 then (2 ^ 52, e2 + 1) else (q, e2))
        in if m = 0 then Finite s 0 (- 1074)
           else if 971 < e then Infinite s
           else Finite s m e)"

definition f64_zero :: "bool \<Rightarrow> f64" where
  "f64_zero s = Finite s 0 (- 1074)"

text \<open>The double nearest to \<open>i * 2\<^sup>e\<close>; a zero takes the sign \<open>z\<close>.\<close>

definition f64_of_dyadic :: "bool \<Rightarrow> int \<Rightarrow> int \<Rightarrow> f64" where
  "f64_of_dyadic z i e =
     (if i = 0 then f64_zero z
      else if 0 \<le> e then f64_round (i < 0) (nat \<bar>i\<bar> * 2 ^ nat e) 1
      else f64_round (i < 0) (nat \<bar>i\<bar>) (2 ^ nat (- e)))"

definition f64_of_int :: "int \<Rightarrow> f64" where
  "f64_of_int i = f64_of_dyadic False i 0"

section \<open>Arithmetic\<close>

definition sig :: "bool \<Rightarrow> nat \<Rightarrow> int" where
  "sig s m = (if s then - int m else int m)"

text \<open>Two finite operands as integers over a common power of two.\<close>

definition f64_align :: "bool \<Rightarrow> nat \<Rightarrow> int \<Rightarrow> bool \<Rightarrow> nat \<Rightarrow> int \<Rightarrow> int \<times> int \<times> int" where
  "f64_align s m e s' m' e' =
     (let k = min e e'
      in (sig s m * 2 ^ nat (e - k), sig s' m' * 2 ^ nat (e' - k), k))"

fun f64_neg :: "f64 \<Rightarrow> f64" where
  "f64_neg NaN = NaN"
| "f64_neg (Infinite s) = Infinite (\<not> s)"
| "f64_neg (Finite s m e) = Finite (\<not> s) m e"

fun f64_abs :: "f64 \<Rightarrow> f64" where
  "f64_abs NaN = NaN"
| "f64_abs (Infinite s) = Infinite False"
| "f64_abs (Finite s m e) = Finite False m e"

fun f64_add :: "f64 \<Rightarrow> f64 \<Rightarrow> f64" where
  "f64_add (Finite s m e) (Finite s' m' e') =
     (let (i, j, k) = f64_align s m e s' m' e'
      in f64_of_dyadic (s \<and> s') (i + j) k)"
| "f64_add NaN _ = NaN"
| "f64_add _ NaN = NaN"
| "f64_add (Infinite s) (Infinite s') = (if s = s' then Infinite s else NaN)"
| "f64_add (Infinite s) _ = Infinite s"
| "f64_add _ (Infinite s) = Infinite s"

definition f64_sub :: "f64 \<Rightarrow> f64 \<Rightarrow> f64" where
  "f64_sub x y = f64_add x (f64_neg y)"

fun f64_mul :: "f64 \<Rightarrow> f64 \<Rightarrow> f64" where
  "f64_mul (Finite s m e) (Finite s' m' e') = f64_of_dyadic (s \<noteq> s') (sig s m * sig s' m') (e + e')"
| "f64_mul NaN _ = NaN"
| "f64_mul _ NaN = NaN"
| "f64_mul (Infinite s) (Infinite s') = Infinite (s \<noteq> s')"
| "f64_mul (Infinite s) (Finite s' m e) = (if m = 0 then NaN else Infinite (s \<noteq> s'))"
| "f64_mul (Finite s m e) (Infinite s') = (if m = 0 then NaN else Infinite (s \<noteq> s'))"

fun f64_div :: "f64 \<Rightarrow> f64 \<Rightarrow> f64" where
  "f64_div (Finite s m e) (Finite s' m' e') =
     (if m' = 0 then (if m = 0 then NaN else Infinite (s \<noteq> s'))
      else if e' \<le> e then f64_round (s \<noteq> s') (m * 2 ^ nat (e - e')) m'
      else f64_round (s \<noteq> s') m (m' * 2 ^ nat (e' - e)))"
| "f64_div NaN _ = NaN"
| "f64_div _ NaN = NaN"
| "f64_div (Infinite s) (Infinite s') = NaN"
| "f64_div (Infinite s) (Finite s' m e) = Infinite (s \<noteq> s')"
| "f64_div (Finite s m e) (Infinite s') = f64_zero (s \<noteq> s')"

text \<open>Rust's \<open>%\<close> on floats: the remainder has the sign of the dividend.\<close>

fun f64_rem :: "f64 \<Rightarrow> f64 \<Rightarrow> f64" where
  "f64_rem (Finite s m e) (Finite s' m' e') =
     (if m' = 0 then NaN
      else let (i, j, k) = f64_align s m e s' m' e'
           in f64_of_dyadic s (sgn i * (\<bar>i\<bar> mod \<bar>j\<bar>)) k)"
| "f64_rem NaN _ = NaN"
| "f64_rem _ NaN = NaN"
| "f64_rem (Infinite s) _ = NaN"
| "f64_rem x (Infinite s) = x"

fun f64_trunc :: "f64 \<Rightarrow> f64" where
  "f64_trunc (Finite s m e) =
     (if 0 \<le> e then Finite s m e else f64_of_dyadic s (sig s (m div 2 ^ nat (- e))) 0)"
| "f64_trunc x = x"

definition f64_fract :: "f64 \<Rightarrow> f64" where
  "f64_fract x = f64_sub x (f64_trunc x)"

fun f64_floor :: "f64 \<Rightarrow> f64" where
  "f64_floor (Finite s m e) =
     (if 0 \<le> e then Finite s m e else f64_of_dyadic s (sig s m div 2 ^ nat (- e)) 0)"
| "f64_floor x = x"

section \<open>Comparison and casts\<close>

fun f64_partial_cmp :: "f64 \<Rightarrow> f64 \<Rightarrow> ordering option" where
  "f64_partial_cmp (Finite s m e) (Finite s' m' e') =
     (let (i, j, k) = f64_align s m e s' m' e'
      in Some (if i < j then Less else if i = j then Equal else Greater))"
| "f64_partial_cmp NaN _ = None"
| "f64_partial_cmp _ NaN = None"
| "f64_partial_cmp (Infinite s) (Infinite s') =
     Some (if s = s' then Equal else if s then Less else Greater)"
| "f64_partial_cmp (Infinite s) _ = Some (if s then Less else Greater)"
| "f64_partial_cmp _ (Infinite s) = Some (if s then Greater else Less)"

definition f64_eq :: "f64 \<Rightarrow> f64 \<Rightarrow> bool" where
  "f64_eq x y \<longleftrightarrow> f64_partial_cmp x y = Some Equal"

definition f64_lt :: "f64 \<Rightarrow> f64 \<Rightarrow> bool" where
  "f64_lt x y \<longleftrightarrow> f64_partial_cmp x y = Some Less"

text \<open>\<open>f64::max\<close> ignores a NaN operand.\<close>

definition f64_max :: "f64 \<Rightarrow> f64 \<Rightarrow> f64" where
  "f64_max x y = (if x = NaN then y else if y = NaN then x else if f64_lt x y then y else x)"

definition trunc_int :: "bool \<Rightarrow> nat \<Rightarrow> int \<Rightarrow> int" where
  "trunc_int s m e = (if 0 \<le> e then sig s (m * 2 ^ nat e) else sig s (m div 2 ^ nat (- e)))"

text \<open>The saturating \<open>as\<close> casts of Rust.\<close>

fun f64_to_int_sat :: "int \<Rightarrow> int \<Rightarrow> f64 \<Rightarrow> int" where
  "f64_to_int_sat lo hi NaN = 0"
| "f64_to_int_sat lo hi (Infinite s) = (if s then lo else hi)"
| "f64_to_int_sat lo hi (Finite s m e) = max lo (min hi (trunc_int s m e))"

definition i64_min :: int where "i64_min = - (2 ^ 63)"
definition i64_max :: int where "i64_max = 2 ^ 63 - 1"
definition u64_max :: int where "u64_max = 2 ^ 64 - 1"

definition f64_to_i64 :: "f64 \<Rightarrow> i64" where
  "f64_to_i64 x = word_of_int (f64_to_int_sat i64_min i64_max x)"

definition f64_to_usize :: "f64 \<Rightarrow> nat" where
  "f64_to_usize x = nat (f64_to_int_sat 0 u64_max x)"

section \<open>Decimal parsing (\<open>str::parse::<f64>\<close>)\<close>

definition is_ascii_digit :: "nat \<Rightarrow> bool" where
  "is_ascii_digit c \<longleftrightarrow> 48 \<le> c \<and> c \<le> 57"

definition span :: "('a \<Rightarrow> bool) \<Rightarrow> 'a list \<Rightarrow> 'a list \<times> 'a list" where
  "span P xs = (takeWhile P xs, dropWhile P xs)"

fun digits_value :: "nat \<Rightarrow> str \<Rightarrow> nat" where
  "digits_value acc [] = acc"
| "digits_value acc (c # cs) = digits_value (10 * acc + (c - 48)) cs"

definition f64_of_decimal :: "bool \<Rightarrow> nat \<Rightarrow> int \<Rightarrow> f64" where
  "f64_of_decimal s n e10 =
     (if n = 0 then f64_zero s
      else if 0 \<le> e10 then f64_round s (n * 10 ^ nat e10) 1
      else f64_round s n (10 ^ nat (- e10)))"

definition ascii_lower :: "nat \<Rightarrow> nat" where
  "ascii_lower c = (if 65 \<le> c \<and> c \<le> 90 then c + 32 else c)"

definition ascii_upper :: "nat \<Rightarrow> nat" where
  "ascii_upper c = (if 97 \<le> c \<and> c \<le> 122 then c - 32 else c)"

definition take_sign :: "str \<Rightarrow> bool \<times> str" where
  "take_sign s = (case s of [] \<Rightarrow> (False, [])
     | c # r \<Rightarrow> if c = 45 then (True, r) else if c = 43 then (False, r) else (False, s))"

definition parse_f64 :: "str \<Rightarrow> f64 option" where
  "parse_f64 s =
     (let (neg, t) = take_sign s; low = map ascii_lower t
      in if low = lit ''inf'' \<or> low = lit ''infinity'' then Some (Infinite neg)
         else if low = lit ''nan'' then Some NaN
         else
           let (ip, r1) = span is_ascii_digit t;
               (fp, r2) = (case r1 of [] \<Rightarrow> ([], [])
                           | c # r \<Rightarrow> if c = 46 then span is_ascii_digit r else ([], r1));
               n = digits_value 0 (ip @ fp)
           in if ip = [] \<and> fp = [] then None
              else case r2 of
                [] \<Rightarrow> Some (f64_of_decimal neg n (- int (length fp)))
              | c # r3 \<Rightarrow>
                  if c = 101 \<or> c = 69 then
                    let (eneg, r4) = take_sign r3; (ed, r5) = span is_ascii_digit r4;
                        ev = int (digits_value 0 ed)
                    in if ed = [] \<or> r5 \<noteq> [] then None
                       else Some (f64_of_decimal neg n ((if eneg then - ev else ev) - int (length fp)))
                  else None)"

section \<open>Exactness on small integers\<close>

lemma round_half_even_exact: "0 < b \<Longrightarrow> round_half_even (q * b) b = q"
  by (simp add: round_half_even_def)

lemma f64_round_small:
  assumes n: "0 < n" "n < 2 ^ 53"
  shows "f64_round s n 1 = Finite s (n * 2 ^ (53 - bitlen n)) (int (bitlen n) - 53)"
proof -
  let ?k = "bitlen n"
  have k: "0 < ?k" "?k \<le> 53" using n by (simp_all add: bitlen_pos bitlen_le)
  have low: "2 ^ (?k - 1) \<le> n" and up: "n < 2 ^ ?k"
    using bitlen_lower [OF n(1)] bitlen_upper by auto
  have "(2::nat) ^ 53 = 2 ^ (?k - 1) * 2 ^ (54 - ?k)"
    using k by (simp flip: power_add)
  then have big: "2 ^ 53 \<le> n * 2 ^ (54 - ?k)" using mult_le_mono1 [OF low] by metis
  have "(2::nat) ^ 53 = 2 ^ ?k * 2 ^ (53 - ?k)"
    using k by (simp flip: power_add)
  moreover have "n * 2 ^ (53 - ?k) < 2 ^ ?k * 2 ^ (53 - ?k)" using up by simp
  ultimately have less: "n * 2 ^ (53 - ?k) < 2 ^ 53" by presburger
  have b1: "bitlen (Suc 0) = 1" by (simp add: bitlen.simps)
  have e1: "max (int ?k - int (bitlen 1) - 53) (- 1074) = int ?k - 54"
    using k by (simp add: b1)
  have s1: "f64_scale n 1 (int ?k - 54) = (n * 2 ^ (54 - ?k), 1)"
    using k by (simp add: f64_scale_def nat_diff_distrib)
  have s2: "f64_scale n 1 (int ?k - 53) = (n * 2 ^ (53 - ?k), 1)"
    using k by (auto simp: f64_scale_def nat_diff_distrib)
  have q: "round_half_even (n * 2 ^ (53 - ?k)) 1 = n * 2 ^ (53 - ?k)"
    using round_half_even_exact [of 1 "n * 2 ^ (53 - ?k)"] by simp
  have pos: "n * 2 ^ (53 - ?k) \<noteq> 0" using n by simp
  show ?thesis
    unfolding f64_round_def e1 Let_def s1 prod.case
    using n big less k pos
    by (simp add: s2 [simplified] q [simplified] Let_def)
qed

lemma f64_of_int_small:
  assumes "i \<noteq> 0" "\<bar>i\<bar> < 2 ^ 53"
  shows "f64_of_int i =
    Finite (i < 0) (nat \<bar>i\<bar> * 2 ^ (53 - bitlen (nat \<bar>i\<bar>))) (int (bitlen (nat \<bar>i\<bar>)) - 53)"
proof -
  have "0 < nat \<bar>i\<bar>" "nat \<bar>i\<bar> < 2 ^ 53" using assms by (auto simp: nat_less_iff)
  from f64_round_small [OF this] assms(1) show ?thesis
    by (simp add: f64_of_int_def f64_of_dyadic_def)
qed

text \<open>An integer below \<open>2\<^sup>53\<close> in magnitude survives the trip through \<open>f64\<close>.\<close>

lemma f64_to_int_of_int:
  assumes "\<bar>i\<bar> < 2 ^ 53" "lo \<le> i" "i \<le> hi" "lo \<le> 0" "0 \<le> hi"
  shows "f64_to_int_sat lo hi (f64_of_int i) = i"
proof (cases "i = 0")
  case True
  with assms show ?thesis
    by (simp add: f64_of_int_def f64_of_dyadic_def f64_zero_def trunc_int_def sig_def)
next
  case False
  let ?n = "nat \<bar>i\<bar>" let ?k = "bitlen ?n"
  have n: "0 < ?n" "?n < 2 ^ 53" using False assms(1) by (auto simp: nat_less_iff)
  have k: "?k \<le> 53" using n by (simp add: bitlen_le)
  have "trunc_int (i < 0) (?n * 2 ^ (53 - ?k)) (int ?k - 53) = i"
    using k False by (cases "?k = 53") (auto simp: trunc_int_def sig_def nat_diff_distrib)
  with False assms show ?thesis by (simp add: f64_of_int_small)
qed

lemma f64_fract_of_int:
  assumes "\<bar>i\<bar> < 2 ^ 53"
  shows "f64_fract (f64_of_int i) = f64_zero False"
proof (cases "i = 0")
  case True
  then show ?thesis
    by (simp add: f64_fract_def f64_sub_def f64_of_int_def f64_of_dyadic_def f64_zero_def
        sig_def f64_align_def Let_def)
next
  case False
  let ?n = "nat \<bar>i\<bar>" let ?k = "bitlen ?n"
  have n: "0 < ?n" "?n < 2 ^ 53" using False assms(1) by (auto simp: nat_less_iff)
  have k: "?k \<le> 53" using n by (simp add: bitlen_le)
  have "f64_trunc (f64_of_int i) = f64_of_int i"
  proof (cases "?k = 53")
    case True
    with False assms show ?thesis by (simp add: f64_of_int_small)
  next
    case other: False
    with k have "0 < 53 - ?k" by simp
    have "?n * 2 ^ (53 - ?k) div 2 ^ nat (- (int ?k - 53)) = ?n"
      using k by (simp add: nat_diff_distrib)
    moreover have "f64_of_dyadic (i < 0) (sig (i < 0) ?n) 0 = f64_of_int i"
      using False by (auto simp: f64_of_int_def f64_of_dyadic_def sig_def)
    ultimately show ?thesis
      using False other k assms by (simp add: f64_of_int_small [OF False assms])
  qed
  then show ?thesis
    using False assms
    by (simp add: f64_fract_def f64_sub_def f64_of_int_small f64_align_def Let_def sig_def
        f64_of_dyadic_def)
qed

lemma f64_abs_of_int_small:
  assumes "\<bar>i\<bar> < 2 ^ 53"
  shows "f64_lt (f64_abs (f64_of_int i)) (Finite False (2 ^ 52) 1)"
proof (cases "i = 0")
  case True
  then show ?thesis
    by (simp add: f64_lt_def f64_of_int_def f64_of_dyadic_def f64_zero_def sig_def f64_align_def
        Let_def)
next
  case False
  let ?n = "nat \<bar>i\<bar>" let ?k = "bitlen ?n"
  have n: "0 < ?n" "?n < 2 ^ 53" using False assms(1) by (auto simp: nat_less_iff)
  have k: "?k \<le> 53" using n by (simp add: bitlen_le)
  have mn: "min (int ?k - 53) 1 = int ?k - 53" using k by simp
  have e: "nat (54 - int ?k) = 54 - ?k" using k by (simp add: nat_diff_distrib)
  have "?n < 2 ^ ?k" by (rule bitlen_upper)
  then have "?n * 2 ^ (53 - ?k) < 2 ^ ?k * 2 ^ (53 - ?k)" by simp
  also have "\<dots> = (2::nat) ^ 53" using k by (simp flip: power_add)
  also have "\<dots> \<le> 2 ^ 52 * 2 ^ (54 - ?k)"
    using k power_increasing [of 1 "54 - ?k" "2::nat"] by simp
  finally have "?n * 2 ^ (53 - ?k) < 2 ^ 52 * 2 ^ (54 - ?k)" .
  then have "int (?n * 2 ^ (53 - ?k)) < int (2 ^ 52 * 2 ^ (54 - ?k))"
    by (simp only: of_nat_less_iff)
  with False assms show ?thesis
    by (simp add: f64_lt_def f64_of_int_small f64_align_def mn e sig_def Let_def)
qed

text \<open>The order on small integers is the order on the doubles.\<close>

lemma f64_partial_cmp_refl: "f64_is_finite x \<Longrightarrow> f64_partial_cmp x x = Some Equal"
  by (cases x) (simp_all add: f64_align_def Let_def)

lemma f64_eq_refl: "f64_is_finite x \<Longrightarrow> f64_eq x x"
  by (simp add: f64_eq_def f64_partial_cmp_refl)

lemma f64_partial_cmp_total: "f64_is_finite x \<Longrightarrow> f64_is_finite y \<Longrightarrow> f64_partial_cmp x y \<noteq> None"
  by (cases x; cases y) (simp_all add: f64_align_def Let_def)

fun flip_ordering :: "ordering \<Rightarrow> ordering" where
  "flip_ordering Less = Greater"
| "flip_ordering Equal = Equal"
| "flip_ordering Greater = Less"

lemma f64_partial_cmp_flip:
  "f64_partial_cmp y x = map_option flip_ordering (f64_partial_cmp x y)"
  by (cases x; cases y) (auto simp: f64_align_def Let_def min.commute)

lemma f64_eq_sym: "f64_eq x y \<longleftrightarrow> f64_eq y x"
  unfolding f64_eq_def
  by (cases "f64_partial_cmp x y"; subst f64_partial_cmp_flip)
     (auto split: option.splits, (metis flip_ordering.elims flip_ordering.simps ordering.distinct)+)

text \<open>The real number a finite double stands for; comparisons are comparisons of values.\<close>

fun f64_val :: "f64 \<Rightarrow> real" where
  "f64_val (Finite s m e) = of_int (sig s m) * 2 powi e"
| "f64_val _ = 0"

lemma scaled_val: "k \<le> e \<Longrightarrow> real_of_int (i * 2 ^ nat (e - k)) = of_int i * 2 powi e * 2 powi (- k)"
proof -
  assume "k \<le> e"
  then have "(2::real) powi (e - k) = 2 ^ nat (e - k)" by (simp add: power_int_def)
  moreover have "(2::real) powi (e - k) = 2 powi e * 2 powi (- k)"
    by (simp flip: power_int_add)
  ultimately show ?thesis by simp
qed

lemma f64_partial_cmp_val:
  assumes "f64_is_finite x" "f64_is_finite y"
  shows "f64_partial_cmp x y =
    Some (if f64_val x < f64_val y then Less else if f64_val x = f64_val y then Equal else Greater)"
proof -
  obtain s m e s' m' e' where x: "x = Finite s m e" and y: "y = Finite s' m' e'"
    using assms by (cases x; cases y) auto
  let ?k = "min e e'"
  let ?i = "sig s m * 2 ^ nat (e - ?k)" and ?j = "sig s' m' * 2 ^ nat (e' - ?k)"
  have i: "real_of_int ?i = f64_val x * 2 powi (- ?k)" and j: "real_of_int ?j = f64_val y * 2 powi (- ?k)"
    using scaled_val [of ?k e "sig s m"] scaled_val [of ?k e' "sig s' m'"] by (simp_all add: x y)
  have pos: "(0::real) < 2 powi (- ?k)" by simp
  have "?i < ?j \<longleftrightarrow> real_of_int ?i < real_of_int ?j" by (simp only: of_int_less_iff)
  also have "\<dots> \<longleftrightarrow> f64_val x < f64_val y"
    unfolding i j using pos by (simp only: mult_less_cancel_right_pos)
  finally have lt: "?i < ?j \<longleftrightarrow> f64_val x < f64_val y" .
  have "?i = ?j \<longleftrightarrow> real_of_int ?i = real_of_int ?j" by (simp only: of_int_eq_iff)
  also have "\<dots> \<longleftrightarrow> f64_val x = f64_val y"
    unfolding i j using pos by (simp only: mult_cancel_right) simp
  finally have eq: "?i = ?j \<longleftrightarrow> f64_val x = f64_val y" .
  show ?thesis
    unfolding x y f64_partial_cmp.simps f64_align_def Let_def prod.case
    using lt eq by (simp add: x y)
qed

lemma f64_eq_val: "f64_is_finite x \<Longrightarrow> f64_is_finite y \<Longrightarrow> f64_eq x y \<longleftrightarrow> f64_val x = f64_val y"
  by (simp add: f64_eq_def f64_partial_cmp_val)

lemma f64_eq_finite: "f64_eq x y \<Longrightarrow> f64_is_finite x \<longleftrightarrow> f64_is_finite y"
  by (cases x; cases y) (auto simp: f64_eq_def split: if_splits)

lemma f64_eq_trans: "f64_eq x y \<Longrightarrow> f64_eq y z \<Longrightarrow> f64_eq x z"
proof (cases "f64_is_finite x")
  case True
  assume "f64_eq x y" "f64_eq y z"
  with True f64_eq_finite have "f64_is_finite y" "f64_is_finite z" by blast+
  with True \<open>f64_eq x y\<close> \<open>f64_eq y z\<close> show ?thesis by (simp add: f64_eq_val)
next
  case False
  assume "f64_eq x y" "f64_eq y z"
  with False show ?thesis
    by (cases x; cases y; cases z) (auto simp: f64_eq_def split: if_splits)
qed

lemma f64_round_finite:
  assumes "bitlen n \<le> 900" "0 < d"
  shows "f64_is_finite (f64_round s n d)"
proof -
  have "max (int (bitlen n) - int (bitlen d) - 53) (- 1074) \<le> 900" using assms by simp
  then show ?thesis
    by (auto simp: f64_round_def Let_def split: prod.splits if_splits)
qed

lemma f64_of_int_finite: "f64_is_finite (f64_of_int i)" if "\<bar>i\<bar> < 2 ^ 64"
proof -
  have "nat \<bar>i\<bar> < 2 ^ 64" using that by (simp add: nat_less_iff)
  then have "bitlen (nat \<bar>i\<bar>) \<le> 64" by (rule bitlen_le)
  then show ?thesis
    by (simp add: f64_of_int_def f64_of_dyadic_def f64_zero_def f64_round_finite)
qed

end
