(* ===== verification/Json.thy ===== *)
theory Json
  imports Float64
begin

text \<open>
  The data the whole runtime works on: \<open>serde_json::Value\<close> with its number representation
  (\<open>PosInt(u64)\<close>, \<open>NegInt(i64)\<close>, \<open>Float(f64)\<close>) and \<open>BTreeMap\<close> objects, the accessors the
  sources call (\<open>as_i64\<close>, \<open>as_f64\<close>, \<open>as_u64\<close>, \<open>as_str\<close>, \<open>get\<close>), \<open>PartialEq\<close>, and the
  well-formedness that every \<open>Value\<close> of the library satisfies: finite floats, negative
  \<open>NegInt\<close>s, objects sorted by key.
\<close>

datatype number = PosInt u64 | NegInt i64 | Float f64

datatype json =
    Null
  | Bool bool
  | Number number
  | String str
  | Array "json list"
  | Object "(str \<times> json) list"

type_synonym vmap = "(str, json) amap"

fun as_f64 :: "number \<Rightarrow> f64" where
  "as_f64 (PosInt n) = f64_of_int (uint n)"
| "as_f64 (NegInt n) = f64_of_int (sint n)"
| "as_f64 (Float f) = f"

fun as_i64 :: "number \<Rightarrow> i64 option" where
  "as_i64 (PosInt n) = (if uint n \<le> i64_max then Some n else None)"
| "as_i64 (NegInt n) = Some n"
| "as_i64 (Float f) = None"

fun as_u64 :: "number \<Rightarrow> u64 option" where
  "as_u64 (PosInt n) = Some n"
| "as_u64 _ = None"

text \<open>\<open>Number::from(i64)\<close> and \<open>Number::from_f64\<close>.\<close>

definition number_of_i64 :: "i64 \<Rightarrow> number" where
  "number_of_i64 n = (if sint n < 0 then NegInt n else PosInt n)"

definition number_of_f64 :: "f64 \<Rightarrow> number option" where
  "number_of_f64 f = (if f64_is_finite f then Some (Float f) else None)"

definition json_of_nat :: "nat \<Rightarrow> json" where
  "json_of_nat n = Number (PosInt (word_of_nat n))"

fun as_str :: "json \<Rightarrow> str option" where
  "as_str (String s) = Some s"
| "as_str _ = None"

fun value_as_f64 :: "json \<Rightarrow> f64 option" where
  "value_as_f64 (Number n) = Some (as_f64 n)"
| "value_as_f64 _ = None"

fun value_as_u64 :: "json \<Rightarrow> u64 option" where
  "value_as_u64 (Number n) = as_u64 n"
| "value_as_u64 _ = None"

fun json_get :: "json \<Rightarrow> str \<Rightarrow> json option" where
  "json_get (Object m) k = map_of m k"
| "json_get _ k = None"

section \<open>Well-formed values\<close>

fun number_ok :: "number \<Rightarrow> bool" where
  "number_ok (PosInt n) = True"
| "number_ok (NegInt n) = (sint n < 0)"
| "number_ok (Float f) = f64_is_finite f"

fun json_ok :: "json \<Rightarrow> bool" where
  "json_ok (Number n) = number_ok n"
| "json_ok (Array xs) = list_all json_ok xs"
| "json_ok (Object m) = (map_ok m \<and> list_all (\<lambda>(k, v). json_ok v) m)"
| "json_ok _ = True"

lemma json_ok_Array [simp]: "json_ok (Array xs) \<longleftrightarrow> (\<forall>x \<in> set xs. json_ok x)"
  by (simp add: list_all_iff)

lemma json_ok_Object [simp]:
  "json_ok (Object m) \<longleftrightarrow> map_ok m \<and> (\<forall>(k, v) \<in> set m. json_ok v)"
  by (simp add: list_all_iff)

declare json_ok.simps(2,3) [simp del]

definition vmap_ok :: "vmap \<Rightarrow> bool" where
  "vmap_ok m \<longleftrightarrow> map_ok m \<and> (\<forall>(k, v) \<in> set m. json_ok v)"

lemma json_ok_Object_vmap: "json_ok (Object m) \<longleftrightarrow> vmap_ok m"
  by (simp add: vmap_ok_def)

lemma vmap_ok_Nil [simp]: "vmap_ok []"
  by (simp add: vmap_ok_def)

lemma vmap_ok_insert [simp, intro]: "vmap_ok m \<Longrightarrow> json_ok v \<Longrightarrow> vmap_ok (map_insert k v m)"
  using map_insert_pairs [of k v m] by (auto simp: vmap_ok_def map_ok_map_insert)

lemma vmap_ok_remove [simp, intro]: "vmap_ok m \<Longrightarrow> vmap_ok (map_remove k m)"
proof -
  have "set (map_remove k m) \<subseteq> set m" by (induction m) (auto split: if_splits)
  then show "vmap_ok m \<Longrightarrow> vmap_ok (map_remove k m)"
    by (auto simp: vmap_ok_def map_ok_map_remove)
qed

lemma vmap_ok_lookup: "vmap_ok m \<Longrightarrow> map_of m k = Some v \<Longrightarrow> json_ok v"
  by (auto simp: vmap_ok_def dest!: map_of_SomeD)

lemma vmap_ok_extend:
  "vmap_ok m \<Longrightarrow> (\<And>k v. (k, v) \<in> set kvs \<Longrightarrow> json_ok v) \<Longrightarrow> vmap_ok (map_extend kvs m)"
  using map_extend_pairs [of kvs m] by (auto simp: vmap_ok_def map_ok_map_extend)

lemma number_ok_of_i64 [simp]: "number_ok (number_of_i64 n)"
  by (simp add: number_of_i64_def)

lemma json_ok_of_nat [simp]: "json_ok (json_of_nat n)"
  by (simp add: json_of_nat_def)

section \<open>Equality\<close>

text \<open>\<open>impl PartialEq for Value\<close>: variants of numbers are compared as such.\<close>

fun number_eq :: "number \<Rightarrow> number \<Rightarrow> bool" where
  "number_eq (PosInt a) (PosInt b) = (a = b)"
| "number_eq (NegInt a) (NegInt b) = (a = b)"
| "number_eq (Float a) (Float b) = f64_eq a b"
| "number_eq _ _ = False"

fun value_eq :: "json \<Rightarrow> json \<Rightarrow> bool"
  and values_eq :: "json list \<Rightarrow> json list \<Rightarrow> bool"
  and entries_eq :: "(str \<times> json) list \<Rightarrow> (str \<times> json) list \<Rightarrow> bool"
where
  "value_eq Null Null = True"
| "value_eq (Bool a) (Bool b) = (a = b)"
| "value_eq (Number a) (Number b) = number_eq a b"
| "value_eq (String a) (String b) = (a = b)"
| "value_eq (Array a) (Array b) = values_eq a b"
| "value_eq (Object a) (Object b) = entries_eq a b"
| "value_eq _ _ = False"
| "values_eq [] [] = True"
| "values_eq (x # xs) (y # ys) = (value_eq x y \<and> values_eq xs ys)"
| "values_eq _ _ = False"
| "entries_eq [] [] = True"
| "entries_eq ((k, v) # m) ((k', v') # m') = (k = k' \<and> value_eq v v' \<and> entries_eq m m')"
| "entries_eq _ _ = False"

text \<open>
  Three modules compare values "treating numbers numerically"; this is the common recursion:
  numbers by their \<open>f64\<close> value, arrays pointwise, objects by lookup.
\<close>

fun num_equal :: "json \<Rightarrow> json \<Rightarrow> bool"
  and num_equal_all :: "json list \<Rightarrow> json list \<Rightarrow> bool"
  and num_equal_entries :: "(str \<times> json) list \<Rightarrow> (str \<times> json) list \<Rightarrow> bool"
where
  "num_equal (Number a) (Number b) = f64_eq (as_f64 a) (as_f64 b)"
| "num_equal (Array a) (Array b) = (length a = length b \<and> num_equal_all a b)"
| "num_equal (Object a) (Object b) = (length a = length b \<and> num_equal_entries a b)"
| "num_equal a b = value_eq a b"
| "num_equal_all (x # xs) (y # ys) = (num_equal x y \<and> num_equal_all xs ys)"
| "num_equal_all _ _ = True"
| "num_equal_entries [] b = True"
| "num_equal_entries ((k, v) # a) b =
     ((case map_of b k of Some bv \<Rightarrow> num_equal v bv | None \<Rightarrow> False) \<and> num_equal_entries a b)"

lemma num_equal_all_iff:
  "length xs = length ys \<Longrightarrow> num_equal_all xs ys \<longleftrightarrow> list_all2 num_equal xs ys"
  by (induction xs ys rule: list_induct2) auto

lemma num_equal_entries_iff:
  "num_equal_entries a b \<longleftrightarrow>
     (\<forall>(k, v) \<in> set a. \<exists>bv. map_of b k = Some bv \<and> num_equal v bv)"
  by (induction a) (auto split: option.splits)


text \<open>Inversion of the comparison on each kind of value.\<close>

lemma as_f64_finite: "number_ok n \<Longrightarrow> f64_is_finite (as_f64 n)"
proof (cases n)
  case (PosInt w)
  have "\<bar>uint w\<bar> < 2 ^ 64" using uint_lt2p [of w] uint_ge_0 [of w] by simp
  with PosInt show ?thesis by (simp add: f64_of_int_finite)
next
  case (NegInt w)
  have "\<bar>sint w\<bar> < 2 ^ 64" using sint_lt [of w] sint_ge [of w] by simp
  with NegInt show ?thesis by (simp add: f64_of_int_finite)
qed simp

lemma num_equal_Number_iff:
  "num_equal (Number n) b \<longleftrightarrow> (\<exists>n'. b = Number n' \<and> f64_eq (as_f64 n) (as_f64 n'))"
  by (cases b) auto

lemma num_equal_Array_iff:
  "num_equal (Array xs) b \<longleftrightarrow> (\<exists>ys. b = Array ys \<and> list_all2 num_equal xs ys)"
proof (cases b)
  case (Array ys)
  then show ?thesis using num_equal_all_iff [of xs ys] by (auto dest: list_all2_lengthD)
qed auto

lemma num_equal_Object_iff:
  "num_equal (Object m) b \<longleftrightarrow>
     (\<exists>m'. b = Object m' \<and> length m = length m' \<and>
        (\<forall>(k, v) \<in> set m. \<exists>bv. map_of m' k = Some bv \<and> num_equal v bv))"
  by (cases b) (auto simp: num_equal_entries_iff)

lemma num_equal_atom_iff:
  "num_equal Null b \<longleftrightarrow> b = Null"
  "num_equal (Bool c) b \<longleftrightarrow> b = Bool c"
  "num_equal (String s) b \<longleftrightarrow> b = String s"
  by (cases b; auto)+

lemmas num_equal_iffs =
  num_equal_Number_iff num_equal_Array_iff num_equal_Object_iff num_equal_atom_iff

text \<open>On well-formed values that comparison is an equivalence.\<close>

lemma num_equal_refl: "json_ok a \<Longrightarrow> num_equal a a"
proof (induction a)
  case (Number n)
  then show ?case by (simp add: f64_eq_refl as_f64_finite)
next
  case (Array xs)
  then show ?case by (simp add: num_equal_all_iff list_all2_same)
next
  case (Object m)
  then have d: "distinct (map fst m)" by (simp add: map_ok_distinct)
  have "\<exists>bv. map_of m k = Some bv \<and> num_equal v bv" if kv: "(k, v) \<in> set m" for k v
  proof -
    from d kv have "map_of m k = Some v" by (simp add: map_of_is_SomeI)
    moreover from Object.prems kv have "json_ok v" by auto
    ultimately show ?thesis using Object.IH [OF kv, of v] by simp
  qed
  then show ?case by (auto simp: num_equal_Object_iff)
qed simp_all

lemma map_of_same_keys:
  assumes "distinct (map fst a)" "distinct (map fst b)" "length a = length b"
    and sub: "fst ` set a \<subseteq> fst ` set b"
  shows "fst ` set a = fst ` set b"
proof (rule card_subset_eq [OF _ sub])
  show "finite (fst ` set b)" by simp
  show "card (fst ` set a) = card (fst ` set b)"
    using assms(1-3) by (metis distinct_card image_set length_map)
qed

lemma num_equal_sym: "num_equal a b \<Longrightarrow> json_ok a \<Longrightarrow> json_ok b \<Longrightarrow> num_equal b a"
proof (induction a arbitrary: b)
  case (Number n)
  then show ?case by (auto simp: num_equal_iffs f64_eq_sym)
next
  case (Array xs)
  then obtain ys where b: "b = Array ys" "list_all2 num_equal xs ys"
    by (auto simp: num_equal_Array_iff)
  have "list_all2 num_equal ys xs"
    using b Array by (auto simp: list_all2_conv_all_nth)
  with b show ?case by (simp add: num_equal_Array_iff)
next
  case (Object m)
  then obtain m' where b: "b = Object m'" and len: "length m = length m'"
    and ent: "\<forall>(k, v) \<in> set m. \<exists>bv. map_of m' k = Some bv \<and> num_equal v bv"
    by (auto simp: num_equal_Object_iff)
  from Object.prems b have d: "distinct (map fst m)" "distinct (map fst m')"
    by (simp_all add: map_ok_distinct)
  have "fst ` set m \<subseteq> fst ` set m'"
  proof
    fix k assume "k \<in> fst ` set m"
    then obtain v where "(k, v) \<in> set m" by force
    with ent obtain bv where "map_of m' k = Some bv" by blast
    from map_of_SomeD [OF this] show "k \<in> fst ` set m'" by force
  qed
  then have keys: "fst ` set m = fst ` set m'" by (rule map_of_same_keys [OF d len])
  have "\<exists>bv. map_of m k = Some bv \<and> num_equal v bv" if kv: "(k, v) \<in> set m'" for k v
  proof -
    from kv have "k \<in> fst ` set m'" by force
    then obtain w where w: "(k, w) \<in> set m" unfolding keys [symmetric] by force
    with ent obtain bv where bv: "map_of m' k = Some bv" "num_equal w bv" by blast
    from d(2) kv bv(1) have "bv = v" by (simp add: map_of_is_SomeI)
    moreover have "json_ok w" "json_ok v" using Object.prems w kv b by auto
    ultimately have "num_equal v w" using Object.IH [OF w, of w v] bv(2) by simp
    moreover from d(1) w have "map_of m k = Some w" by (rule map_of_is_SomeI)
    ultimately show ?thesis by blast
  qed
  with b len show ?case by (simp add: num_equal_Object_iff) blast
qed (auto simp only: num_equal_atom_iff)

lemma num_equal_trans:
  "num_equal a b \<Longrightarrow> num_equal b c \<Longrightarrow> num_equal a c"
proof (induction a arbitrary: b c)
  case (Number n)
  then obtain n1 where "b = Number n1" "f64_eq (as_f64 n) (as_f64 n1)"
    by (auto simp: num_equal_Number_iff)
  moreover from this Number obtain n2 where "c = Number n2" "f64_eq (as_f64 n1) (as_f64 n2)"
    by (auto simp: num_equal_Number_iff)
  ultimately show ?case by (auto simp: num_equal_Number_iff intro: f64_eq_trans)
next
  case (Array xs)
  then obtain ys zs where bc: "b = Array ys" "list_all2 num_equal xs ys"
      "c = Array zs" "list_all2 num_equal ys zs"
    by (auto simp: num_equal_Array_iff)
  have "num_equal (xs ! i) (zs ! i)" if i: "i < length xs" for i
  proof (rule Array.IH)
    show "xs ! i \<in> set xs" using i by simp
    show "num_equal (xs ! i) (ys ! i)" "num_equal (ys ! i) (zs ! i)"
      using bc i by (auto simp: list_all2_conv_all_nth)
  qed
  with bc show ?case by (simp add: num_equal_Array_iff list_all2_conv_all_nth)
next
  case (Object m)
  then obtain m' m'' where b: "b = Object m'" "length m = length m'"
    and ent: "\<forall>(k, v) \<in> set m. \<exists>bv. map_of m' k = Some bv \<and> num_equal v bv"
    and c: "c = Object m''" "length m' = length m''"
    and ent': "\<forall>(k, v) \<in> set m'. \<exists>bv. map_of m'' k = Some bv \<and> num_equal v bv"
    by (auto simp: num_equal_Object_iff)
  have "\<exists>bv. map_of m'' k = Some bv \<and> num_equal v bv" if kv: "(k, v) \<in> set m" for k v
  proof -
    from ent kv obtain w where w: "map_of m' k = Some w" "num_equal v w" by blast
    from map_of_SomeD [OF w(1)] ent' obtain x where x: "map_of m'' k = Some x" "num_equal w x"
      by blast
    with Object.IH [OF kv, of v w x] w(2) show ?thesis by simp
  qed
  with b c show ?case by (simp add: num_equal_Object_iff) blast
qed (auto simp only: num_equal_atom_iff)

end
