(* ===== verification/Core.thy ===== *)
theory Core
  imports Json
begin

text \<open>
  The crate \<open>ows-runtime-core\<close>: typed errors and problem details (error.rs), phases (phase.rs),
  the resource and network policy (policy.rs), the expression context and its variable map
  (expression.rs), the deterministic clock (clock.rs), secret resolvers (secret.rs), schedule
  triggers (runtime.rs), event messages and process results (service.rs), and the execution
  store contract with its in-memory implementation (store.rs).
\<close>

section \<open>Errors (error.rs)\<close>

datatype error_kind =
  KParse | KSchema | KSemantic | KRuntime | KExpression | KTimeout | KCancelled | KFault
  | KPolicy | KCommunication

fun kind_str :: "error_kind \<Rightarrow> str" where
  "kind_str KParse = lit ''parse''"
| "kind_str KSchema = lit ''schema''"
| "kind_str KSemantic = lit ''semantic''"
| "kind_str KRuntime = lit ''runtime''"
| "kind_str KExpression = lit ''expression''"
| "kind_str KTimeout = lit ''timeout''"
| "kind_str KCancelled = lit ''cancelled''"
| "kind_str KFault = lit ''fault''"
| "kind_str KPolicy = lit ''policy''"
| "kind_str KCommunication = lit ''communication''"

definition error_type_prefix :: str where
  "error_type_prefix = lit ''https://open-workflow-specification.org/spec/1.0.0/errors''"

datatype standard_error =
  SConfiguration | SValidation | SExpression | SAuthentication | SAuthorization | STimeout
  | SCommunication | SRuntime

fun default_status :: "standard_error \<Rightarrow> u16" where
  "default_status SConfiguration = 400"
| "default_status SValidation = 400"
| "default_status SExpression = 400"
| "default_status SAuthentication = 401"
| "default_status SAuthorization = 403"
| "default_status STimeout = 408"
| "default_status SCommunication = 500"
| "default_status SRuntime = 500"

fun standard_slug :: "standard_error \<Rightarrow> str" where
  "standard_slug SConfiguration = lit ''configuration''"
| "standard_slug SValidation = lit ''validation''"
| "standard_slug SExpression = lit ''expression''"
| "standard_slug SAuthentication = lit ''authentication''"
| "standard_slug SAuthorization = lit ''authorization''"
| "standard_slug STimeout = lit ''timeout''"
| "standard_slug SCommunication = lit ''communication''"
| "standard_slug SRuntime = lit ''runtime''"

definition standard_uri :: "standard_error \<Rightarrow> str" where
  "standard_uri k = error_type_prefix @ lit ''/'' @ standard_slug k"

fun standard_title :: "standard_error \<Rightarrow> str" where
  "standard_title SConfiguration = lit ''Configuration''"
| "standard_title SValidation = lit ''Validation Error''"
| "standard_title SExpression = lit ''Expression Error''"
| "standard_title SAuthentication = lit ''Authentication Error''"
| "standard_title SAuthorization = lit ''Authorization Error''"
| "standard_title STimeout = lit ''Timeout Error''"
| "standard_title SCommunication = lit ''Communication Error''"
| "standard_title SRuntime = lit ''Runtime Error''"

record problem_details =
  pd_type :: str
  pd_title :: str
  pd_status :: u16
  pd_detail :: "str option"
  pd_instance :: "str option"
  pd_extensions :: "vmap option"

definition problem_new :: "str \<Rightarrow> str \<Rightarrow> u16 \<Rightarrow> problem_details" where
  "problem_new ty title status =
     \<lparr>pd_type = ty, pd_title = title, pd_status = status, pd_detail = None,
      pd_instance = None, pd_extensions = None\<rparr>"

definition problem_standard :: "standard_error \<Rightarrow> problem_details" where
  "problem_standard k = problem_new (standard_uri k) (standard_title k) (default_status k)"

definition with_detail :: "str \<Rightarrow> problem_details \<Rightarrow> problem_details" where
  "with_detail d p = p\<lparr>pd_detail := Some d\<rparr>"

definition with_instance :: "str \<Rightarrow> problem_details \<Rightarrow> problem_details" where
  "with_instance i p = p\<lparr>pd_instance := Some i\<rparr>"

definition with_extension :: "str \<Rightarrow> json \<Rightarrow> problem_details \<Rightarrow> problem_details" where
  "with_extension k v p =
     p\<lparr>pd_extensions := Some (map_insert k v (case pd_extensions p of None \<Rightarrow> [] | Some m \<Rightarrow> m))\<rparr>"

definition insert_opt :: "str \<Rightarrow> json option \<Rightarrow> vmap \<Rightarrow> vmap" where
  "insert_opt k ov m = (case ov of None \<Rightarrow> m | Some v \<Rightarrow> map_insert k v m)"

definition json_of_u16 :: "u16 \<Rightarrow> json" where
  "json_of_u16 w = Number (PosInt (ucast w))"

text \<open>The derived serialisation: absent options are skipped.\<close>

definition problem_to_value :: "problem_details \<Rightarrow> json" where
  "problem_to_value p = Object (
     insert_opt (lit ''extensions'') (map_option Object (pd_extensions p))
     (insert_opt (lit ''instance'') (map_option String (pd_instance p))
     (insert_opt (lit ''detail'') (map_option String (pd_detail p))
     (map_insert (lit ''status'') (json_of_u16 (pd_status p))
     (map_insert (lit ''title'') (String (pd_title p))
     (map_insert (lit ''type'') (String (pd_type p)) []))))))"

record workflow_error =
  we_kind :: error_kind
  we_problem :: problem_details
  we_task :: "str option"
  we_execution_id :: "str option"
  we_source :: "str option"

definition werr_new :: "error_kind \<Rightarrow> problem_details \<Rightarrow> workflow_error" where
  "werr_new k p =
     \<lparr>we_kind = k, we_problem = p, we_task = None, we_execution_id = None, we_source = None\<rparr>"

definition werr_standard :: "error_kind \<Rightarrow> standard_error \<Rightarrow> workflow_error" where
  "werr_standard k s = werr_new k (problem_standard s)"

definition with_task :: "str \<Rightarrow> workflow_error \<Rightarrow> workflow_error" where
  "with_task t e = e\<lparr>we_task := Some t\<rparr>"

definition with_execution :: "str \<Rightarrow> workflow_error \<Rightarrow> workflow_error" where
  "with_execution i e = e\<lparr>we_execution_id := Some i\<rparr>"

text \<open>\<open>Clone\<close> drops the boxed source error.\<close>

definition werr_clone :: "workflow_error \<Rightarrow> workflow_error" where
  "werr_clone e = e\<lparr>we_source := None\<rparr>"

definition to_problem_json :: "workflow_error \<Rightarrow> json" where
  "to_problem_json e = problem_to_value (we_problem e)"

definition werr_timeout :: "str option \<Rightarrow> workflow_error" where
  "werr_timeout inst =
     werr_new KTimeout ((problem_standard STimeout)\<lparr>pd_instance := inst\<rparr>)"

definition werr_cancelled :: workflow_error where
  "werr_cancelled = werr_new KCancelled
     ((problem_standard SRuntime)\<lparr>pd_title := lit ''Cancelled'',
        pd_type := error_type_prefix @ lit ''/runtime''\<rparr>)"

section \<open>Phases (phase.rs)\<close>

datatype phase = Pending | Running | Waiting | Suspended | Cancelled | Faulted | Completed

fun is_terminal :: "phase \<Rightarrow> bool" where
  "is_terminal Cancelled = True"
| "is_terminal Faulted = True"
| "is_terminal Completed = True"
| "is_terminal _ = False"

fun phase_str :: "phase \<Rightarrow> str" where
  "phase_str Pending = lit ''pending''"
| "phase_str Running = lit ''running''"
| "phase_str Waiting = lit ''waiting''"
| "phase_str Suspended = lit ''suspended''"
| "phase_str Cancelled = lit ''cancelled''"
| "phase_str Faulted = lit ''faulted''"
| "phase_str Completed = lit ''completed''"

section \<open>Durations and the deterministic clock (clock.rs)\<close>

text \<open>\<open>std::time::Duration\<close> as a number of nanoseconds, at most \<open>duration_max\<close>.\<close>

type_synonym duration = nat

definition duration_max :: duration where
  "duration_max = 2 ^ 64 * 1000000000 - 1"

definition duration_sat_add :: "duration \<Rightarrow> duration \<Rightarrow> duration" where
  "duration_sat_add a b = min (a + b) duration_max"

definition duration_sat_sub :: "duration \<Rightarrow> duration \<Rightarrow> duration" where
  "duration_sat_sub a b = a - b"

definition duration_sat_mul :: "duration \<Rightarrow> u32 \<Rightarrow> duration" where
  "duration_sat_mul d n = min (d * unat n) duration_max"

definition duration_from_millis :: "u64 \<Rightarrow> duration" where
  "duration_from_millis ms = unat ms * 1000000"

definition duration_as_millis :: "duration \<Rightarrow> nat" where
  "duration_as_millis d = d div 1000000"

record det_clock =
  clk_elapsed :: u64

definition clock_new :: det_clock where
  "clock_new = \<lparr>clk_elapsed = 0\<rparr>"

definition clock_elapsed :: "det_clock \<Rightarrow> duration" where
  "clock_elapsed c = unat (clk_elapsed c)"

text \<open>\<open>fetch_add(duration.as_nanos() as u64)\<close>: the cast truncates, the addition wraps.\<close>

definition clock_advance :: "duration \<Rightarrow> det_clock \<Rightarrow> det_clock" where
  "clock_advance d c = c\<lparr>clk_elapsed := clk_elapsed c + word_of_nat d\<rparr>"

definition clock_epoch_seconds :: "det_clock \<Rightarrow> int" where
  "clock_epoch_seconds c = int (clock_elapsed c div 1000000000)"

definition clock_sleep :: "duration \<Rightarrow> det_clock \<Rightarrow> det_clock" where
  "clock_sleep d c = clock_advance d c"

lemma clock_elapsed_advance:
  "clock_elapsed (clock_advance d c) = (clock_elapsed c + d) mod 2 ^ 64"
  by (simp add: clock_elapsed_def clock_advance_def unat_word_ariths unat_of_nat mod_simps)

lemma clock_elapsed_sleeps:
  "clock_elapsed (fold clock_sleep ds c) = (clock_elapsed c + sum_list ds) mod 2 ^ 64"
proof (induction ds arbitrary: c)
  case Nil
  have "clock_elapsed c < 2 ^ 64" using unsigned_less [of "clk_elapsed c"] by (simp add: clock_elapsed_def)
  then show ?case by simp
next
  case (Cons d ds)
  then show ?case
    by (simp add: clock_sleep_def clock_elapsed_advance mod_simps add.assoc)
qed

section \<open>Policy (policy.rs)\<close>

record runtime_policy =
  max_execution_time :: "duration option"
  max_task_time :: "duration option"
  max_parallel_tasks :: nat
  max_loop_iterations :: nat
  max_payload_size :: "nat option"
  retry_max_attempts :: nat
  allow_scripts :: bool
  allow_containers :: bool
  allow_network :: bool
  allowed_hosts :: "str list"
  allowed_schemes :: "str list"

definition default_policy :: runtime_policy where
  "default_policy =
     \<lparr>max_execution_time = None, max_task_time = None, max_parallel_tasks = 1024,
      max_loop_iterations = 1000000, max_payload_size = None, retry_max_attempts = 10,
      allow_scripts = False, allow_containers = False, allow_network = False,
      allowed_hosts = [], allowed_schemes = []\<rparr>"

text \<open>
  An empty list of hosts or schemes restricts nothing, as the code has it; the comments of the two
  fields say that it allows nothing.
\<close>

definition host_allowed :: "runtime_policy \<Rightarrow> str \<Rightarrow> bool" where
  "host_allowed p host =
     (if \<not> allow_network p then False
      else allowed_hosts p = [] \<or>
           list_ex (\<lambda>a. host = a \<or> ends_with host (lit ''.'' @ a)) (allowed_hosts p))"

definition scheme_allowed :: "runtime_policy \<Rightarrow> str \<Rightarrow> bool" where
  "scheme_allowed p scheme =
     (if \<not> allow_network p then False
      else allowed_schemes p = [] \<or> list_ex (\<lambda>s. s = scheme) (allowed_schemes p))"

section \<open>Expression context (expression.rs)\<close>

record expr_context =
  ec_context :: json
  ec_input :: json
  ec_output :: json
  ec_secrets :: "(str, str) amap"
  ec_authorization :: "json option"
  ec_task :: "json option"
  ec_workflow :: "json option"
  ec_runtime :: "json option"
  ec_extra_vars :: vmap

definition secrets_object :: "(str, str) amap \<Rightarrow> vmap" where
  "secrets_object s = map_extend (map (\<lambda>(k, v). (k, String v)) s) []"

definition as_variable_map :: "expr_context \<Rightarrow> vmap" where
  "as_variable_map c =
     map_extend (ec_extra_vars c)
      (insert_opt (lit ''runtime'') (ec_runtime c)
      (insert_opt (lit ''workflow'') (ec_workflow c)
      (insert_opt (lit ''task'') (ec_task c)
      (insert_opt (lit ''authorization'') (ec_authorization c)
      (map_insert (lit ''secrets'') (Object (secrets_object (ec_secrets c)))
      (map_insert (lit ''output'') (ec_output c)
      (map_insert (lit ''input'') (ec_input c)
      (map_insert (lit ''context'') (ec_context c) []))))))))"

definition as_variable_map_updated :: "expr_context \<Rightarrow> json \<Rightarrow> json \<Rightarrow> vmap" where
  "as_variable_map_updated c input output =
     as_variable_map (c\<lparr>ec_input := input, ec_output := output\<rparr>)"

lemma map_ok_insert_opt [simp]: "map_ok m \<Longrightarrow> map_ok (insert_opt k v m)"
  by (simp add: insert_opt_def map_ok_map_insert split: option.split)

lemma map_of_insert_opt [simp]:
  "map_of (insert_opt k v m) k' =
     (if k' = k then (case v of None \<Rightarrow> map_of m k' | Some x \<Rightarrow> Some x) else map_of m k')"
  by (simp add: insert_opt_def split: option.split)

lemma map_ok_as_variable_map: "map_ok (as_variable_map c)"
  by (simp add: as_variable_map_def map_ok_map_extend map_ok_map_insert)

section \<open>Messages, processes, schedules (service.rs, runtime.rs)\<close>

record event_message =
  em_id :: str
  em_source :: str
  em_type :: str
  em_time :: "str option"
  em_subject :: "str option"
  em_data_content_type :: "str option"
  em_data_schema :: "str option"
  em_data :: "json option"
  em_extensions :: vmap

definition event_message_new :: "str \<Rightarrow> str \<Rightarrow> str \<Rightarrow> event_message" where
  "event_message_new i s t =
     \<lparr>em_id = i, em_source = s, em_type = t, em_time = None, em_subject = None,
      em_data_content_type = None, em_data_schema = None, em_data = None, em_extensions = []\<rparr>"

record process_result =
  pr_code :: "32 word option"
  pr_stdout :: "str option"
  pr_stderr :: "str option"

record event_message_like =
  eml_type :: str
  eml_source :: "str option"

datatype schedule_trigger =
    Every duration
  | After duration
  | Cron str
  | OnEvents "event_message_like list"

record scheduled_execution =
  se_trigger :: schedule_trigger
  se_namespace :: str
  se_name :: str
  se_version :: str

section \<open>Secrets (secret.rs)\<close>

definition is_ascii_alphanumeric :: "nat \<Rightarrow> bool" where
  "is_ascii_alphanumeric c \<longleftrightarrow>
     (48 \<le> c \<and> c \<le> 57) \<or> (65 \<le> c \<and> c \<le> 90) \<or> (97 \<le> c \<and> c \<le> 122)"

text \<open>The three resolvers; the process environment is a parameter.\<close>

datatype secret_resolver =
    EmptySecretResolver
  | MapSecretResolver "(str, str) amap"
  | EnvSecretResolver str

definition env_variable_for :: "str \<Rightarrow> str \<Rightarrow> str" where
  "env_variable_for prefix name =
     prefix @ map (\<lambda>c. if is_ascii_alphanumeric c then ascii_upper c else 95) name"

fun resolve_secret :: "(str \<Rightarrow> str option) \<Rightarrow> secret_resolver \<Rightarrow> str \<Rightarrow> str option" where
  "resolve_secret env EmptySecretResolver name = None"
| "resolve_secret env (MapSecretResolver values) name = map_of values name"
| "resolve_secret env (EnvSecretResolver prefix) name = env (env_variable_for prefix name)"

section \<open>Execution store (store.rs)\<close>

record execution_record =
  er_execution_id :: str
  er_workflow :: str
  er_namespace :: str
  er_name :: str
  er_version :: str
  er_phase :: phase
  er_context :: json
  er_pointer :: json
  er_error :: "json option"
  er_started_at :: int

record stored_event =
  sv_execution_id :: str
  sv_sequence :: u64
  sv_event_type :: str
  sv_payload :: json
  sv_timestamp :: int

text \<open>
  The contract the engine relies on: what \<open>load\<close> and \<open>events\<close> answer after each operation.
\<close>

locale execution_store =
  fixes st_empty :: 's
    and create :: "execution_record \<Rightarrow> 's \<Rightarrow> 's"
    and load :: "'s \<Rightarrow> str \<Rightarrow> execution_record option"
    and update :: "execution_record \<Rightarrow> 's \<Rightarrow> 's"
    and append_event :: "stored_event \<Rightarrow> 's \<Rightarrow> 's"
    and events :: "'s \<Rightarrow> str \<Rightarrow> stored_event list"
  assumes load_empty: "load st_empty i = None"
    and events_empty: "events st_empty i = []"
    and load_create: "load (create r s) i = (if i = er_execution_id r then Some r else load s i)"
    and load_update: "load (update r s) i = (if i = er_execution_id r then Some r else load s i)"
    and load_append: "load (append_event e s) i = load s i"
    and events_create: "events (create r s) i = events s i"
    and events_update: "events (update r s) i = events s i"
    and events_append: "events (append_event e s) i =
      (if sv_execution_id e = i then events s i @ [e] else events s i)"
begin

lemma events_append_all:
  "events (fold append_event es s) i = events s i @ filter (\<lambda>e. sv_execution_id e = i) es"
  by (induction es arbitrary: s) (auto simp: events_append)

lemma load_updates:
  "load (fold update rs s) i =
     (case filter (\<lambda>r. er_execution_id r = i) rs of [] \<Rightarrow> load s i | _ \<Rightarrow>
        Some (last (filter (\<lambda>r. er_execution_id r = i) rs)))"
  by (induction rs arbitrary: s) (auto simp: load_update split: list.splits)

lemma append_only: "\<exists>suffix. events (append_event e s) i = events s i @ suffix"
  by (simp add: events_append)

end

record memory_store =
  ms_records :: "str \<rightharpoonup> execution_record"
  ms_events :: "stored_event list"

definition store_new :: memory_store where
  "store_new = \<lparr>ms_records = Map.empty, ms_events = []\<rparr>"

definition store_create :: "execution_record \<Rightarrow> memory_store \<Rightarrow> memory_store" where
  "store_create r s = s\<lparr>ms_records := (ms_records s)(er_execution_id r \<mapsto> r)\<rparr>"

definition store_load :: "memory_store \<Rightarrow> str \<Rightarrow> execution_record option" where
  "store_load s i = ms_records s i"

definition store_update :: "execution_record \<Rightarrow> memory_store \<Rightarrow> memory_store" where
  "store_update r s = s\<lparr>ms_records := (ms_records s)(er_execution_id r \<mapsto> r)\<rparr>"

definition store_append_event :: "stored_event \<Rightarrow> memory_store \<Rightarrow> memory_store" where
  "store_append_event e s = s\<lparr>ms_events := ms_events s @ [e]\<rparr>"

definition store_events :: "memory_store \<Rightarrow> str \<Rightarrow> stored_event list" where
  "store_events s i = filter (\<lambda>e. sv_execution_id e = i) (ms_events s)"

interpretation mem: execution_store store_new store_create store_load store_update
  store_append_event store_events
  by unfold_locales
     (simp_all add: store_new_def store_create_def store_load_def store_update_def
       store_append_event_def store_events_def)

section \<open>Error constructors of the runtime crate (crates/ows-runtime/src/error.rs)\<close>

definition runtime_error :: "str \<Rightarrow> workflow_error" where
  "runtime_error d = werr_new KRuntime (with_detail d (problem_standard SRuntime))"

definition semantic_error :: "str \<Rightarrow> workflow_error" where
  "semantic_error d = werr_new KSemantic (with_detail d (problem_standard SRuntime))"

definition expression_error :: "str \<Rightarrow> workflow_error" where
  "expression_error d = werr_new KExpression (with_detail d (problem_standard SExpression))"

definition validation_error :: "str \<Rightarrow> workflow_error" where
  "validation_error d = werr_new KSchema (with_detail d (problem_standard SValidation))"

definition communication_error :: "u16 \<Rightarrow> str \<Rightarrow> workflow_error" where
  "communication_error status d = werr_new KCommunication
     ((problem_standard SCommunication)\<lparr>pd_status := status, pd_detail := Some d\<rparr>)"

definition timeout_error :: workflow_error where
  "timeout_error = werr_timeout None"

definition policy_error :: "str \<Rightarrow> workflow_error" where
  "policy_error d = werr_new KPolicy (with_detail d (problem_standard SRuntime))"

end
