(* ===== verification/ExprSyntax.thy ===== *)
theory ExprSyntax
  imports Core
begin

text \<open>
  The crate \<open>ows-runtime-expressions\<close>, data: operators and expressions (ast.rs), errors
  (error.rs) and tokens (lexer.rs).  \<open>platform\<close> collects what the engine takes from outside
  the repository: the build profile, the non-ASCII part of the Unicode tables, and the text
  forms produced by the standard library's float printer and by \<open>serde_json\<close>.
\<close>

record platform =
  overflow_checks :: bool
  uc_alphabetic :: "nat \<Rightarrow> bool"
  uc_numeric :: "nat \<Rightarrow> bool"
  f64_text :: "f64 \<Rightarrow> str"
  str_debug :: "str \<Rightarrow> str"
  json_text :: "json \<Rightarrow> str"
  json_parse :: "str \<Rightarrow> str + json"

datatype binop =
  BAdd | BSub | BMul | BDiv | BMod | BEq | BNe | BLt | BLe | BGt | BGe | BAnd | BOr | BAlternative

fun binop_symbol :: "binop \<Rightarrow> str" where
  "binop_symbol BAdd = lit ''+''"
| "binop_symbol BSub = lit ''-''"
| "binop_symbol BMul = lit ''*''"
| "binop_symbol BDiv = lit ''/''"
| "binop_symbol BMod = lit ''%''"
| "binop_symbol BEq = lit ''==''"
| "binop_symbol BNe = lit ''!=''"
| "binop_symbol BLt = lit ''<''"
| "binop_symbol BLe = lit ''<=''"
| "binop_symbol BGt = lit ''>''"
| "binop_symbol BGe = lit ''>=''"
| "binop_symbol BAnd = lit ''and''"
| "binop_symbol BOr = lit ''or''"
| "binop_symbol BAlternative = lit ''//''"

datatype unop = UNot | UNegate

datatype expr =
    EIdentity
  | EField expr str
  | EIndex expr expr
  | EIterate expr
  | EVariable str
  | ELiteral json
  | EStr "interp_part list"
  | EBinary binop expr expr
  | EUnary unop expr
  | EPipe expr expr
  | EArray "expr list"
  | EObject "(obj_key \<times> expr) list"
  | EIf expr expr expr
  | ECall str "expr list"
  | EStream "expr list"
and obj_key = OIdent str | OStr str | OComputed expr
and interp_part = ILiteral str | IExpr expr

datatype expr_error =
    Lex nat str
  | Parse nat str
  | Eval str
  | TypeError str
  | UnsupportedFunction str

text \<open>The \<open>thiserror\<close> display strings.\<close>

fun expr_error_text :: "expr_error \<Rightarrow> str" where
  "expr_error_text (Lex pos m) = lit ''lex error at byte '' @ nat_str pos @ lit '': '' @ m"
| "expr_error_text (Parse pos m) = lit ''parse error at byte '' @ nat_str pos @ lit '': '' @ m"
| "expr_error_text (Eval m) = lit ''eval error: '' @ m"
| "expr_error_text (TypeError m) = lit ''type error: '' @ m"
| "expr_error_text (UnsupportedFunction n) =
     lit ''unsupported function `'' @ n @ lit ''`''"

text \<open>
  How a computation of the engine can fail: an error value, a panic of the host program
  (arithmetic overflow, capacity overflow), or, in the parser model only, running out of fuel.
\<close>

datatype xfail = XErr expr_error | XPanic str | XFuel

datatype token =
    TDot | TRecursiveDot | TLBracket | TRBracket | TLBrace | TRBrace | TLParen | TRParen
  | TPipe | TComma | TColon | TSemicolon
  | TVariable str
  | TIdent str
  | TNumber f64
  | TStr str
  | TInterp str
  | TEqEq | TNe | TLt | TLe | TGt | TGe | TPlus | TMinus | TStar | TSlash | TPercent
  | TAlternative | TAssign | TEof

fun describe :: "platform \<Rightarrow> token \<Rightarrow> str" where
  "describe pf TDot = lit ''.''"
| "describe pf TRecursiveDot = lit ''..''"
| "describe pf TLBracket = lit ''[''"
| "describe pf TRBracket = lit '']''"
| "describe pf TLBrace = lit ''{''"
| "describe pf TRBrace = lit ''}''"
| "describe pf TLParen = lit ''(''"
| "describe pf TRParen = lit '')''"
| "describe pf TComma = lit '',''"
| "describe pf TPipe = lit ''|''"
| "describe pf TColon = lit '':''"
| "describe pf TSemicolon = lit '';''"
| "describe pf (TVariable v) = lit ''$'' @ v"
| "describe pf (TIdent i) = i"
| "describe pf (TNumber n) = f64_text pf n"
| "describe pf (TStr s) = str_debug pf s"
| "describe pf (TInterp s) = [92, 92] @ lit ''('' @ s @ lit '')''"
| "describe pf TEqEq = lit ''==''"
| "describe pf TNe = lit ''!=''"
| "describe pf TLt = lit ''<''"
| "describe pf TLe = lit ''<=''"
| "describe pf TGt = lit ''>''"
| "describe pf TGe = lit ''>=''"
| "describe pf TPlus = lit ''+''"
| "describe pf TMinus = lit ''-''"
| "describe pf TStar = lit ''*''"
| "describe pf TSlash = lit ''/''"
| "describe pf TPercent = lit ''%''"
| "describe pf TAlternative = lit ''//''"
| "describe pf TAssign = lit ''=''"
| "describe pf TEof = lit ''end of input''"

section \<open>Character classes of the standard library\<close>

definition is_whitespace :: "nat \<Rightarrow> bool" where
  "is_whitespace c \<longleftrightarrow>
     (9 \<le> c \<and> c \<le> 13) \<or> c = 32 \<or> c = 0x85 \<or> c = 0xA0 \<or> c = 0x1680
     \<or> (0x2000 \<le> c \<and> c \<le> 0x200A) \<or> c = 0x2028 \<or> c = 0x2029 \<or> c = 0x202F \<or> c = 0x205F
     \<or> c = 0x3000"

definition is_alphabetic :: "platform \<Rightarrow> nat \<Rightarrow> bool" where
  "is_alphabetic pf c \<longleftrightarrow>
     (65 \<le> c \<and> c \<le> 90) \<or> (97 \<le> c \<and> c \<le> 122) \<or> (128 \<le> c \<and> uc_alphabetic pf c)"

text \<open>The library defines \<open>char::is_alphanumeric\<close> as \<open>is_alphabetic() || is_numeric()\<close>.\<close>

definition is_alphanumeric :: "platform \<Rightarrow> nat \<Rightarrow> bool" where
  "is_alphanumeric pf c \<longleftrightarrow>
     is_alphabetic pf c \<or> (48 \<le> c \<and> c \<le> 57) \<or> (128 \<le> c \<and> uc_numeric pf c)"

definition trim_start :: "str \<Rightarrow> str" where
  "trim_start s = dropWhile is_whitespace s"

definition trim :: "str \<Rightarrow> str" where
  "trim s = rev (dropWhile is_whitespace (rev (dropWhile is_whitespace s)))"

end
