(* ===== verification/ExprLexer.thy ===== *)
theory ExprLexer
  imports ExprSyntax
begin

text \<open>
  The lexer (lexer.rs).  The position \<open>pos\<close> of the code in its character vector of length \<open>n\<close>
  is \<open>n - length rest\<close>, where \<open>rest\<close> is the part not read yet.  Every reader returns the rest
  after it; \<open>tokenize\<close> is total because each batch consumes a character.
\<close>

definition lex_error :: "nat \<Rightarrow> str \<Rightarrow> str \<Rightarrow> xfail" where
  "lex_error n rest msg = XErr (Lex (n - length rest) msg)"

function skip_blank :: "str \<Rightarrow> str" where
  "skip_blank [] = []"
| "skip_blank (c # r) =
     (if is_whitespace c then skip_blank r
      else if c = 35 then skip_blank (dropWhile (\<lambda>ch. ch \<noteq> 10) r)
      else c # r)"
  by pat_completeness auto
termination
  by (relation "measure length") (auto simp: le_imp_less_Suc length_dropWhile_le)

lemma length_skip_blank: "length (skip_blank s) \<le> length s"
proof (induction s rule: skip_blank.induct)
  case (2 c r)
  have "length (dropWhile (\<lambda>ch. ch \<noteq> 10) r) \<le> length r" by (rule length_dropWhile_le)
  with 2 show ?case by (auto intro: le_trans)
qed simp

definition read_ident :: "platform \<Rightarrow> str \<Rightarrow> str \<times> str" where
  "read_ident pf s = span (\<lambda>c. is_alphanumeric pf c \<or> c = 95) s"

text \<open>
  The number scanner, in the three steps of the code; each returns the text it covered and the
  rest.  \<open>parse_f64\<close> may still reject the text.
\<close>

fun scan_fraction :: "str \<Rightarrow> str \<times> str" where
  "scan_fraction [] = ([], [])"
| "scan_fraction (c # r) =
     (if c = 46 then (c # takeWhile is_ascii_digit r, dropWhile is_ascii_digit r)
      else ([], c # r))"

fun skip_sign :: "str \<Rightarrow> str \<times> str" where
  "skip_sign [] = ([], [])"
| "skip_sign (x # xs) = (if x = 43 \<or> x = 45 then ([x], xs) else ([], x # xs))"

fun scan_exponent :: "str \<Rightarrow> str \<times> str" where
  "scan_exponent [] = ([], [])"
| "scan_exponent (c # r) =
     (if c = 101 \<or> c = 69 then
        (let (sg, r') = skip_sign r
         in (c # sg @ takeWhile is_ascii_digit r', dropWhile is_ascii_digit r'))
      else ([], c # r))"

definition scan_number :: "str \<Rightarrow> str \<times> str" where
  "scan_number s =
     (let ip = takeWhile is_ascii_digit s;
          (fp, r) = scan_fraction (dropWhile is_ascii_digit s);
          (ep, r') = scan_exponent r
      in (ip @ fp @ ep, r'))"

definition read_number :: "nat \<Rightarrow> str \<Rightarrow> xfail + (f64 \<times> str)" where
  "read_number n s =
     (let (text, rest) = scan_number s
      in case parse_f64 text of
           Some f \<Rightarrow> Inr (f, rest)
         | None \<Rightarrow> Inl (lex_error n s (lit ''invalid number `'' @ text @ lit ''`'')))"

text \<open>The source of a \<open>\( ... )\<close> interpolation, up to the parenthesis that balances it.\<close>

fun read_interp_source :: "nat \<Rightarrow> nat \<Rightarrow> str \<Rightarrow> str \<Rightarrow> xfail + (str \<times> str)" where
  "read_interp_source n depth acc [] = Inl (lex_error n [] (lit ''unterminated interpolation''))"
| "read_interp_source n depth acc (c # r) =
     (if c = 40 then read_interp_source n (depth + 1) (acc @ [c]) r
      else if c = 41 then
        (if depth - 1 = 0 then Inr (acc, r)
         else read_interp_source n (depth - 1) (acc @ [c]) r)
      else read_interp_source n depth (acc @ [c]) r)"

lemma read_interp_source_length:
  "read_interp_source n d acc s = Inr (src, r) \<Longrightarrow> length src + length r + 1 = length acc + length s"
  by (induction s arbitrary: d acc) (fastforce split: if_splits)+

definition hex_digit :: "nat \<Rightarrow> nat option" where
  "hex_digit c =
     (if 48 \<le> c \<and> c \<le> 57 then Some (c - 48)
      else if 97 \<le> c \<and> c \<le> 102 then Some (c - 87)
      else if 65 \<le> c \<and> c \<le> 70 then Some (c - 55)
      else None)"

fun hex_value :: "nat \<Rightarrow> str \<Rightarrow> nat option" where
  "hex_value acc [] = Some acc"
| "hex_value acc (c # cs) =
     (case hex_digit c of None \<Rightarrow> None | Some d \<Rightarrow> hex_value (16 * acc + d) cs)"

text \<open>\<open>u32::from_str_radix(hex, 16)\<close> on at most four characters; a leading \<open>+\<close> is accepted.\<close>

definition from_str_radix16 :: "str \<Rightarrow> nat option" where
  "from_str_radix16 s =
     (let d = (case s of [] \<Rightarrow> [] | c # r \<Rightarrow> if c = 43 then r else s)
      in if d = [] then None else hex_value 0 d)"

text \<open>\<open>char::from_u32\<close>: surrogates and values above \<open>0x10FFFF\<close> are no characters.\<close>

definition char_from_u32 :: "nat \<Rightarrow> nat option" where
  "char_from_u32 c = (if c < 0xD800 \<or> (0xE000 \<le> c \<and> c < 0x110000) then Some c else None)"

definition flush_literal :: "token list \<Rightarrow> str \<Rightarrow> token list" where
  "flush_literal tokens literal = (if literal = [] then tokens else tokens @ [TStr literal])"

text \<open>The one-character escapes; any other escape is kept as written.\<close>

definition escape_text :: "nat \<Rightarrow> str" where
  "escape_text esc =
     (if esc = 34 then [34]
      else if esc = 92 then [92]
      else if esc = 110 then [10]
      else if esc = 116 then [9]
      else if esc = 114 then [13]
      else if esc = 102 then [12]
      else if esc = 98 then [8]
      else if esc = 47 then [47]
      else [92, esc])"

text \<open>The loop of \<open>read_string\<close> after the opening quote.\<close>

function read_string_loop ::
  "nat \<Rightarrow> token list \<Rightarrow> str \<Rightarrow> str \<Rightarrow> xfail + (token list \<times> str)" where
  "read_string_loop n tokens literal [] =
     Inl (lex_error n [] (lit ''unterminated string''))"
| "read_string_loop n tokens literal (c # r) =
     (if c = 34 then
        (let tokens = flush_literal tokens literal
         in Inr (if tokens = [] then [TStr []] else tokens, r))
      else if c = 92 then
        (case r of
           [] \<Rightarrow> Inl (lex_error n [] (lit ''unterminated escape''))
         | esc # r' \<Rightarrow>
             if esc = 40 then
               (case read_interp_source n 1 [] r' of
                  Inl e \<Rightarrow> Inl e
                | Inr (source, r'') \<Rightarrow>
                    read_string_loop n (flush_literal tokens literal @ [TInterp source]) [] r'')
             else if esc = 117 then
               (case from_str_radix16 (take 4 r') of
                  None \<Rightarrow> Inl (lex_error n (drop 4 r') (lit ''invalid unicode escape''))
                | Some code \<Rightarrow>
                    read_string_loop n tokens
                      (case char_from_u32 code of Some ch \<Rightarrow> literal @ [ch] | None \<Rightarrow> literal)
                      (drop 4 r'))
             else read_string_loop n tokens (literal @ escape_text esc) r')
      else read_string_loop n tokens (literal @ [c]) r)"
  by pat_completeness auto
termination
  by (relation "measure (\<lambda>(n, tokens, literal, s). length s)")
     (auto dest: read_interp_source_length)

definition read_string :: "nat \<Rightarrow> str \<Rightarrow> xfail + (token list \<times> str)" where
  "read_string n s = read_string_loop n [] [] (tl s)"

definition two_char_token :: "nat \<Rightarrow> nat \<Rightarrow> token option" where
  "two_char_token c d =
     (if c = 46 \<and> d = 46 then Some TRecursiveDot
      else if c = 61 \<and> d = 61 then Some TEqEq
      else if c = 33 \<and> d = 61 then Some TNe
      else if c = 60 \<and> d = 61 then Some TLe
      else if c = 62 \<and> d = 61 then Some TGe
      else if c = 47 \<and> d = 47 then Some TAlternative
      else None)"

definition single_char_token :: "nat \<Rightarrow> token option" where
  "single_char_token c =
     (if c = 46 then Some TDot
      else if c = 91 then Some TLBracket
      else if c = 93 then Some TRBracket
      else if c = 123 then Some TLBrace
      else if c = 125 then Some TRBrace
      else if c = 40 then Some TLParen
      else if c = 41 then Some TRParen
      else if c = 124 then Some TPipe
      else if c = 44 then Some TComma
      else if c = 58 then Some TColon
      else if c = 59 then Some TSemicolon
      else if c = 43 then Some TPlus
      else if c = 45 then Some TMinus
      else if c = 60 then Some TLt
      else if c = 62 then Some TGt
      else if c = 42 then Some TStar
      else if c = 47 then Some TSlash
      else if c = 37 then Some TPercent
      else if c = 61 then Some TAssign
      else None)"

definition next_tokens :: "platform \<Rightarrow> nat \<Rightarrow> str \<Rightarrow> xfail + (token list \<times> str)" where
  "next_tokens pf n s =
     (case skip_blank s of
        [] \<Rightarrow> Inr ([TEof], [])
      | c # r \<Rightarrow>
          (case (case r of [] \<Rightarrow> None | d # _ \<Rightarrow> two_char_token c d) of
             Some t \<Rightarrow> Inr ([t], tl r)
           | None \<Rightarrow>
               (case single_char_token c of
                  Some t \<Rightarrow> Inr ([t], r)
                | None \<Rightarrow>
                    if c = 36 then (let (name, r') = read_ident pf r in Inr ([TVariable name], r'))
                    else if c = 34 then read_string n (c # r)
                    else if is_ascii_digit c then
                      bindR (read_number n (c # r)) (\<lambda>(f, r'). Inr ([TNumber f], r'))
                    else if is_alphabetic pf c \<or> c = 95 then
                      (let (ident, r') = read_ident pf (c # r) in Inr ([TIdent ident], r'))
                    else Inl (lex_error n (c # r)
                           (lit ''unexpected character `'' @ [c] @ lit ''`'')))))"

section \<open>Progress\<close>

lemma span_length: "span P s = (a, b) \<Longrightarrow> length a + length b = length s"
  unfolding span_def by (metis append_take_drop_id fst_conv length_append prod.inject takeWhile_dropWhile_id)

declare read_string_loop.simps [simp del]

text \<open>
  The weight of a token bounds the characters it took; an interpolation weighs more than its
  source.  \<open>lexed s ts r\<close> says that the reader went from \<open>s\<close> to \<open>r\<close> and produced \<open>ts\<close>.
\<close>

fun weight :: "token \<Rightarrow> nat" where
  "weight (TInterp s) = length s + 3"
| "weight t = 1"

definition weights :: "token list \<Rightarrow> nat" where
  "weights ts = sum_list (map weight ts)"

lemma weights_simps [simp]:
  "weights [] = 0" "weights (t # ts) = weight t + weights ts" "weights (ts @ us) = weights ts + weights us"
  by (simp_all add: weights_def)

lemma weight_pos: "1 \<le> weight t"
  by (cases t) simp_all

definition lexed :: "nat \<Rightarrow> str \<Rightarrow> token list \<Rightarrow> str \<Rightarrow> bool" where
  "lexed d s ts r \<longleftrightarrow>
     ts \<noteq> [] \<and> TEof \<notin> set ts \<and> length r < length s \<and> weights ts + length r \<le> d + length s"

lemma flush_literal_simps:
  "weights (flush_literal tokens literal) = weights tokens + (if literal = [] then 0 else 1)"
  "TEof \<in> set (flush_literal tokens literal) \<longleftrightarrow> TEof \<in> set tokens"
  by (auto simp: flush_literal_def)

lemma read_string_loop_lexed:
  "read_string_loop n tokens literal s = Inr (ts, r) \<Longrightarrow> TEof \<notin> set tokens
   \<Longrightarrow> lexed (weights tokens + (if literal = [] then 0 else 1)) s ts r"
proof (induction n tokens literal s rule: read_string_loop.induct)
  case (1 n tokens literal)
  then show ?case by (simp add: read_string_loop.simps)
next
  case (2 n tokens literal c s)
  note eq = 2(5) and noeof = 2(6)
  consider "c = 34" | "c = 92" | "c \<noteq> 34" "c \<noteq> 92" by blast
  then show ?case
  proof cases
    case 1
    with eq noeof show ?thesis
      by (auto simp: read_string_loop.simps Let_def lexed_def flush_literal_def split: if_splits)
  next
    case 2
    with eq obtain esc s' where s: "s = esc # s'"
      by (cases s) (auto simp: read_string_loop.simps)
    consider "esc = 40" | "esc = 117" | "esc \<noteq> 40" "esc \<noteq> 117" by blast
    then show ?thesis
    proof cases
      case 1
      with eq s 2 obtain source s'' where int: "read_interp_source n 1 [] s' = Inr (source, s'')"
        by (simp add: read_string_loop.simps split: sum.splits prod.splits)
      have "lexed (weights (flush_literal tokens literal @ [TInterp source])) s'' ts r"
        using "2.IH"(1) [OF _ 2 s 1 int refl] eq s 1 2 int noeof
        by (simp add: read_string_loop.simps flush_literal_simps)
      with read_interp_source_length [OF int] s show ?thesis
        by (simp add: lexed_def flush_literal_simps split: if_splits)
    next
      case 2
      with eq s \<open>c = 92\<close> obtain code where
          code: "from_str_radix16 (take 4 s') = Some code"
        by (simp add: read_string_loop.simps split: option.splits)
      define lit' where
        "lit' = (case char_from_u32 code of Some ch \<Rightarrow> literal @ [ch] | None \<Rightarrow> literal)"
      have "lexed (weights tokens + (if lit' = [] then 0 else 1)) (drop 4 s') ts r"
        using "2.IH"(2) [OF _ \<open>c = 92\<close> s _ 2 code] eq s 2 \<open>c = 92\<close> code noeof
        by (simp add: read_string_loop.simps lit'_def)
      with s show ?thesis by (auto simp: lexed_def split: if_splits)
    next
      case 3
      with "2.IH"(3) [OF _ \<open>c = 92\<close> s 3] eq s \<open>c = 92\<close> noeof show ?thesis
        by (auto simp: read_string_loop.simps lexed_def split: if_splits)
    qed
  next
    case 3
    with eq noeof "2.IH"(4) show ?thesis
      by (auto simp: read_string_loop.simps lexed_def split: if_splits)
  qed
qed

lemma read_string_lexed: "read_string n (c # s) = Inr (ts, r) \<Longrightarrow> lexed 0 (c # s) ts r"
  unfolding read_string_def by (drule read_string_loop_lexed) (auto simp: lexed_def)

lemma scan_steps_length:
  "scan_fraction s = (a, r) \<Longrightarrow> length r \<le> length s"
  "skip_sign s = (a, r) \<Longrightarrow> length r \<le> length s"
proof -
  show "scan_fraction s = (a, r) \<Longrightarrow> length r \<le> length s"
    by (cases s) (auto intro: le_SucI length_dropWhile_le split: if_splits)
  show "skip_sign s = (a, r) \<Longrightarrow> length r \<le> length s"
    by (cases s) (auto split: if_splits)
qed

lemma scan_exponent_length: "scan_exponent s = (a, r) \<Longrightarrow> length r \<le> length s"
proof (cases s)
  case (Cons c s')
  assume eq: "scan_exponent s = (a, r)"
  obtain sg r' where sg: "skip_sign s' = (sg, r')" by fastforce
  from scan_steps_length(2) [OF this] length_dropWhile_le [of is_ascii_digit r']
  have "length (dropWhile is_ascii_digit r') \<le> length s'" by linarith
  with eq Cons sg show ?thesis by (auto split: if_splits)
qed simp

lemma scan_number_length:
  assumes "is_ascii_digit c" "scan_number (c # s) = (text, r)"
  shows "length r < length (c # s)"
proof -
  obtain fp r1 ep r2 where st: "scan_fraction (dropWhile is_ascii_digit s) = (fp, r1)"
      "scan_exponent r1 = (ep, r2)" by fastforce
  from scan_steps_length(1) [OF st(1)] scan_exponent_length [OF st(2)]
    length_dropWhile_le [of is_ascii_digit s]
  have "length r2 \<le> length s" by linarith
  with assms st show ?thesis by (simp add: scan_number_def)
qed

lemma next_tokens_lexed:
  assumes "next_tokens pf n s = Inr (b, r)"
  shows "b = [TEof] \<and> r = [] \<or> lexed 0 s b r"
proof (cases "skip_blank s")
  case Nil
  with assms show ?thesis by (simp add: next_tokens_def)
next
  case (Cons c s')
  have len: "length s' < length s" using length_skip_blank [of s] Cons by simp
  have shift: "lexed 0 (c # s') b r \<Longrightarrow> lexed 0 s b r"
    using len by (auto simp: lexed_def)
  have two: "two_char_token c d = Some t \<Longrightarrow> weight t = 1 \<and> t \<noteq> TEof" for d t
    by (simp add: two_char_token_def split: if_splits)
  have one: "single_char_token c = Some t \<Longrightarrow> weight t = 1 \<and> t \<noteq> TEof" for t
    by (simp add: single_char_token_def split: if_splits)
  have "lexed 0 (c # s') b r"
  proof (cases "case s' of [] \<Rightarrow> None | d # _ \<Rightarrow> two_char_token c d")
    case (Some t)
    then obtain d r' where "s' = d # r'" "two_char_token c d = Some t"
      by (auto split: list.splits)
    with assms Cons two [of d t] show ?thesis
      by (auto simp: next_tokens_def lexed_def)
  next
    case None
    note no2 = None
    show ?thesis
    proof (cases "single_char_token c")
      case (Some t)
      with no2 assms Cons one show ?thesis
        by (auto simp: next_tokens_def lexed_def)
    next
      case None
      consider "c = 36" | "c \<noteq> 36" "c = 34" | "c \<noteq> 36" "c \<noteq> 34" "is_ascii_digit c"
        | "c \<noteq> 36" "c \<noteq> 34" "\<not> is_ascii_digit c" "is_alphabetic pf c \<or> c = 95"
        | "c \<noteq> 36" "c \<noteq> 34" "\<not> is_ascii_digit c" "\<not> (is_alphabetic pf c \<or> c = 95)"
        by blast
      then show ?thesis
      proof cases
        case 1
        with no2 None assms Cons length_dropWhile_le [of "\<lambda>c. is_alphanumeric pf c \<or> c = 95" s']
        show ?thesis
          by (auto simp: next_tokens_def lexed_def read_ident_def span_def)
      next
        case 2
        with no2 None assms Cons show ?thesis
          by (auto simp: next_tokens_def intro: read_string_lexed)
      next
        case 3
        with no2 None assms Cons show ?thesis
          by (auto simp: next_tokens_def lexed_def read_number_def bindR_eq_Inr
              dest!: scan_number_length split: prod.splits option.splits)
      next
        case 4
        then have "is_alphanumeric pf c \<or> c = 95"
          by (auto simp: is_alphanumeric_def)
        with 4 no2 None assms Cons length_dropWhile_le [of "\<lambda>c. is_alphanumeric pf c \<or> c = 95" s']
        show ?thesis
          by (auto simp: next_tokens_def lexed_def read_ident_def span_def)
      next
        case 5
        with no2 None assms Cons show ?thesis by (simp add: next_tokens_def)
      qed
    qed
  qed
  with shift show ?thesis by blast
qed

text \<open>
  \<open>tokenize\<close> loops over batches until one starts with \<open>Eof\<close>; it is total because every other
  batch consumes input.
\<close>

function tokenize_from :: "platform \<Rightarrow> nat \<Rightarrow> str \<Rightarrow> xfail + token list" where
  "tokenize_from pf n s =
     (case next_tokens pf n s of
        Inl e \<Rightarrow> Inl e
      | Inr (batch, r) \<Rightarrow>
          if hd batch = TEof then Inr batch
          else bindR (tokenize_from pf n r) (\<lambda>ts. Inr (batch @ ts)))"
  by pat_completeness auto
termination
  by (relation "measure (\<lambda>(pf, n, s). length s)") (auto dest!: next_tokens_lexed simp: lexed_def)

definition tokenize :: "platform \<Rightarrow> str \<Rightarrow> xfail + token list" where
  "tokenize pf src = tokenize_from pf (length src) src"

declare tokenize_from.simps [simp del]

definition ends_eof :: "token list \<Rightarrow> bool" where
  "ends_eof ts \<longleftrightarrow> ts \<noteq> [] \<and> last ts = TEof \<and> TEof \<notin> set (butlast ts)"

lemma ends_eof_Cons: "ends_eof (t # ts) \<longleftrightarrow> (ts = [] \<and> t = TEof) \<or> (t \<noteq> TEof \<and> ends_eof ts)"
  by (auto simp: ends_eof_def)

lemma ends_eof_append: "TEof \<notin> set b \<Longrightarrow> ends_eof ts \<Longrightarrow> ends_eof (b @ ts)"
  by (induction b) (auto simp: ends_eof_Cons)

lemma tokenize_from_ok:
  "tokenize_from pf n s = Inr ts \<Longrightarrow> ends_eof ts \<and> weights ts \<le> length s + 1"
proof (induction pf n s arbitrary: ts rule: tokenize_from.induct)
  case (1 pf n s)
  then obtain batch r where nt: "next_tokens pf n s = Inr (batch, r)"
    by (auto simp: tokenize_from.simps [of pf n s] split: sum.splits)
  show ?case
  proof (cases "hd batch = TEof")
    case True
    with nt 1(2) have "ts = batch" by (simp add: tokenize_from.simps [of pf n s])
    moreover from next_tokens_lexed [OF nt] True have "batch = [TEof]"
      by (auto simp: lexed_def dest: hd_in_set)
    ultimately show ?thesis by (simp add: ends_eof_def)
  next
    case False
    with nt 1(2) obtain ts' where ts': "tokenize_from pf n r = Inr ts'" "ts = batch @ ts'"
      by (auto simp: tokenize_from.simps [of pf n s] bindR_eq_Inr)
    from 1(1) [OF nt refl False ts'(1)] next_tokens_lexed [OF nt] False ts'(2)
    show ?thesis by (auto simp: lexed_def intro: ends_eof_append)
  qed
qed

lemma tokenize_ok: "tokenize pf src = Inr ts \<Longrightarrow> ends_eof ts \<and> weights ts \<le> length src + 1"
  unfolding tokenize_def by (rule tokenize_from_ok)

section \<open>Errors\<close>

text \<open>A failure of the lexer is a lex error at a position of the source, never a panic.\<close>

definition lex_failure :: "nat \<Rightarrow> xfail \<Rightarrow> bool" where
  "lex_failure n e \<longleftrightarrow> (\<exists>pos m. e = XErr (Lex pos m) \<and> pos \<le> n)"

lemma lex_failure_error [simp]: "lex_failure n (lex_error n s m)"
  by (simp add: lex_failure_def lex_error_def)

lemma read_interp_source_failure:
  "read_interp_source n d acc s = Inl e \<Longrightarrow> lex_failure n e"
  by (induction s arbitrary: d acc) (auto split: if_splits)

lemma read_string_loop_failure:
  "read_string_loop n tokens literal s = Inl e \<Longrightarrow> lex_failure n e"
proof (induction n tokens literal s rule: read_string_loop.induct)
  case (1 n tokens literal)
  then show ?case by (auto simp: read_string_loop.simps)
next
  case (2 n tokens literal c s)
  note eq = 2(5)
  show ?case
  proof (cases "c = 92")
    case True
    show ?thesis
    proof (cases s)
      case Nil
      with eq True show ?thesis by (auto simp: read_string_loop.simps)
    next
      case (Cons esc s')
      consider "esc = 40" | "esc = 117" | "esc \<noteq> 40" "esc \<noteq> 117" by blast
      then show ?thesis
      proof cases
        case 1
        with eq True Cons "2.IH"(1) show ?thesis
          by (auto simp: read_string_loop.simps(2) split: sum.splits
              dest: read_interp_source_failure)
      next
        case 2
        with eq True Cons "2.IH"(2) show ?thesis
          by (auto simp: read_string_loop.simps(2) split: option.splits if_splits)
      next
        case 3
        with eq True Cons "2.IH"(3) show ?thesis by (auto simp: read_string_loop.simps(2))
      qed
    qed
  next
    case False
    with eq "2.IH"(4) show ?thesis
      by (auto simp: read_string_loop.simps(2) Let_def split: if_splits)
  qed
qed

lemma next_tokens_failure: "next_tokens pf n s = Inl e \<Longrightarrow> lex_failure n e"
  by (auto simp: next_tokens_def read_number_def read_string_def bindR_eq_Inl
      split: list.splits option.splits if_splits prod.splits
      dest: read_string_loop_failure)

lemma tokenize_from_failure: "tokenize_from pf n s = Inl e \<Longrightarrow> lex_failure n e"
proof (induction pf n s rule: tokenize_from.induct)
  case (1 pf n s)
  then show ?case
    by (auto simp: tokenize_from.simps [of pf n s] bindR_eq_Inl split: sum.splits if_splits
        dest: next_tokens_failure)
qed

lemma tokenize_failure: "tokenize pf src = Inl e \<Longrightarrow> lex_failure (length src) e"
  unfolding tokenize_def by (rule tokenize_from_failure)

end
