(* ===== verification/ExprParser.thy ===== *)
theory ExprParser
  imports ExprLexer
begin

text \<open>
  The recursive-descent parser (parser.rs).  The state is the part of the token vector from the
  current position on (the position is the length of the vector less that of this part); it
  always ends in \<open>Eof\<close>, past which \<open>advance\<close> does not move.  The functions of the code call
  each other in cycles; the cycles are cut at four of them (the record \<open>parsers\<close>), and
  \<open>parser_at\<close> ties the knot level by level.  \<open>parse\<close> takes a level that the last section
  proves sufficient for every source text.
\<close>

type_synonym 'a pres = "xfail + ('a \<times> token list)"

section \<open>Token access\<close>

definition peek :: "token list \<Rightarrow> token" where
  "peek ts = hd ts"

definition peek2 :: "token list \<Rightarrow> token" where
  "peek2 ts = (if 1 < length ts then ts ! 1 else last ts)"

definition advance :: "token list \<Rightarrow> token list" where
  "advance ts = (if 1 < length ts then tl ts else ts)"

definition parse_error :: "nat \<Rightarrow> token list \<Rightarrow> str \<Rightarrow> xfail" where
  "parse_error n ts msg = XErr (Parse (n - length ts) msg)"

definition found :: "platform \<Rightarrow> str \<Rightarrow> token list \<Rightarrow> str" where
  "found pf what ts =
     lit ''expected '' @ what @ lit '', found `'' @ describe pf (peek ts) @ lit ''`''"

definition unexpected :: "platform \<Rightarrow> token list \<Rightarrow> str" where
  "unexpected pf ts = lit ''unexpected `'' @ describe pf (peek ts) @ lit ''`''"

definition expect :: "platform \<Rightarrow> nat \<Rightarrow> token \<Rightarrow> str \<Rightarrow> token list \<Rightarrow> xfail + token list" where
  "expect pf n tok what ts =
     (if peek ts = tok then Inr (advance ts) else Inl (parse_error n ts (found pf what ts)))"

definition expect_keyword :: "platform \<Rightarrow> nat \<Rightarrow> str \<Rightarrow> token list \<Rightarrow> xfail + token list" where
  "expect_keyword pf n kw ts =
     (if peek ts = TIdent kw then Inr (advance ts)
      else Inl (parse_error n ts (found pf (lit ''`'' @ kw @ lit ''`'') ts)))"

definition json_num :: "f64 \<Rightarrow> json" where
  "json_num n =
     (if f64_eq (f64_fract n) (f64_of_int 0) \<and> f64_lt (f64_abs n) (f64_of_int 9007199254740992)
      then Number (number_of_i64 (f64_to_i64 n))
      else (case number_of_f64 n of Some m \<Rightarrow> Number m | None \<Rightarrow> Null))"

section \<open>Operators\<close>

fun pipe_op :: "token \<Rightarrow> (expr \<Rightarrow> expr \<Rightarrow> expr) option" where
  "pipe_op TPipe = Some EPipe"
| "pipe_op _ = None"

definition or_op :: "token \<Rightarrow> (expr \<Rightarrow> expr \<Rightarrow> expr) option" where
  "or_op t = (if t = TIdent (lit ''or'') then Some (EBinary BOr) else None)"

definition and_op :: "token \<Rightarrow> (expr \<Rightarrow> expr \<Rightarrow> expr) option" where
  "and_op t = (if t = TIdent (lit ''and'') then Some (EBinary BAnd) else None)"

fun compare_op :: "token \<Rightarrow> (expr \<Rightarrow> expr \<Rightarrow> expr) option" where
  "compare_op TEqEq = Some (EBinary BEq)"
| "compare_op TNe = Some (EBinary BNe)"
| "compare_op TLt = Some (EBinary BLt)"
| "compare_op TLe = Some (EBinary BLe)"
| "compare_op TGt = Some (EBinary BGt)"
| "compare_op TGe = Some (EBinary BGe)"
| "compare_op _ = None"

fun additive_op :: "token \<Rightarrow> (expr \<Rightarrow> expr \<Rightarrow> expr) option" where
  "additive_op TPlus = Some (EBinary BAdd)"
| "additive_op TMinus = Some (EBinary BSub)"
| "additive_op TAlternative = Some (EBinary BAlternative)"
| "additive_op _ = None"

fun mult_op :: "token \<Rightarrow> (expr \<Rightarrow> expr \<Rightarrow> expr) option" where
  "mult_op TStar = Some (EBinary BMul)"
| "mult_op TSlash = Some (EBinary BDiv)"
| "mult_op TPercent = Some (EBinary BMod)"
| "mult_op _ = None"

section \<open>Loops\<close>

text \<open>The \<open>while\<close> and \<open>loop\<close> bodies of the parser, over the parsers they call.\<close>

fun left_loop :: "nat \<Rightarrow> (token \<Rightarrow> (expr \<Rightarrow> expr \<Rightarrow> expr) option) \<Rightarrow> (token list \<Rightarrow> expr pres)
    \<Rightarrow> expr \<Rightarrow> token list \<Rightarrow> expr pres" where
  "left_loop 0 opr sub left ts = Inl XFuel"
| "left_loop (Suc k) opr sub left ts =
     (case opr (peek ts) of
        None \<Rightarrow> Inr (left, ts)
      | Some mk \<Rightarrow> bindR (sub (advance ts)) (\<lambda>(right, ts). left_loop k opr sub (mk left right) ts))"

fun comma_loop :: "nat \<Rightarrow> (token list \<Rightarrow> expr pres) \<Rightarrow> expr list \<Rightarrow> token list \<Rightarrow> expr list pres" where
  "comma_loop 0 sub parts ts = Inl XFuel"
| "comma_loop (Suc k) sub parts ts =
     (if peek ts = TComma
      then bindR (sub (advance ts)) (\<lambda>(e, ts). comma_loop k sub (parts @ [e]) ts)
      else Inr (parts, ts))"

fun args_loop :: "nat \<Rightarrow> (token list \<Rightarrow> expr pres) \<Rightarrow> expr list \<Rightarrow> token list \<Rightarrow> expr list pres" where
  "args_loop 0 sub args ts = Inl XFuel"
| "args_loop (Suc k) sub args ts =
     bindR (sub ts) (\<lambda>(e, ts).
       if peek ts = TComma \<or> peek ts = TSemicolon then args_loop k sub (args @ [e]) (advance ts)
       else Inr (args @ [e], ts))"

fun array_loop :: "nat \<Rightarrow> (token list \<Rightarrow> expr pres) \<Rightarrow> expr list \<Rightarrow> token list \<Rightarrow> expr list pres" where
  "array_loop 0 sub elems ts = Inl XFuel"
| "array_loop (Suc k) sub elems ts =
     bindR (sub ts) (\<lambda>(e, ts).
       let elems = elems @ (case e of EStream parts \<Rightarrow> parts | other \<Rightarrow> [other])
       in if peek ts = TComma then array_loop k sub elems (advance ts) else Inr (elems, ts))"

fun object_loop :: "platform \<Rightarrow> nat \<Rightarrow> nat \<Rightarrow> (token list \<Rightarrow> obj_key pres) \<Rightarrow> (token list \<Rightarrow> expr pres)
    \<Rightarrow> (obj_key \<times> expr) list \<Rightarrow> token list \<Rightarrow> (obj_key \<times> expr) list pres" where
  "object_loop pf n 0 key val entries ts = Inl XFuel"
| "object_loop pf n (Suc k) key val entries ts =
     bindR (key ts) (\<lambda>(kx, ts).
     bindR (expect pf n TColon (lit ''`:`'') ts) (\<lambda>ts.
     bindR (val ts) (\<lambda>(v, ts).
       let entries = entries @ [(kx, v)]
       in if peek ts = TComma then object_loop pf n k key val entries (advance ts)
          else Inr (entries, ts))))"

text \<open>One bracket after a base: \<open>[]\<close> iterates, \<open>[e]\<close> indexes.\<close>

definition bracket_suffix :: "platform \<Rightarrow> nat \<Rightarrow> (token list \<Rightarrow> expr pres) \<Rightarrow> expr
    \<Rightarrow> token list \<Rightarrow> expr pres" where
  "bracket_suffix pf n pexpr base ts =
     (if peek2 ts = TRBracket then Inr (EIterate base, advance (advance ts))
      else bindR (pexpr (advance ts)) (\<lambda>(index, ts).
           bindR (expect pf n TRBracket (lit ''`]`'') ts) (\<lambda>ts. Inr (EIndex base index, ts))))"

fun postfix_loop :: "platform \<Rightarrow> nat \<Rightarrow> nat \<Rightarrow> (token list \<Rightarrow> expr pres) \<Rightarrow> expr
    \<Rightarrow> token list \<Rightarrow> expr pres" where
  "postfix_loop pf n 0 pexpr base ts = Inl XFuel"
| "postfix_loop pf n (Suc k) pexpr base ts =
     (case peek ts of
        TDot \<Rightarrow>
          (case peek2 ts of
             TIdent name \<Rightarrow> postfix_loop pf n k pexpr (EField base name) (advance (advance ts))
           | TStr name \<Rightarrow> postfix_loop pf n k pexpr (EField base name) (advance (advance ts))
           | _ \<Rightarrow> Inr (base, ts))
      | TLBracket \<Rightarrow>
          bindR (bracket_suffix pf n pexpr base ts) (\<lambda>(base, ts). postfix_loop pf n k pexpr base ts)
      | _ \<Rightarrow> Inr (base, ts))"

text \<open>The chain after a leading dot: here a name needs no dot before it.\<close>

fun dot_loop :: "platform \<Rightarrow> nat \<Rightarrow> nat \<Rightarrow> (token list \<Rightarrow> expr pres) \<Rightarrow> expr
    \<Rightarrow> token list \<Rightarrow> expr pres" where
  "dot_loop pf n 0 pexpr base ts = Inl XFuel"
| "dot_loop pf n (Suc k) pexpr base ts =
     (case peek ts of
        TIdent name \<Rightarrow> dot_loop pf n k pexpr (EField base name) (advance ts)
      | TStr name \<Rightarrow> dot_loop pf n k pexpr (EField base name) (advance ts)
      | TLBracket \<Rightarrow>
          bindR (bracket_suffix pf n pexpr base ts) (\<lambda>(base, ts). dot_loop pf n k pexpr base ts)
      | _ \<Rightarrow> Inr (base, ts))"

fun string_parts_loop :: "nat \<Rightarrow> (str \<Rightarrow> xfail + expr) \<Rightarrow> interp_part list
    \<Rightarrow> token list \<Rightarrow> interp_part list pres" where
  "string_parts_loop 0 psrc parts ts = Inl XFuel"
| "string_parts_loop (Suc k) psrc parts ts =
     (case peek ts of
        TStr s \<Rightarrow> string_parts_loop k psrc (parts @ [ILiteral s]) (advance ts)
      | TInterp src \<Rightarrow>
          bindR (psrc src) (\<lambda>inner. string_parts_loop k psrc (parts @ [IExpr inner]) (advance ts))
      | _ \<Rightarrow> Inr (parts, ts))"

section \<open>The grammar\<close>

text \<open>
  The four entries the grammar recurs through.  \<open>n\<close> is the length of the token vector, \<open>k\<close> the
  number of turns granted to a loop and \<open>P\<close> the parsers of the level below.
\<close>

record parsers =
  p_source :: "str \<Rightarrow> xfail + expr"
  p_expr :: "nat \<Rightarrow> token list \<Rightarrow> expr pres"
  p_pipe :: "nat \<Rightarrow> token list \<Rightarrow> expr pres"
  p_unary :: "nat \<Rightarrow> token list \<Rightarrow> expr pres"

definition parse_string_parts :: "nat \<Rightarrow> parsers \<Rightarrow> token list \<Rightarrow> expr pres" where
  "parse_string_parts k P ts =
     bindR (string_parts_loop k (p_source P) [] ts) (\<lambda>(parts, ts). Inr (EStr parts, ts))"

definition parse_object_key :: "platform \<Rightarrow> nat \<Rightarrow> parsers \<Rightarrow> token list \<Rightarrow> obj_key pres" where
  "parse_object_key pf n P ts =
     (case peek ts of
        TIdent name \<Rightarrow> Inr (OIdent name, advance ts)
      | TStr s \<Rightarrow> Inr (OStr s, advance ts)
      | TVariable name \<Rightarrow> Inr (OIdent name, advance ts)
      | TLParen \<Rightarrow>
          bindR (p_pipe P n (advance ts)) (\<lambda>(e, ts).
          bindR (expect pf n TRParen (lit ''`)`'') ts) (\<lambda>ts. Inr (OComputed e, ts)))
      | _ \<Rightarrow> Inl (parse_error n ts (found pf (lit ''object key'') ts)))"

definition parse_object :: "platform \<Rightarrow> nat \<Rightarrow> nat \<Rightarrow> parsers \<Rightarrow> token list \<Rightarrow> expr pres" where
  "parse_object pf n k P ts =
     bindR (expect pf n TLBrace (lit ''`{`'') ts) (\<lambda>ts.
       if peek ts = TRBrace then Inr (EObject [], advance ts)
       else
         bindR (object_loop pf n k (parse_object_key pf n P) (p_pipe P n) [] ts) (\<lambda>(entries, ts).
         bindR (expect pf n TRBrace (lit ''`}`'') ts) (\<lambda>ts. Inr (EObject entries, ts))))"

definition parse_array :: "platform \<Rightarrow> nat \<Rightarrow> nat \<Rightarrow> parsers \<Rightarrow> token list \<Rightarrow> expr pres" where
  "parse_array pf n k P ts =
     bindR (expect pf n TLBracket (lit ''`[`'') ts) (\<lambda>ts.
       if peek ts = TRBracket then Inr (EArray [], advance ts)
       else
         bindR (array_loop k (p_pipe P n) [] ts) (\<lambda>(elems, ts).
         bindR (expect pf n TRBracket (lit ''`]`'') ts) (\<lambda>ts. Inr (EArray elems, ts))))"

definition parse_args :: "nat \<Rightarrow> nat \<Rightarrow> parsers \<Rightarrow> token list \<Rightarrow> expr list pres" where
  "parse_args n k P ts =
     (if peek ts = TRParen then Inr ([], ts) else args_loop k (p_pipe P n) [] ts)"

definition parse_else_tail :: "nat \<Rightarrow> parsers \<Rightarrow> token list \<Rightarrow> expr pres" where
  "parse_else_tail n P ts =
     (if peek ts = TIdent (lit ''else'') then p_expr P n (advance ts)
      else if peek ts = TIdent (lit ''elif'') then p_expr P n ts
      else Inr (ELiteral Null, ts))"

definition parse_if :: "platform \<Rightarrow> nat \<Rightarrow> parsers \<Rightarrow> token list \<Rightarrow> expr pres" where
  "parse_if pf n P ts =
     bindR (p_expr P n (advance ts)) (\<lambda>(c, ts).
     bindR (expect_keyword pf n (lit ''then'') ts) (\<lambda>ts.
     bindR (p_expr P n ts) (\<lambda>(t, ts).
       if peek ts = TIdent (lit ''elif'') then
         bindR (p_expr P n (advance ts)) (\<lambda>(elif_cond, ts).
         bindR (expect_keyword pf n (lit ''then'') ts) (\<lambda>ts.
         bindR (p_expr P n ts) (\<lambda>(elif_body, ts).
         bindR (parse_else_tail n P ts) (\<lambda>(else_branch, ts).
         bindR (expect_keyword pf n (lit ''end'') ts) (\<lambda>ts.
           Inr (EIf c t (EIf elif_cond elif_body else_branch), ts))))))
       else
         bindR (parse_else_tail n P ts) (\<lambda>(else_branch, ts).
         bindR (expect_keyword pf n (lit ''end'') ts) (\<lambda>ts. Inr (EIf c t else_branch, ts))))))"

definition parse_ident_primary ::
  "platform \<Rightarrow> nat \<Rightarrow> nat \<Rightarrow> parsers \<Rightarrow> str \<Rightarrow> token list \<Rightarrow> expr pres" where
  "parse_ident_primary pf n k P ident ts =
     (if ident = lit ''true'' then Inr (ELiteral (Bool True), advance ts)
      else if ident = lit ''false'' then Inr (ELiteral (Bool False), advance ts)
      else if ident = lit ''null'' then Inr (ELiteral Null, advance ts)
      else if ident = lit ''if'' then parse_if pf n P ts
      else if peek2 ts = TLParen then
        bindR (parse_args n k P (advance (advance ts))) (\<lambda>(args, ts).
        bindR (expect pf n TRParen (lit ''`)`'') ts) (\<lambda>ts. Inr (ECall ident args, ts)))
      else Inr (ECall ident [], advance ts))"

definition parse_base :: "platform \<Rightarrow> nat \<Rightarrow> nat \<Rightarrow> parsers \<Rightarrow> token list \<Rightarrow> expr pres" where
  "parse_base pf n k P ts =
     (case peek ts of
        TDot \<Rightarrow> dot_loop pf n k (p_expr P n) EIdentity (advance ts)
      | TRecursiveDot \<Rightarrow> Inr (EIdentity, advance ts)
      | TVariable name \<Rightarrow> Inr (EVariable name, advance ts)
      | TNumber x \<Rightarrow> Inr (ELiteral (json_num x), advance ts)
      | TStr s \<Rightarrow> parse_string_parts k P ts
      | TInterp s \<Rightarrow> parse_string_parts k P ts
      | TLBracket \<Rightarrow> parse_array pf n k P ts
      | TLBrace \<Rightarrow> parse_object pf n k P ts
      | TLParen \<Rightarrow>
          bindR (p_expr P n (advance ts)) (\<lambda>(e, ts).
          bindR (expect pf n TRParen (lit ''`)`'') ts) (\<lambda>ts. Inr (e, ts)))
      | TIdent ident \<Rightarrow> parse_ident_primary pf n k P ident ts
      | TEof \<Rightarrow> Inl (parse_error n ts (lit ''unexpected end of expression''))
      | _ \<Rightarrow> Inl (parse_error n ts (unexpected pf ts)))"

definition parse_postfix :: "platform \<Rightarrow> nat \<Rightarrow> nat \<Rightarrow> parsers \<Rightarrow> token list \<Rightarrow> expr pres" where
  "parse_postfix pf n k P ts =
     bindR (parse_base pf n k P ts) (\<lambda>(base, ts). postfix_loop pf n k (p_expr P n) base ts)"

definition parse_unary :: "platform \<Rightarrow> nat \<Rightarrow> nat \<Rightarrow> parsers \<Rightarrow> token list \<Rightarrow> expr pres" where
  "parse_unary pf n k P ts =
     (if peek ts = TIdent (lit ''not'') then
        bindR (p_unary P n (advance ts)) (\<lambda>(inner, ts). Inr (EUnary UNot inner, ts))
      else if peek ts = TMinus then
        bindR (p_unary P n (advance ts)) (\<lambda>(inner, ts). Inr (EUnary UNegate inner, ts))
      else parse_postfix pf n k P ts)"

definition left_assoc :: "nat \<Rightarrow> (token \<Rightarrow> (expr \<Rightarrow> expr \<Rightarrow> expr) option)
    \<Rightarrow> (token list \<Rightarrow> expr pres) \<Rightarrow> token list \<Rightarrow> expr pres" where
  "left_assoc k opr sub ts = bindR (sub ts) (\<lambda>(left, ts). left_loop k opr sub left ts)"

definition parse_mult :: "platform \<Rightarrow> nat \<Rightarrow> nat \<Rightarrow> parsers \<Rightarrow> token list \<Rightarrow> expr pres" where
  "parse_mult pf n k P ts = left_assoc k mult_op (parse_unary pf n k P) ts"

definition parse_additive :: "platform \<Rightarrow> nat \<Rightarrow> nat \<Rightarrow> parsers \<Rightarrow> token list \<Rightarrow> expr pres" where
  "parse_additive pf n k P ts = left_assoc k additive_op (parse_mult pf n k P) ts"

definition parse_compare :: "platform \<Rightarrow> nat \<Rightarrow> nat \<Rightarrow> parsers \<Rightarrow> token list \<Rightarrow> expr pres" where
  "parse_compare pf n k P ts = left_assoc k compare_op (parse_additive pf n k P) ts"

definition parse_and :: "platform \<Rightarrow> nat \<Rightarrow> nat \<Rightarrow> parsers \<Rightarrow> token list \<Rightarrow> expr pres" where
  "parse_and pf n k P ts = left_assoc k and_op (parse_compare pf n k P) ts"

definition parse_or :: "platform \<Rightarrow> nat \<Rightarrow> nat \<Rightarrow> parsers \<Rightarrow> token list \<Rightarrow> expr pres" where
  "parse_or pf n k P ts = left_assoc k or_op (parse_and pf n k P) ts"

definition parse_pipe :: "platform \<Rightarrow> nat \<Rightarrow> nat \<Rightarrow> parsers \<Rightarrow> token list \<Rightarrow> expr pres" where
  "parse_pipe pf n k P ts = left_assoc k pipe_op (parse_or pf n k P) ts"

definition parse_expr :: "platform \<Rightarrow> nat \<Rightarrow> nat \<Rightarrow> parsers \<Rightarrow> token list \<Rightarrow> expr pres" where
  "parse_expr pf n k P ts =
     bindR (parse_pipe pf n k P ts) (\<lambda>(first, ts).
     bindR (comma_loop k (parse_pipe pf n k P) [first] ts) (\<lambda>(parts, ts).
       if length parts = 1 then Inr (hd parts, ts) else Inr (EStream parts, ts)))"

definition parse_source :: "platform \<Rightarrow> nat \<Rightarrow> parsers \<Rightarrow> str \<Rightarrow> xfail + expr" where
  "parse_source pf k P src =
     bindR (tokenize pf src) (\<lambda>tokens.
     bindR (parse_expr pf (length tokens) k P tokens) (\<lambda>(e, ts).
       if peek ts \<noteq> TEof then Inl (parse_error (length tokens) ts (unexpected pf ts))
       else Inr e))"

fun parser_at :: "platform \<Rightarrow> nat \<Rightarrow> parsers" where
  "parser_at pf 0 =
     \<lparr>p_source = \<lambda>src. Inl XFuel, p_expr = \<lambda>n ts. Inl XFuel,
      p_pipe = \<lambda>n ts. Inl XFuel, p_unary = \<lambda>n ts. Inl XFuel\<rparr>"
| "parser_at pf (Suc k) =
     (let P = parser_at pf k
      in \<lparr>p_source = parse_source pf k P, p_expr = \<lambda>n. parse_expr pf n k P,
          p_pipe = \<lambda>n. parse_pipe pf n k P, p_unary = \<lambda>n. parse_unary pf n k P\<rparr>)"

text \<open>
  \<open>parse\<close> (parser.rs): a level above the length of the source is enough, because every cycle
  of the grammar consumes at least one character.
\<close>

definition parse :: "platform \<Rightarrow> str \<Rightarrow> xfail + expr" where
  "parse pf src = p_source (parser_at pf (length src + 2)) src"

section \<open>The level is enough\<close>

text \<open>
  \<open>parsed d ts r\<close>: a failure of the parser at \<open>ts\<close> is a lex or parse error, and on success at
  least \<open>d\<close> of the weight of \<open>ts\<close> is consumed.  \<open>sound W f\<close>: the parser \<open>f\<close> makes progress on
  every vector lighter than \<open>W\<close>.
\<close>

definition syntax_error :: "xfail \<Rightarrow> bool" where
  "syntax_error e \<longleftrightarrow> (\<exists>pos m. e = XErr (Lex pos m) \<or> e = XErr (Parse pos m))"

definition parsed :: "nat \<Rightarrow> token list \<Rightarrow> 'a pres \<Rightarrow> bool" where
  "parsed d ts r \<longleftrightarrow>
     (case r of Inl e \<Rightarrow> syntax_error e
      | Inr (x, ts') \<Rightarrow> ends_eof ts' \<and> weights ts' + d \<le> weights ts)"

definition sound :: "nat \<Rightarrow> (token list \<Rightarrow> 'a pres) \<Rightarrow> bool" where
  "sound W f \<longleftrightarrow> (\<forall>ts. ends_eof ts \<and> weights ts < W \<longrightarrow> parsed 1 ts (f ts))"

lemma ends_eof_Nil [simp]: "\<not> ends_eof []"
  by (simp add: ends_eof_def)

lemma parsed_Inr [simp]: "parsed d ts (Inr (x, ts')) \<longleftrightarrow> ends_eof ts' \<and> weights ts' + d \<le> weights ts"
  by (simp add: parsed_def)

lemma syntax_error_parse [simp]: "syntax_error (parse_error n ts m)"
  by (simp add: parse_error_def syntax_error_def)

lemma parsed_error [simp]: "parsed d ts (Inl (parse_error n us m))"
  by (simp add: parsed_def)

lemma parsed_bind:
  assumes "parsed d ts m"
    and "\<And>x us. ends_eof us \<Longrightarrow> weights us + d \<le> weights ts \<Longrightarrow> parsed d' ts' (f (x, us))"
  shows "parsed d' ts' (bindR m f)"
  using assms by (cases m) (auto simp: parsed_def)

lemma parsed_weaken: "parsed d us r \<Longrightarrow> weights us + d' \<le> weights ts + d \<Longrightarrow> parsed d' ts r"
  by (cases r) (auto simp: parsed_def)

lemma soundD: "sound W f \<Longrightarrow> ends_eof ts \<Longrightarrow> weights ts < W \<Longrightarrow> parsed 1 ts (f ts)"
  by (simp add: sound_def)

lemma sound_bind:
  assumes "sound W f" "ends_eof us" "weights us < W"
    and "\<And>x vs. ends_eof vs \<Longrightarrow> weights vs < weights us \<Longrightarrow> parsed d ts (g (x, vs))"
  shows "parsed d ts (bindR (f us) g)"
  by (rule parsed_bind [OF soundD [OF assms(1-3)]]) (rule assms(4), simp_all)

lemma advance_ok:
  assumes "ends_eof ts" "peek ts \<noteq> TEof"
  shows "ends_eof (advance ts)" "weights (advance ts) + weight (peek ts) = weights ts"
    "weights (advance ts) < weights ts"
proof -
  from assms obtain us where "ts = peek ts # us" "ends_eof us"
    by (cases ts) (auto simp: peek_def ends_eof_Cons)
  moreover from this have "us \<noteq> []" by auto
  ultimately show eq: "ends_eof (advance ts)" "weights (advance ts) + weight (peek ts) = weights ts"
    by (cases us; metis advance_def length_Cons list.sel(3) One_nat_def Suc_less_eq2
        zero_less_Suc weights_simps(2) add.commute length_greater_0_conv)+
  from eq(2) weight_pos [of "peek ts"] show "weights (advance ts) < weights ts" by linarith
qed

lemma peek2_advance: "ends_eof ts \<Longrightarrow> peek ts \<noteq> TEof \<Longrightarrow> peek2 ts = peek (advance ts)"
  by (cases ts; cases "tl ts") (auto simp: peek_def peek2_def advance_def ends_eof_Cons)

lemma expect_bind:
  assumes "ends_eof us" "tok \<noteq> TEof"
    and "\<And>vs. ends_eof vs \<Longrightarrow> weights vs < weights us \<Longrightarrow> parsed d ts (g vs)"
  shows "parsed d ts (bindR (expect pf n tok what us) g)"
  using assms advance_ok [of us] by (auto simp: expect_def parsed_def)

lemma expect_keyword_bind:
  assumes "ends_eof us"
    and "\<And>vs. ends_eof vs \<Longrightarrow> weights vs < weights us \<Longrightarrow> parsed d ts (g vs)"
  shows "parsed d ts (bindR (expect_keyword pf n kw us) g)"
  using assms advance_ok [of us] by (auto simp: expect_keyword_def parsed_def)

lemma weights_pos: "ends_eof ts \<Longrightarrow> 0 < weights ts"
  by (cases ts) (auto simp: ends_eof_def intro: less_le_trans [OF _ weight_pos])

lemma left_loop_sound:
  assumes "sound W sub" "opr TEof = None"
  shows "ends_eof ts \<Longrightarrow> weights ts \<le> k \<Longrightarrow> weights ts \<le> W
    \<Longrightarrow> parsed 0 ts (left_loop k opr sub left ts)"
proof (induction k arbitrary: left ts)
  case 0
  then show ?case using weights_pos by fastforce
next
  case (Suc k)
  show ?case
  proof (cases "opr (peek ts)")
    case None
    with Suc.prems show ?thesis by simp
  next
    case (Some mk)
    with assms(2) have "peek ts \<noteq> TEof" by auto
    note adv = advance_ok [OF Suc.prems(1) this]
    have "parsed 0 ts (bindR (sub (advance ts)) (\<lambda>(right, ts). left_loop k opr sub (mk left right) ts))"
    proof (rule sound_bind [OF assms(1) adv(1)])
      show "weights (advance ts) < W" using adv Suc.prems by simp
      fix x vs assume vs: "ends_eof vs" "weights vs < weights (advance ts)"
      with adv Suc.prems have "parsed 0 vs (left_loop k opr sub (mk left x) vs)"
        by (intro Suc.IH) simp_all
      then show "parsed 0 ts (case (x, vs) of (right, ts) \<Rightarrow> left_loop k opr sub (mk left right) ts)"
        using vs adv by (simp add: parsed_weaken)
    qed
    with Some show ?thesis by simp
  qed
qed

text \<open>The other loops; each turn applies a parser and stays below the weight it started with.\<close>

lemma comma_loop_sound:
  assumes "sound W sub"
  shows "ends_eof ts \<Longrightarrow> weights ts \<le> k \<Longrightarrow> weights ts \<le> W
    \<Longrightarrow> parsed 0 ts (comma_loop k sub parts ts)"
proof (induction k arbitrary: parts ts)
  case 0
  then show ?case using weights_pos by fastforce
next
  case (Suc k)
  show ?case
  proof (cases "peek ts = TComma")
    case True
    note adv = advance_ok [OF Suc.prems(1), unfolded True, simplified]
    have "parsed 0 ts (bindR (sub (advance ts)) (\<lambda>(e, ts). comma_loop k sub (parts @ [e]) ts))"
    proof (rule sound_bind [OF assms adv(1)])
      show "weights (advance ts) < W" using adv Suc.prems by simp
      fix x vs assume vs: "ends_eof vs" "weights vs < weights (advance ts)"
      with adv Suc.prems have "parsed 0 vs (comma_loop k sub (parts @ [x]) vs)"
        by (intro Suc.IH) simp_all
      then show "parsed 0 ts (case (x, vs) of (e, ts) \<Rightarrow> comma_loop k sub (parts @ [e]) ts)"
        using vs adv by (simp add: parsed_weaken)
    qed
    with True show ?thesis by simp
  next
    case False
    with Suc.prems show ?thesis by simp
  qed
qed

lemma args_loop_sound:
  assumes "sound W sub"
  shows "ends_eof ts \<Longrightarrow> weights ts \<le> k \<Longrightarrow> weights ts < W
    \<Longrightarrow> parsed 1 ts (args_loop k sub args ts)"
proof (induction k arbitrary: args ts)
  case 0
  then show ?case using weights_pos by fastforce
next
  case (Suc k)
  show ?case
    unfolding args_loop.simps
  proof (rule sound_bind [OF assms Suc.prems(1,3)])
    fix x vs assume vs: "ends_eof vs" "weights vs < weights ts"
    have "parsed 1 ts (args_loop k sub (args @ [x]) (advance vs))"
      if "peek vs \<noteq> TEof"
    proof -
      note adv = advance_ok [OF vs(1) that]
      have "parsed 1 (advance vs) (args_loop k sub (args @ [x]) (advance vs))"
        using adv vs Suc.prems by (intro Suc.IH) simp_all
      then show ?thesis using adv vs by (simp add: parsed_weaken)
    qed
    then show "parsed 1 ts (case (x, vs) of (e, ts) \<Rightarrow>
        if peek ts = TComma \<or> peek ts = TSemicolon
        then args_loop k sub (args @ [e]) (advance ts) else Inr (args @ [e], ts))"
      using vs by auto
  qed
qed

lemma array_loop_sound:
  assumes "sound W sub"
  shows "ends_eof ts \<Longrightarrow> weights ts \<le> k \<Longrightarrow> weights ts < W
    \<Longrightarrow> parsed 1 ts (array_loop k sub elems ts)"
proof (induction k arbitrary: elems ts)
  case 0
  then show ?case using weights_pos by fastforce
next
  case (Suc k)
  show ?case
    unfolding array_loop.simps
  proof (rule sound_bind [OF assms Suc.prems(1,3)])
    fix x vs assume vs: "ends_eof vs" "weights vs < weights ts"
    have "parsed 1 ts (array_loop k sub es (advance vs))" if "peek vs = TComma" for es
    proof -
      note adv = advance_ok [OF vs(1), unfolded that, simplified]
      have "parsed 1 (advance vs) (array_loop k sub es (advance vs))"
        using adv vs Suc.prems by (intro Suc.IH) simp_all
      then show ?thesis using adv vs by (simp add: parsed_weaken)
    qed
    then show "parsed 1 ts (case (x, vs) of (e, ts) \<Rightarrow>
        let elems = elems @ (case e of EStream parts \<Rightarrow> parts | other \<Rightarrow> [other])
        in if peek ts = TComma then array_loop k sub elems (advance ts) else Inr (elems, ts))"
      using vs by (auto simp: Let_def)
  qed
qed

lemma object_loop_sound:
  assumes "sound W key" "sound W val"
  shows "ends_eof ts \<Longrightarrow> weights ts \<le> k \<Longrightarrow> weights ts < W
    \<Longrightarrow> parsed 1 ts (object_loop pf n k key val entries ts)"
proof (induction k arbitrary: entries ts)
  case 0
  then show ?case using weights_pos by fastforce
next
  case (Suc k)
  have next_entry: "parsed 1 ts (object_loop pf n k key val es (advance vs))"
    if "ends_eof vs" "weights vs < weights ts" "peek vs = TComma" for es vs
  proof -
    note adv = advance_ok [OF that(1), unfolded that(3), simplified]
    have "parsed 1 (advance vs) (object_loop pf n k key val es (advance vs))"
      using adv that Suc.prems by (intro Suc.IH) simp_all
    then show ?thesis using adv that by (simp add: parsed_weaken)
  qed
  show ?case
    unfolding object_loop.simps
    apply (rule sound_bind [OF assms(1) Suc.prems(1,3)])
    apply (simp only: prod.case)
    apply (erule expect_bind)
     apply simp
    apply (rule sound_bind [OF assms(2)])
      apply assumption
    using Suc.prems(3) next_entry by (auto simp: Let_def)
qed

lemma bracket_suffix_sound:
  assumes "sound W pexpr" "ends_eof ts" "weights ts \<le> W" "peek ts = TLBracket"
  shows "parsed 1 ts (bracket_suffix pf n pexpr base ts)"
proof -
  note adv = advance_ok [OF assms(2), unfolded assms(4), simplified]
  note p2 = peek2_advance [OF assms(2), unfolded assms(4), simplified]
  show ?thesis
  proof (cases "peek2 ts = TRBracket")
    case True
    with p2 have "peek (advance ts) \<noteq> TEof" by simp
    from advance_ok [OF adv(1) this] adv True show ?thesis by (simp add: bracket_suffix_def)
  next
    case False
    have "parsed 1 ts (bindR (pexpr (advance ts)) (\<lambda>(index, ts).
        bindR (expect pf n TRBracket (lit ''`]`'') ts) (\<lambda>ts. Inr (EIndex base index, ts))))"
      apply (rule sound_bind [OF assms(1) adv(1)])
      using adv(3) assms(3) apply simp
      apply (simp only: prod.case)
      apply (erule expect_bind)
      using adv(3) by auto
    with False show ?thesis by (simp add: bracket_suffix_def)
  qed
qed

text \<open>A turn that consumes the peeked token, or a bracket, and goes on.\<close>

lemma parsed_after_advance:
  assumes "ends_eof ts" "peek ts \<noteq> TEof" "parsed 0 (advance ts) r"
  shows "parsed 1 ts r" "parsed 0 ts r"
  using advance_ok(3) [OF assms(1,2)] assms(3) by (auto intro: parsed_weaken)

lemma dot_loop_sound:
  assumes "sound W pexpr"
  shows "ends_eof ts \<Longrightarrow> weights ts \<le> k \<Longrightarrow> weights ts \<le> W
    \<Longrightarrow> parsed 0 ts (dot_loop pf n k pexpr base ts)"
proof (induction k arbitrary: base ts)
  case 0
  then show ?case using weights_pos by fastforce
next
  case (Suc k)
  have step: "parsed 0 ts (dot_loop pf n k pexpr b (advance ts))" if "peek ts \<noteq> TEof" for b
    using advance_ok [OF Suc.prems(1) that] Suc.prems
    by (intro parsed_after_advance(2) [OF Suc.prems(1) that] Suc.IH) simp_all
  have bracket: "parsed 0 ts (bindR (bracket_suffix pf n pexpr base ts)
      (\<lambda>(base, ts). dot_loop pf n k pexpr base ts))" if "peek ts = TLBracket"
    by (rule parsed_bind [OF bracket_suffix_sound [OF assms Suc.prems(1,3) that]])
       (use Suc.prems in \<open>auto intro!: parsed_weaken [OF Suc.IH]\<close>)
  show ?case using step bracket Suc.prems(1) by (auto split: token.split)
qed

lemma postfix_loop_sound:
  assumes "sound W pexpr"
  shows "ends_eof ts \<Longrightarrow> weights ts \<le> k \<Longrightarrow> weights ts \<le> W
    \<Longrightarrow> parsed 0 ts (postfix_loop pf n k pexpr base ts)"
proof (induction k arbitrary: base ts)
  case 0
  then show ?case using weights_pos by fastforce
next
  case (Suc k)
  have step: "parsed 0 ts (postfix_loop pf n k pexpr b (advance (advance ts)))"
    if "peek ts = TDot" "peek2 ts \<noteq> TEof" for b
  proof -
    have noeof: "peek ts \<noteq> TEof" using that by simp
    note adv = advance_ok [OF Suc.prems(1) noeof]
    have noeof': "peek (advance ts) \<noteq> TEof"
      using peek2_advance [OF Suc.prems(1) noeof] that(2) by simp
    show ?thesis
      using adv advance_ok [OF adv(1) noeof'] Suc.prems
      by (intro parsed_after_advance(2) [OF Suc.prems(1) noeof]
          parsed_after_advance(2) [OF adv(1) noeof'] Suc.IH) simp_all
  qed
  have bracket: "parsed 0 ts (bindR (bracket_suffix pf n pexpr base ts)
      (\<lambda>(base, ts). postfix_loop pf n k pexpr base ts))" if "peek ts = TLBracket"
    by (rule parsed_bind [OF bracket_suffix_sound [OF assms Suc.prems(1,3) that]])
       (use Suc.prems in \<open>auto intro!: parsed_weaken [OF Suc.IH]\<close>)
  show ?case using step bracket Suc.prems(1) by (auto split: token.split)
qed

lemma string_parts_loop_sound:
  assumes src: "\<And>s e. length s + 1 < W \<Longrightarrow> psrc s = Inl e \<Longrightarrow> syntax_error e"
  shows "ends_eof ts \<Longrightarrow> weights ts \<le> k \<Longrightarrow> weights ts \<le> W
    \<Longrightarrow> parsed 0 ts (string_parts_loop k psrc parts ts)"
proof (induction k arbitrary: parts ts)
  case 0
  then show ?case using weights_pos by fastforce
next
  case (Suc k)
  have step: "parsed 0 ts (string_parts_loop k psrc ps (advance ts))" if "peek ts \<noteq> TEof" for ps
    using advance_ok [OF Suc.prems(1) that] Suc.prems
    by (intro parsed_after_advance(2) [OF Suc.prems(1) that] Suc.IH) simp_all
  have interp: "parsed 0 ts (bindR (psrc s)
      (\<lambda>inner. string_parts_loop k psrc (parts @ [IExpr inner]) (advance ts)))"
    if "peek ts = TInterp s" for s
  proof -
    have "length s + 1 < W"
      using advance_ok(2) [OF Suc.prems(1)] that Suc.prems(3) by simp
    from src [OF this] show ?thesis
      using step that by (cases "psrc s") (auto simp: parsed_def)
  qed
  show ?case using step interp Suc.prems(1) by (auto split: token.split)
qed

section \<open>Every grammar level is sound\<close>

definition parsers_sound :: "nat \<Rightarrow> parsers \<Rightarrow> bool" where
  "parsers_sound k P \<longleftrightarrow>
     (\<forall>n. sound k (p_expr P n) \<and> sound k (p_pipe P n) \<and> sound k (p_unary P n))
     \<and> (\<forall>s e. length s + 1 < k \<longrightarrow> p_source P s = Inl e \<longrightarrow> syntax_error e)"

lemma parsers_soundD:
  assumes "parsers_sound k P"
  shows "sound k (p_expr P n)" "sound k (p_pipe P n)" "sound k (p_unary P n)"
    "length s + 1 < k \<Longrightarrow> p_source P s = Inl e \<Longrightarrow> syntax_error e"
  using assms by (simp_all add: parsers_sound_def)

lemma parse_string_parts_sound:
  assumes P: "parsers_sound k P" and ts: "ends_eof ts" "weights ts \<le> k"
    and pk: "peek ts = TStr s \<or> peek ts = TInterp s"
  shows "parsed 1 ts (parse_string_parts k P ts)"
proof -
  have noeof: "peek ts \<noteq> TEof" using pk by auto
  note adv = advance_ok [OF ts(1) noeof]
  from ts obtain j where k: "k = Suc j" using weights_pos [OF ts(1)] by (cases k) auto
  have rest: "parsed 1 ts (string_parts_loop j (p_source P) ps (advance ts))" for ps
    using adv ts(2) k
    by (intro parsed_after_advance(1) [OF ts(1) noeof] string_parts_loop_sound [where W = k]
        parsers_soundD(4) [OF P]) simp_all
  have "parsed 1 ts (string_parts_loop k (p_source P) [] ts)"
  proof (cases "peek ts = TStr s")
    case True
    with rest k show ?thesis by simp
  next
    case False
    with pk have it: "peek ts = TInterp s" by simp
    with adv(2) ts(2) have "length s + 1 < k" by simp
    from parsers_soundD(4) [OF P this] rest it k show ?thesis
      by (cases "p_source P s") (auto simp: parsed_def)
  qed
  then show ?thesis
    unfolding parse_string_parts_def by (rule parsed_bind) simp
qed

lemma parse_object_key_sound:
  assumes P: "parsers_sound k P"
  shows "sound (Suc k) (parse_object_key pf n P)"
  unfolding sound_def
proof (intro allI impI)
  fix ts assume ts: "ends_eof ts \<and> weights ts < Suc k"
  note adv = advance_ok [of ts]
  have paren: "parsed 1 ts (bindR (p_pipe P n (advance ts)) (\<lambda>(e, ts).
      bindR (expect pf n TRParen (lit ''`)`'') ts) (\<lambda>ts. Inr (OComputed e, ts))))"
    if "peek ts = TLParen"
    apply (rule sound_bind [OF parsers_soundD(2) [OF P]])
    using adv ts that apply (simp, simp)
    apply (simp only: prod.case)
    apply (erule expect_bind)
    using adv ts that by auto
  show "parsed 1 ts (parse_object_key pf n P ts)"
    unfolding parse_object_key_def using adv ts paren by (auto split: token.split)
qed

lemma parse_object_sound:
  assumes P: "parsers_sound k P" and ts: "ends_eof ts" "weights ts \<le> k"
  shows "parsed 1 ts (parse_object pf n k P ts)"
  unfolding parse_object_def
proof (rule expect_bind [OF ts(1)])
  fix vs assume vs: "ends_eof vs" "weights vs < weights ts"
  show "parsed 1 ts (if peek vs = TRBrace then Inr (EObject [], advance vs)
      else bindR (object_loop pf n k (parse_object_key pf n P) (p_pipe P n) [] vs)
        (\<lambda>(entries, ts). bindR (expect pf n TRBrace (lit ''`}`'') ts)
          (\<lambda>ts. Inr (EObject entries, ts))))"
  proof (cases "peek vs = TRBrace")
    case True
    with vs advance_ok [of vs] show ?thesis by simp
  next
    case False
    have key: "sound k (parse_object_key pf n P)"
      using parse_object_key_sound [OF P, of pf n] by (simp add: sound_def)
    have "parsed 1 ts (bindR (object_loop pf n k (parse_object_key pf n P) (p_pipe P n) [] vs)
        (\<lambda>(entries, ts). bindR (expect pf n TRBrace (lit ''`}`'') ts)
          (\<lambda>ts. Inr (EObject entries, ts))))"
      apply (rule parsed_bind [OF object_loop_sound [OF key parsers_soundD(2) [OF P] vs(1)]])
      using vs ts apply (simp, simp)
      apply (simp only: prod.case)
      apply (erule expect_bind)
      using vs by auto
    with False show ?thesis by simp
  qed
qed simp

lemma parse_array_sound:
  assumes P: "parsers_sound k P" and ts: "ends_eof ts" "weights ts \<le> k"
  shows "parsed 1 ts (parse_array pf n k P ts)"
  unfolding parse_array_def
proof (rule expect_bind [OF ts(1)])
  fix vs assume vs: "ends_eof vs" "weights vs < weights ts"
  show "parsed 1 ts (if peek vs = TRBracket then Inr (EArray [], advance vs)
      else bindR (array_loop k (p_pipe P n) [] vs)
        (\<lambda>(elems, ts). bindR (expect pf n TRBracket (lit ''`]`'') ts)
          (\<lambda>ts. Inr (EArray elems, ts))))"
  proof (cases "peek vs = TRBracket")
    case True
    with vs advance_ok [of vs] show ?thesis by simp
  next
    case False
    have "parsed 1 ts (bindR (array_loop k (p_pipe P n) [] vs)
        (\<lambda>(elems, ts). bindR (expect pf n TRBracket (lit ''`]`'') ts)
          (\<lambda>ts. Inr (EArray elems, ts))))"
      apply (rule parsed_bind [OF array_loop_sound [OF parsers_soundD(2) [OF P] vs(1)]])
      using vs ts apply (simp, simp)
      apply (simp only: prod.case)
      apply (erule expect_bind)
      using vs by auto
    with False show ?thesis by simp
  qed
qed simp

lemma parse_args_sound:
  assumes "parsers_sound k P" "ends_eof ts" "weights ts < k"
  shows "parsed 0 ts (parse_args n k P ts)"
  using assms args_loop_sound [OF parsers_soundD(2) [OF assms(1)] assms(2), of k n "[]"]
  by (auto simp: parse_args_def intro: parsed_weaken)

lemma parse_else_tail_sound:
  assumes "parsers_sound k P" "ends_eof ts" "weights ts < k"
  shows "parsed 0 ts (parse_else_tail n P ts)"
proof (cases "peek ts = TIdent (lit ''else'')")
  case True
  with assms advance_ok [of ts] soundD [OF parsers_soundD(1) [OF assms(1)], of "advance ts" n]
  show ?thesis by (auto simp: parse_else_tail_def intro: parsed_weaken)
next
  case False
  with assms soundD [OF parsers_soundD(1) [OF assms(1)], of ts n]
  show ?thesis by (auto simp: parse_else_tail_def intro: parsed_weaken)
qed

lemma parse_if_sound:
  assumes P: "parsers_sound k P" and ts: "ends_eof ts" "weights ts \<le> k"
    and noeof: "peek ts \<noteq> TEof"
  shows "parsed 1 ts (parse_if pf n P ts)"
proof -
  note adv = advance_ok [OF ts(1) noeof]
  note pe = parsers_soundD(1) [OF P]
  have finish: "parsed 1 ts (bindR (parse_else_tail n P us) (\<lambda>(e, ts).
      bindR (expect_keyword pf n (lit ''end'') ts) (\<lambda>ts. Inr (f e, ts))))"
    if "ends_eof us" "weights us < weights ts" for us and f :: "expr \<Rightarrow> expr"
    apply (rule parsed_bind [OF parse_else_tail_sound [OF P that(1)]])
    using that ts apply simp
    apply (simp only: prod.case)
    apply (erule expect_keyword_bind)
    using that by simp
  have elif: "parsed 1 ts (bindR (p_expr P n (advance us)) (\<lambda>(elif_cond, ts).
      bindR (expect_keyword pf n (lit ''then'') ts) (\<lambda>ts.
      bindR (p_expr P n ts) (\<lambda>(elif_body, ts).
      bindR (parse_else_tail n P ts) (\<lambda>(else_branch, ts).
      bindR (expect_keyword pf n (lit ''end'') ts) (\<lambda>ts.
        Inr (EIf c t (EIf elif_cond elif_body else_branch), ts)))))))"
    if us: "ends_eof us" "weights us < weights ts" "peek us = TIdent (lit ''elif'')" for us c t
  proof -
    note adv' = advance_ok [OF us(1), unfolded us(3), simplified]
    show ?thesis
      apply (rule sound_bind [OF pe adv'(1)])
      using adv' us ts apply simp
      apply (simp only: prod.case)
      apply (erule expect_keyword_bind)
      apply (rule sound_bind [OF pe], assumption)
      using adv' us ts apply simp
      apply (simp only: prod.case)
      apply (rule finish, assumption)
      using adv' us by simp
  qed
  show ?thesis
    unfolding parse_if_def
    apply (rule sound_bind [OF pe adv(1)])
    using adv(3) ts apply simp
    apply (simp only: prod.case)
    apply (erule expect_keyword_bind)
    apply (rule sound_bind [OF pe], assumption)
    using adv(3) ts apply simp
    apply (simp only: prod.case split: if_split)
    apply (intro conjI impI)
     apply (rule elif, assumption)
    using adv(3) apply simp
     apply assumption
    apply (rule finish, assumption)
    using adv(3) by simp
qed

lemma parse_ident_primary_sound:
  assumes P: "parsers_sound k P" and ts: "ends_eof ts" "weights ts \<le> k"
    and pk: "peek ts = TIdent ident"
  shows "parsed 1 ts (parse_ident_primary pf n k P ident ts)"
proof -
  have noeof: "peek ts \<noteq> TEof" using pk by simp
  note adv = advance_ok [OF ts(1) noeof]
  have call: "parsed 1 ts (bindR (parse_args n k P (advance (advance ts))) (\<lambda>(args, ts).
      bindR (expect pf n TRParen (lit ''`)`'') ts) (\<lambda>ts. Inr (ECall ident args, ts))))"
    if "peek2 ts = TLParen"
  proof -
    have "peek (advance ts) \<noteq> TEof" using peek2_advance [OF ts(1) noeof] that by simp
    note adv' = advance_ok [OF adv(1) this]
    show ?thesis
      apply (rule parsed_bind [OF parse_args_sound [OF P adv'(1)]])
      using adv adv' ts apply simp
      apply (simp only: prod.case)
      apply (erule expect_bind)
      using adv adv' by auto
  qed
  show ?thesis
    using adv call parse_if_sound [OF P ts noeof] by (auto simp: parse_ident_primary_def)
qed

lemma parse_base_sound:
  assumes P: "parsers_sound k P" and ts: "ends_eof ts" "weights ts \<le> k"
  shows "parsed 1 ts (parse_base pf n k P ts)"
proof -
  note adv = advance_ok [OF ts(1)]
  have dot: "parsed 1 ts (dot_loop pf n k (p_expr P n) EIdentity (advance ts))"
    if "peek ts \<noteq> TEof"
    using adv [OF that] ts
    by (intro parsed_after_advance(1) [OF ts(1) that] dot_loop_sound [OF parsers_soundD(1) [OF P]])
       simp_all
  have paren: "parsed 1 ts (bindR (p_expr P n (advance ts)) (\<lambda>(e, ts).
      bindR (expect pf n TRParen (lit ''`)`'') ts) (\<lambda>ts. Inr (e, ts))))"
    if "peek ts \<noteq> TEof"
    apply (rule sound_bind [OF parsers_soundD(1) [OF P] adv(1) [OF that]])
    using adv [OF that] ts apply simp
    apply (simp only: prod.case)
    apply (erule expect_bind)
    using adv [OF that] by auto
  show ?thesis
    using adv dot paren parse_string_parts_sound [OF P ts] parse_array_sound [OF P ts]
      parse_object_sound [OF P ts] parse_ident_primary_sound [OF P ts]
    by (auto simp: parse_base_def split: token.split)
qed

lemma parse_postfix_sound:
  assumes P: "parsers_sound k P" and ts: "ends_eof ts" "weights ts \<le> k"
  shows "parsed 1 ts (parse_postfix pf n k P ts)"
  unfolding parse_postfix_def
  by (rule parsed_bind [OF parse_base_sound [OF P ts]])
     (use ts in \<open>auto intro!: parsed_weaken [OF postfix_loop_sound [OF parsers_soundD(1) [OF P]]]\<close>)

lemma parse_unary_sound:
  assumes P: "parsers_sound k P"
  shows "sound (Suc k) (parse_unary pf n k P)"
  unfolding sound_def
proof (intro allI impI)
  fix ts assume "ends_eof ts \<and> weights ts < Suc k"
  then have ts: "ends_eof ts" "weights ts \<le> k" by simp_all
  have pre: "parsed 1 ts (bindR (p_unary P n (advance ts)) (\<lambda>(inner, ts). Inr (f inner, ts)))"
    if "peek ts \<noteq> TEof" for f :: "expr \<Rightarrow> expr"
    by (rule sound_bind [OF parsers_soundD(3) [OF P] advance_ok(1) [OF ts(1) that]])
       (use ts advance_ok(3) [OF ts(1) that] in simp_all)
  from pre parse_postfix_sound [OF P ts] show "parsed 1 ts (parse_unary pf n k P ts)"
    by (auto simp: parse_unary_def)
qed

lemma left_assoc_sound:
  assumes sub: "sound (Suc k) sub" and opr: "opr TEof = None"
  shows "sound (Suc k) (left_assoc k opr sub)"
  unfolding sound_def left_assoc_def
proof (intro allI impI)
  fix ts assume ts: "ends_eof ts \<and> weights ts < Suc k"
  show "parsed 1 ts (bindR (sub ts) (\<lambda>(left, ts). left_loop k opr sub left ts))"
    by (rule parsed_bind [OF soundD [OF sub]])
       (use ts in \<open>auto intro!: parsed_weaken [OF left_loop_sound [where W = "Suc k"]] sub opr\<close>)
qed

lemma levels_sound:
  assumes P: "parsers_sound k P"
  shows "sound (Suc k) (parse_pipe pf n k P)" "sound (Suc k) (parse_expr pf n k P)"
proof -
  have "sound (Suc k) (parse_mult pf n k P)"
    unfolding parse_mult_def [abs_def] by (intro left_assoc_sound parse_unary_sound [OF P]) simp
  then have "sound (Suc k) (parse_additive pf n k P)"
    unfolding parse_additive_def [abs_def] by (intro left_assoc_sound) simp_all
  then have "sound (Suc k) (parse_compare pf n k P)"
    unfolding parse_compare_def [abs_def] by (intro left_assoc_sound) simp_all
  then have "sound (Suc k) (parse_and pf n k P)"
    unfolding parse_and_def [abs_def] by (intro left_assoc_sound) (simp_all add: and_op_def)
  then have "sound (Suc k) (parse_or pf n k P)"
    unfolding parse_or_def [abs_def] by (intro left_assoc_sound) (simp_all add: or_op_def)
  then show pipe: "sound (Suc k) (parse_pipe pf n k P)"
    unfolding parse_pipe_def [abs_def] by (intro left_assoc_sound) simp_all
  show "sound (Suc k) (parse_expr pf n k P)"
    unfolding sound_def parse_expr_def
  proof (intro allI impI)
    fix ts assume ts: "ends_eof ts \<and> weights ts < Suc k"
    have parts: "parsed 1 ts (bindR (comma_loop k (parse_pipe pf n k P) [e] us) (\<lambda>(parts, ts).
        if length parts = 1 then Inr (hd parts, ts) else Inr (EStream parts, ts)))"
      if "ends_eof us" "weights us < weights ts" for e us
      by (rule parsed_bind [OF comma_loop_sound [OF pipe that(1)]]) (use that ts in auto)
    show "parsed 1 ts (bindR (parse_pipe pf n k P ts) (\<lambda>(first, ts).
        bindR (comma_loop k (parse_pipe pf n k P) [first] ts) (\<lambda>(parts, ts).
          if length parts = 1 then Inr (hd parts, ts) else Inr (EStream parts, ts))))"
      by (rule parsed_bind [OF soundD [OF pipe]])
         (use ts parts in auto)
  qed
qed

lemma parse_source_sound:
  assumes P: "parsers_sound k P" and len: "length src + 1 \<le> k"
    and err: "parse_source pf k P src = Inl e"
  shows "syntax_error e"
proof (cases "tokenize pf src")
  case (Inl e')
  from tokenize_failure [OF this] Inl err show ?thesis
    by (auto simp: parse_source_def lex_failure_def syntax_error_def)
next
  case (Inr tokens)
  from tokenize_ok [OF this] len have "ends_eof tokens" "weights tokens < Suc k" by simp_all
  from soundD [OF levels_sound(2) [OF P] this, of pf "length tokens"] Inr err show ?thesis
    by (cases "parse_expr pf (length tokens) k P tokens")
       (auto simp: parse_source_def parsed_def split: if_splits)
qed

lemma parser_at_sound: "parsers_sound k (parser_at pf k)"
proof (induction k)
  case 0
  then show ?case by (simp add: parsers_sound_def sound_def)
next
  case (Suc k)
  then show ?case
    using levels_sound [OF Suc] parse_unary_sound [OF Suc] parse_source_sound [OF Suc]
    by (auto simp: parsers_sound_def Let_def Suc_le_eq)
qed

lemma parse_failure: "parse pf src = Inl e \<Longrightarrow> syntax_error e"
  unfolding parse_def by (erule parsers_soundD(4) [OF parser_at_sound, rotated]) simp

section \<open>Evaluation of the parser in the logic\<close>

text \<open>One level at a time, and only where it is called.\<close>

lemma parser_at_unfold:
  "p_source (parser_at pf (Suc k)) = parse_source pf k (parser_at pf k)"
  "p_expr (parser_at pf (Suc k)) n = parse_expr pf n k (parser_at pf k)"
  "p_pipe (parser_at pf (Suc k)) n = parse_pipe pf n k (parser_at pf k)"
  "p_unary (parser_at pf (Suc k)) n = parse_unary pf n k (parser_at pf k)"
  by (simp_all add: Let_def)

declare parser_at.simps [simp del]

lemmas lex_eval =
  tokenize_def tokenize_from.simps next_tokens_def skip_blank.simps is_whitespace_def
  two_char_token_def single_char_token_def read_ident_def span_def is_alphanumeric_def
  is_alphabetic_def is_ascii_digit_def

lemmas parse_eval =
  parse_source_def parse_expr_def parse_pipe_def parse_or_def parse_and_def parse_compare_def
  parse_additive_def parse_mult_def left_assoc_def parse_unary_def parse_postfix_def parse_base_def
  parse_ident_primary_def parse_if_def parse_else_tail_def parse_args_def
  or_op_def and_op_def expect_def expect_keyword_def peek_def peek2_def advance_def parser_at_unfold

end
