(* ===== verification/ExprEval.thy ===== *)
theory ExprEval
  imports ExprParser
begin

text \<open>
  The evaluator (eval.rs): an expression maps an input value to a stream of values, or fails.
  \<open>env\<close> is the map of variables.  Arithmetic on two integers is done in \<open>i64\<close>: with overflow
  checks (the development profile) an overflow panics, without (the release profile) it wraps.
\<close>

definition type_error :: "str \<Rightarrow> xfail" where
  "type_error m = XErr (TypeError m)"

definition eval_error :: "str \<Rightarrow> xfail" where
  "eval_error m = XErr (Eval m)"

section \<open>Values\<close>

definition json_int :: "i64 \<Rightarrow> json" where
  "json_int n = Number (number_of_i64 n)"

definition truthy :: "json \<Rightarrow> bool" where
  "truthy v \<longleftrightarrow> \<not> (v = Bool False \<or> v = Null)"

fun to_string :: "platform \<Rightarrow> json \<Rightarrow> str" where
  "to_string pf (String s) = s"
| "to_string pf (Bool True) = lit ''true''"
| "to_string pf (Bool False) = lit ''false''"
| "to_string pf Null = lit ''null''"
| "to_string pf v = json_text pf v"

definition quoted :: "platform \<Rightarrow> str \<Rightarrow> json \<Rightarrow> str" where
  "quoted pf m v = m @ lit ''`'' @ json_text pf v @ lit ''`''"

fun obj_field :: "str \<Rightarrow> json \<Rightarrow> json" where
  "obj_field name (Object m) = (case map_of m name of Some v \<Rightarrow> v | None \<Rightarrow> Null)"
| "obj_field name _ = Null"

fun field_access :: "json \<Rightarrow> str \<Rightarrow> json" where
  "field_access (Object m) name = (case map_of m name of Some v \<Rightarrow> v | None \<Rightarrow> Null)"
| "field_access (Array items) name = Array (map (obj_field name) items)"
| "field_access _ name = Null"

text \<open>The position a (possibly negative) index denotes in a sequence of length \<open>len\<close>.\<close>

definition real_index :: "number \<Rightarrow> nat \<Rightarrow> nat option" where
  "real_index n len =
     (let i = sint (f64_to_i64 (as_f64 n));
          real = (if i < 0 then int len + i else i)
      in if real < 0 \<or> int len \<le> real then None else Some (nat real))"

fun index_access :: "platform \<Rightarrow> json \<Rightarrow> json \<Rightarrow> xfail + json" where
  "index_access pf (Array items) idx =
     (case idx of
        Number n \<Rightarrow> Inr (case real_index n (length items) of Some i \<Rightarrow> items ! i | None \<Rightarrow> Null)
      | String s \<Rightarrow> Inr Null
      | other \<Rightarrow> Inl (type_error (quoted pf (lit ''array index must be a number, got '') other)))"
| "index_access pf (Object m) idx =
     (case idx of
        String s \<Rightarrow> Inr (case map_of m s of Some v \<Rightarrow> v | None \<Rightarrow> Null)
      | Number n \<Rightarrow> Inr Null
      | other \<Rightarrow> Inl (type_error (quoted pf (lit ''object index must be a string, got '') other)))"
| "index_access pf (String s) idx =
     (case idx of
        Number n \<Rightarrow> Inr (case real_index n (length s) of Some i \<Rightarrow> String [s ! i] | None \<Rightarrow> Null)
      | other \<Rightarrow> Inl (type_error (lit ''string index must be a number'')))"
| "index_access pf v idx = Inr Null"

section \<open>Strings\<close>

text \<open>\<open>str::split\<close>, with its rule for the empty separator.\<close>

function split_loop :: "str \<Rightarrow> str \<Rightarrow> str \<Rightarrow> str list" where
  "split_loop p acc [] = [acc]"
| "split_loop p acc (c # r) =
     (if starts_with (c # r) p then acc # split_loop p [] (drop (length p - 1) r)
      else split_loop p (acc @ [c]) r)"
  by pat_completeness auto
termination
  by (relation "measure (\<lambda>(p, acc, s). length s)") auto

definition split_str :: "str \<Rightarrow> str \<Rightarrow> str list" where
  "split_str s p =
     (if p = [] then [] # map (\<lambda>c. [c]) s @ [[]] else split_loop p [] s)"

fun str_contains :: "str \<Rightarrow> str \<Rightarrow> bool" where
  "str_contains [] n = (n = [])"
| "str_contains (c # r) n = (starts_with (c # r) n \<or> str_contains r n)"

fun join_strs :: "str \<Rightarrow> str list \<Rightarrow> str" where
  "join_strs sep [] = []"
| "join_strs sep [x] = x"
| "join_strs sep (x # y # ys) = x @ sep @ join_strs sep (y # ys)"

definition utf8_len :: "str \<Rightarrow> nat" where
  "utf8_len s = sum_list (map (\<lambda>c. if c < 0x80 then 1 else if c < 0x800 then 2
                                   else if c < 0x10000 then 3 else 4) s)"

text \<open>\<open>str::repeat\<close> panics when the result exceeds \<open>isize::MAX\<close> bytes.\<close>

definition repeat_str :: "str \<Rightarrow> nat \<Rightarrow> xfail + json" where
  "repeat_str s n =
     (if i64_max < int (utf8_len s * n) then Inl (XPanic (lit ''capacity overflow''))
      else Inr (String (concat (replicate n s))))"

definition strip_prefix :: "str \<Rightarrow> str \<Rightarrow> str" where
  "strip_prefix s p = (if starts_with s p then drop (length p) s else s)"

definition strip_suffix :: "str \<Rightarrow> str \<Rightarrow> str" where
  "strip_suffix s p = (if ends_with s p then take (length s - length p) s else s)"

section \<open>Comparison\<close>

text \<open>\<open>equal\<close> is the comparison \<open>num_equal\<close> of the data theory.\<close>

definition str_cmp :: "str \<Rightarrow> str \<Rightarrow> ordering" where
  "str_cmp a b = (if a < b then Less else if a = b then Equal else Greater)"

definition nat_cmp :: "nat \<Rightarrow> nat \<Rightarrow> ordering" where
  "nat_cmp a b = (if a < b then Less else if a = b then Equal else Greater)"

fun cmp_json :: "platform \<Rightarrow> json \<Rightarrow> json \<Rightarrow> xfail + ordering"
  and cmp_zip :: "platform \<Rightarrow> json list \<Rightarrow> json list \<Rightarrow> xfail + ordering"
where
  "cmp_json pf (Number a) (Number b) =
     Inr (case f64_partial_cmp (as_f64 a) (as_f64 b) of Some ord \<Rightarrow> ord | None \<Rightarrow> Equal)"
| "cmp_json pf (String a) (String b) = Inr (str_cmp a b)"
| "cmp_json pf (Array a) (Array b) =
     bindR (cmp_zip pf a b) (\<lambda>ord.
       Inr (if ord \<noteq> Equal then ord else nat_cmp (length a) (length b)))"
| "cmp_json pf l r =
     Inl (type_error (quoted pf (lit ''cannot compare '') l @ quoted pf (lit '' and '') r))"
| "cmp_zip pf (x # xs) (y # ys) =
     bindR (cmp_json pf x y) (\<lambda>ord. if ord \<noteq> Equal then Inr ord else cmp_zip pf xs ys)"
| "cmp_zip pf [] ys = Inr Equal"
| "cmp_zip pf (x # xs) [] = Inr Equal"

fun contains_value :: "json \<Rightarrow> json \<Rightarrow> bool" where
  "contains_value (String h) (String n) = str_contains h n"
| "contains_value (Array h) (Array n) =
     list_all (\<lambda>x. list_ex (\<lambda>y. contains_value y x) h) n"
| "contains_value (Object h) (Object n) =
     list_all (\<lambda>(k, v). case map_of h k of Some hv \<Rightarrow> contains_value hv v | None \<Rightarrow> False) n"
| "contains_value h n = num_equal h n"

fun flatten_into :: "json \<Rightarrow> json list" where
  "flatten_into (Array items) = concat (map flatten_into items)"
| "flatten_into other = [other]"

section \<open>Arithmetic\<close>

definition fits_i64 :: "int \<Rightarrow> bool" where
  "fits_i64 i \<longleftrightarrow> i64_min \<le> i \<and> i \<le> i64_max"

definition checked :: "platform \<Rightarrow> str \<Rightarrow> int \<Rightarrow> xfail + json" where
  "checked pf what i =
     (if overflow_checks pf \<and> \<not> fits_i64 i
      then Inl (XPanic (lit ''attempt to '' @ what @ lit '' with overflow''))
      else Inr (json_int (word_of_int i)))"

fun add_json :: "platform \<Rightarrow> json \<Rightarrow> json \<Rightarrow> xfail + json" where
  "add_json pf Null r = Inr r"
| "add_json pf l Null = Inr l"
| "add_json pf (Number a) (Number b) =
     (case (as_i64 a, as_i64 b) of
        (Some ai, Some bi) \<Rightarrow> checked pf (lit ''add'') (sint ai + sint bi)
      | _ \<Rightarrow> Inr (json_num (f64_add (as_f64 a) (as_f64 b))))"
| "add_json pf (String a) (String b) = Inr (String (a @ b))"
| "add_json pf (Array a) (Array b) = Inr (Array (a @ b))"
| "add_json pf (String a) b = Inr (String (a @ to_string pf b))"
| "add_json pf a (String b) = Inr (String (to_string pf a @ b))"
| "add_json pf (Object a) (Object b) = Inr (Object (map_extend b a))"
| "add_json pf l r =
     Inl (type_error (quoted pf (lit ''cannot add '') l @ quoted pf (lit '' and '') r))"

fun sub_json :: "platform \<Rightarrow> json \<Rightarrow> json \<Rightarrow> xfail + json" where
  "sub_json pf (Number a) (Number b) =
     (case (as_i64 a, as_i64 b) of
        (Some ai, Some bi) \<Rightarrow> checked pf (lit ''subtract'') (sint ai - sint bi)
      | _ \<Rightarrow> Inr (json_num (f64_sub (as_f64 a) (as_f64 b))))"
| "sub_json pf (Array a) (Array b) =
     Inr (Array (filter (\<lambda>x. \<not> list_ex (\<lambda>y. value_eq y x) b) a))"
| "sub_json pf l r =
     Inl (type_error (quoted pf (lit ''cannot subtract '') r @ quoted pf (lit '' from '') l))"

fun mul_json :: "platform \<Rightarrow> json \<Rightarrow> json \<Rightarrow> xfail + json" where
  "mul_json pf (Number a) (Number b) =
     (case (as_i64 a, as_i64 b) of
        (Some ai, Some bi) \<Rightarrow> checked pf (lit ''multiply'') (sint ai * sint bi)
      | _ \<Rightarrow> Inr (json_num (f64_mul (as_f64 a) (as_f64 b))))"
| "mul_json pf (String s) (Number n) =
     repeat_str s (f64_to_usize (f64_max (as_f64 n) (f64_of_int 0)))"
| "mul_json pf (Number n) (String s) =
     repeat_str s (f64_to_usize (f64_max (as_f64 n) (f64_of_int 0)))"
| "mul_json pf l r =
     Inl (type_error (quoted pf (lit ''cannot multiply '') l @ quoted pf (lit '' and '') r))"

fun div_json :: "platform \<Rightarrow> json \<Rightarrow> json \<Rightarrow> xfail + json" where
  "div_json pf (Number a) (Number b) =
     (if f64_eq (as_f64 b) (f64_of_int 0) then Inl (eval_error (lit ''division by zero''))
      else Inr (json_num (f64_div (as_f64 a) (as_f64 b))))"
| "div_json pf (String a) (String b) = Inr (Array (map String (split_str a b)))"
| "div_json pf l r =
     Inl (type_error (quoted pf (lit ''cannot divide '') l @ quoted pf (lit '' by '') r))"

text \<open>\<open>i64::MIN % -1\<close> panics in every profile.\<close>

definition rem_i64 :: "int \<Rightarrow> int \<Rightarrow> int" where
  "rem_i64 a b = (if a < 0 then - ((- a) mod \<bar>b\<bar>) else a mod \<bar>b\<bar>)"

fun mod_json :: "platform \<Rightarrow> json \<Rightarrow> json \<Rightarrow> xfail + json" where
  "mod_json pf (Number a) (Number b) =
     (case (as_i64 a, as_i64 b) of
        (Some ai, Some bi) \<Rightarrow>
          if bi = 0 then Inl (eval_error (lit ''modulo by zero''))
          else if sint ai = i64_min \<and> sint bi = - 1
          then Inl (XPanic (lit ''attempt to calculate the remainder with overflow''))
          else Inr (json_int (word_of_int (rem_i64 (sint ai) (sint bi))))
      | _ \<Rightarrow>
          if f64_eq (as_f64 b) (f64_of_int 0) then Inl (eval_error (lit ''modulo by zero''))
          else Inr (json_num (f64_rem (as_f64 a) (as_f64 b))))"
| "mod_json pf l r =
     Inl (type_error (quoted pf (lit ''cannot take '') l @ quoted pf (lit '' modulo '') r))"

definition apply_binop :: "platform \<Rightarrow> binop \<Rightarrow> json \<Rightarrow> json \<Rightarrow> xfail + json" where
  "apply_binop pf opr l r =
     (case opr of
        BAdd \<Rightarrow> add_json pf l r
      | BSub \<Rightarrow> sub_json pf l r
      | BMul \<Rightarrow> mul_json pf l r
      | BDiv \<Rightarrow> div_json pf l r
      | BMod \<Rightarrow> mod_json pf l r
      | BEq \<Rightarrow> Inr (Bool (num_equal l r))
      | BNe \<Rightarrow> Inr (Bool (\<not> num_equal l r))
      | BLt \<Rightarrow> bindR (cmp_json pf l r) (\<lambda>ord. Inr (Bool (ord = Less)))
      | BLe \<Rightarrow> bindR (cmp_json pf l r) (\<lambda>ord. Inr (Bool (ord \<noteq> Greater)))
      | BGt \<Rightarrow> bindR (cmp_json pf l r) (\<lambda>ord. Inr (Bool (ord = Greater)))
      | BGe \<Rightarrow> bindR (cmp_json pf l r) (\<lambda>ord. Inr (Bool (ord \<noteq> Less)))
      | _ \<Rightarrow> Inl (XPanic (lit ''handled above'')))"

section \<open>Built-in functions\<close>

text \<open>
  \<open>call_function\<close> gets its arguments as evaluators (each takes the input to run on); an argument
  is run only where the code runs it.  \<open>arg_first\<close> is the optional first argument's first output.
\<close>

type_synonym evaluator = "json \<Rightarrow> xfail + json list"

definition arg_first :: "evaluator list \<Rightarrow> json \<Rightarrow> xfail + json option" where
  "arg_first args input =
     (case args of [] \<Rightarrow> Inr None
      | f # _ \<Rightarrow> bindR (f input) (\<lambda>vs. Inr (case vs of [] \<Rightarrow> None | v # _ \<Rightarrow> Some v)))"

definition arg_str :: "evaluator list \<Rightarrow> json \<Rightarrow> xfail + str option" where
  "arg_str args input =
     bindR (arg_first args input) (\<lambda>v. Inr (case v of Some (String s) \<Rightarrow> Some s | _ \<Rightarrow> None))"

definition opt_str :: "str option \<Rightarrow> str" where
  "opt_str so = (case so of Some s \<Rightarrow> s | None \<Rightarrow> [])"

definition opt_json :: "json option \<Rightarrow> json" where
  "opt_json jo = (case jo of Some v \<Rightarrow> v | None \<Rightarrow> Null)"

fun type_name :: "json \<Rightarrow> str" where
  "type_name Null = lit ''null''"
| "type_name (Bool b) = lit ''boolean''"
| "type_name (Number n) = lit ''number''"
| "type_name (String s) = lit ''string''"
| "type_name (Array a) = lit ''array''"
| "type_name (Object m) = lit ''object''"

definition call_length :: "json \<Rightarrow> xfail + json list" where
  "call_length input =
     (case input of
        Bool b \<Rightarrow> Inl (type_error (lit ''length of unsupported type''))
      | Object m \<Rightarrow> Inr [json_num (f64_of_int (int (length m)))]
      | Array a \<Rightarrow> Inr [json_num (f64_of_int (int (length a)))]
      | String s \<Rightarrow> Inr [json_num (f64_of_int (int (length s)))]
      | Number n \<Rightarrow> Inr [json_num (f64_of_int (int (f64_to_usize (f64_abs (as_f64 n)))))]
      | Null \<Rightarrow> Inr [json_num (f64_of_int 0)])"

definition call_keys :: "json \<Rightarrow> xfail + json list" where
  "call_keys input =
     (case input of
        Object m \<Rightarrow> Inr [Array (map String (sort (map fst m)))]
      | Array a \<Rightarrow> Inr [Array (map (\<lambda>i. json_num (f64_of_int (int i))) [0..<length a])]
      | _ \<Rightarrow> Inl (type_error (lit ''keys of non-object/array'')))"

definition call_map :: "platform \<Rightarrow> evaluator list \<Rightarrow> json \<Rightarrow> xfail + json list" where
  "call_map pf args input =
     (case args of
        [] \<Rightarrow> Inl (eval_error (lit ''map requires a filter''))
      | f # _ \<Rightarrow>
          (case input of
             Array items \<Rightarrow> bindR (flat_mapR f items) (\<lambda>out. Inr [Array out])
           | other \<Rightarrow> Inl (type_error (quoted pf (lit ''map expects an array, got '') other))))"

definition call_select :: "evaluator list \<Rightarrow> json \<Rightarrow> xfail + json list" where
  "call_select args input =
     (case args of
        [] \<Rightarrow> Inl (eval_error (lit ''select requires a filter''))
      | f # _ \<Rightarrow>
          bindR (f input) (\<lambda>vs. Inr (if truthy (first_or Null vs) then [input] else [])))"

definition call_join :: "platform \<Rightarrow> evaluator list \<Rightarrow> json \<Rightarrow> xfail + json list" where
  "call_join pf args input =
     bindR (arg_str args input) (\<lambda>sep.
       case input of
         Array items \<Rightarrow> Inr [String (join_strs (opt_str sep) (map (to_string pf) items))]
       | other \<Rightarrow> Inl (type_error (quoted pf (lit ''join expects an array, got '') other)))"

definition call_tonumber :: "platform \<Rightarrow> json \<Rightarrow> xfail + json list" where
  "call_tonumber pf input =
     (case input of
        Number n \<Rightarrow> Inr [json_num (as_f64 n)]
      | String s \<Rightarrow>
          (case parse_f64 s of
             Some x \<Rightarrow> Inr [json_num x]
           | None \<Rightarrow> Inl (eval_error (lit ''cannot parse `'' @ s @ lit ''` as a number'')))
      | Bool b \<Rightarrow> Inr [json_num (f64_of_int (if b then 1 else 0))]
      | other \<Rightarrow> Inl (type_error (quoted pf (lit ''cannot convert '') other @ lit '' to number'')))"

definition call_affix :: "(str \<Rightarrow> str \<Rightarrow> bool) \<Rightarrow> evaluator list \<Rightarrow> json \<Rightarrow> xfail + json list" where
  "call_affix test args input =
     bindR (arg_str args input) (\<lambda>needle.
       case needle of
         None \<Rightarrow> Inl (eval_error (lit ''startswith/endswith requires a string''))
       | Some n \<Rightarrow>
           (case as_str input of
              None \<Rightarrow> Inl (type_error (lit ''startswith/endswith expects a string input''))
            | Some s \<Rightarrow> Inr [Bool (test s n)]))"

definition call_contains :: "evaluator list \<Rightarrow> json \<Rightarrow> xfail + json list" where
  "call_contains args input =
     bindR (arg_first args input) (\<lambda>needle. Inr [Bool (contains_value input (opt_json needle))])"

definition call_split :: "platform \<Rightarrow> evaluator list \<Rightarrow> json \<Rightarrow> xfail + json list" where
  "call_split pf args input =
     bindR (arg_str args input) (\<lambda>sep.
       case input of
         String s \<Rightarrow> Inr [Array (map String (split_str s (opt_str sep)))]
       | other \<Rightarrow> Inl (type_error (quoted pf (lit ''split expects a string, got '') other)))"

definition int_range :: "int \<Rightarrow> int \<Rightarrow> json list" where
  "int_range a b = map (\<lambda>i. json_num (f64_of_int i)) [a..b - 1]"

definition call_range :: "evaluator list \<Rightarrow> json \<Rightarrow> xfail + json list" where
  "call_range args input =
     bindR (mapR (\<lambda>f. f input) args) (\<lambda>streams.
     bindR (mapR (\<lambda>s. case s of
              v # _ \<Rightarrow> (case value_as_f64 v of
                         Some x \<Rightarrow> Inr x
                       | None \<Rightarrow> Inl (eval_error (lit ''range requires numbers'')))
            | [] \<Rightarrow> Inl (eval_error (lit ''range requires numbers''))) streams) (\<lambda>nums.
       Inr (case nums of
              [] \<Rightarrow> []
            | [n] \<Rightarrow> int_range 0 (sint (f64_to_i64 n))
            | n # m # _ \<Rightarrow> int_range (sint (f64_to_i64 n)) (sint (f64_to_i64 m)))))"

definition call_reverse :: "platform \<Rightarrow> json \<Rightarrow> xfail + json list" where
  "call_reverse pf input =
     (case input of
        Array items \<Rightarrow> Inr [Array (rev items)]
      | other \<Rightarrow> Inl (type_error (quoted pf (lit ''reverse expects an array, got '') other)))"

definition call_fromjson :: "platform \<Rightarrow> json \<Rightarrow> xfail + json list" where
  "call_fromjson pf input =
     (case as_str input of
        None \<Rightarrow> Inl (type_error (lit ''fromjson expects a string input''))
      | Some source \<Rightarrow>
          (case json_parse pf source of
             Inl e \<Rightarrow> Inl (eval_error (lit ''fromjson could not parse JSON: '' @ e))
           | Inr v \<Rightarrow> Inr [v]))"

fun add_all :: "platform \<Rightarrow> json \<Rightarrow> json list \<Rightarrow> xfail + json" where
  "add_all pf acc [] = Inr acc"
| "add_all pf acc (item # items) = bindR (add_json pf acc item) (\<lambda>acc. add_all pf acc items)"

definition call_add :: "platform \<Rightarrow> json \<Rightarrow> xfail + json list" where
  "call_add pf input =
     (case input of
        Array items \<Rightarrow> bindR (add_all pf Null items) (\<lambda>acc. Inr [acc])
      | other \<Rightarrow> Inr [other])"

definition call_has :: "evaluator list \<Rightarrow> json \<Rightarrow> xfail + json list" where
  "call_has args input =
     bindR (arg_first args input) (\<lambda>key.
       Inr [Bool (case input of
              Object m \<Rightarrow>
                map_of m (case as_str (opt_json key) of Some s \<Rightarrow> s | None \<Rightarrow> []) \<noteq> None
            | Array a \<Rightarrow>
                (case value_as_f64 (opt_json key) of
                   Some i \<Rightarrow> 0 \<le> sint (f64_to_i64 i) \<and> f64_to_usize i < length a
                 | None \<Rightarrow> False)
            | _ \<Rightarrow> False)])"

definition call_ascii :: "(nat \<Rightarrow> nat) \<Rightarrow> json \<Rightarrow> xfail + json list" where
  "call_ascii f input =
     (case as_str input of
        Some s \<Rightarrow> Inr [String (map f s)]
      | None \<Rightarrow> Inl (type_error (lit ''expects a string'')))"

definition call_trimstr :: "(str \<Rightarrow> str \<Rightarrow> str) \<Rightarrow> evaluator list \<Rightarrow> json \<Rightarrow> xfail + json list" where
  "call_trimstr strip args input =
     bindR (arg_str args input) (\<lambda>t.
       Inr [String (strip (opt_str (as_str input)) (opt_str t))])"

definition call_error :: "platform \<Rightarrow> evaluator list \<Rightarrow> json \<Rightarrow> xfail + json list" where
  "call_error pf args input =
     (case args of
        [] \<Rightarrow> Inl (eval_error (to_string pf input))
      | f # _ \<Rightarrow> bindR (f input) (\<lambda>vs. Inl (eval_error (to_string pf (first_or Null vs)))))"

definition call_number :: "platform \<Rightarrow> str \<Rightarrow> (f64 \<Rightarrow> f64) \<Rightarrow> json \<Rightarrow> xfail + json list" where
  "call_number pf name f input =
     (case input of
        Number n \<Rightarrow> Inr [json_num (f (as_f64 n))]
      | other \<Rightarrow> Inl (type_error (quoted pf (name @ lit '' of '') other)))"

text \<open>The filters by type; \<open>None\<close> when the name is none of them.\<close>

definition kind_filter :: "str \<Rightarrow> json \<Rightarrow> bool option" where
  "kind_filter name input =
     (if name = lit ''values'' then Some (input \<noteq> Null)
      else if name = lit ''arrays'' then Some (type_name input = lit ''array'')
      else if name = lit ''objects'' then Some (type_name input = lit ''object'')
      else if name = lit ''strings'' then Some (type_name input = lit ''string'')
      else if name = lit ''numbers'' then Some (type_name input = lit ''number'')
      else if name = lit ''booleans'' then Some (type_name input = lit ''boolean'')
      else if name = lit ''nulls'' then Some (input = Null)
      else None)"

definition call_function ::
  "platform \<Rightarrow> str \<Rightarrow> evaluator list \<Rightarrow> json \<Rightarrow> xfail + json list" where
  "call_function pf name args input =
     (if name = lit ''length'' then call_length input
      else if name = lit ''keys'' then call_keys input
      else if name = lit ''map'' then call_map pf args input
      else if name = lit ''select'' then call_select args input
      else if name = lit ''join'' then call_join pf args input
      else if name = lit ''tostring'' then Inr [String (to_string pf input)]
      else if name = lit ''tonumber'' then call_tonumber pf input
      else if name = lit ''startswith'' then call_affix starts_with args input
      else if name = lit ''endswith'' then call_affix ends_with args input
      else if name = lit ''contains'' then call_contains args input
      else if name = lit ''split'' then call_split pf args input
      else if name = lit ''empty'' then Inr []
      else if name = lit ''range'' then call_range args input
      else if name = lit ''first''
      then Inr [case input of Array a \<Rightarrow> first_or Null a | other \<Rightarrow> other]
      else if name = lit ''last''
      then Inr [case input of Array a \<Rightarrow> last_or Null a | other \<Rightarrow> other]
      else if name = lit ''flatten'' then Inr [Array (flatten_into input)]
      else if name = lit ''reverse'' then call_reverse pf input
      else if name = lit ''fromjson'' then call_fromjson pf input
      else if name = lit ''add'' then call_add pf input
      else if name = lit ''type'' then Inr [String (type_name input)]
      else if name = lit ''not'' then Inr [Bool (\<not> truthy input)]
      else if name = lit ''has'' then call_has args input
      else if name = lit ''ascii_downcase'' then call_ascii ascii_lower input
      else if name = lit ''ascii_upcase'' then call_ascii ascii_upper input
      else if name = lit ''ltrimstr'' then call_trimstr strip_prefix args input
      else if name = lit ''rtrimstr'' then call_trimstr strip_suffix args input
      else if name = lit ''error'' then call_error pf args input
      else if name = lit ''fabs'' then call_number pf name f64_abs input
      else if name = lit ''floor'' then call_number pf name f64_floor input
      else (case kind_filter name input of
              Some keep \<Rightarrow> Inr (if keep then [input] else [])
            | None \<Rightarrow> Inl (XErr (UnsupportedFunction name))))"

section \<open>Evaluation\<close>

definition extend_objects :: "str \<times> json list \<Rightarrow> vmap list \<Rightarrow> vmap list" where
  "extend_objects kv results =
     (case kv of (k, vs) \<Rightarrow>
        concat (map (\<lambda>obj.
          if vs = [] then [map_insert k Null obj] else map (\<lambda>v. map_insert k v obj) vs) results))"

fun eval :: "platform \<Rightarrow> vmap \<Rightarrow> expr \<Rightarrow> json \<Rightarrow> xfail + json list"
  and eval_part :: "platform \<Rightarrow> vmap \<Rightarrow> interp_part \<Rightarrow> json \<Rightarrow> xfail + str"
  and eval_key :: "platform \<Rightarrow> vmap \<Rightarrow> obj_key \<Rightarrow> json \<Rightarrow> xfail + str"
where
  "eval pf env EIdentity input = Inr [input]"
| "eval pf env (ELiteral v) input = Inr [v]"
| "eval pf env (EVariable name) input =
     (case map_of env name of
        Some v \<Rightarrow> Inr [v]
      | None \<Rightarrow> Inl (type_error (lit ''undefined variable `$'' @ name @ lit ''`'')))"
| "eval pf env (EStr parts) input =
     bindR (mapR (\<lambda>part. eval_part pf env part input) parts)
       (\<lambda>texts. Inr [String (concat texts)])"
| "eval pf env (EField base name) input =
     bindR (eval pf env base input) (\<lambda>vs. Inr (map (\<lambda>v. field_access v name) vs))"
| "eval pf env (EIndex base idx) input =
     bindR (eval pf env base input) (\<lambda>bases.
     bindR (eval pf env idx input) (\<lambda>ids.
       flat_mapR (\<lambda>v. mapR (index_access pf v) ids) bases))"
| "eval pf env (EIterate base) input =
     bindR (eval pf env base input) (\<lambda>vs.
       Inr (concat (map (\<lambda>v. case v of Array items \<Rightarrow> items | Object m \<Rightarrow> map snd m
                             | other \<Rightarrow> [other]) vs)))"
| "eval pf env (EBinary opr l r) input =
     bindR (eval pf env l input) (\<lambda>ls.
       if opr = BAnd then
         (if \<not> truthy (last_or Null ls) then Inr [Bool False]
          else bindR (eval pf env r input) (\<lambda>rs. Inr [Bool (truthy (last_or Null rs))]))
       else if opr = BOr then
         (if truthy (last_or Null ls) then Inr [Bool True]
          else bindR (eval pf env r input) (\<lambda>rs. Inr [Bool (truthy (last_or Null rs))]))
       else if opr = BAlternative then
         (if \<not> truthy (last_or Null ls) then eval pf env r input else Inr ls)
       else
         bindR (eval pf env r input) (\<lambda>rs.
           flat_mapR (\<lambda>lv. mapR (apply_binop pf opr lv) rs) ls))"
| "eval pf env (EUnary opr inner) input =
     bindR (eval pf env inner input) (\<lambda>vs.
       mapR (\<lambda>v. case opr of
               UNot \<Rightarrow> Inr (Bool (\<not> truthy v))
             | UNegate \<Rightarrow>
                 (case value_as_f64 v of
                    Some n \<Rightarrow> Inr (json_num (f64_neg n))
                  | None \<Rightarrow> Inl (type_error (quoted pf (lit ''cannot negate non-number '') v)))) vs)"
| "eval pf env (EPipe l r) input =
     bindR (eval pf env l input) (\<lambda>vs. flat_mapR (eval pf env r) vs)"
| "eval pf env (EArray elems) input =
     bindR (flat_mapR (\<lambda>e. eval pf env e input) elems) (\<lambda>vs. Inr [Array vs])"
| "eval pf env (EObject entries) input =
     bindR (mapR (\<lambda>(key, e).
              bindR (eval_key pf env key input)
                (\<lambda>k. bindR (eval pf env e input) (\<lambda>vs. Inr (k, vs)))) entries)
       (\<lambda>evaluated. Inr (map Object (fold extend_objects evaluated [[]])))"
| "eval pf env (EIf c t f) input =
     bindR (eval pf env c input) (\<lambda>vs.
       if truthy (first_or Null vs) then eval pf env t input else eval pf env f input)"
| "eval pf env (ECall name args) input =
     call_function pf name (map (\<lambda>e inp. eval pf env e inp) args) input"
| "eval pf env (EStream parts) input = flat_mapR (\<lambda>e. eval pf env e input) parts"
| "eval_part pf env (ILiteral s) input = Inr s"
| "eval_part pf env (IExpr e) input =
     bindR (eval pf env e input) (\<lambda>vs. Inr (to_string pf (last_or Null vs)))"
| "eval_key pf env (OIdent s) input = Inr s"
| "eval_key pf env (OStr s) input = Inr s"
| "eval_key pf env (OComputed e) input =
     bindR (eval pf env e input) (\<lambda>vs. Inr (to_string pf (last_or Null vs)))"

definition eval_single :: "platform \<Rightarrow> vmap \<Rightarrow> expr \<Rightarrow> json \<Rightarrow> xfail + json" where
  "eval_single pf env e input = bindR (eval pf env e input) (\<lambda>vs. Inr (last_or Null vs))"

end
