(* ===== verification/ExprLaws.thy ===== *)
theory ExprLaws
  imports ExprEval
begin

text \<open>
  Laws of the evaluator: which failures it can have and that it keeps values well formed, the
  exactness of its integer arithmetic, its order, and the library functions on strings.
\<close>

section \<open>Well-formedness and failures\<close>

text \<open>The panics of the code: integer overflow (checked builds), \<open>MIN % -1\<close>, and \<open>str::repeat\<close>.\<close>

definition overflow_panic :: "str \<Rightarrow> str" where
  "overflow_panic what = lit ''attempt to '' @ what @ lit '' with overflow''"

definition may_fail :: "platform \<Rightarrow> xfail \<Rightarrow> bool" where
  "may_fail pf e \<longleftrightarrow>
     (case e of
        XErr x \<Rightarrow> (case x of Lex p m \<Rightarrow> False | Parse p m \<Rightarrow> False | _ \<Rightarrow> True)
      | XPanic m \<Rightarrow>
          m = lit ''capacity overflow''
          \<or> m = lit ''attempt to calculate the remainder with overflow''
          \<or> (overflow_checks pf
             \<and> m \<in> overflow_panic ` {lit ''add'', lit ''subtract'', lit ''multiply''})
      | XFuel \<Rightarrow> False)"

definition value_result :: "platform \<Rightarrow> xfail + json \<Rightarrow> bool" where
  "value_result pf r \<longleftrightarrow> (case r of Inl e \<Rightarrow> may_fail pf e | Inr v \<Rightarrow> json_ok v)"

definition stream_result :: "platform \<Rightarrow> xfail + json list \<Rightarrow> bool" where
  "stream_result pf r \<longleftrightarrow>
     (case r of Inl e \<Rightarrow> may_fail pf e | Inr vs \<Rightarrow> (\<forall>v \<in> set vs. json_ok v))"

lemma may_fail_error [simp]:
  "may_fail pf (type_error m)" "may_fail pf (eval_error m)"
  "may_fail pf (XErr (UnsupportedFunction n))"
  by (simp_all add: may_fail_def type_error_def eval_error_def)

lemma may_fail_panic [simp]:
  "may_fail pf (XPanic (lit ''capacity overflow''))"
  "may_fail pf (XPanic (lit ''attempt to calculate the remainder with overflow''))"
  by (simp_all add: may_fail_def)

lemma value_result_simps [simp]:
  "value_result pf (Inl e) = may_fail pf e" "value_result pf (Inr v) = json_ok v"
  by (simp_all add: value_result_def)

lemma stream_result_simps [simp]:
  "stream_result pf (Inl e) = may_fail pf e"
  "stream_result pf (Inr vs) = (\<forall>v \<in> set vs. json_ok v)"
  by (simp_all add: stream_result_def)

lemma stream_bind:
  assumes "stream_result pf m"
    and "\<And>vs. \<forall>v \<in> set vs. json_ok v \<Longrightarrow> stream_result pf (f vs)"
  shows "stream_result pf (bindR m f)"
  using assms by (cases m) auto

lemma stream_mapR:
  assumes "\<And>x. x \<in> set xs \<Longrightarrow> value_result pf (f x)"
  shows "stream_result pf (mapR f xs)"
  using assms
proof (induction xs)
  case (Cons x xs)
  from Cons.prems [of x] Cons.IH Cons.prems show ?case
    by (cases "f x"; cases "mapR f xs") auto
qed simp

lemma stream_flat_mapR:
  assumes "\<And>x. x \<in> set xs \<Longrightarrow> stream_result pf (f x)"
  shows "stream_result pf (flat_mapR f xs)"
  using assms
proof (induction xs)
  case (Cons x xs)
  from Cons.prems [of x] Cons.IH Cons.prems show ?case
    by (cases "f x"; cases "flat_mapR f xs") auto
qed simp

lemma json_ok_num [simp]: "json_ok (json_num x)"
  by (auto simp: json_num_def number_of_f64_def split: option.split)

lemma json_ok_int [simp]: "json_ok (json_int n)"
  by (simp add: json_int_def)

lemma json_ok_last [simp]: "\<forall>v \<in> set vs. json_ok v \<Longrightarrow> json_ok (last_or Null vs)"
  by (auto simp: last_or_def)

lemma json_ok_first [simp]: "\<forall>v \<in> set vs. json_ok v \<Longrightarrow> json_ok (first_or Null vs)"
  by (cases vs) auto

lemma json_ok_lookup: "\<forall>(k, v) \<in> set m. json_ok v \<Longrightarrow> map_of m k = Some v \<Longrightarrow> json_ok v"
  by (auto dest: map_of_SomeD)

lemma json_ok_obj_field: "json_ok v \<Longrightarrow> json_ok (obj_field name v)"
  by (cases v) (auto split: option.split dest: json_ok_lookup)

lemma json_ok_field_access: "json_ok v \<Longrightarrow> json_ok (field_access v name)"
  by (cases v) (auto split: option.split intro: json_ok_obj_field dest: json_ok_lookup)

lemma real_index_less: "real_index n len = Some i \<Longrightarrow> i < len"
  by (auto simp: real_index_def Let_def split: if_splits)

lemma value_index_access: "json_ok v \<Longrightarrow> value_result pf (index_access pf v idx)"
  by (cases v; cases idx)
     (auto split: option.split dest: real_index_less json_ok_lookup)

lemma value_checked:
  "what \<in> {lit ''add'', lit ''subtract'', lit ''multiply''} \<Longrightarrow> value_result pf (checked pf what i)"
  by (auto simp: checked_def may_fail_def overflow_panic_def)

lemma value_repeat: "value_result pf (repeat_str s n)"
  by (simp add: repeat_str_def)

lemma json_ok_extend: "json_ok (Object a) \<Longrightarrow> json_ok (Object b) \<Longrightarrow> json_ok (Object (map_extend b a))"
  unfolding json_ok_Object_vmap by (rule vmap_ok_extend) (auto simp: vmap_ok_def)

lemma value_add:
  "json_ok l \<Longrightarrow> json_ok r \<Longrightarrow> value_result pf (add_json pf l r)"
  by (cases l; cases r)
     (auto simp del: json_ok_Object split: option.split intro: value_checked json_ok_extend)

lemma value_sub: "json_ok l \<Longrightarrow> json_ok r \<Longrightarrow> value_result pf (sub_json pf l r)"
  by (cases l; cases r) (auto split: option.split intro: value_checked)

lemma value_mul: "value_result pf (mul_json pf l r)"
  by (cases l; cases r) (auto split: option.split intro: value_checked value_repeat)

lemma value_div: "value_result pf (div_json pf l r)"
  by (cases l; cases r) auto

lemma value_mod: "value_result pf (mod_json pf l r)"
  by (cases l; cases r) (auto split: option.split)

lemma cmp_failure:
  "cmp_json pf l r = Inl e \<Longrightarrow> may_fail pf e"
  "cmp_zip pf xs ys = Inl e \<Longrightarrow> may_fail pf e"
proof (induction pf l r and pf xs ys rule: cmp_json_cmp_zip.induct)
  case (3 pf a b)
  then show ?case by (auto simp: bindR_eq_Inl)
next
  case (5 pf x xs y ys)
  then show ?case by (auto simp: bindR_eq_Inl split: if_splits)
qed auto

lemma value_binop:
  assumes "json_ok l" "json_ok r" "opr \<notin> {BAnd, BOr, BAlternative}"
  shows "value_result pf (apply_binop pf opr l r)"
proof -
  have "value_result pf (bindR (cmp_json pf l r) (\<lambda>ord. Inr (Bool (P ord))))" for P
    by (cases "cmp_json pf l r") (auto dest: cmp_failure)
  with assms show ?thesis
    by (cases opr) (simp_all add: apply_binop_def value_add value_sub value_mul value_div value_mod)
qed

definition evaluator_ok :: "platform \<Rightarrow> evaluator \<Rightarrow> bool" where
  "evaluator_ok pf f \<longleftrightarrow> (\<forall>v. json_ok v \<longrightarrow> stream_result pf (f v))"

lemma arg_first_ok:
  assumes "\<forall>f \<in> set args. evaluator_ok pf f" "json_ok input"
  shows "case arg_first args input of Inl e \<Rightarrow> may_fail pf e
         | Inr jo \<Rightarrow> (case jo of Some v \<Rightarrow> json_ok v | None \<Rightarrow> True)"
proof (cases args)
  case (Cons f fs)
  with assms have "stream_result pf (f input)" by (simp add: evaluator_ok_def)
  with Cons show ?thesis
    by (cases "f input") (auto simp: arg_first_def split: list.split)
qed (simp add: arg_first_def)

lemma arg_first_bind:
  assumes "\<forall>f \<in> set args. evaluator_ok pf f" "json_ok input"
    and "\<And>jo. stream_result pf (g jo)"
  shows "stream_result pf (bindR (arg_first args input) g)"
  using arg_first_ok [OF assms(1,2)] assms(3) by (cases "arg_first args input") auto

lemma arg_str_bind:
  assumes "\<forall>f \<in> set args. evaluator_ok pf f" "json_ok input"
    and "\<And>so. stream_result pf (g so)"
  shows "stream_result pf (bindR (arg_str args input) g)"
  using arg_first_ok [OF assms(1,2)] assms(3)
  unfolding arg_str_def by (cases "arg_first args input") auto

lemma flatten_into_ok: "json_ok v \<Longrightarrow> x \<in> set (flatten_into v) \<Longrightarrow> json_ok x"
  by (induction v rule: flatten_into.induct) auto

lemma add_all_ok:
  "json_ok acc \<Longrightarrow> \<forall>v \<in> set items. json_ok v \<Longrightarrow> value_result pf (add_all pf acc items)"
proof (induction items arbitrary: acc)
  case (Cons item items)
  from Cons.prems value_add [of acc item pf] Cons.IH show ?case
    by (cases "add_json pf acc item") auto
qed simp

lemma json_ok_int_range: "v \<in> set (int_range a b) \<Longrightarrow> json_ok v"
  by (auto simp: int_range_def)

lemma call_pure_ok:
  assumes "json_ok input"
  shows "stream_result pf (call_length input)" "stream_result pf (call_keys input)"
    "stream_result pf (call_tonumber pf input)" "stream_result pf (call_reverse pf input)"
    "stream_result pf (call_add pf input)" "stream_result pf (call_ascii h input)"
    "stream_result pf (call_number pf name g input)"
proof -
  show "stream_result pf (call_length input)" by (cases input) (simp_all add: call_length_def)
  show "stream_result pf (call_keys input)" by (cases input) (auto simp: call_keys_def)
  show "stream_result pf (call_tonumber pf input)"
    by (cases input) (auto simp: call_tonumber_def split: option.split)
  show "stream_result pf (call_reverse pf input)"
    using assms by (cases input) (auto simp: call_reverse_def)
  show "stream_result pf (call_ascii h input)" by (cases input) (simp_all add: call_ascii_def)
  show "stream_result pf (call_number pf name g input)"
    by (cases input) (simp_all add: call_number_def)
  show "stream_result pf (call_add pf input)"
  proof (cases input)
    case (Array items)
    with assms have "value_result pf (add_all pf Null items)" by (intro add_all_ok) auto
    with Array show ?thesis by (cases "add_all pf Null items") (simp_all add: call_add_def)
  qed (use assms in \<open>simp_all add: call_add_def\<close>)
qed

lemma call_range_ok:
  assumes "\<forall>f \<in> set args. evaluator_ok pf f" "json_ok input"
  shows "stream_result pf (call_range args input)"
proof -
  have errs: "mapR (\<lambda>f. f input) fs = Inl e \<Longrightarrow> \<forall>f \<in> set fs. evaluator_ok pf f \<Longrightarrow> may_fail pf e"
    for fs e
  proof (induction fs)
    case (Cons f fs)
    then have "stream_result pf (f input)" using assms(2) by (simp add: evaluator_ok_def)
    with Cons show ?case by (auto simp: bindR_eq_Inl)
  qed simp
  have nums: "mapR (\<lambda>s. case s of v # _ \<Rightarrow> (case value_as_f64 v of Some x \<Rightarrow> Inr x
        | None \<Rightarrow> Inl (eval_error m)) | [] \<Rightarrow> Inl (eval_error m)) ss = Inl e \<Longrightarrow> may_fail pf e"
    for ss m e
    by (induction ss) (auto simp: bindR_eq_Inl split: list.splits option.splits)
  have vals: "\<forall>v \<in> set (case ns of [] \<Rightarrow> [] | [n] \<Rightarrow> int_range 0 (sint (f64_to_i64 n))
      | n # m # _ \<Rightarrow> int_range (sint (f64_to_i64 n)) (sint (f64_to_i64 m))). json_ok v" for ns
    by (cases ns; cases "tl ns") (auto dest: json_ok_int_range)
  show ?thesis
    unfolding call_range_def
    using errs [OF _ assms(1)] nums vals
    by (cases "mapR (\<lambda>f. f input) args") (auto simp: stream_result_def bindR_def split: sum.split)
qed

lemma call_function_ok:
  assumes args: "\<forall>f \<in> set args. evaluator_ok pf f" and input: "json_ok input"
    and parse: "\<forall>s v. json_parse pf s = Inr v \<longrightarrow> json_ok v"
  shows "stream_result pf (call_function pf name args input)"
proof -
  have f: "stream_result pf (f v)" if "args = f # fs" "json_ok v" for f fs v
    using args that by (simp add: evaluator_ok_def)
  have "stream_result pf (call_map pf args input)"
  proof (cases args; cases input)
    fix f fs items assume eq: "args = f # fs" "input = Array items"
    with input f have "stream_result pf (flat_mapR f items)" by (intro stream_flat_mapR) auto
    with eq show ?thesis by (cases "flat_mapR f items") (simp_all add: call_map_def)
  qed (simp_all add: call_map_def)
  moreover have "stream_result pf (call_select args input)"
  proof (cases args)
    case (Cons g gs)
    with f [OF Cons input] input show ?thesis by (cases "g input") (auto simp: call_select_def)
  qed (simp add: call_select_def)
  moreover have "stream_result pf (call_error pf args input)"
  proof (cases args)
    case (Cons g gs)
    with f [OF Cons input] show ?thesis by (cases "g input") (auto simp: call_error_def)
  qed (simp add: call_error_def)
  moreover have "stream_result pf (call_join pf args input)"
    unfolding call_join_def by (rule arg_str_bind [OF args input]) (simp split: json.split)
  moreover have "stream_result pf (call_affix test args input)" for test
    unfolding call_affix_def by (rule arg_str_bind [OF args input]) (simp split: option.split)
  moreover have "stream_result pf (call_contains args input)"
    unfolding call_contains_def by (rule arg_first_bind [OF args input]) simp
  moreover have "stream_result pf (call_has args input)"
    unfolding call_has_def by (rule arg_first_bind [OF args input]) simp
  moreover have "stream_result pf (call_split pf args input)"
    unfolding call_split_def by (rule arg_str_bind [OF args input]) (auto split: json.split)
  moreover have "stream_result pf (call_trimstr strip args input)" for strip
    unfolding call_trimstr_def by (rule arg_str_bind [OF args input]) simp
  moreover have "stream_result pf (call_fromjson pf input)"
    using parse by (auto simp: call_fromjson_def split: option.split sum.split)
  moreover have "json_ok (case input of Array a \<Rightarrow> first_or Null a | other \<Rightarrow> other)"
    "json_ok (case input of Array a \<Rightarrow> last_or Null a | other \<Rightarrow> other)"
    using input by (cases input; simp)+
  ultimately show ?thesis
    using call_pure_ok [OF input] call_range_ok [OF args input] input flatten_into_ok [OF input]
    unfolding call_function_def by (simp split: option.split)
qed

text \<open>The literals of an expression are well-formed values.\<close>

fun literals_ok :: "expr \<Rightarrow> bool"
  and part_literals_ok :: "interp_part \<Rightarrow> bool"
  and key_literals_ok :: "obj_key \<Rightarrow> bool"
where
  "literals_ok EIdentity = True"
| "literals_ok (ELiteral v) = json_ok v"
| "literals_ok (EVariable name) = True"
| "literals_ok (EStr parts) = list_all part_literals_ok parts"
| "literals_ok (EField e name) = literals_ok e"
| "literals_ok (EIndex e i) = (literals_ok e \<and> literals_ok i)"
| "literals_ok (EIterate e) = literals_ok e"
| "literals_ok (EBinary opr l r) = (literals_ok l \<and> literals_ok r)"
| "literals_ok (EUnary opr e) = literals_ok e"
| "literals_ok (EPipe l r) = (literals_ok l \<and> literals_ok r)"
| "literals_ok (EArray es) = list_all literals_ok es"
| "literals_ok (EObject entries) =
     list_all (\<lambda>(key, e). key_literals_ok key \<and> literals_ok e) entries"
| "literals_ok (EIf c t f) = (literals_ok c \<and> literals_ok t \<and> literals_ok f)"
| "literals_ok (ECall name args) = list_all literals_ok args"
| "literals_ok (EStream es) = list_all literals_ok es"
| "part_literals_ok (ILiteral s) = True"
| "part_literals_ok (IExpr e) = literals_ok e"
| "key_literals_ok (OIdent s) = True"
| "key_literals_ok (OStr s) = True"
| "key_literals_ok (OComputed e) = literals_ok e"

lemma extend_objects_ok:
  assumes "\<forall>v \<in> set vs. json_ok v" "\<forall>m \<in> set ms. vmap_ok m"
  shows "\<forall>m \<in> set (extend_objects (k, vs) ms). vmap_ok m"
  using assms by (auto simp: extend_objects_def)

lemma fold_extend_objects_ok:
  assumes "\<forall>kv \<in> set kvs. \<forall>v \<in> set (snd kv). json_ok v" "\<forall>m \<in> set ms. vmap_ok m"
  shows "\<forall>m \<in> set (fold extend_objects kvs ms). vmap_ok m"
  using assms
proof (induction kvs arbitrary: ms)
  case (Cons kv kvs)
  obtain k vs where kv: "kv = (k, vs)" by force
  have "\<forall>m \<in> set (extend_objects (k, vs) ms). vmap_ok m"
    by (rule extend_objects_ok) (use Cons.prems kv in simp_all)
  from Cons.IH [OF _ this] Cons.prems(1) kv show ?case by (simp only: fold_Cons comp_def) simp
qed simp

definition text_result :: "platform \<Rightarrow> xfail + 'a \<Rightarrow> bool" where
  "text_result pf r \<longleftrightarrow> (\<forall>e. r = Inl e \<longrightarrow> may_fail pf e)"

lemma text_mapR: "\<forall>x \<in> set xs. text_result pf (f x) \<Longrightarrow> text_result pf (mapR f xs)"
proof (induction xs)
  case (Cons x xs)
  then show ?case
    by (cases "f x"; cases "mapR f xs") (simp_all add: text_result_def)
qed (simp add: text_result_def)

lemma eval_result:
  fixes e :: expr and part :: interp_part and key :: obj_key
  assumes env: "vmap_ok env" and parse: "\<forall>s v. json_parse pf s = Inr v \<longrightarrow> json_ok v"
  shows "literals_ok e \<Longrightarrow> json_ok input \<Longrightarrow> stream_result pf (eval pf env e input)"
    and "key_literals_ok key \<Longrightarrow> json_ok input \<Longrightarrow> text_result pf (eval_key pf env key input)"
    and "part_literals_ok part \<Longrightarrow> json_ok input \<Longrightarrow> text_result pf (eval_part pf env part input)"
proof (induction e and key and part arbitrary: input and input and input)
  case (EVariable name)
  then show ?case using env by (auto split: option.split intro: vmap_ok_lookup)
next
  case (EField e name)
  then show ?case by (auto intro!: stream_bind json_ok_field_access)
next
  case (EIndex e i)
  then show ?case
    by (auto intro!: stream_bind stream_flat_mapR stream_mapR value_index_access)
next
  case (EIterate e)
  have items: "\<forall>x \<in> set (case v of Array items \<Rightarrow> items | Object m \<Rightarrow> map snd m | other \<Rightarrow> [other]).
      json_ok x" if "json_ok v" for v
    using that by (cases v) auto
  show ?case
    unfolding eval.simps by (rule stream_bind [OF EIterate.IH]) (use EIterate.prems items in auto)
next
  case (EStr parts)
  have "text_result pf (mapR (\<lambda>part. eval_part pf env part input) parts)"
    using EStr by (intro text_mapR) (auto simp: list_all_iff)
  then show ?case by (cases "mapR (\<lambda>part. eval_part pf env part input) parts") (auto simp: text_result_def)
next
  case (EBinary opr l r)
  show ?case
  proof (cases "opr \<in> {BAnd, BOr, BAlternative}")
    case True
    then show ?thesis using EBinary by (auto intro!: stream_bind)
  next
    case False
    then show ?thesis using EBinary
      by (auto intro!: stream_bind stream_flat_mapR stream_mapR value_binop)
  qed
next
  case (EUnary opr e)
  have "value_result pf (case opr of UNot \<Rightarrow> Inr (Bool (\<not> truthy v))
     | UNegate \<Rightarrow> (case value_as_f64 v of Some n \<Rightarrow> Inr (json_num (f64_neg n))
         | None \<Rightarrow> Inl (type_error (quoted pf (lit ''cannot negate non-number '') v))))" for v
    by (cases opr) (simp_all split: option.split)
  with EUnary show ?case by (auto intro!: stream_bind stream_mapR)
next
  case (EPipe l r)
  then show ?case by (auto intro!: stream_bind stream_flat_mapR)
next
  case (EArray es)
  then show ?case by (auto simp: list_all_iff intro!: stream_bind stream_flat_mapR)
next
  case (EObject entries)
  let ?f = "\<lambda>(key, e). bindR (eval_key pf env key input)
      (\<lambda>k. bindR (eval pf env e input) (\<lambda>vs. Inr (k, vs)))"
  have one: "text_result pf (?f x) \<and> (\<forall>k vs. ?f x = Inr (k, vs) \<longrightarrow> (\<forall>v \<in> set vs. json_ok v))"
    if x: "x \<in> set entries" for x
  proof -
    obtain key e where xe: "x = (key, e)" by force
    with x EObject.prems have ok: "key_literals_ok key" "literals_ok e"
      by (auto simp: list_all_iff)
    from EObject.IH(1) [OF x, of key] xe ok EObject.prems
    have "text_result pf (eval_key pf env key input)" by simp
    moreover from EObject.IH(2) [OF x, of e] xe ok EObject.prems
    have "stream_result pf (eval pf env e input)" by simp
    ultimately show ?thesis
      using xe by (auto simp: text_result_def stream_result_def bindR_eq_Inl bindR_eq_Inr)
  qed
  show ?case
  proof (cases "mapR ?f entries")
    case (Inl err)
    moreover have "text_result pf (mapR ?f entries)" using one by (intro text_mapR) blast
    ultimately show ?thesis by (simp add: text_result_def)
  next
    case (Inr kvs)
    have "\<forall>kv \<in> set kvs. \<forall>v \<in> set (snd kv). json_ok v"
      using one mapR_Inr_set [OF Inr] by (metis prod.collapse)
    from fold_extend_objects_ok [OF this, of "[[]]"] Inr show ?thesis
      by (auto simp: json_ok_Object_vmap simp del: json_ok_Object)
  qed
next
  case (EIf c t f)
  then show ?case by (auto intro!: stream_bind)
next
  case (ECall name args)
  then show ?case
    by (auto simp: evaluator_ok_def list_all_iff intro!: call_function_ok parse)
next
  case (EStream es)
  then show ?case by (auto simp: list_all_iff intro!: stream_flat_mapR)
next
  case (OComputed e)
  then have "stream_result pf (eval pf env e input)" by simp
  then show ?case by (cases "eval pf env e input") (simp_all add: text_result_def)
next
  case (IExpr e)
  then have "stream_result pf (eval pf env e input)" by simp
  then show ?case by (cases "eval pf env e input") (simp_all add: text_result_def)
qed (simp_all add: text_result_def)

section \<open>The parser produces well-formed literals\<close>

definition yields :: "('a \<Rightarrow> bool) \<Rightarrow> 'a pres \<Rightarrow> bool" where
  "yields Q r \<longleftrightarrow> (\<forall>x ts. r = Inr (x, ts) \<longrightarrow> Q x)"

lemma yields_Inr [simp]: "yields Q (Inr (x, ts)) \<longleftrightarrow> Q x"
  by (auto simp: yields_def)

lemma yields_Inl [simp]: "yields Q (Inl e)"
  by (simp add: yields_def)

lemma yields_bind:
  "yields Q m \<Longrightarrow> (\<And>x ts. Q x \<Longrightarrow> yields Q' (f (x, ts))) \<Longrightarrow> yields Q' (bindR m f)"
  unfolding yields_def by (cases m) (auto, blast)

lemma yields_expect: "(\<And>ts. yields Q (f ts)) \<Longrightarrow> yields Q (bindR (expect pf n t w us) f)"
  by (simp add: expect_def)

lemma yields_keyword: "(\<And>ts. yields Q (f ts)) \<Longrightarrow> yields Q (bindR (expect_keyword pf n w us) f)"
  by (simp add: expect_keyword_def)

definition op_ok :: "(token \<Rightarrow> (expr \<Rightarrow> expr \<Rightarrow> expr) option) \<Rightarrow> bool" where
  "op_ok opr \<longleftrightarrow>
     (\<forall>t mk l r. opr t = Some mk \<longrightarrow> literals_ok l \<longrightarrow> literals_ok r \<longrightarrow> literals_ok (mk l r))"

lemma ops_ok:
  "op_ok pipe_op" "op_ok or_op" "op_ok and_op" "op_ok compare_op" "op_ok additive_op" "op_ok mult_op"
proof -
  show "op_ok pipe_op" unfolding op_ok_def by (auto elim: pipe_op.elims)
  show "op_ok or_op" "op_ok and_op" unfolding op_ok_def by (auto simp: or_op_def and_op_def)
  show "op_ok compare_op" unfolding op_ok_def by (auto elim: compare_op.elims)
  show "op_ok additive_op" unfolding op_ok_def by (auto elim: additive_op.elims)
  show "op_ok mult_op" unfolding op_ok_def by (auto elim: mult_op.elims)
qed

lemma left_loop_yields:
  assumes "\<And>ts. yields literals_ok (sub ts)" "op_ok opr"
  shows "literals_ok left \<Longrightarrow> yields literals_ok (left_loop k opr sub left ts)"
proof (induction k arbitrary: left ts)
  case (Suc k)
  with assms(2) show ?case
    by (auto simp: op_ok_def split: option.split intro!: yields_bind [OF assms(1)])
qed simp

lemma left_assoc_yields:
  assumes "\<And>ts. yields literals_ok (sub ts)" "op_ok opr"
  shows "yields literals_ok (left_assoc k opr sub ts)"
  unfolding left_assoc_def by (rule yields_bind [OF assms(1)]) (simp add: left_loop_yields assms)

lemma list_loops_yield:
  assumes "\<And>ts. yields literals_ok (sub ts)"
  shows "list_all literals_ok es \<Longrightarrow> yields (list_all literals_ok) (comma_loop k sub es ts)"
    and "list_all literals_ok es \<Longrightarrow> yields (list_all literals_ok) (args_loop k sub es ts)"
    and "list_all literals_ok es \<Longrightarrow> yields (list_all literals_ok) (array_loop k sub es ts)"
proof (induction k arbitrary: es ts)
  case (Suc k)
  {
    case 1
    with Suc.IH(1) show ?case by (auto intro!: yields_bind [OF assms])
  next
    case 2
    with Suc.IH(2) show ?case by (auto intro!: yields_bind [OF assms])
  next
    case 3
    with Suc.IH(3) show ?case
      by (auto simp: Let_def intro!: yields_bind [OF assms] split: expr.split)
  }
qed simp_all

abbreviation entries_ok :: "(obj_key \<times> expr) list \<Rightarrow> bool" where
  "entries_ok \<equiv> list_all (\<lambda>(key, e). key_literals_ok key \<and> literals_ok e)"

lemma object_loop_yields:
  assumes "\<And>ts. yields key_literals_ok (key ts)" "\<And>ts. yields literals_ok (val ts)"
  shows "entries_ok es \<Longrightarrow> yields entries_ok (object_loop pf n k key val es ts)"
proof (induction k arbitrary: es ts)
  case (Suc k)
  then show ?case
    by (auto simp: Let_def intro!: yields_bind [OF assms(1)] yields_bind [OF assms(2)] yields_expect)
qed simp

lemma bracket_suffix_yields:
  assumes "\<And>ts. yields literals_ok (pexpr ts)" "literals_ok base"
  shows "yields literals_ok (bracket_suffix pf n pexpr base ts)"
  using assms(2) by (auto simp: bracket_suffix_def intro!: yields_bind [OF assms(1)] yields_expect)

lemma chain_yields:
  assumes "\<And>ts. yields literals_ok (pexpr ts)"
  shows "literals_ok base \<Longrightarrow> yields literals_ok (dot_loop pf n k pexpr base ts)"
    and "literals_ok base \<Longrightarrow> yields literals_ok (postfix_loop pf n k pexpr base ts)"
proof (induction k arbitrary: base ts)
  case (Suc k)
  {
    case 1
    with Suc.IH(1) show ?case
      by (auto intro!: yields_bind [OF bracket_suffix_yields [OF assms]] split: token.split)
  next
    case 2
    with Suc.IH(2) show ?case
      by (auto intro!: yields_bind [OF bracket_suffix_yields [OF assms]] split: token.split)
  }
qed simp_all

definition source_ok :: "(str \<Rightarrow> xfail + expr) \<Rightarrow> bool" where
  "source_ok psrc \<longleftrightarrow> (\<forall>s e. psrc s = Inr e \<longrightarrow> literals_ok e)"

lemma string_parts_loop_yields:
  assumes "source_ok psrc"
  shows "list_all part_literals_ok ps
    \<Longrightarrow> yields (list_all part_literals_ok) (string_parts_loop k psrc ps ts)"
proof (induction k arbitrary: ps ts)
  case (Suc k)
  have "yields (list_all part_literals_ok)
      (bindR (psrc s) (\<lambda>inner. string_parts_loop k psrc (ps @ [IExpr inner]) (advance ts)))" for s
    using Suc assms by (cases "psrc s") (auto simp: source_ok_def)
  with Suc show ?case by (auto split: token.split)
qed simp

definition parsers_yield :: "parsers \<Rightarrow> bool" where
  "parsers_yield P \<longleftrightarrow>
     source_ok (p_source P)
     \<and> (\<forall>n ts. yields literals_ok (p_expr P n ts) \<and> yields literals_ok (p_pipe P n ts)
              \<and> yields literals_ok (p_unary P n ts))"

lemma parsers_yieldD:
  assumes "parsers_yield P"
  shows "source_ok (p_source P)" "yields literals_ok (p_expr P n ts)"
    "yields literals_ok (p_pipe P n ts)" "yields literals_ok (p_unary P n ts)"
  using assms by (simp_all add: parsers_yield_def)

lemma object_key_yields:
  assumes P: "parsers_yield P"
  shows "yields key_literals_ok (parse_object_key pf n P ts)"
  by (auto simp: parse_object_key_def split: token.split
      intro!: yields_bind [OF parsers_yieldD(3) [OF P]] yields_expect)

lemma base_parts_yield:
  assumes P: "parsers_yield P"
  shows "yields literals_ok (parse_string_parts k P ts)"
  "yields literals_ok (parse_object pf n k P ts)"
  "yields literals_ok (parse_array pf n k P ts)"
  "yields (list_all literals_ok) (parse_args n k P ts)"
  "yields literals_ok (parse_else_tail n P ts)"
proof -
  show "yields literals_ok (parse_string_parts k P ts)"
    unfolding parse_string_parts_def
    by (rule yields_bind [OF string_parts_loop_yields [OF parsers_yieldD(1) [OF P]]]) simp_all
  show "yields literals_ok (parse_object pf n k P ts)"
    unfolding parse_object_def
    by (auto intro!: yields_expect
        yields_bind [OF object_loop_yields [OF object_key_yields [OF P] parsers_yieldD(3) [OF P]]])
  show "yields literals_ok (parse_array pf n k P ts)"
    unfolding parse_array_def
    by (auto intro!: yields_expect yields_bind [OF list_loops_yield(3) [OF parsers_yieldD(3) [OF P]]])
  show "yields (list_all literals_ok) (parse_args n k P ts)"
    by (auto simp: parse_args_def intro!: list_loops_yield(2) parsers_yieldD(3) [OF P])
  show "yields literals_ok (parse_else_tail n P ts)"
    by (auto simp: parse_else_tail_def intro!: parsers_yieldD(2) [OF P])
qed

lemma if_yields:
  assumes P: "parsers_yield P"
  shows "yields literals_ok (parse_if pf n P ts)"
  unfolding parse_if_def
  by (auto intro!: yields_bind [OF parsers_yieldD(2) [OF P]] yields_keyword
      yields_bind [OF base_parts_yield(5) [OF P]])

lemma ident_primary_yields:
  assumes P: "parsers_yield P"
  shows "yields literals_ok (parse_ident_primary pf n k P ident ts)"
  by (auto simp: parse_ident_primary_def if_yields [OF P]
      intro!: yields_bind [OF base_parts_yield(4) [OF P]] yields_expect)

lemma base_yields:
  assumes P: "parsers_yield P"
  shows "yields literals_ok (parse_base pf n k P ts)"
  by (auto simp: parse_base_def base_parts_yield [OF P] ident_primary_yields [OF P] split: token.split
      intro!: chain_yields(1) parsers_yieldD(2) [OF P] yields_bind [OF parsers_yieldD(2) [OF P]]
        yields_expect)

lemma postfix_yields:
  assumes P: "parsers_yield P"
  shows "yields literals_ok (parse_postfix pf n k P ts)"
  unfolding parse_postfix_def
  by (auto intro!: yields_bind [OF base_yields [OF P]] chain_yields(2) parsers_yieldD(2) [OF P])

lemma unary_yields:
  assumes P: "parsers_yield P"
  shows "yields literals_ok (parse_unary pf n k P ts)"
  by (auto simp: parse_unary_def postfix_yields [OF P] intro!: yields_bind [OF parsers_yieldD(4) [OF P]])

lemma levels_yield:
  assumes P: "parsers_yield P"
  shows "yields literals_ok (parse_pipe pf n k P ts)" "yields literals_ok (parse_expr pf n k P ts)"
proof -
  show pipe: "yields literals_ok (parse_pipe pf n k P ts)" for ts
    unfolding parse_pipe_def parse_or_def [abs_def] parse_and_def [abs_def] parse_compare_def [abs_def]
      parse_additive_def [abs_def] parse_mult_def [abs_def]
    by (intro left_assoc_yields ops_ok unary_yields [OF P])
  show "yields literals_ok (parse_expr pf n k P ts)"
    unfolding parse_expr_def
    by (rule yields_bind [OF pipe]) (auto intro!: yields_bind [OF list_loops_yield(1) [OF pipe]]
        simp: length_Suc_conv)
qed

lemma source_yields:
  assumes P: "parsers_yield P"
  shows "source_ok (parse_source pf k P)"
  using levels_yield(2) [OF P]
  by (fastforce simp: source_ok_def parse_source_def yields_def bindR_eq_Inr split: if_splits)

lemma parser_at_yields: "parsers_yield (parser_at pf k)"
proof (induction k)
  case 0
  then show ?case by (simp add: parsers_yield_def parser_at.simps source_ok_def)
next
  case (Suc k)
  then show ?case
    by (simp add: parsers_yield_def parser_at_unfold source_yields [OF Suc] levels_yield [OF Suc] unary_yields [OF Suc])
qed

lemma parse_literals_ok: "parse pf src = Inr e \<Longrightarrow> literals_ok e"
  using parser_at_yields [of pf "length src + 2"]
  by (auto simp: parse_def parsers_yield_def source_ok_def)


end
