(* ===== verification/ExprOps.thy ===== *)
theory ExprOps
  imports ExprLaws
begin

section \<open>Integer arithmetic\<close>

definition int_value :: "json \<Rightarrow> int option" where
  "int_value v = (case v of Number n \<Rightarrow> map_option sint (as_i64 n) | _ \<Rightarrow> None)"

lemma as_i64_of_i64 [simp]: "as_i64 (number_of_i64 w) = Some w"
proof (cases "sint w < 0")
  case False
  have "sint w = (uint w + 2 ^ 63) mod 2 ^ 64 - 2 ^ 63"
    using int_word_sint [where 'a = 64, of "uint w"] by simp
  with False have "uint w = sint w"
    using uint_lt2p [of w] uint_ge_0 [of w] by (simp add: mod_add_if_z split: if_splits)
  moreover have "sint w \<le> i64_max" using sint_lt [of w] by (simp add: i64_max_def)
  ultimately show ?thesis using False by (simp add: number_of_i64_def)
qed (simp add: number_of_i64_def)

lemma int_value_json_int [simp]: "int_value (json_int w) = Some (sint w)"
  by (simp add: int_value_def json_int_def)

lemma sint_word_of_int_fits: "fits_i64 i \<Longrightarrow> sint (word_of_int i :: i64) = i"
  by (simp add: fits_i64_def i64_min_def i64_max_def int_word_sint)

lemma fits_sint [simp]: "fits_i64 (sint (w :: i64))"
  using sint_lt [of w] sint_ge [of w] by (simp add: fits_i64_def i64_min_def i64_max_def)

lemma int_value_SomeE:
  assumes "int_value v = Some x"
  obtains n w where "v = Number n" "as_i64 n = Some w" "x = sint w"
  using assms by (auto simp: int_value_def split: json.splits)

lemma checked_fits: "fits_i64 i \<Longrightarrow> checked pf what i = Inr (json_int (word_of_int i))"
  by (simp add: checked_def)

fun int_op :: "binop \<Rightarrow> (int \<Rightarrow> int \<Rightarrow> int) option" where
  "int_op BAdd = Some (+)"
| "int_op BSub = Some (-)"
| "int_op BMul = Some (*)"
| "int_op _ = None"

fun op_verb :: "binop \<Rightarrow> str" where
  "op_verb BAdd = lit ''add''"
| "op_verb BSub = lit ''subtract''"
| "op_verb _ = lit ''multiply''"

lemma apply_binop_int:
  assumes "int_op opr = Some g" "int_value l = Some x" "int_value r = Some y"
  shows "apply_binop pf opr l r = checked pf (op_verb opr) (g x y)"
  using assms by (cases opr) (auto simp: apply_binop_def elim!: int_value_SomeE)

lemma int_arithmetic_exact_aux:
  assumes "int_op opr = Some g" "int_value l = Some x" "int_value r = Some y" "fits_i64 (g x y)"
  shows "\<exists>v. apply_binop pf opr l r = Inr v \<and> int_value v = Some (g x y)"
  using assms by (simp add: apply_binop_int checked_fits sint_word_of_int_fits)

lemma sint_word_of_int_mod: "(sint (word_of_int i :: i64) - i) mod 2 ^ 64 = 0"
proof -
  have "sint (word_of_int i :: i64) mod 2 ^ 64 = i mod 2 ^ 64"
    by (simp add: int_word_sint mod_simps)
  then show ?thesis by (simp add: mod_diff_cong mod_eq_dvd_iff)
qed

text \<open>The truncated remainder.\<close>

lemma rem_i64_props:
  assumes "b \<noteq> 0"
  shows "b dvd (a - rem_i64 a b)" "\<bar>rem_i64 a b\<bar> < \<bar>b\<bar>"
    "rem_i64 a b \<noteq> 0 \<Longrightarrow> (rem_i64 a b < 0 \<longleftrightarrow> a < 0)"
proof -
  have abs: "b dvd c \<longleftrightarrow> \<bar>b\<bar> dvd c" for c by simp
  show "b dvd (a - rem_i64 a b)"
  proof (cases "a < 0")
    case True
    have "\<bar>b\<bar> dvd (- a - (- a) mod \<bar>b\<bar>)" by (rule dvd_minus_mod)
    then have "\<bar>b\<bar> dvd - (- a - (- a) mod \<bar>b\<bar>)" by (simp only: dvd_minus_iff)
    with True show ?thesis by (simp add: rem_i64_def algebra_simps)
  next
    case False
    have "\<bar>b\<bar> dvd (a - a mod \<bar>b\<bar>)" by (rule dvd_minus_mod)
    then have "b dvd (a - a mod \<bar>b\<bar>)" by (simp only: abs_dvd_iff)
    with False show ?thesis by (simp add: rem_i64_def)
  qed
  show "\<bar>rem_i64 a b\<bar> < \<bar>b\<bar>" using assms by (simp add: rem_i64_def)
  have "0 \<le> c mod \<bar>b\<bar>" for c using assms by simp
  then show "rem_i64 a b \<noteq> 0 \<Longrightarrow> (rem_i64 a b < 0 \<longleftrightarrow> a < 0)"
    by (auto simp: rem_i64_def order.strict_iff_order) (metis antisym neg_0_le_iff_le)
qed

lemma mod_json_int:
  assumes "int_value l = Some x" "int_value r = Some y" "y \<noteq> 0" "\<not> (x = i64_min \<and> y = - 1)"
  shows "\<exists>v. mod_json pf l r = Inr v \<and> int_value v = Some (rem_i64 x y)"
proof -
  from assms(1,2) obtain a w b u where lr: "l = Number a" "as_i64 a = Some w" "x = sint w"
      "r = Number b" "as_i64 b = Some u" "y = sint u" by (auto elim!: int_value_SomeE)
  have "\<bar>rem_i64 x y\<bar> \<le> \<bar>x\<bar>"
    using assms(3) zmod_le_nonneg_dividend [of "\<bar>x\<bar>" "\<bar>y\<bar>"] by (auto simp: rem_i64_def)
  moreover have "\<bar>rem_i64 x y\<bar> < \<bar>y\<bar>" by (rule rem_i64_props(2) [OF assms(3)])
  ultimately have "fits_i64 (rem_i64 x y)"
    using fits_sint [of w] fits_sint [of u] lr by (auto simp: fits_i64_def i64_min_def i64_max_def)
  then show ?thesis
    using lr assms(3,4) by (auto simp: sint_word_of_int_fits)
qed

section \<open>Small integers as floats\<close>

lemma f64_2_53: "f64_of_int 9007199254740992 = Finite False (2 ^ 52) 1"
  by code_simp

lemma f64_eq_zero: "f64_eq (f64_zero s) (f64_of_int 0)"
  by (cases s) (simp_all add: f64_zero_def f64_of_int_def f64_of_dyadic_def f64_eq_def f64_align_def sig_def)

lemma json_num_of_int:
  assumes "\<bar>i\<bar> < 2 ^ 53"
  shows "json_num (f64_of_int i) = json_int (word_of_int i)"
proof -
  have "f64_to_int_sat i64_min i64_max (f64_of_int i) = i"
    using assms by (intro f64_to_int_of_int) (auto simp: i64_min_def i64_max_def)
  moreover have "f64_lt (f64_abs (f64_of_int i)) (f64_of_int 9007199254740992)"
    using f64_abs_of_int_small [OF assms] by (simp only: f64_2_53)
  ultimately show ?thesis using assms
    by (simp add: json_num_def f64_fract_of_int f64_eq_zero
        f64_to_i64_def json_int_def)
qed

lemma as_f64_of_i64: "as_f64 (number_of_i64 (word_of_int i)) = f64_of_int i" if "fits_i64 i"
proof (cases "i < 0")
  case True
  with that show ?thesis by (simp add: number_of_i64_def sint_word_of_int_fits)
next
  case False
  with that have "uint (word_of_int i :: i64) = i"
    by (simp add: fits_i64_def i64_max_def uint_word_of_int)
  with that False show ?thesis by (simp add: number_of_i64_def sint_word_of_int_fits)
qed

lemma real_index_int:
  assumes "\<bar>i\<bar> < 2 ^ 53"
  shows "real_index (number_of_i64 (word_of_int i)) len =
    (if 0 \<le> i \<and> i < int len then Some (nat i)
     else if i < 0 \<and> 0 \<le> int len + i then Some (nat (int len + i))
     else None)"
proof -
  have fits: "fits_i64 i" using assms by (auto simp: fits_i64_def i64_min_def i64_max_def)
  have "f64_to_int_sat i64_min i64_max (f64_of_int i) = i"
    using assms by (intro f64_to_int_of_int) (auto simp: i64_min_def i64_max_def)
  with fits have "sint (f64_to_i64 (as_f64 (number_of_i64 (word_of_int i)))) = i"
    by (simp add: as_f64_of_i64 f64_to_i64_def sint_word_of_int_fits)
  then show ?thesis by (auto simp: real_index_def Let_def)
qed

section \<open>The order\<close>

lemma str_cmp_flip: "str_cmp b a = flip_ordering (str_cmp a b)"
  by (auto simp: str_cmp_def)

lemma nat_cmp_flip: "nat_cmp b a = flip_ordering (nat_cmp a b)"
  by (auto simp: nat_cmp_def)

lemma flip_eq_Equal [simp]: "flip_ordering c = Equal \<longleftrightarrow> c = Equal"
  by (cases c) simp_all

lemma cmp_flip:
  "cmp_json pf l r = Inr c \<Longrightarrow> cmp_json pf r l = Inr (flip_ordering c)"
  "cmp_zip pf xs ys = Inr c \<Longrightarrow> cmp_zip pf ys xs = Inr (flip_ordering c)"
proof (induction pf l r and pf xs ys arbitrary: c and c rule: cmp_json_cmp_zip.induct)
  case (1 pf a b)
  then show ?case
    by (auto simp: f64_partial_cmp_flip [of "as_f64 b" "as_f64 a"] split: option.splits)
next
  case (2 pf a b)
  then show ?case by (simp add: str_cmp_flip [of b a])
next
  case (3 pf a b)
  then obtain d where "cmp_zip pf a b = Inr d" "c = (if d \<noteq> Equal then d else nat_cmp (length a) (length b))"
    by (auto simp: bindR_eq_Inr)
  with 3 show ?case by (auto simp: nat_cmp_flip [of "length b" "length a"])
next
  case (5 pf x xs y ys)
  then obtain d where d: "cmp_json pf x y = Inr d"
    by (auto simp: bindR_eq_Inr)
  from 5(1) [OF d] 5(2) [OF d] 5(3) d show ?case by (auto split: if_splits)
next
  case (6 pf ys)
  then show ?case by (cases ys) auto
next
  case (7 pf x xs)
  then show ?case by auto
qed auto

lemma nat_cmp_Equal [simp]: "nat_cmp a b = Equal \<longleftrightarrow> a = b"
  by (auto simp: nat_cmp_def)

lemma cmp_equal_iff:
  "cmp_json pf l r = Inr c \<Longrightarrow> json_ok l \<Longrightarrow> json_ok r \<Longrightarrow> c = Equal \<longleftrightarrow> num_equal l r"
  "cmp_zip pf xs ys = Inr c \<Longrightarrow> \<forall>x \<in> set xs. json_ok x \<Longrightarrow> \<forall>y \<in> set ys. json_ok y
    \<Longrightarrow> c = Equal \<longleftrightarrow> num_equal_all xs ys"
proof (induction pf l r and pf xs ys arbitrary: c and c rule: cmp_json_cmp_zip.induct)
  case (1 pf a b)
  then have "f64_partial_cmp (as_f64 a) (as_f64 b) \<noteq> None"
    by (intro f64_partial_cmp_total as_f64_finite) simp_all
  with 1 show ?case by (auto simp: f64_eq_def split: option.splits)
next
  case (2 pf a b)
  then show ?case by (auto simp: str_cmp_def split: if_splits)
next
  case (3 pf a b)
  then show ?case by (auto simp: bindR_eq_Inr split: if_splits)
next
  case (5 pf x xs y ys)
  then obtain d where d: "cmp_json pf x y = Inr d"
    by (auto simp: bindR_eq_Inr)
  from 5(1) [OF d] 5(2) [OF d] 5(3-) d show ?case by (auto split: if_splits)
next
  case (6 pf ys)
  then show ?case by (cases ys) auto
next
  case (7 pf x xs)
  then show ?case by auto
qed auto

section \<open>Strings\<close>

lemma join_Cons_ne: "ys \<noteq> [] \<Longrightarrow> join_strs sep (x # ys) = x @ sep @ join_strs sep ys"
  by (cases ys) simp_all

lemma split_loop_ne [simp]: "split_loop p acc s \<noteq> []"
  by (induction p acc s rule: split_loop.induct) auto

lemma join_split_loop: "p \<noteq> [] \<Longrightarrow> join_strs p (split_loop p acc s) = acc @ s"
proof (induction p acc s rule: split_loop.induct)
  case (2 p acc c r)
  show ?case
  proof (cases "starts_with (c # r) p")
    case True
    then obtain t where t: "c # r = p @ t" by (auto simp: starts_with_iff)
    with 2(3) have "drop (length p - 1) r = t" by (cases p) auto
    with 2 True have "join_strs p (split_loop p acc (c # r)) = acc @ p @ t"
      by (simp add: join_Cons_ne)
    with t show ?thesis by simp
  next
    case False
    with 2 show ?thesis by simp
  qed
qed simp

lemma join_empty_sep: "join_strs [] xs = concat xs"
  by (induction "[] :: str" xs rule: join_strs.induct) simp_all

lemma join_split: "join_strs p (split_str s p) = s"
  by (simp add: split_str_def join_split_loop join_empty_sep)

section \<open>Objects\<close>

text \<open>The outputs that an entry offers: an empty output counts as one \<open>null\<close>.\<close>

definition entry_outputs :: "json list \<Rightarrow> json list" where
  "entry_outputs vs = (if vs = [] then [Null] else vs)"

lemma extend_objects_eq:
  "extend_objects (k, vs) ms = concat (map (\<lambda>m. map (\<lambda>v. map_insert k v m) (entry_outputs vs)) ms)"
  by (simp add: extend_objects_def entry_outputs_def cong: map_cong)

text \<open>An object per choice of one output for every entry, the first entry varying slowest.\<close>

lemma fold_extend_objects_choices:
  "fold extend_objects kvs ms =
     concat (map (\<lambda>m. map (\<lambda>choice. map_extend (zip (map fst kvs) choice) m)
       (product_lists (map (entry_outputs \<circ> snd) kvs))) ms)"
proof (induction kvs arbitrary: ms)
  case (Cons kv kvs)
  obtain k vs where kv: "kv = (k, vs)" by force
  have flat: "concat (map g (concat (map f xs))) = concat (map (\<lambda>x. concat (map g (f x))) xs)"
    for f :: "vmap \<Rightarrow> vmap list" and g :: "vmap \<Rightarrow> vmap list" and xs
    by (induction xs) simp_all
  have one: "concat (map (\<lambda>v. map (\<lambda>choice. map_extend (zip (map fst kvs) choice) (map_insert k v m)) cs) vs)
      = map (\<lambda>choice. map_extend (zip (k # map fst kvs) choice) m) (concat (map (\<lambda>v. map ((#) v) cs) vs))"
    for m cs vs
    by (induction vs) simp_all
  show ?case
    by (simp add: kv extend_objects_eq Cons.IH flat comp_def flip: one)
qed simp

lemma objects_of_choices:
  "list_all2 (\<lambda>choice m. map_ok m \<and> (\<forall>k. map_of m k = map_of (rev (zip (map fst kvs) choice)) k))
     (product_lists (map (entry_outputs \<circ> snd) kvs)) (fold extend_objects kvs [[]])"
  by (auto simp: fold_extend_objects_choices list_all2_conv_all_nth map_of_map_extend map_ok_map_extend
      split: option.split)

end
