(* ===== verification/ExprEngine.thy ===== *)
theory ExprEngine
  imports ExprOps
begin

text \<open>
  The \<open>jq\<close> engine (engine.rs of the expressions crate): a source string is one \<open>${ ... }\<close>
  block, a template with several blocks, or plain text; templates are evaluated piecewise.
  Positions in the character vector are counted from the part of it that a function scans.
\<close>

datatype piece = PLit str | PExpr expr

datatype prepared = PreparedExpr expr | PreparedPlain str | PreparedInterp "piece list"

section \<open>Finding blocks\<close>

text \<open>
  The inner loop over a string literal, from the character the outer loop stands on: whether it
  stops before the end of the vector.
\<close>

function skip_string :: "str \<Rightarrow> bool" where
  "skip_string [] = False"
| "skip_string (c # r) =
     (if c = 92 then skip_string (drop 1 r) else if c = 34 then True else skip_string r)"
  by pat_completeness auto
termination
  by (relation "measure length") auto

fun block_close :: "int \<Rightarrow> nat \<Rightarrow> str \<Rightarrow> nat option" where
  "block_close depth i [] = None"
| "block_close depth i (c # r) =
     (if c = 123 then block_close (depth + 1) (i + 1) r
      else if c = 125 then
        (if depth - 1 = 0 then Some i else block_close (depth - 1) (i + 1) r)
      else if c = 34 then
        (if skip_string (c # r) then block_close depth (i + 1) r else None)
      else block_close depth (i + 1) r)"

definition find_block_close :: "str \<Rightarrow> nat \<Rightarrow> nat option" where
  "find_block_close chars opn = block_close 0 opn (drop opn chars)"

definition first_non_ws :: "str \<Rightarrow> nat option" where
  "first_non_ws chars = position (\<lambda>c. \<not> is_whitespace c) chars"

definition char_at :: "str \<Rightarrow> nat \<Rightarrow> nat option" where
  "char_at chars i = (if i < length chars then Some (chars ! i) else None)"

definition single_block :: "str \<Rightarrow> str option" where
  "single_block source =
     (case first_non_ws source of
        None \<Rightarrow> None
      | Some start \<Rightarrow>
          if char_at source start \<noteq> Some 36 \<or> char_at source (start + 1) \<noteq> Some 123 then None
          else
            (case find_block_close source (start + 1) of
               None \<Rightarrow> None
             | Some close \<Rightarrow>
                 if \<not> list_all is_whitespace (drop (close + 1) source) then None
                 else Some (trim (drop (start + 2) (take close source)))))"

text \<open>
  \<open>parse_blocks\<close>: \<open>n\<close> is the length of the source, the last argument what is left of it.
\<close>

definition flush_piece :: "piece list \<Rightarrow> str \<Rightarrow> piece list" where
  "flush_piece pieces literal = (if literal = [] then pieces else pieces @ [PLit literal])"

function parse_blocks_loop ::
  "platform \<Rightarrow> nat \<Rightarrow> piece list \<Rightarrow> str \<Rightarrow> str \<Rightarrow> xfail + piece list" where
  "parse_blocks_loop pf n pieces literal [] =
     (let pieces = flush_piece pieces literal
      in Inr (if pieces = [] then [PLit []] else pieces))"
| "parse_blocks_loop pf n pieces literal (c # r) =
     (if c = 36 \<and> char_at r 0 = Some 123 then
        (case find_block_close r 0 of
           None \<Rightarrow> Inl (XErr (Parse (n - length (c # r)) (lit ''unterminated `${` block'')))
         | Some close \<Rightarrow>
             bindR (parse pf (trim (drop 1 (take close r)))) (\<lambda>e.
               parse_blocks_loop pf n (flush_piece pieces literal @ [PExpr e]) []
                 (drop (close + 1) r)))
      else parse_blocks_loop pf n pieces (literal @ [c]) r)"
  by pat_completeness auto
termination
  by (relation "measure (\<lambda>(pf, n, pieces, literal, s). length s)") auto

definition parse_blocks :: "platform \<Rightarrow> str \<Rightarrow> xfail + piece list" where
  "parse_blocks pf source = parse_blocks_loop pf (length source) [] [] source"

definition prepare :: "platform \<Rightarrow> str \<Rightarrow> xfail + prepared" where
  "prepare pf source =
     (let trimmed = trim source
      in case single_block trimmed of
           Some inner \<Rightarrow> bindR (parse pf inner) (\<lambda>e. Inr (PreparedExpr e))
         | None \<Rightarrow>
             if str_contains trimmed [36, 123]
             then bindR (parse_blocks pf trimmed) (\<lambda>ps. Inr (PreparedInterp ps))
             else Inr (PreparedPlain source))"

section \<open>Evaluation of prepared sources\<close>

definition piece_text :: "platform \<Rightarrow> vmap \<Rightarrow> json \<Rightarrow> piece \<Rightarrow> xfail + str" where
  "piece_text pf env input p =
     (case p of
        PLit s \<Rightarrow> Inr s
      | PExpr e \<Rightarrow> bindR (eval pf env e input) (\<lambda>vs. Inr (to_string pf (last_or Null vs))))"

definition interpolate :: "platform \<Rightarrow> vmap \<Rightarrow> piece list \<Rightarrow> json \<Rightarrow> xfail + json" where
  "interpolate pf env pieces input =
     bindR (mapR (piece_text pf env input) pieces) (\<lambda>texts. Inr (String (concat texts)))"

fun evaluate_value :: "platform \<Rightarrow> prepared \<Rightarrow> json \<Rightarrow> vmap \<Rightarrow> xfail + json" where
  "evaluate_value pf (PreparedExpr e) input vars = eval_single pf vars e input"
| "evaluate_value pf (PreparedPlain s) input vars =
     bindR (parse pf s) (\<lambda>e. eval_single pf vars e input)"
| "evaluate_value pf (PreparedInterp pieces) input vars = interpolate pf vars pieces input"

fun evaluate_interp :: "platform \<Rightarrow> prepared \<Rightarrow> json \<Rightarrow> vmap \<Rightarrow> xfail + json" where
  "evaluate_interp pf (PreparedExpr e) input vars = eval_single pf vars e input"
| "evaluate_interp pf (PreparedPlain s) input vars = Inr (String s)"
| "evaluate_interp pf (PreparedInterp pieces) input vars = interpolate pf vars pieces input"

section \<open>The engine interface\<close>

text \<open>
  The trait's error carries the display text; \<open>from_expression_error\<close> is the \<open>From\<close> impl of the
  crate.  A panic is no value of the trait and stays apart.
\<close>

record core_expr_error =
  cee_message :: str
  cee_expression :: "str option"

datatype engine_failure = EngineError core_expr_error | EnginePanic str

fun from_expression_error :: "xfail \<Rightarrow> engine_failure" where
  "from_expression_error (XErr e) =
     EngineError \<lparr>cee_message = expr_error_text e, cee_expression = None\<rparr>"
| "from_expression_error (XPanic m) = EnginePanic m"
| "from_expression_error XFuel = EnginePanic (lit ''fuel'')"

definition core_error_text :: "core_expr_error \<Rightarrow> str" where
  "core_error_text e =
     (case cee_expression e of
        Some x \<Rightarrow> lit ''expression error in `'' @ x @ lit ''`: '' @ cee_message e
      | None \<Rightarrow> lit ''expression error: '' @ cee_message e)"

definition map_err :: "('e \<Rightarrow> 'f) \<Rightarrow> 'e + 'a \<Rightarrow> 'f + 'a" where
  "map_err f r = (case r of Inl e \<Rightarrow> Inl (f e) | Inr x \<Rightarrow> Inr x)"

record compiled_expression =
  ce_source :: str
  ce_data :: prepared

definition engine_compile :: "platform \<Rightarrow> str \<Rightarrow> engine_failure + compiled_expression" where
  "engine_compile pf source =
     bindR (map_err from_expression_error (prepare pf source)) (\<lambda>p.
       Inr \<lparr>ce_source = source, ce_data = p\<rparr>)"

definition engine_evaluate ::
  "platform \<Rightarrow> compiled_expression \<Rightarrow> json \<Rightarrow> vmap \<Rightarrow> engine_failure + json" where
  "engine_evaluate pf c input vars =
     map_err from_expression_error (evaluate_value pf (ce_data c) input vars)"

definition engine_is_expression :: "str \<Rightarrow> bool" where
  "engine_is_expression value = starts_with (trim_start value) [36, 123]"

definition engine_evaluate_interpolation ::
  "platform \<Rightarrow> str \<Rightarrow> json \<Rightarrow> vmap \<Rightarrow> engine_failure + json" where
  "engine_evaluate_interpolation pf source input vars =
     bindR (engine_compile pf source) (\<lambda>c.
       map_err from_expression_error (evaluate_interp pf (ce_data c) input vars))"

section \<open>Laws\<close>

lemma block_close_bounds: "block_close d i s = Some c \<Longrightarrow> i \<le> c \<and> c < i + length s"
proof (induction s arbitrary: d i)
  case (Cons x s)
  have next': "block_close d' (Suc i) s = Some c \<Longrightarrow> i \<le> c \<and> c < i + length (x # s)" for d'
    using Cons.IH [of d' "Suc i"] by simp
  from Cons.prems show ?case
    by (auto dest: next' split: if_splits)
qed simp

text \<open>The loop over a string literal stops where it starts.\<close>

lemma skip_string_quote: "skip_string (34 # r)"
  by simp

lemma block_close_quote:
  "block_close d i (34 # r) = block_close d (i + 1) r"
  by simp

text \<open>So the closing brace is found by counting braces alone.\<close>

fun brace_close :: "int \<Rightarrow> nat \<Rightarrow> str \<Rightarrow> nat option" where
  "brace_close d i [] = None"
| "brace_close d i (c # r) =
     (let d' = (if c = 123 then d + 1 else if c = 125 then d - 1 else d)
      in if c = 125 \<and> d' = 0 then Some i else brace_close d' (i + 1) r)"

lemma block_close_counts: "block_close d i s = brace_close d i s"
  by (induction s arbitrary: d i) (simp_all add: Let_def)

lemma prepare_failure: "prepare pf source = Inl e \<Longrightarrow> syntax_error e"
proof -
  have blocks: "parse_blocks_loop pf n ps l s = Inl e \<Longrightarrow> syntax_error e" for n ps l s
    by (induction pf n ps l s rule: parse_blocks_loop.induct)
       (auto simp: Let_def bindR_eq_Inl syntax_error_def split: if_splits option.splits
         dest!: parse_failure)
  assume "prepare pf source = Inl e"
  then show "syntax_error e"
    using blocks by (auto simp: prepare_def parse_blocks_def Let_def bindR_eq_Inl
        split: option.splits if_splits dest: parse_failure)
qed

lemma str_contains_iff: "str_contains s n \<longleftrightarrow> (\<exists>a b. s = a @ n @ b)"
proof (induction s)
  case (Cons c r)
  show ?case
  proof
    assume "str_contains (c # r) n"
    then consider t where "c # r = n @ t" | a b where "r = a @ n @ b"
      using Cons by (auto simp: starts_with_iff)
    then show "\<exists>a b. c # r = a @ n @ b"
    proof cases
      case 1
      then have "c # r = [] @ n @ t" by simp
      then show ?thesis by blast
    next
      case 2
      then have "c # r = (c # a) @ n @ b" by simp
      then show ?thesis by blast
    qed
  next
    assume "\<exists>a b. c # r = a @ n @ b"
    then obtain a b where "c # r = a @ n @ b" by blast
    then show "str_contains (c # r) n"
    proof (cases a)
      case Nil
      with \<open>c # r = a @ n @ b\<close> have "starts_with (c # r) n" by (auto simp: starts_with_iff)
      then show ?thesis by simp
    next
      case (Cons d a')
      with \<open>c # r = a @ n @ b\<close> have "r = a' @ n @ b" by simp
      with Cons.IH show ?thesis by auto
    qed
  qed
qed simp

lemma char_at_pair:
  assumes "char_at s i = Some x" "char_at s (i + 1) = Some y"
  shows "s = take i s @ [x, y] @ drop (i + 2) s"
proof -
  from assms have "i + 1 < length s" "s ! i = x" "s ! (i + 1) = y"
    by (auto simp: char_at_def split: if_splits)
  then have "drop i s = x # y # drop (i + 2) s"
    by (simp add: Cons_nth_drop_Suc [symmetric])
  then show ?thesis by (metis append_Cons append_Nil append_take_drop_id)
qed

lemma single_block_contains: "single_block s = Some inner \<Longrightarrow> str_contains s [36, 123]"
proof -
  assume "single_block s = Some inner"
  then obtain start where "char_at s start = Some 36" "char_at s (start + 1) = Some 123"
    by (auto simp: single_block_def split: option.splits if_splits)
  from char_at_pair [OF this] show ?thesis unfolding str_contains_iff by blast
qed

end
