(* ===== verification/Events.thy ===== *)
theory Events
  imports Core
begin

text \<open>
  The crate \<open>ows-runtime-events\<close>: CloudEvents and their conversion to and from the core's
  messages, event matching, and the in-memory broker behind an interface of publish and
  subscribe.  A regular expression and a predicate of a constraint are functions.
\<close>

section \<open>CloudEvents\<close>

record cloud_event =
  cev_id :: str
  cev_source :: str
  cev_type :: str
  cev_specversion :: str
  cev_time :: "str option"
  cev_subject :: "str option"
  cev_data_content_type :: "str option"
  cev_data_schema :: "str option"
  cev_data :: "json option"
  cev_extensions :: vmap

definition spec_version :: str where
  "spec_version = lit ''1.0''"

definition cloud_event_new :: "str \<Rightarrow> str \<Rightarrow> str \<Rightarrow> cloud_event" where
  "cloud_event_new i s t =
     \<lparr>cev_id = i, cev_source = s, cev_type = t, cev_specversion = spec_version, cev_time = None,
      cev_subject = None, cev_data_content_type = None, cev_data_schema = None, cev_data = None,
      cev_extensions = []\<rparr>"

definition to_message :: "cloud_event \<Rightarrow> event_message" where
  "to_message e =
     (event_message_new (cev_id e) (cev_source e) (cev_type e))
       \<lparr>em_time := cev_time e, em_subject := cev_subject e,
        em_data_content_type := cev_data_content_type e, em_data_schema := cev_data_schema e,
        em_data := cev_data e, em_extensions := map_extend (cev_extensions e) []\<rparr>"

definition from_message :: "event_message \<Rightarrow> cloud_event" where
  "from_message m =
     \<lparr>cev_id = em_id m, cev_source = em_source m, cev_type = em_type m,
      cev_specversion = spec_version, cev_time = em_time m, cev_subject = em_subject m,
      cev_data_content_type = em_data_content_type m, cev_data_schema = em_data_schema m,
      cev_data = em_data m, cev_extensions = map_extend (em_extensions m) []\<rparr>"

text \<open>The derived serialisation: absent options are skipped, extensions are flattened in last.\<close>

definition cloud_event_to_value :: "cloud_event \<Rightarrow> json" where
  "cloud_event_to_value e = Object (
     map_extend (cev_extensions e)
     (insert_opt (lit ''data'') (cev_data e)
     (insert_opt (lit ''dataschema'') (map_option String (cev_data_schema e))
     (insert_opt (lit ''datacontenttype'') (map_option String (cev_data_content_type e))
     (insert_opt (lit ''subject'') (map_option String (cev_subject e))
     (insert_opt (lit ''time'') (map_option String (cev_time e))
     (map_insert (lit ''specversion'') (String (cev_specversion e))
     (map_insert (lit ''type'') (String (cev_type e))
     (map_insert (lit ''source'') (String (cev_source e))
     (map_insert (lit ''id'') (String (cev_id e)) []))))))))))"

lemma map_extend_id:
  assumes ok: "map_ok m"
  shows "map_extend m [] = m"
proof (rule map_ok_eqI)
  show "map_ok (map_extend m [])" by (simp add: map_ok_map_extend)
  show "map_ok m" by (rule ok)
  have "map_of (rev m) = map_of m"
    using map_ok_distinct [OF ok] by (subst map_of_inject_set) (simp_all add: rev_map [symmetric])
  then show "map_of (map_extend m []) = map_of m"
    by (auto simp: map_of_map_extend fun_eq_iff split: option.split)
qed

lemma from_to_message:
  "map_ok (cev_extensions e) \<Longrightarrow> from_message (to_message e) = e\<lparr>cev_specversion := spec_version\<rparr>"
  by (simp add: from_message_def to_message_def event_message_new_def map_extend_id)

lemma to_from_message: "map_ok (em_extensions m) \<Longrightarrow> to_message (from_message m) = m"
  by (simp add: from_message_def to_message_def event_message_new_def map_extend_id)

section \<open>Matching\<close>

datatype field_constraint =
    Equals json
  | MatchesRegex "str \<Rightarrow> bool"
  | Expression "cloud_event \<Rightarrow> bool"

record event_matcher =
  mt_type :: "str option"
  mt_source :: "str option"
  mt_subject :: "str option"
  mt_attributes :: "(str \<times> field_constraint) list"

definition matcher_new :: event_matcher where
  "matcher_new = \<lparr>mt_type = None, mt_source = None, mt_subject = None, mt_attributes = []\<rparr>"

definition or_null :: "json option \<Rightarrow> json" where
  "or_null v = (case v of Some x \<Rightarrow> x | None \<Rightarrow> Null)"

definition event_attribute :: "cloud_event \<Rightarrow> str \<Rightarrow> json" where
  "event_attribute e key =
     (if key = lit ''type'' then String (cev_type e)
      else if key = lit ''source'' then String (cev_source e)
      else if key = lit ''subject'' then or_null (map_option String (cev_subject e))
      else if key = lit ''data'' then or_null (cev_data e)
      else if key = lit ''id'' then String (cev_id e)
      else
        (case map_of (cev_extensions e) key of
           Some v \<Rightarrow> v
         | None \<Rightarrow> or_null (Option.bind (cev_data e) (\<lambda>d. json_get d key))))"

fun constraint_holds :: "cloud_event \<Rightarrow> json \<Rightarrow> field_constraint \<Rightarrow> bool" where
  "constraint_holds e v (Equals expected) = num_equal v expected"
| "constraint_holds e v (MatchesRegex re) = (case v of String s \<Rightarrow> re s | _ \<Rightarrow> False)"
| "constraint_holds e v (Expression f) = f e"

definition event_matches :: "event_matcher \<Rightarrow> cloud_event \<Rightarrow> bool" where
  "event_matches m e \<longleftrightarrow>
     (case mt_type m of Some t \<Rightarrow> t = cev_type e | None \<Rightarrow> True)
     \<and> (case mt_source m of Some s \<Rightarrow> s = cev_source e | None \<Rightarrow> True)
     \<and> (case mt_subject m of
          Some s \<Rightarrow> s = (case cev_subject e of Some x \<Rightarrow> x | None \<Rightarrow> [])
        | None \<Rightarrow> True)
     \<and> list_all (\<lambda>(key, c). constraint_holds e (event_attribute e key) c) (mt_attributes m)"

section \<open>The broker\<close>

text \<open>
  What a client of the two traits relies on: a subscription sees exactly the matching events
  published after it, in order, and nothing else touches what is pending.
\<close>

locale event_bus =
  fixes subscribe :: "(event_message \<Rightarrow> bool) \<Rightarrow> 'b \<Rightarrow> nat \<times> 'b"
    and publish :: "event_message \<Rightarrow> 'b \<Rightarrow> 'b"
    and recv :: "nat \<Rightarrow> 'b \<Rightarrow> event_message option \<times> 'b"
    and pending :: "'b \<Rightarrow> nat \<Rightarrow> event_message list"
    and filter_of :: "'b \<Rightarrow> nat \<Rightarrow> (event_message \<Rightarrow> bool) option"
  assumes subscribe_fresh: "subscribe f b = (i, b') \<Longrightarrow> filter_of b i = None"
    and subscribe_filter: "subscribe f b = (i, b') \<Longrightarrow>
      filter_of b' j = (if j = i then Some f else filter_of b j)"
    and subscribe_pending: "subscribe f b = (i, b') \<Longrightarrow>
      pending b' j = (if j = i then [] else pending b j)"
    and publish_filter: "filter_of (publish e b) j = filter_of b j"
    and publish_pending: "pending (publish e b) j =
      pending b j @ (case filter_of b j of Some f \<Rightarrow> if f e then [e] else [] | None \<Rightarrow> [])"
    and recv_filter: "recv i b = (m, b') \<Longrightarrow> filter_of b' j = filter_of b j"
    and recv_pending: "recv i b = (m, b') \<Longrightarrow>
      (case pending b i of
         [] \<Rightarrow> m = None \<and> pending b' j = pending b j
       | e # es \<Rightarrow> m = Some e \<and> pending b' j = (if j = i then es else pending b j))"
begin

lemma filter_of_publishes: "filter_of (fold publish es b) j = filter_of b j"
  by (induction es arbitrary: b) (simp_all add: publish_filter)

lemma pending_publishes:
  "filter_of b j = Some f \<Longrightarrow> pending (fold publish es b) j = pending b j @ filter f es"
  by (induction es arbitrary: b) (simp_all add: publish_pending publish_filter)

lemma subscription_sees:
  assumes "subscribe f b = (i, b')"
  shows "pending (fold publish es b') i = filter f es"
  using assms subscribe_filter [OF assms, of i] subscribe_pending [OF assms, of i]
  by (simp add: pending_publishes)

fun recv_many :: "nat \<Rightarrow> nat \<Rightarrow> 'b \<Rightarrow> event_message list \<times> 'b" where
  "recv_many 0 i b = ([], b)"
| "recv_many (Suc k) i b =
     (case recv i b of
        (None, b') \<Rightarrow> ([], b')
      | (Some e, b') \<Rightarrow> (let (es, b'') = recv_many k i b' in (e # es, b'')))"

lemma recv_many_pending:
  "fst (recv_many k i b) = take k (pending b i)"
proof (induction k arbitrary: b)
  case (Suc k)
  obtain m b' where rc: "recv i b = (m, b')" by force
  from recv_pending [OF rc, of i] Suc [of b'] rc show ?case
    by (auto split: list.splits option.splits prod.splits)
qed simp

end

record subscriber =
  sub_filter :: "event_message \<Rightarrow> bool"
  sub_queue :: "event_message list"

type_synonym broker = "subscriber list"

definition broker_new :: broker where
  "broker_new = []"

definition broker_subscribe :: "(event_message \<Rightarrow> bool) \<Rightarrow> broker \<Rightarrow> nat \<times> broker" where
  "broker_subscribe f b = (length b, b @ [\<lparr>sub_filter = f, sub_queue = []\<rparr>])"

definition broker_publish :: "event_message \<Rightarrow> broker \<Rightarrow> broker" where
  "broker_publish e b =
     map (\<lambda>s. if sub_filter s e then s\<lparr>sub_queue := sub_queue s @ [e]\<rparr> else s) b"

definition broker_recv :: "nat \<Rightarrow> broker \<Rightarrow> event_message option \<times> broker" where
  "broker_recv i b =
     (if i < length b then
        (case sub_queue (b ! i) of
           [] \<Rightarrow> (None, b)
         | e # es \<Rightarrow> (Some e, b[i := (b ! i)\<lparr>sub_queue := es\<rparr>]))
      else (None, b))"

definition broker_pending :: "broker \<Rightarrow> nat \<Rightarrow> event_message list" where
  "broker_pending b i = (if i < length b then sub_queue (b ! i) else [])"

definition broker_filter :: "broker \<Rightarrow> nat \<Rightarrow> (event_message \<Rightarrow> bool) option" where
  "broker_filter b i = (if i < length b then Some (sub_filter (b ! i)) else None)"

interpretation bus: event_bus broker_subscribe broker_publish broker_recv broker_pending broker_filter
proof (unfold_locales, goal_cases)
  case (1 f b i b')
  then show ?case by (auto simp: broker_subscribe_def broker_filter_def)
next
  case (2 f b i b' j)
  then show ?case by (auto simp: broker_subscribe_def broker_filter_def nth_append)
next
  case (3 f b i b' j)
  then show ?case by (auto simp: broker_subscribe_def broker_pending_def nth_append)
next
  case (4 e b j)
  then show ?case by (simp add: broker_publish_def broker_filter_def)
next
  case (5 e b j)
  then show ?case by (simp add: broker_publish_def broker_filter_def broker_pending_def)
next
  case (6 i b m b' j)
  then show ?case
    by (auto simp: broker_recv_def broker_filter_def nth_list_update split: if_splits list.splits)
next
  case (7 i b m b' j)
  then show ?case
    by (auto simp: broker_recv_def broker_pending_def nth_list_update split: if_splits list.splits)
qed

end
