(* ===== verification/Dsl.thy ===== *)
theory Dsl
  imports ExprSyntax
begin

text \<open>
  The crate \<open>ows-runtime-dsl\<close>: normalisation of definitions (lib.rs) and their semantic
  validation (validate.rs).  The types of the workflow SDK are outside the repository; what the
  validator reads of them is written down as data.  A scope is the SDK's list of one-entry maps,
  \<open>None\<close> for an entry without a key.
\<close>

section \<open>The definition, as far as it is read\<close>

record common_fields =
  cm_if :: "str option"
  cm_then :: "str option"

record switch_case_def =
  scd_name :: str
  scd_when :: "str option"
  scd_then :: "str option"

datatype task_def =
    DCall common_fields
  | DDo common_fields "(str \<times> task_def) option list"
  | DEmit common_fields
  | DFor common_fields str "(str \<times> task_def) option list"
  | DFork common_fields "(str \<times> task_def) option list"
  | DListen common_fields
  | DRaise common_fields
  | DRun common_fields
  | DSet common_fields
  | DSwitch common_fields "switch_case_def option list"
  | DTry common_fields "(str \<times> task_def) option list" "(str \<times> task_def) option list option"
  | DWait common_fields

type_synonym scope = "(str \<times> task_def) option list"

record document_def =
  doc_dsl :: str
  doc_namespace :: str
  doc_name :: str
  doc_version :: str

record workflow_def =
  wd_document :: document_def
  wd_do :: scope

fun common :: "task_def \<Rightarrow> common_fields" where
  "common (DCall c) = c"
| "common (DDo c s) = c"
| "common (DEmit c) = c"
| "common (DFor c i s) = c"
| "common (DFork c s) = c"
| "common (DListen c) = c"
| "common (DRaise c) = c"
| "common (DRun c) = c"
| "common (DSet c) = c"
| "common (DSwitch c cs) = c"
| "common (DTry c s h) = c"
| "common (DWait c) = c"

definition common_then :: "task_def \<Rightarrow> str option" where
  "common_then t = cm_then (common t)"

definition common_if :: "task_def \<Rightarrow> str option" where
  "common_if t = cm_if (common t)"

section \<open>Reports\<close>

record validation_issue =
  vi_code :: str
  vi_message :: str
  vi_instance :: "str option"

definition issue_at :: "str \<Rightarrow> str \<Rightarrow> str \<Rightarrow> validation_issue" where
  "issue_at code message inst = \<lparr>vi_code = code, vi_message = message, vi_instance = Some inst\<rparr>"

type_synonym report = "validation_issue list"

definition is_valid :: "report \<Rightarrow> bool" where
  "is_valid r \<longleftrightarrow> r = []"

definition quote_name :: "str \<Rightarrow> str" where
  "quote_name s = lit ''`'' @ s @ lit ''`''"

text \<open>The regular expression \<open>^[A-Za-z_][A-Za-z0-9_-]*$\<close>.\<close>

definition ident_start :: "nat \<Rightarrow> bool" where
  "ident_start c \<longleftrightarrow> (65 \<le> c \<and> c \<le> 90) \<or> (97 \<le> c \<and> c \<le> 122) \<or> c = 95"

definition ident_char :: "nat \<Rightarrow> bool" where
  "ident_char c \<longleftrightarrow> ident_start c \<or> (48 \<le> c \<and> c \<le> 57) \<or> c = 45"

definition is_identifier :: "str \<Rightarrow> bool" where
  "is_identifier s = (case s of [] \<Rightarrow> False | c # r \<Rightarrow> ident_start c \<and> list_all ident_char r)"

definition scope_names :: "scope \<Rightarrow> str list" where
  "scope_names s = map fst (List.map_filter id s)"

section \<open>Reachability\<close>

text \<open>
  \<open>pushes\<close> are the indices one turn of the work list pushes for the task at \<open>i\<close>, in order; the
  list \<open>pending\<close> of the loop has its top in front.
\<close>

definition add_edge :: "str list \<Rightarrow> nat \<Rightarrow> str \<Rightarrow> nat list" where
  "add_edge names current t =
     (if t = lit ''continue'' then [current + 1]
      else if t = lit ''exit'' \<or> t = lit ''end'' then []
      else (case position (\<lambda>name. name = t) names of Some i \<Rightarrow> [i] | None \<Rightarrow> []))"

definition then_pushes :: "str list \<Rightarrow> nat \<Rightarrow> str option \<Rightarrow> nat list" where
  "then_pushes names i ot = (case ot of Some t \<Rightarrow> add_edge names i t | None \<Rightarrow> [])"

fun switch_cases :: "task_def \<Rightarrow> switch_case_def list option" where
  "switch_cases (DSwitch c cs) = Some (List.map_filter id cs)"
| "switch_cases _ = None"

definition pushes :: "str list \<Rightarrow> nat \<Rightarrow> task_def \<Rightarrow> nat list" where
  "pushes names i task =
     (let cases = switch_cases task;
          case_list = (case cases of Some cs \<Rightarrow> cs | None \<Rightarrow> []);
          explicit = (common_then task \<noteq> None \<or> list_ex (\<lambda>c. scd_then c \<noteq> None) case_list);
          has_fallthrough = list_ex (\<lambda>c. scd_then c = None) case_list
      in then_pushes names i (common_then task)
         @ (if common_if task \<noteq> None then [i + 1] else [])
         @ concat (map (\<lambda>c. then_pushes names i (scd_then c)) case_list)
         @ (if cases \<noteq> None \<and> \<not> has_fallthrough \<and> common_then task = None then [i + 1] else [])
         @ (if \<not> explicit then [i + 1] else []))"

definition scope_pushes :: "scope \<Rightarrow> nat \<Rightarrow> nat list" where
  "scope_pushes tasks i =
     (case tasks ! i of Some (name, task) \<Rightarrow> pushes (scope_names tasks) i task | None \<Rightarrow> [])"

function reach_loop :: "scope \<Rightarrow> nat list \<Rightarrow> nat list \<Rightarrow> nat list" where
  "reach_loop tasks reachable [] = reachable"
| "reach_loop tasks reachable (i # pending) =
     (if length (scope_names tasks) \<le> i \<or> i \<in> set reachable then reach_loop tasks reachable pending
      else reach_loop tasks (i # reachable) (rev (scope_pushes tasks i) @ pending))"
  by pat_completeness auto
termination
proof (relation "measures [\<lambda>(tasks, r, p). card ({..<length (scope_names tasks)} - set r),
    \<lambda>(tasks, r, p). length p]", goal_cases)
  case (3 tasks reachable i pending)
  define n where "n = length (scope_names tasks)"
  from 3 have i: "i < n" "i \<notin> set reachable" by (simp_all add: n_def)
  have "card ({..<n} - set (i # reachable)) < card ({..<n} - set reachable)"
  proof (rule psubset_card_mono)
    show "finite ({..<n} - set reachable)" by simp
    from i have "i \<in> {..<n} - set reachable" "i \<notin> {..<n} - set (i # reachable)" by simp_all
    then show "{..<n} - set (i # reachable) \<subset> {..<n} - set reachable" by force
  qed
  then show ?case by (simp add: n_def)
qed simp_all

definition is_try :: "(str \<times> task_def) option \<Rightarrow> bool" where
  "is_try e = (case e of Some (n, DTry c s h) \<Rightarrow> True | _ \<Rightarrow> False)"

definition validate_reachability :: "scope \<Rightarrow> str \<Rightarrow> report" where
  "validate_reachability tasks pointer =
     (let names = scope_names tasks
      in if names = [] then []
         else
           (let reachable = reach_loop tasks [] [0];
                has_recovery_scope = list_ex is_try tasks
            in concat (map (\<lambda>(index, name).
                 if index \<notin> set reachable \<and> \<not> has_recovery_scope
                 then [issue_at (lit ''flow.unreachable'')
                        (lit ''task '' @ quote_name name @ lit '' cannot be reached from the scope entry'')
                        (pointer @ lit ''/'' @ nat_str index @ lit ''/'' @ name)]
                 else []) (enumerate 0 names))))"

section \<open>Validation of scopes\<close>

fun name_issues :: "str \<Rightarrow> nat \<Rightarrow> str list \<Rightarrow> str list \<Rightarrow> report" where
  "name_issues pointer index seen [] = []"
| "name_issues pointer index seen (name # names) =
     (let inst = pointer @ lit ''/'' @ nat_str index @ lit ''/'' @ name
      in (if \<not> is_identifier name
          then [issue_at (lit ''task.name.invalid'')
                 (lit ''task name '' @ quote_name name @ lit '' must be a valid OWS identifier'') inst]
          else [])
         @ (if name \<in> set seen
            then [issue_at (lit ''task.name.duplicate'')
                   (lit ''task name '' @ quote_name name @ lit '' is duplicated in this scope'') inst]
            else [])
         @ name_issues pointer (index + 1) (name # seen) names)"

definition then_issues :: "str list \<Rightarrow> str \<Rightarrow> task_def \<Rightarrow> report" where
  "then_issues names task_pointer task =
     (case common_then task of
        None \<Rightarrow> []
      | Some t \<Rightarrow>
          if t = lit ''continue'' \<or> t = lit ''exit'' \<or> t = lit ''end'' then []
          else if t \<notin> set names
          then [issue_at (lit ''flow.unknown-target'')
                 (lit ''flow directive '' @ quote_name t @ lit '' does not match any task in scope'')
                 (task_pointer @ lit ''/then'')]
          else [])"

fun switch_issues :: "str \<Rightarrow> bool \<Rightarrow> switch_case_def option list \<Rightarrow> report" where
  "switch_issues pointer default_seen [] = []"
| "switch_issues pointer default_seen (None # cs) = switch_issues pointer default_seen cs"
| "switch_issues pointer default_seen (Some c # cs) =
     (if scd_when c = None \<and> default_seen
      then [issue_at (lit ''switch.multiple-default'') (lit ''switch may only have one default case'')
             (pointer @ lit ''/'' @ scd_name c)]
      else [])
     @ (if scd_then c = None
        then [issue_at (lit ''switch.then.required'')
               (lit ''switch case must define a `then` directive'')
               (pointer @ lit ''/'' @ scd_name c)]
        else [])
     @ switch_issues pointer (default_seen \<or> scd_when c = None) cs"

definition validate_switch :: "switch_case_def option list \<Rightarrow> str \<Rightarrow> report" where
  "validate_switch cs pointer =
     (if cs = [] then [issue_at (lit ''switch.empty'')
                        (lit ''switch must define at least one case'') pointer]
      else switch_issues pointer False cs)"

definition no_common :: common_fields where
  "no_common = \<lparr>cm_if = None, cm_then = None\<rparr>"

lemma size_in_scope: "Some (n, t) \<in> set s \<Longrightarrow> size t < size (DDo c s)"
  by (induction s) (auto simp: less_Suc_eq_le intro: le_SucI trans_le_add2)

function validate_task_scope :: "scope \<Rightarrow> str \<Rightarrow> report"
  and validate_task :: "task_def \<Rightarrow> str \<Rightarrow> report"
where
  "validate_task_scope tasks pointer =
     name_issues pointer 0 [] (scope_names tasks)
     @ concat (map (\<lambda>e. case e of
         None \<Rightarrow> []
       | Some (name, task) \<Rightarrow>
           then_issues (scope_names tasks) (pointer @ lit ''/'' @ name) task
           @ validate_task task (pointer @ lit ''/'' @ name)) tasks)
     @ validate_reachability tasks pointer"
| "validate_task (DDo c s) tp = validate_task_scope s (tp @ lit ''/do'')"
| "validate_task (DFor c in_coll s) tp =
     (if in_coll = []
      then [issue_at (lit ''for.in.required'') (lit ''for loop must define an `in` collection'')
             (tp @ lit ''/for/in'')]
      else [])
     @ validate_task_scope s (tp @ lit ''/do'')"
| "validate_task (DFork c s) tp = validate_task_scope s (tp @ lit ''/fork/branches'')"
| "validate_task (DTry c s h) tp =
     validate_task_scope s (tp @ lit ''/try'')
     @ (case h of Some do_tasks \<Rightarrow> validate_task_scope do_tasks (tp @ lit ''/catch/do'') | None \<Rightarrow> [])"
| "validate_task (DSwitch c cs) tp = validate_switch cs tp"
| "validate_task (DCall c) tp = []"
| "validate_task (DEmit c) tp = []"
| "validate_task (DListen c) tp = []"
| "validate_task (DRaise c) tp = []"
| "validate_task (DRun c) tp = []"
| "validate_task (DSet c) tp = []"
| "validate_task (DWait c) tp = []"
  by pat_completeness auto
termination
  by (relation "measure (case_sum (\<lambda>(s, p). 2 * size (DDo no_common s) - 1) (\<lambda>(t, p). 2 * size t))")
     (auto dest!: size_in_scope [where c = no_common])

definition validate :: "workflow_def \<Rightarrow> report" where
  "validate d =
     (let doc = wd_document d in
      (if doc_name doc = []
       then [issue_at (lit ''document.name.required'') (lit ''workflow name must not be empty'')
              (lit ''/document/name'')] else [])
      @ (if \<not> is_identifier (doc_name doc)
         then [issue_at (lit ''document.name.invalid'')
                (lit ''workflow name must be a valid OWS identifier'') (lit ''/document/name'')] else [])
      @ (if \<not> is_identifier (doc_namespace doc)
         then [issue_at (lit ''document.namespace.invalid'')
                (lit ''workflow namespace must be a valid OWS identifier'')
                (lit ''/document/namespace'')] else [])
      @ (if doc_version doc = []
         then [issue_at (lit ''document.version.required'')
                (lit ''workflow version must not be empty'') (lit ''/document/version'')] else [])
      @ (if doc_dsl doc = []
         then [issue_at (lit ''document.dsl.required'') (lit ''DSL version must not be empty'')
                (lit ''/document/dsl'')]
         else if \<not> starts_with (doc_dsl doc) (lit ''1.'')
         then [issue_at (lit ''document.dsl.unsupported'')
                (lit ''unsupported DSL version '' @ quote_name (doc_dsl doc)) (lit ''/document/dsl'')]
         else [])
      @ (if wd_do d = []
         then [issue_at (lit ''do.empty'') (lit ''workflow must define at least one task'') (lit ''/do'')]
         else [])
      @ validate_task_scope (wd_do d) (lit ''/do''))"

section \<open>Normalisation\<close>

definition normalize_for :: "platform \<Rightarrow> json \<Rightarrow> json" where
  "normalize_for pf v =
     (case v of
        Object loop_def \<Rightarrow>
          Object (map (\<lambda>(k, x). (k, if k = lit ''in'' \<and> as_str x = None then String (json_text pf x)
                                  else x)) loop_def)
      | other \<Rightarrow> other)"

definition default_compete :: "vmap \<Rightarrow> vmap" where
  "default_compete m =
     (if map_of m (lit ''compete'') = None then map_insert (lit ''compete'') (Bool False) m else m)"

text \<open>Each step of the code touches another key, so one pass over the entries does them all.\<close>

fun normalize_scope :: "platform \<Rightarrow> json \<Rightarrow> json"
  and normalize_task :: "platform \<Rightarrow> json \<Rightarrow> json"
where
  "normalize_scope pf (Object m) =
     Object (map (\<lambda>(k, v).
       (k, if k = lit ''for'' then normalize_for pf v
           else if k = lit ''do'' \<or> k = lit ''try''
           then (case v of Array ts \<Rightarrow> Array (map (normalize_task pf) ts) | other \<Rightarrow> other)
           else if k = lit ''catch''
           then (case v of
                   Object c \<Rightarrow> Object (map (\<lambda>(k', v'). (k', if k' = lit ''do''
                     then (case v' of Array ts \<Rightarrow> Array (map (normalize_task pf) ts) | other \<Rightarrow> other)
                     else v')) c)
                 | other \<Rightarrow> other)
           else if k = lit ''fork''
           then (case v of
                   Object f \<Rightarrow> Object (default_compete (map (\<lambda>(k', v'). (k', if k' = lit ''branches''
                     then (case v' of Array ts \<Rightarrow> Array (map (normalize_task pf) ts) | other \<Rightarrow> other)
                     else v')) f))
                 | other \<Rightarrow> other)
           else v)) m)"
| "normalize_scope pf v = v"
| "normalize_task pf (Object m) = Object (map (\<lambda>(name, t). (name, normalize_scope pf t)) m)"
| "normalize_task pf v = v"

end
