(* ===== verification/DslLaws.thy ===== *)
theory DslLaws
  imports Dsl
begin

text \<open>
  Laws of the validator: its work list computes exactly the tasks reachable in the flow graph of
  a scope, and the report is empty exactly for the definitions that satisfy the rules, stated
  for every scope nested in the workflow.
\<close>

section \<open>Reachability\<close>

lemma scope_names_simps [simp]:
  "scope_names [] = []"
  "scope_names (None # s) = scope_names s"
  "scope_names (Some (n, t) # s) = n # scope_names s"
  by (simp_all add: scope_names_def List.map_filter_simps)

inductive flow_reachable :: "scope \<Rightarrow> nat \<Rightarrow> bool" for tasks where
  entry: "scope_names tasks \<noteq> [] \<Longrightarrow> flow_reachable tasks 0"
| edge: "flow_reachable tasks i \<Longrightarrow> j \<in> set (scope_pushes tasks i)
    \<Longrightarrow> j < length (scope_names tasks) \<Longrightarrow> flow_reachable tasks j"

lemma reach_loop_sound:
  "\<forall>i \<in> set R \<union> set P. i < length (scope_names tasks) \<longrightarrow> flow_reachable tasks i
   \<Longrightarrow> \<forall>i \<in> set R. i < length (scope_names tasks)
   \<Longrightarrow> i \<in> set (reach_loop tasks R P) \<Longrightarrow> flow_reachable tasks i \<and> i < length (scope_names tasks)"
proof (induction tasks R P rule: reach_loop.induct)
  case (1 tasks R)
  then show ?case by auto
next
  case (2 tasks R j P)
  show ?case
  proof (cases "length (scope_names tasks) \<le> j \<or> j \<in> set R")
    case True
    show ?thesis
      by (rule "2.IH"(1) [OF True]) (use "2.prems" True in auto)
  next
    case False
    then have j: "flow_reachable tasks j" using "2.prems"(1) by auto
    show ?thesis
    proof (rule "2.IH"(2) [OF False])
      show "\<forall>i \<in> set (j # R) \<union> set (rev (scope_pushes tasks j) @ P).
          i < length (scope_names tasks) \<longrightarrow> flow_reachable tasks i"
        using "2.prems"(1) j by (auto intro: edge)
      show "\<forall>i \<in> set (j # R). i < length (scope_names tasks)"
        using "2.prems"(2) False by auto
      show "i \<in> set (reach_loop tasks (j # R) (rev (scope_pushes tasks j) @ P))"
        using "2.prems"(3) False by simp
    qed
  qed
qed

lemma reach_loop_complete:
  "\<forall>i \<in> set R. \<forall>j \<in> set (scope_pushes tasks i). j < length (scope_names tasks)
      \<longrightarrow> j \<in> set R \<union> set P
   \<Longrightarrow> set R \<union> {i \<in> set P. i < length (scope_names tasks)} \<subseteq> set (reach_loop tasks R P)
     \<and> (\<forall>i \<in> set (reach_loop tasks R P). \<forall>j \<in> set (scope_pushes tasks i).
          j < length (scope_names tasks) \<longrightarrow> j \<in> set (reach_loop tasks R P))"
proof (induction tasks R P rule: reach_loop.induct)
  case (1 tasks R)
  then show ?case by auto
next
  case (2 tasks R i P)
  show ?case
  proof (cases "length (scope_names tasks) \<le> i \<or> i \<in> set R")
    case True
    have inv: "\<forall>a \<in> set R. \<forall>j \<in> set (scope_pushes tasks a). j < length (scope_names tasks)
        \<longrightarrow> j \<in> set R \<union> set P"
      using "2.prems" True by fastforce
    from "2.IH"(1) [OF True inv] True show ?thesis by auto
  next
    case False
    have inv: "\<forall>a \<in> set (i # R). \<forall>j \<in> set (scope_pushes tasks a). j < length (scope_names tasks)
        \<longrightarrow> j \<in> set (i # R) \<union> set (rev (scope_pushes tasks i) @ P)"
      using "2.prems" by auto
    from "2.IH"(2) [OF False inv] False show ?thesis by auto
  qed
qed

lemma reach_loop_iff:
  assumes "scope_names tasks \<noteq> []"
  shows "i \<in> set (reach_loop tasks [] [0]) \<longleftrightarrow> flow_reachable tasks i"
proof
  assume "i \<in> set (reach_loop tasks [] [0])"
  with reach_loop_sound [of "[]" "[0]" tasks i] assms show "flow_reachable tasks i"
    by (auto intro: entry)
next
  have closed: "set [] \<union> {i \<in> set [0]. i < length (scope_names tasks)} \<subseteq> set (reach_loop tasks [] [0])
     \<and> (\<forall>i \<in> set (reach_loop tasks [] [0]). \<forall>j \<in> set (scope_pushes tasks i).
          j < length (scope_names tasks) \<longrightarrow> j \<in> set (reach_loop tasks [] [0]))"
    by (rule reach_loop_complete) simp
  assume "flow_reachable tasks i"
  then show "i \<in> set (reach_loop tasks [] [0])"
    by (induction rule: flow_reachable.induct) (use closed assms in auto)
qed

declare reach_loop.simps [simp del]

lemma validate_reachability_nil:
  "validate_reachability tasks p = [] \<longleftrightarrow>
     (\<forall>i < length (scope_names tasks). flow_reachable tasks i) \<or> list_ex is_try tasks"
proof (cases "scope_names tasks = []")
  case False
  have "(\<forall>(i, name) \<in> set (enumerate 0 (scope_names tasks)). i \<in> set (reach_loop tasks [] [0]))
      \<longleftrightarrow> (\<forall>i < length (scope_names tasks). flow_reachable tasks i)"
    by (auto simp: in_set_enumerate_eq reach_loop_iff [OF False])
  moreover have "validate_reachability tasks p = [] \<longleftrightarrow>
      (\<forall>(i, name) \<in> set (enumerate 0 (scope_names tasks)).
         i \<in> set (reach_loop tasks [] [0]) \<or> list_ex is_try tasks)"
    using False by (auto simp: validate_reachability_def Let_def split: if_splits prod.splits)
  ultimately show ?thesis by (cases "list_ex is_try tasks") (auto simp only: simp_thms split: prod.splits)
qed (simp add: validate_reachability_def)

section \<open>Names, targets and cases\<close>

lemma name_issues_nil:
  "name_issues p i seen names = [] \<longleftrightarrow>
     list_all is_identifier names \<and> distinct names \<and> set names \<inter> set seen = {}"
  by (induction p i seen names rule: name_issues.induct) (auto simp: Let_def)

definition target_ok :: "str list \<Rightarrow> task_def \<Rightarrow> bool" where
  "target_ok names t \<longleftrightarrow>
     (case common_then t of
        None \<Rightarrow> True
      | Some d \<Rightarrow> d \<in> {lit ''continue'', lit ''exit'', lit ''end''} \<union> set names)"

lemma then_issues_nil: "then_issues names p t = [] \<longleftrightarrow> target_ok names t"
  by (auto simp: then_issues_def target_ok_def split: option.split)

definition case_list :: "switch_case_def option list \<Rightarrow> switch_case_def list" where
  "case_list cs = List.map_filter id cs"

definition switch_ok :: "switch_case_def option list \<Rightarrow> bool" where
  "switch_ok cs \<longleftrightarrow> cs \<noteq> [] \<and> (\<forall>c \<in> set (case_list cs). scd_then c \<noteq> None)
     \<and> length (filter (\<lambda>c. scd_when c = None) (case_list cs)) \<le> 1"

lemma switch_issues_nil:
  "switch_issues p seen cs = [] \<longleftrightarrow> (\<forall>c \<in> set (case_list cs). scd_then c \<noteq> None)
     \<and> (if seen then filter (\<lambda>c. scd_when c = None) (case_list cs) = []
        else length (filter (\<lambda>c. scd_when c = None) (case_list cs)) \<le> 1)"
  by (induction p seen cs rule: switch_issues.induct)
     (auto simp: case_list_def List.map_filter_simps)

lemma validate_switch_nil: "validate_switch cs p = [] \<longleftrightarrow> switch_ok cs"
  by (simp add: validate_switch_def switch_ok_def switch_issues_nil)

section \<open>Scopes\<close>

fun child_scopes :: "task_def \<Rightarrow> scope list" where
  "child_scopes (DDo c s) = [s]"
| "child_scopes (DFor c i s) = [s]"
| "child_scopes (DFork c s) = [s]"
| "child_scopes (DTry c s h) = s # (case h of Some d \<Rightarrow> [d] | None \<Rightarrow> [])"
| "child_scopes _ = []"

inductive subscope :: "scope \<Rightarrow> scope \<Rightarrow> bool" where
  self: "subscope s s"
| child: "Some (n, t) \<in> set outer \<Longrightarrow> s' \<in> set (child_scopes t) \<Longrightarrow> subscope s s' \<Longrightarrow> subscope s outer"

inductive_simps subscope_unfold: "subscope s outer"

fun task_shape_ok :: "task_def \<Rightarrow> bool" where
  "task_shape_ok (DFor c in_coll s) = (in_coll \<noteq> [])"
| "task_shape_ok (DSwitch c cs) = switch_ok cs"
| "task_shape_ok _ = True"

definition scope_ok :: "scope \<Rightarrow> bool" where
  "scope_ok s \<longleftrightarrow>
     list_all is_identifier (scope_names s) \<and> distinct (scope_names s)
     \<and> (\<forall>n t. Some (n, t) \<in> set s \<longrightarrow> target_ok (scope_names s) t \<and> task_shape_ok t)
     \<and> ((\<forall>i < length (scope_names s). flow_reachable s i) \<or> list_ex is_try s)"

lemma validate_scope_nil:
  "validate_task_scope s p = [] \<longleftrightarrow> (\<forall>s'. subscope s' s \<longrightarrow> scope_ok s')"
  "validate_task t p = [] \<longleftrightarrow>
     task_shape_ok t \<and> (\<forall>s \<in> set (child_scopes t). \<forall>s'. subscope s' s \<longrightarrow> scope_ok s')"
proof (induction s p and t p rule: validate_task_scope_validate_task.induct)
  case (1 tasks pointer)
  have "(\<forall>e \<in> set tasks. (case e of None \<Rightarrow> [] | Some (name, task) \<Rightarrow>
        then_issues (scope_names tasks) (pointer @ lit ''/'' @ name) task
        @ validate_task task (pointer @ lit ''/'' @ name)) = [])
      \<longleftrightarrow> (\<forall>n t. Some (n, t) \<in> set tasks \<longrightarrow> target_ok (scope_names tasks) t \<and> task_shape_ok t
          \<and> (\<forall>s \<in> set (child_scopes t). \<forall>s'. subscope s' s \<longrightarrow> scope_ok s'))"
    (is "?L \<longleftrightarrow> ?R")
  proof
    assume ?L
    then show ?R using 1 by (fastforce simp: then_issues_nil)
  next
    assume ?R
    then show ?L using 1 by (auto simp: then_issues_nil split: option.split)
  qed
  then have "validate_task_scope tasks pointer = [] \<longleftrightarrow> list_all is_identifier (scope_names tasks)
      \<and> distinct (scope_names tasks) \<and> ?R
      \<and> ((\<forall>i < length (scope_names tasks). flow_reachable tasks i) \<or> list_ex is_try tasks)"
    by (simp only: validate_task_scope.simps append_is_Nil_conv concat_eq_Nil_conv set_map
        ball_simps name_issues_nil validate_reachability_nil) simp
  moreover have "(\<forall>s'. subscope s' tasks \<longrightarrow> scope_ok s') \<longleftrightarrow> scope_ok tasks
      \<and> (\<forall>n t. Some (n, t) \<in> set tasks \<longrightarrow>
           (\<forall>s \<in> set (child_scopes t). \<forall>s'. subscope s' s \<longrightarrow> scope_ok s'))"
    by (subst subscope_unfold) blast
  ultimately show ?case unfolding scope_ok_def by blast
next
  case (5 c s h tp)
  then show ?case by (cases h) auto
qed (auto simp: validate_switch_nil)

section \<open>The whole definition\<close>

definition document_ok :: "document_def \<Rightarrow> bool" where
  "document_ok doc \<longleftrightarrow>
     is_identifier (doc_name doc) \<and> is_identifier (doc_namespace doc) \<and> doc_version doc \<noteq> []
     \<and> starts_with (doc_dsl doc) (lit ''1.'')"

lemma validate_nil:
  "validate d = [] \<longleftrightarrow>
     document_ok (wd_document d) \<and> wd_do d \<noteq> []
     \<and> (\<forall>s. subscope s (wd_do d) \<longrightarrow> scope_ok s)"
proof -
  have "is_identifier n \<Longrightarrow> n \<noteq> []" for n by (auto simp: is_identifier_def)
  moreover have "starts_with s (lit ''1.'') \<Longrightarrow> s \<noteq> []" for s
    by (auto simp: starts_with_def lit_def)
  ultimately show ?thesis
    unfolding validate_def Let_def document_ok_def
    by (auto simp only: append_is_Nil_conv validate_scope_nil(1) if_splits list.distinct simp_thms
        split: if_splits)
qed

section \<open>Normalisation\<close>

lemma map_id_on: "\<forall>x \<in> set xs. f x = x \<Longrightarrow> map f xs = xs"
  by (induction xs) auto

lemma map_map_id_on: "\<forall>x \<in> set xs. f (f x) = f x \<Longrightarrow> map f (map f xs) = map f xs"
  by (induction xs) auto

lemma normalize_for_idem: "normalize_for pf (normalize_for pf v) = normalize_for pf v"
  by (auto simp: normalize_for_def split: json.split)

lemma default_compete_entries:
  "x \<in> set (default_compete m) \<Longrightarrow> x \<in> set m \<or> x = (lit ''compete'', Bool False)"
  using map_insert_pairs [of "lit ''compete''" "Bool False" m]
  by (auto simp: default_compete_def split: if_splits)

lemma default_compete_present: "map_of (default_compete m) (lit ''compete'') \<noteq> None"
  by (simp add: default_compete_def)

lemma default_compete_fix:
  assumes "\<forall>x \<in> set m. g x = x" "g (lit ''compete'', Bool False) = (lit ''compete'', Bool False)"
  shows "default_compete (map g (default_compete m)) = default_compete m"
proof -
  have "map g (default_compete m) = default_compete m"
    by (rule map_id_on) (use assms default_compete_entries in blast)
  moreover have "default_compete (default_compete m) = default_compete m"
    by (simp only: default_compete_def [of "default_compete m"] if_not_P [OF default_compete_present])
  ultimately show ?thesis by simp
qed

definition norm_list :: "platform \<Rightarrow> json \<Rightarrow> json" where
  "norm_list pf v = (case v of Array ts \<Rightarrow> Array (map (normalize_task pf) ts) | other \<Rightarrow> other)"

definition norm_in :: "platform \<Rightarrow> str \<Rightarrow> str \<times> json \<Rightarrow> str \<times> json" where
  "norm_in pf key kv = (fst kv, if fst kv = key then norm_list pf (snd kv) else snd kv)"

definition norm_entry :: "platform \<Rightarrow> str \<times> json \<Rightarrow> str \<times> json" where
  "norm_entry pf kv = (fst kv,
     if fst kv = lit ''for'' then normalize_for pf (snd kv)
     else if fst kv = lit ''do'' \<or> fst kv = lit ''try'' then norm_list pf (snd kv)
     else if fst kv = lit ''catch''
     then (case snd kv of Object c \<Rightarrow> Object (map (norm_in pf (lit ''do'')) c) | other \<Rightarrow> other)
     else if fst kv = lit ''fork''
     then (case snd kv of
             Object f \<Rightarrow> Object (default_compete (map (norm_in pf (lit ''branches'')) f))
           | other \<Rightarrow> other)
     else snd kv)"

lemma normalize_scope_Object: "normalize_scope pf (Object m) = Object (map (norm_entry pf) m)"
proof -
  have "(\<lambda>(k', v'). (k', if k' = key then (case v' of Array ts \<Rightarrow> Array (map (normalize_task pf) ts)
      | other \<Rightarrow> other) else v')) = norm_in pf key" for key
    by (auto simp: norm_in_def norm_list_def fun_eq_iff)
  then show ?thesis
    by (auto simp: norm_entry_def norm_list_def split: json.split)
qed

lemma norm_list_idem:
  assumes "\<And>ts t. v = Array ts \<Longrightarrow> t \<in> set ts \<Longrightarrow>
    normalize_task pf (normalize_task pf t) = normalize_task pf t"
  shows "norm_list pf (norm_list pf v) = norm_list pf v"
  using assms by (cases v) (auto simp: norm_list_def)

lemma norm_in_idem:
  assumes "\<And>ts t. snd kv = Array ts \<Longrightarrow> t \<in> set ts \<Longrightarrow>
    normalize_task pf (normalize_task pf t) = normalize_task pf t"
  shows "norm_in pf key (norm_in pf key kv) = norm_in pf key kv"
  using norm_list_idem [OF assms] by (simp add: norm_in_def)

lemma size_entry: "(k, v) \<in> set m \<Longrightarrow> size v < size (Object m)"
  by (induction m) auto

lemma size_item: "t \<in> set ts \<Longrightarrow> size t < size (Array ts)"
  by (induction ts) auto

lemma norm_entry_idem:
  assumes IH: "\<And>t. size t < size (snd kv) \<Longrightarrow>
    normalize_task pf (normalize_task pf t) = normalize_task pf t"
  shows "norm_entry pf (norm_entry pf kv) = norm_entry pf kv"
proof -
  have items: "norm_list pf (norm_list pf (snd kv)) = norm_list pf (snd kv)"
    by (rule norm_list_idem) (use IH size_item in fastforce)
  have inner: "\<forall>x \<in> set c. norm_in pf key (norm_in pf key x) = norm_in pf key x"
    if "snd kv = Object c" for c key
  proof
    fix x assume x: "x \<in> set c"
    then have "(fst x, snd x) \<in> set c" by simp
    from size_entry [OF this] that have "size (snd x) < size (snd kv)" by simp
    then show "norm_in pf key (norm_in pf key x) = norm_in pf key x"
      by (intro norm_in_idem IH) (metis less_trans size_item)
  qed
  have fork: "default_compete (map (norm_in pf (lit ''branches''))
      (default_compete (map (norm_in pf (lit ''branches'')) f)))
      = default_compete (map (norm_in pf (lit ''branches'')) f)" if "snd kv = Object f" for f
    by (rule default_compete_fix) (use inner [OF that] in \<open>auto simp: norm_in_def\<close>)
  show ?thesis
    using items inner fork
    by (cases "snd kv") (auto simp: norm_entry_def normalize_for_idem)
qed

lemma normalize_idem:
  "normalize_scope pf (normalize_scope pf v) = normalize_scope pf v
   \<and> normalize_task pf (normalize_task pf v) = normalize_task pf v"
proof (induction v rule: measure_induct_rule [where f = size])
  case (less v)
  show ?case
  proof (cases v)
    case (Object m)
    have smaller: "size (snd x) < size v" if "x \<in> set m" for x
      using that size_entry [of "fst x" "snd x" m] Object by simp
    have entries: "\<forall>x \<in> set m. norm_entry pf (norm_entry pf x) = norm_entry pf x"
    proof
      fix x assume x: "x \<in> set m"
      show "norm_entry pf (norm_entry pf x) = norm_entry pf x"
        by (rule norm_entry_idem) (meson less less_trans smaller x)
    qed
    have scope: "normalize_scope pf (normalize_scope pf v) = normalize_scope pf v"
      using entries Object by (simp only: normalize_scope_Object) (simp add: map_map_id_on)
    have tasks: "\<forall>x \<in> set m. (\<lambda>(name, t). (name, normalize_scope pf t))
        ((\<lambda>(name, t). (name, normalize_scope pf t)) x) = (\<lambda>(name, t). (name, normalize_scope pf t)) x"
      using less smaller by fastforce
    have "normalize_task pf (normalize_task pf v) = normalize_task pf v"
      using map_map_id_on [OF tasks] Object by simp
    with scope show ?thesis ..
  qed simp_all
qed

end
