(* ===== verification/Ir.thy ===== *)
theory Ir
  imports ExprEngine
begin

text \<open>
  The compiled workflow of ir.rs: durations, task definitions and the workflow itself.  A hash
  map whose entries are visited is a list of pairs in the order of the visit; one that is only
  looked up is a function.  Of the SDK's types the engine reads error and call definitions.
\<close>

section \<open>Durations\<close>

datatype iso_failure = IsoInvalid str | IsoOverflow

definition iso_invalid :: "str \<Rightarrow> iso_failure" where
  "iso_invalid input = IsoInvalid (lit ''invalid ISO 8601 duration `'' @ input @ lit ''`'')"

definition u128_max :: int where
  "u128_max = 2 ^ 128 - 1"

text \<open>\<open>total_nanos += x as u128\<close>\<close>

definition add_nanos :: "platform \<Rightarrow> int \<Rightarrow> f64 \<Rightarrow> iso_failure + int" where
  "add_nanos pf nanos x =
     (let t = nanos + f64_to_int_sat 0 u128_max x
      in if t \<le> u128_max then Inr t
         else if overflow_checks pf then Inl IsoOverflow
         else Inr (t mod 2 ^ 128))"

definition is_duration_digit :: "nat \<Rightarrow> bool" where
  "is_duration_digit c \<longleftrightarrow> is_ascii_digit c \<or> c = 46"

text \<open>
  One section of the duration: \<open>units c\<close> lists the factors of the designator \<open>c\<close> in the order
  the code multiplies by them, \<open>num\<close> is the number read so far.
\<close>

fun duration_section ::
  "platform \<Rightarrow> str \<Rightarrow> (nat \<Rightarrow> f64 list option) \<Rightarrow> str \<Rightarrow> bool \<Rightarrow> int \<Rightarrow> str \<Rightarrow> iso_failure + int" where
  "duration_section pf input units num in_number nanos [] = Inr nanos"
| "duration_section pf input units num in_number nanos (c # cs) =
     (if is_duration_digit c then duration_section pf input units (num @ [c]) True nanos cs
      else
        (case units c of
           None \<Rightarrow> Inl (iso_invalid input)
         | Some factors \<Rightarrow>
             if \<not> in_number then Inl (iso_invalid input)
             else
               (case parse_f64 num of
                  None \<Rightarrow> Inl (iso_invalid input)
                | Some n \<Rightarrow>
                    bindR (add_nanos pf nanos (fold (\<lambda>u x. f64_mul x u) factors n)) (\<lambda>t.
                      duration_section pf input units [] False t cs))))"

definition date_units :: "nat \<Rightarrow> f64 list option" where
  "date_units c =
     (if c = 89 then Some [f64_of_int 31536000000000000]
      else if c = 77 then Some [f64_of_int 2592000000000000]
      else if c = 87 then Some [f64_of_int 604800000000000]
      else if c = 68 then Some [f64_of_int 86400000000000]
      else None)"

definition time_units :: "nat \<Rightarrow> f64 list option" where
  "time_units c =
     (if c = 72 then Some [f64_of_int 3600, f64_of_int 1000000000]
      else if c = 77 then Some [f64_of_int 60, f64_of_int 1000000000]
      else if c = 83 then Some [f64_of_int 1000000000]
      else None)"

definition duration_from_nanos :: "u64 \<Rightarrow> duration" where
  "duration_from_nanos n = unat n"

definition parse_iso8601_duration :: "platform \<Rightarrow> str \<Rightarrow> iso_failure + duration" where
  "parse_iso8601_duration pf input =
     (case trim input of
        [] \<Rightarrow> Inl (iso_invalid input)
      | c # body \<Rightarrow>
          if c \<noteq> 80 then Inl (iso_invalid input)
          else
            (let date_part = takeWhile (\<lambda>c. c \<noteq> 84) body;
                 rest = dropWhile (\<lambda>c. c \<noteq> 84) body
             in bindR (duration_section pf input date_units [] False 0 date_part) (\<lambda>nanos.
                bindR (case rest of
                         [] \<Rightarrow> Inr nanos
                       | t # time_part \<Rightarrow> duration_section pf input time_units [] False nanos time_part)
                  (\<lambda>nanos. Inr (duration_from_nanos (word_of_int nanos))))))"

text \<open>The SDK's structured duration is read through its nanos of milliseconds.\<close>

datatype duration_or_expression = DurationMillis u64 | Iso8601Expression str

fun resolve_duration :: "platform \<Rightarrow> duration_or_expression \<Rightarrow> iso_failure + duration option" where
  "resolve_duration pf (DurationMillis ms) = Inr (Some (duration_from_millis ms))"
| "resolve_duration pf (Iso8601Expression e) =
     bindR (parse_iso8601_duration pf e) (\<lambda>d. Inr (Some d))"

section \<open>Task definitions\<close>

record schema_def =
  sd_format :: str
  sd_document :: "json option"
  sd_resource :: "str option"

record data_def =
  dd_schema :: "schema_def option"
  dd_transform :: "str option"

datatype set_values = SetMap "(str \<times> json) list" | SetExpression str

record switch_case =
  sc_name :: str
  sc_when :: "str option"
  sc_then :: "str option"

datatype backoff = Constant | Linear | Exponential

record retry_policy_def =
  rp_when :: "str option"
  rp_except_when :: "str option"
  rp_delay :: "duration option"
  rp_backoff :: backoff
  rp_jitter :: "(duration \<times> duration) option"
  rp_attempt_count :: "nat option"
  rp_attempt_duration :: "duration option"
  rp_retry_duration :: "duration option"

record correlation_def =
  co_from :: str
  co_expect :: "str option"

record event_filter_def =
  ef_with :: "(str \<times> json) list"
  ef_correlate :: "correlation_def list"

datatype listen_to =
    ListenAll "event_filter_def list"
  | ListenAny "event_filter_def list"
  | ListenOne event_filter_def

datatype listen_until = UntilExpression str | UntilStrategy "event_filter_def list"

record error_definition =
  ed_type :: str
  ed_title :: str
  ed_status :: json
  ed_detail :: "str option"
  ed_instance :: "str option"

datatype error_ref = InlineError error_definition | ErrorReference str

record call_def =
  cd_call :: str
  cd_with :: "(str \<times> json) list option"

record run_container =
  rc_image :: str
  rc_command :: "str option"
  rc_arguments :: "str list"
  rc_environment :: "(str \<times> str) list"
  rc_stdin :: "str option"
  rc_name :: "str option"

record run_script =
  rs_language :: str
  rs_code :: str
  rs_arguments :: "str list"
  rs_environment :: "(str \<times> str) list"
  rs_stdin :: "str option"

record run_shell =
  rh_command :: str
  rh_arguments :: "str list"
  rh_environment :: "(str \<times> str) list"
  rh_stdin :: "str option"

record run_workflow =
  rw_namespace :: str
  rw_name :: str
  rw_version :: str
  rw_input :: "json option"

datatype run_process =
    RunContainer run_container
  | RunScript run_script
  | RunShell run_shell
  | RunWorkflow run_workflow

datatype run_return = RetStdout | RetStderr | RetCode | RetAll | RetNone

record run_def =
  rd_process :: run_process
  rd_await :: bool
  rd_return :: run_return

datatype compiled_task =
  CompiledTask (ct_name: str) (ct_reference: str) (ct_if: "str option") (ct_input: data_def)
    (ct_output: data_def) (ct_export: data_def) (ct_timeout: "duration option")
    (ct_then: "str option") (ct_descriptor: json) (ct_kind: task_kind)
and task_kind =
    TaskSet set_values
  | TaskDo "compiled_task list"
  | TaskFor for_def
  | TaskFork "compiled_task list" bool
  | TaskSwitch "switch_case list"
  | TaskTry "compiled_task list" catch_def
  | TaskEmit "(str \<times> json) list"
  | TaskListen listen_to "str option" "listen_until option" "listen_foreach_def option"
  | TaskRaise error_ref
  | TaskCall call_def
  | TaskRun run_def
  | TaskWait duration
and for_def =
  ForDef (fo_each: str) (fo_in: str) (fo_at: "str option") (fo_while: "str option")
    (fo_body: "compiled_task list")
and catch_def =
  CatchDef (ca_filter: "(str \<times> json) list option") (ca_as: "str option") (ca_when: "str option")
    (ca_except_when: "str option") (ca_retry: "retry_policy_def option")
    (ca_do: "compiled_task list option") (ca_then: "str option")
and listen_foreach_def =
  ListenForeachDef (lf_item: str) (lf_at: "str option") (lf_body: "compiled_task list")

fun kind_type_name :: "task_kind \<Rightarrow> str" where
  "kind_type_name (TaskSet _) = lit ''set''"
| "kind_type_name (TaskDo _) = lit ''do''"
| "kind_type_name (TaskFor _) = lit ''for''"
| "kind_type_name (TaskFork _ _) = lit ''fork''"
| "kind_type_name (TaskSwitch _) = lit ''switch''"
| "kind_type_name (TaskTry _ _) = lit ''try''"
| "kind_type_name (TaskEmit _) = lit ''emit''"
| "kind_type_name (TaskListen _ _ _ _) = lit ''listen''"
| "kind_type_name (TaskRaise _) = lit ''raise''"
| "kind_type_name (TaskCall _) = lit ''call''"
| "kind_type_name (TaskRun _) = lit ''run''"
| "kind_type_name (TaskWait _) = lit ''wait''"

definition task_type_name :: "compiled_task \<Rightarrow> str" where
  "task_type_name t = kind_type_name (ct_kind t)"

section \<open>Workflows\<close>

record compiled_extension =
  ce_extend :: str
  ce_when :: "str option"
  ce_before :: "compiled_task list"
  ce_after :: "compiled_task list"

record workflow_id =
  wi_namespace :: str
  wi_name :: str
  wi_version :: str

definition workflow_key :: "workflow_id \<Rightarrow> str" where
  "workflow_key i = wi_namespace i @ lit ''/'' @ wi_name i @ lit ''/'' @ wi_version i"

datatype eval_mode = Strict | Loose

record eval_config =
  ev_language :: str
  ev_mode :: eval_mode

definition default_eval_config :: eval_config where
  "default_eval_config = \<lparr>ev_language = lit ''jq'', ev_mode = Strict\<rparr>"

record compiled_schedule =
  sh_trigger :: schedule_trigger

text \<open>\<open>cw_definition\<close> is the serialised definition, \<open>cw_errors\<close> and \<open>cw_functions\<close> what the engine
  reads of the reusable components (only call tasks count as functions).\<close>

record compiled_workflow =
  cw_id :: workflow_id
  cw_definition :: json
  cw_tasks :: "compiled_task list"
  cw_input :: data_def
  cw_output :: data_def
  cw_timeout :: "duration option"
  cw_evaluate :: eval_config
  cw_secrets :: "str list"
  cw_errors :: "str \<Rightarrow> error_definition option"
  cw_functions :: "str \<Rightarrow> call_def option"
  cw_extensions :: "compiled_extension list"
  cw_schedule :: "compiled_schedule option"

end
