(* ===== verification/Exec.thy ===== *)
theory Exec
  imports Ir Events
begin

text \<open>
  What an execution runs on: the host services behind their traits, the state of an execution
  (\<open>ExecContext\<close> of engine.rs and the shared services of runtime.rs), computations over it, and
  the helpers that evaluate expressions, validate and persist.
\<close>

section \<open>Outcomes\<close>

text \<open>
  A computation ends with a value or a failure: an error of the workflow, a panic, an enclosing
  time limit that elapsed during a wait (counted from the inside, the future is dropped), the
  cancellation of the handle during a wait (the whole execution is dropped), a wait that never
  ends, or the model's bound on nested steps.
\<close>

datatype failure =
    Failed workflow_error | Panicked str | Elapsed nat | Abandoned | Hung | OutOfFuel

text \<open>The answer of a service outside the repository.\<close>

datatype 'a answer = Answer 'a | Refused workflow_error | Expires nat | Abandons | Hangs | Panics str

section \<open>Host services\<close>

datatype process_request =
    ShellProcess str "str list" "(str \<times> str) list" "str option"
  | ScriptProcess str str "str list" "(str \<times> str) list" "str option"
  | ContainerProcess str "str list" "(str \<times> str) list" "str option"

text \<open>How a subscription ends once its events are received.\<close>

datatype feed_end = FeedClosed | FeedCancelled | FeedExpires nat | FeedAbandoned | FeedSilent

type_synonym invoker = "nat \<Rightarrow> str \<Rightarrow> (str \<Rightarrow> json option) \<Rightarrow> expr_context \<Rightarrow> json answer"

text \<open>
  The services are parameters.  Each call of one is told how many calls came before, so that
  equal requests may be answered differently.
\<close>

record host =
  h_platform :: platform
  h_policy :: runtime_policy
  h_runtime_info :: json
  h_secret :: "str \<Rightarrow> str option"
  h_validate :: "json \<Rightarrow> json \<Rightarrow> str list option"
  h_function :: "str \<Rightarrow> invoker option"
  h_process :: "nat \<Rightarrow> process_request \<Rightarrow> process_result answer"
  h_publish :: "nat \<Rightarrow> event_message \<Rightarrow> unit answer"
  h_subscribe :: "nat \<Rightarrow> (event_message list \<times> feed_end) answer"
  h_workflow :: "str \<Rightarrow> compiled_workflow option"
  h_iso_time :: "int \<Rightarrow> str"
  h_uuid :: "nat \<Rightarrow> str"
  h_random :: "nat \<Rightarrow> f64"
  h_join_error :: "str \<Rightarrow> str"
  h_completion :: "nat \<Rightarrow> nat list"

section \<open>State\<close>

text \<open>
  \<open>w_cancel = Some n\<close>: the flag of the cancellation token is set after \<open>n\<close> more checks.
\<close>

record world =
  w_store :: memory_store
  w_published :: "event_message list"
  w_task_order :: "str list"
  w_clock :: det_clock
  w_calls :: nat
  w_uuids :: nat
  w_randoms :: nat
  w_cancel :: "nat option"

record exec_state =
  xs_context :: json
  xs_ended :: bool
  xs_loop_vars :: vmap
  xs_apply_extensions :: bool
  xs_scope_exited :: bool
  xs_world :: world

text \<open>The fields of \<open>ExecContext\<close> that stay as they are during an execution.\<close>

record exec_env =
  xe_workflow :: compiled_workflow
  xe_execution_id :: str
  xe_secrets :: "(str, str) amap"
  xe_workflow_descriptor :: json
  xe_runtime_descriptor :: json
  xe_timeout :: "duration option"

section \<open>Computations\<close>

type_synonym 'a exec = "exec_state \<Rightarrow> (failure + 'a) \<times> exec_state"

definition ok :: "'a \<Rightarrow> 'a exec" where
  "ok x = (\<lambda>s. (Inr x, s))"

definition fails :: "failure \<Rightarrow> 'a exec" where
  "fails f = (\<lambda>s. (Inl f, s))"

definition throw :: "workflow_error \<Rightarrow> 'a exec" where
  "throw e = fails (Failed e)"

definition bindE :: "'a exec \<Rightarrow> ('a \<Rightarrow> 'b exec) \<Rightarrow> 'b exec" where
  "bindE m f = (\<lambda>s. case m s of (Inl e, s') \<Rightarrow> (Inl e, s') | (Inr x, s') \<Rightarrow> f x s')"

definition lift :: "failure + 'a \<Rightarrow> 'a exec" where
  "lift r = (\<lambda>s. (r, s))"

definition gets :: "(exec_state \<Rightarrow> 'a) \<Rightarrow> 'a exec" where
  "gets f = (\<lambda>s. (Inr (f s), s))"

definition modifies :: "(exec_state \<Rightarrow> exec_state) \<Rightarrow> unit exec" where
  "modifies f = (\<lambda>s. (Inr (), f s))"

text \<open>The error of a computation as a value; the other failures pass.\<close>

definition post :: "(failure + 'a \<Rightarrow> failure + 'b) \<Rightarrow> 'a exec \<Rightarrow> 'b exec" where
  "post g m = (\<lambda>s. (g (fst (m s)), snd (m s)))"

fun tried :: "failure + 'a \<Rightarrow> failure + (workflow_error + 'a)" where
  "tried (Inl (Failed e)) = Inr (Inl e)"
| "tried (Inl f) = Inl f"
| "tried (Inr x) = Inr (Inr x)"

definition tryE :: "'a exec \<Rightarrow> (workflow_error + 'a) exec" where
  "tryE = post tried"

definition rethrow :: "workflow_error + 'a \<Rightarrow> 'a exec" where
  "rethrow r = (case r of Inl e \<Rightarrow> throw e | Inr x \<Rightarrow> ok x)"

fun mapE :: "('a \<Rightarrow> 'b exec) \<Rightarrow> 'a list \<Rightarrow> 'b list exec" where
  "mapE f [] = ok []"
| "mapE f (x # xs) = bindE (f x) (\<lambda>y. bindE (mapE f xs) (\<lambda>ys. ok (y # ys)))"

named_theorems exec_simps \<open>evaluation rules of computations\<close>

lemma ok_apply [exec_simps]: "ok x s = (Inr x, s)"
  by (simp add: ok_def)

lemma fails_apply [exec_simps]: "fails f s = (Inl f, s)"
  by (simp add: fails_def)

lemma throw_apply [exec_simps]: "throw e s = (Inl (Failed e), s)"
  by (simp add: throw_def exec_simps)

lemma lift_apply [exec_simps]: "lift r s = (r, s)"
  by (simp add: lift_def)

lemma gets_apply [exec_simps]: "gets f s = (Inr (f s), s)"
  by (simp add: gets_def)

lemma modifies_apply [exec_simps]: "modifies f s = (Inr (), f s)"
  by (simp add: modifies_def)

lemma bindE_apply [exec_simps]:
  "m s = (Inl f, s') \<Longrightarrow> bindE m k s = (Inl f, s')"
  "m s = (Inr x, s') \<Longrightarrow> bindE m k s = k x s'"
  by (simp_all add: bindE_def)

lemma bindE_simps [exec_simps]:
  "bindE (ok x) k1 = k1 x"
  "bindE (gets f) k2 s = k2 (f s) s"
  "bindE (modifies g) k3 s = k3 () (g s)"
  "bindE (lift (Inr y)) k4 = k4 y"
  "bindE (lift (Inl e)) k5 = fails e"
  "bindE (fails e) k6 = fails e"
  "bindE (throw w) k7 = throw w"
  by (simp_all add: bindE_def ok_def gets_def modifies_def lift_def fails_def throw_def fun_eq_iff)

lemma bindE_assoc: "bindE (bindE m f) g = bindE m (\<lambda>x. bindE (f x) g)"
  by (auto simp: bindE_def fun_eq_iff split: prod.splits sum.splits)

lemma bindE_Inr: "bindE m k s = (Inr y, t) \<longleftrightarrow> (\<exists>x s'. m s = (Inr x, s') \<and> k x s' = (Inr y, t))"
  by (auto simp: bindE_def split: prod.splits sum.splits)

lemma bindE_Inl: "bindE m k s = (Inl f, t) \<longleftrightarrow>
  m s = (Inl f, t) \<or> (\<exists>x s'. m s = (Inr x, s') \<and> k x s' = (Inl f, t))"
  by (auto simp: bindE_def split: prod.splits sum.splits)

lemma tryE_apply [exec_simps]:
  "m s = (Inr x, s') \<Longrightarrow> tryE m s = (Inr (Inr x), s')"
  "m s = (Inl (Failed e), s') \<Longrightarrow> tryE m s = (Inr (Inl e), s')"
  by (simp_all add: tryE_def post_def)

lemma post_apply [exec_simps]: "m s = (r, t) \<Longrightarrow> post g m s = (g r, t)"
  by (simp add: post_def)

subsection \<open>What a computation keeps\<close>

text \<open>
  A relation between the states before and after that composes, such as "the log has grown",
  holds of a computation when it holds of its parts.
\<close>

locale state_relation =
  fixes R :: "exec_state \<Rightarrow> exec_state \<Rightarrow> bool"
  assumes R_refl: "R s s"
    and R_trans: "R s t \<Longrightarrow> R t u \<Longrightarrow> R s u"
begin

definition keeps :: "'a exec \<Rightarrow> bool" where
  "keeps m \<longleftrightarrow> (\<forall>s. R s (snd (m s)))"

lemma keepsI: "(\<And>s. R s (snd (m s))) \<Longrightarrow> keeps m"
  by (simp add: keeps_def)

lemma keepsD: "keeps m \<Longrightarrow> R s (snd (m s))"
  by (simp add: keeps_def)

lemma keepsD_eq: "keeps m \<Longrightarrow> m s = (r, t) \<Longrightarrow> R s t"
  using keepsD by (metis snd_conv)

lemma keeps_pure: "keeps (ok x)" "keeps (fails f)" "keeps (throw e)" "keeps (lift r)" "keeps (gets g)"
  "keeps (rethrow q)"
  by (auto simp: keeps_def exec_simps R_refl rethrow_def split: sum.split)

lemma keeps_modifies: "(\<And>s. R s (f s)) \<Longrightarrow> keeps (modifies f)"
  by (simp add: keeps_def exec_simps)

lemma keeps_bindE: "keeps m \<Longrightarrow> (\<And>x. keeps (k x)) \<Longrightarrow> keeps (bindE m k)"
  by (auto simp: keeps_def bindE_def split: prod.splits sum.splits)
     (metis R_trans snd_conv)+

lemma keeps_post: "keeps m \<Longrightarrow> keeps (post g m)"
  by (simp add: keeps_def post_def)

lemma keeps_tryE: "keeps m \<Longrightarrow> keeps (tryE m)"
  by (simp add: tryE_def keeps_post)

lemma keeps_mapE: "(\<And>x. keeps (f x)) \<Longrightarrow> keeps (mapE f xs)"
  by (induction xs) (auto intro!: keeps_pure keeps_bindE)

lemmas keeps_intros = keeps_pure keeps_bindE keeps_tryE keeps_mapE

end


subsection \<open>More steps, same outcome\<close>

text \<open>\<open>refines m m'\<close>: where \<open>m\<close> does not stop at the bound of the model, \<open>m'\<close> does the same.\<close>

definition refines :: "'a exec \<Rightarrow> 'a exec \<Rightarrow> bool" where
  "refines m m' \<longleftrightarrow> (\<forall>s. fst (m s) = Inl OutOfFuel \<or> m' s = m s)"

lemma refines_refl [simp, intro]: "refines m m"
  by (simp add: refines_def)

lemma refinesD: "refines m m' \<Longrightarrow> fst (m s) \<noteq> Inl OutOfFuel \<Longrightarrow> m' s = m s"
  by (auto simp: refines_def)

lemma refinesI: "(\<And>s. fst (m s) \<noteq> Inl OutOfFuel \<Longrightarrow> m' s = m s) \<Longrightarrow> refines m m'"
  unfolding refines_def by blast

lemma refines_bindE:
  assumes "refines m m'" "\<And>x. refines (k x) (k' x)"
  shows "refines (bindE m k) (bindE m' k')"
proof (rule refinesI)
  fix s
  assume ran: "fst (bindE m k s) \<noteq> Inl OutOfFuel"
  then have "m' s = m s"
    by (intro refinesD [OF assms(1)]) (cases "m s", auto simp: bindE_def)
  moreover have "k' x t = k x t" if "m s = (Inr x, t)" for x t
    using ran that by (intro refinesD [OF assms(2)]) (simp add: bindE_def)
  ultimately show "bindE m' k' s = bindE m k s"
    by (auto simp: bindE_def split: prod.split sum.split)
qed

lemma refines_post:
  assumes "g (Inl OutOfFuel) = Inl OutOfFuel" "refines m m'"
  shows "refines (post g m) (post g m')"
proof (rule refinesI)
  fix s
  assume "fst (post g m s) \<noteq> Inl OutOfFuel"
  with assms(1) have "fst (m s) \<noteq> Inl OutOfFuel" by (auto simp: post_def)
  from refinesD [OF assms(2) this] show "post g m' s = post g m s" by (simp add: post_def)
qed

lemma refines_tryE: "refines m m' \<Longrightarrow> refines (tryE m) (tryE m')"
  by (simp add: tryE_def refines_post)

lemma refines_if: "(b \<Longrightarrow> refines m m') \<Longrightarrow> (\<not> b \<Longrightarrow> refines n n')
  \<Longrightarrow> refines (if b then m else n) (if b then m' else n')"
  by simp

lemma refines_option:
  "refines n n' \<Longrightarrow> (\<And>x. refines (f x) (f' x))
   \<Longrightarrow> refines (case v of None \<Rightarrow> n | Some x \<Rightarrow> f x) (case v of None \<Rightarrow> n' | Some x \<Rightarrow> f' x)"
  by (simp split: option.split)

lemmas refines_intros = refines_refl refines_bindE refines_tryE refines_if refines_option

section \<open>Cancellation, clock and external calls\<close>

definition on_world :: "(world \<Rightarrow> world) \<Rightarrow> exec_state \<Rightarrow> exec_state" where
  "on_world f s = s\<lparr>xs_world := f (xs_world s)\<rparr>"

text \<open>\<open>is_cancelled\<close> of the token; the \<open>n\<close>-th check is the first to see the flag.\<close>

definition is_cancelled :: "bool exec" where
  "is_cancelled = (\<lambda>s. case w_cancel (xs_world s) of
     None \<Rightarrow> (Inr False, s)
   | Some n \<Rightarrow> if n = 0 then (Inr True, s)
       else (Inr False, on_world (\<lambda>w. w\<lparr>w_cancel := Some (n - 1)\<rparr>) s))"

definition cancelled_error :: "exec_env \<Rightarrow> workflow_error" where
  "cancelled_error env = with_execution (xe_execution_id env) werr_cancelled"

definition check_cancel :: "exec_env \<Rightarrow> unit exec" where
  "check_cancel env =
     bindE is_cancelled (\<lambda>c. if c then throw (cancelled_error env) else ok ())"

text \<open>A call of a service: an elapsed limit and a wait without end are not answers.\<close>

definition external :: "(nat \<Rightarrow> 'a answer) \<Rightarrow> 'a exec" where
  "external call =
     bindE (gets (\<lambda>s. w_calls (xs_world s))) (\<lambda>n.
     bindE (modifies (on_world (\<lambda>w. w\<lparr>w_calls := n + 1\<rparr>))) (\<lambda>_.
       case call n of
         Answer x \<Rightarrow> ok x
       | Refused e \<Rightarrow> throw e
       | Expires k \<Rightarrow> fails (Elapsed k)
       | Abandons \<Rightarrow> fails Abandoned
       | Hangs \<Rightarrow> fails Hung
       | Panics m \<Rightarrow> fails (Panicked m)))"

definition epoch_seconds :: "int exec" where
  "epoch_seconds = gets (\<lambda>s. clock_epoch_seconds (w_clock (xs_world s)))"

definition sleep :: "duration \<Rightarrow> unit exec" where
  "sleep d = modifies (on_world (\<lambda>w. w\<lparr>w_clock := clock_sleep d (w_clock w)\<rparr>))"

text \<open>The sleep of \<open>wait_with_cancel\<close> and of the \<open>wait\<close> task, on the deterministic clock.\<close>

definition wait_with_cancel :: "exec_env \<Rightarrow> duration \<Rightarrow> unit exec" where
  "wait_with_cancel env d = bindE (check_cancel env) (\<lambda>_. sleep d)"

definition new_uuid :: "host \<Rightarrow> str exec" where
  "new_uuid h =
     bindE (gets (\<lambda>s. w_uuids (xs_world s))) (\<lambda>n.
     bindE (modifies (on_world (\<lambda>w. w\<lparr>w_uuids := n + 1\<rparr>))) (\<lambda>_. ok (h_uuid h n)))"

definition next_random :: "host \<Rightarrow> f64 exec" where
  "next_random h =
     bindE (gets (\<lambda>s. w_randoms (xs_world s))) (\<lambda>n.
     bindE (modifies (on_world (\<lambda>w. w\<lparr>w_randoms := n + 1\<rparr>))) (\<lambda>_. ok (h_random h n)))"

definition record_task :: "str \<Rightarrow> unit exec" where
  "record_task name = modifies (on_world (\<lambda>w. w\<lparr>w_task_order := w_task_order w @ [name]\<rparr>))"

definition publish :: "host \<Rightarrow> event_message \<Rightarrow> unit exec" where
  "publish h m =
     bindE (external (\<lambda>n. h_publish h n m)) (\<lambda>_.
       modifies (on_world (\<lambda>w. w\<lparr>w_published := w_published w @ [m]\<rparr>)))"

definition on_store :: "(memory_store \<Rightarrow> memory_store) \<Rightarrow> unit exec" where
  "on_store f = modifies (on_world (\<lambda>w. w\<lparr>w_store := f (w_store w)\<rparr>))"

definition set_loop_var :: "str \<Rightarrow> json \<Rightarrow> unit exec" where
  "set_loop_var k v = modifies (\<lambda>s. s\<lparr>xs_loop_vars := map_insert k v (xs_loop_vars s)\<rparr>)"

definition remove_loop_var :: "str \<Rightarrow> unit exec" where
  "remove_loop_var k = modifies (\<lambda>s. s\<lparr>xs_loop_vars := map_remove k (xs_loop_vars s)\<rparr>)"

definition set_context :: "json \<Rightarrow> unit exec" where
  "set_context v = modifies (\<lambda>s. s\<lparr>xs_context := v\<rparr>)"

section \<open>Expressions and schemas\<close>

text \<open>
  The cache of compiled expressions only ever holds what \<open>compile\<close> returned, so that looking up
  or compiling gives the same handle.
\<close>

type_synonym expression_cache = "str \<Rightarrow> compiled_expression option"

definition compiled_expression_of ::
  "platform \<Rightarrow> expression_cache \<Rightarrow> str \<Rightarrow> (engine_failure + compiled_expression) \<times> expression_cache"
where
  "compiled_expression_of pf cache source =
     (case cache source of
        Some c \<Rightarrow> (Inr c, cache)
      | None \<Rightarrow>
          (case engine_compile pf source of
             Inl e \<Rightarrow> (Inl e, cache)
           | Inr c \<Rightarrow> (Inr c, cache(source := Some c))))"

definition cache_ok :: "platform \<Rightarrow> expression_cache \<Rightarrow> bool" where
  "cache_ok pf cache \<longleftrightarrow> (\<forall>source c. cache source = Some c \<longrightarrow> engine_compile pf source = Inr c)"

lemma cache_transparent:
  assumes "cache_ok pf cache"
  shows "fst (compiled_expression_of pf cache source) = engine_compile pf source
    \<and> cache_ok pf (snd (compiled_expression_of pf cache source))"
  using assms
  by (auto simp: compiled_expression_of_def cache_ok_def split: option.split sum.split)

definition is_truthy :: "json \<Rightarrow> bool" where
  "is_truthy v \<longleftrightarrow> v \<noteq> Bool False \<and> v \<noteq> Null"

definition to_expression_error :: "core_expr_error \<Rightarrow> compiled_task option \<Rightarrow> workflow_error" where
  "to_expression_error e task =
     (let err = werr_new KExpression (with_detail (core_error_text e) (problem_standard SExpression))
      in case task of Some t \<Rightarrow> with_task (ct_reference t) err | None \<Rightarrow> err)"

fun engine_result :: "compiled_task option \<Rightarrow> engine_failure + 'a \<Rightarrow> failure + 'a" where
  "engine_result task (Inl (EngineError e)) = Inl (Failed (to_expression_error e task))"
| "engine_result task (Inl (EnginePanic m)) = Inl (Panicked m)"
| "engine_result task (Inr x) = Inr x"

definition eval_expr ::
  "host \<Rightarrow> str \<Rightarrow> json \<Rightarrow> vmap \<Rightarrow> compiled_task option \<Rightarrow> failure + json" where
  "eval_expr h source input vars task =
     engine_result task (bindR (engine_compile (h_platform h) source) (\<lambda>c.
       engine_evaluate (h_platform h) c input vars))"

definition eval_interpolation :: "host \<Rightarrow> json \<Rightarrow> expr_context \<Rightarrow> failure + json" where
  "eval_interpolation h value ectx =
     (case value of
        String s \<Rightarrow> engine_result None
          (engine_evaluate_interpolation (h_platform h) s (ec_input ectx) (as_variable_map ectx))
      | other \<Rightarrow> Inr other)"

definition execution_context ::
  "exec_env \<Rightarrow> exec_state \<Rightarrow> json \<Rightarrow> json \<Rightarrow> json option \<Rightarrow> expr_context" where
  "execution_context env s input output task =
     \<lparr>ec_context = xs_context s, ec_input = input, ec_output = output, ec_secrets = xe_secrets env,
      ec_authorization = None, ec_task = task, ec_workflow = Some (xe_workflow_descriptor env),
      ec_runtime = Some (xe_runtime_descriptor env), ec_extra_vars = xs_loop_vars s\<rparr>"

definition variables ::
  "exec_env \<Rightarrow> exec_state \<Rightarrow> json \<Rightarrow> json \<Rightarrow> json option \<Rightarrow> vmap" where
  "variables env s input output task =
     map_extend (xs_loop_vars s) (as_variable_map (execution_context env s input output task))"

text \<open>Evaluation over the variables of the current state.\<close>

definition eval_in ::
  "host \<Rightarrow> exec_env \<Rightarrow> str \<Rightarrow> json \<Rightarrow> json \<Rightarrow> json \<Rightarrow> json option \<Rightarrow> compiled_task option \<Rightarrow> json exec"
where
  "eval_in h env source this input output descriptor task =
     (\<lambda>s. (eval_expr h source this (variables env s input output descriptor) task, s))"

fun join_texts :: "str \<Rightarrow> str list \<Rightarrow> str" where
  "join_texts sep [] = []"
| "join_texts sep [x] = x"
| "join_texts sep (x # y # ys) = x @ sep @ join_texts sep (y # ys)"

definition validate_schema ::
  "host \<Rightarrow> schema_def option \<Rightarrow> json \<Rightarrow> str \<Rightarrow> failure + unit" where
  "validate_schema h schema value inst =
     (case Option.bind schema sd_document of
        None \<Rightarrow> Inr ()
      | Some document \<Rightarrow>
          (case h_validate h document value of
             None \<Rightarrow> Inr ()
           | Some errors \<Rightarrow> Inl (Failed (werr_new KSchema
               (with_instance inst (with_detail (join_texts (lit ''; '') errors)
                 (problem_standard SValidation)))))))"

text \<open>An optional transformation: the source if there is one, the value itself otherwise.\<close>

definition transform_or :: "(str \<Rightarrow> json exec) \<Rightarrow> str option \<Rightarrow> json \<Rightarrow> json exec" where
  "transform_or f source v = (case source of Some src \<Rightarrow> f src | None \<Rightarrow> ok v)"

lemma refines_transform [intro]: "(\<And>src. refines (f src) (f' src)) \<Longrightarrow>
  refines (transform_or f source v) (transform_or f' source v)"
  by (simp add: transform_or_def split: option.split)

end
