(* ===== verification/Tasks.thy ===== *)
theory Tasks
  imports Exec
begin

text \<open>
  The task implementations of tasks.rs.  A composite task runs nested scopes, single tasks (the
  branches of a fork) and other workflows through the engine; those runs are the fields of
  \<open>nested\<close>, which the engine supplies.
\<close>

section \<open>Directives and nested runs\<close>

datatype flow_directive = Continue | Exit | End | Goto str

definition parse_directive :: "str \<Rightarrow> flow_directive" where
  "parse_directive s =
     (if s = lit ''continue'' then Continue
      else if s = lit ''exit'' then Exit
      else if s = lit ''end'' then End
      else Goto s)"

record task_exec =
  te_output :: json
  te_directive :: "flow_directive option"

record nested =
  nx_scope :: "compiled_task list \<Rightarrow> json \<Rightarrow> json exec"
  nx_task :: "compiled_task \<Rightarrow> json \<Rightarrow> task_exec exec"
  nx_workflow :: "compiled_workflow \<Rightarrow> json \<Rightarrow> json exec"

text \<open>A run in a changed state; \<open>back\<close> makes the state after it from those before and after.\<close>

definition framed ::
  "(exec_state \<Rightarrow> exec_state) \<Rightarrow> (exec_state \<Rightarrow> failure + 'a \<Rightarrow> exec_state \<Rightarrow> exec_state)
    \<Rightarrow> 'a exec \<Rightarrow> 'a exec" where
  "framed into back m = (\<lambda>s. let r = m (into s) in (fst r, back s (fst r) (snd r)))"

lemma refines_framed: "refines m m' \<Longrightarrow> refines (framed into back m) (framed into back m')"
  by (auto simp: refines_def framed_def Let_def)

text \<open>A branch of a fork works on a clone of the context, whose shared parts stay shared.\<close>

definition in_branch :: "'a exec \<Rightarrow> 'a exec" where
  "in_branch = framed id (\<lambda>s r t. t\<lparr>xs_loop_vars := xs_loop_vars s,
     xs_apply_extensions := xs_apply_extensions s, xs_scope_exited := xs_scope_exited s\<rparr>)"

definition fresh_state :: "world \<Rightarrow> exec_state" where
  "fresh_state w = \<lparr>xs_context = Null, xs_ended = False, xs_loop_vars = [],
     xs_apply_extensions = True, xs_scope_exited = False, xs_world = w\<rparr>"

definition in_execution :: "'a exec \<Rightarrow> 'a exec" where
  "in_execution =
     framed (\<lambda>s. fresh_state (xs_world s)) (\<lambda>s r t. s\<lparr>xs_world := xs_world t\<rparr>)"

section \<open>Set and switch\<close>

fun set_entries :: "host \<Rightarrow> expr_context \<Rightarrow> (str \<times> json) list \<Rightarrow> vmap \<Rightarrow> failure + json" where
  "set_entries h ectx [] out = Inr (Object out)"
| "set_entries h ectx ((k, v) # kvs) out =
     bindR (eval_interpolation h v ectx) (\<lambda>resolved.
       set_entries h ectx kvs (map_insert k resolved out))"

fun task_set :: "host \<Rightarrow> set_values \<Rightarrow> expr_context \<Rightarrow> failure + json" where
  "task_set h (SetExpression src) ectx = eval_interpolation h (String src) ectx"
| "task_set h (SetMap entries) ectx = set_entries h ectx entries []"

fun task_switch ::
  "host \<Rightarrow> switch_case list \<Rightarrow> json \<Rightarrow> expr_context \<Rightarrow> failure + task_exec" where
  "task_switch h [] input ectx = Inr \<lparr>te_output = input, te_directive = None\<rparr>"
| "task_switch h (c # cs) input ectx =
     bindR (case sc_when c of
              Some cond \<Rightarrow> bindR (eval_expr h cond input (as_variable_map ectx) None) (\<lambda>v.
                Inr (is_truthy v))
            | None \<Rightarrow> Inr True)
       (\<lambda>matched.
         if matched
         then Inr \<lparr>te_output = input, te_directive = Some
                (case sc_then c of Some t \<Rightarrow> parse_directive t | None \<Rightarrow> Continue)\<rparr>
         else task_switch h cs input ectx)"

section \<open>For\<close>

definition loop_index_name :: "str option \<Rightarrow> str" where
  "loop_index_name given = (case given of Some a \<Rightarrow> a | None \<Rightarrow> lit ''index'')"

definition while_holds :: "host \<Rightarrow> exec_env \<Rightarrow> for_def \<Rightarrow> json \<Rightarrow> bool exec" where
  "while_holds h env d body_input =
     (case fo_while d of
        None \<Rightarrow> ok True
      | Some w \<Rightarrow> bindE (eval_in h env w body_input body_input Null None None) (\<lambda>v. ok (is_truthy v)))"

fun for_loop ::
  "nested \<Rightarrow> host \<Rightarrow> exec_env \<Rightarrow> for_def \<Rightarrow> nat \<Rightarrow> json list \<Rightarrow> json \<Rightarrow> json \<Rightarrow> json exec" where
  "for_loop nx h env d i [] body_input output = ok output"
| "for_loop nx h env d i (item # items) body_input output =
     bindE (check_cancel env) (\<lambda>_.
     bindE (set_loop_var (fo_each d) item) (\<lambda>_.
     bindE (set_loop_var (loop_index_name (fo_at d)) (json_of_nat i)) (\<lambda>_.
     bindE (while_holds h env d body_input) (\<lambda>go.
       if \<not> go then ok output
       else
         bindE (nx_scope nx (fo_body d) body_input) (\<lambda>body_output.
         bindE (gets xs_ended) (\<lambda>ended.
           if ended then ok body_output
           else for_loop nx h env d (i + 1) items body_output body_output))))))"

definition for_items :: "host \<Rightarrow> for_def \<Rightarrow> json \<Rightarrow> expr_context \<Rightarrow> failure + json list" where
  "for_items h d task_input ectx =
     bindR (eval_expr h (fo_in d) task_input (as_variable_map ectx) None) (\<lambda>collection.
       bindR (case collection of
           Array items \<Rightarrow> Inr items
         | Null \<Rightarrow> Inr []
         | other \<Rightarrow> Inl (Failed (expression_error (lit ''for `in` must evaluate to an array, got `''
             @ json_text (h_platform h) other @ lit ''`''))))
         (\<lambda>items.
           if max_loop_iterations (h_policy h) < length items
           then Inl (Failed (policy_error (lit ''for loop exceeds the maximum of ''
             @ nat_str (max_loop_iterations (h_policy h)) @ lit '' iterations'')))
           else Inr items))"

definition task_for ::
  "nested \<Rightarrow> host \<Rightarrow> exec_env \<Rightarrow> for_def \<Rightarrow> json \<Rightarrow> expr_context \<Rightarrow> json exec" where
  "task_for nx h env d task_input ectx =
     bindE (lift (for_items h d task_input ectx)) (\<lambda>items.
     bindE (for_loop nx h env d 0 items task_input Null) (\<lambda>output.
     bindE (remove_loop_var (fo_each d)) (\<lambda>_.
     bindE (remove_loop_var (loop_index_name (fo_at d))) (\<lambda>_. ok output))))"

section \<open>Fork\<close>

text \<open>
  The branches run one at a time, each to its end, in the order of their completion, which the
  host chooses; an order that is none is replaced by that of the definition.
\<close>

definition completion_order :: "host \<Rightarrow> nat \<Rightarrow> nat list" where
  "completion_order h n =
     (let order = h_completion h n in if sort order = [0..<n] then order else [0..<n])"

definition run_branch :: "nested \<Rightarrow> compiled_task list \<Rightarrow> json \<Rightarrow> nat \<Rightarrow> json exec" where
  "run_branch nx branches input i =
     in_branch (bindE (nx_task nx (branches ! i) input) (\<lambda>r. ok (te_output r)))"

text \<open>A panic of a spawned branch reaches the parent as a join error.\<close>

fun joined :: "host \<Rightarrow> str \<Rightarrow> failure + 'a \<Rightarrow> failure + 'a" where
  "joined h what (Inl (Panicked m)) = Inl (Failed (runtime_error (what @ h_join_error h m)))"
| "joined h what r = r"

fun join_all ::
  "host \<Rightarrow> (nat \<Rightarrow> json exec) \<Rightarrow> json option list \<Rightarrow> workflow_error option \<Rightarrow> nat list \<Rightarrow> json exec"
where
  "join_all h run results first_error [] =
     (case first_error of
        Some e \<Rightarrow> throw e
      | None \<Rightarrow> ok (Array (map or_null results)))"
| "join_all h run results first_error (i # order) =
     bindE (tryE (post (joined h (lit ''fork branch panicked: '')) (run i))) (\<lambda>r.
       case r of
         Inr v \<Rightarrow> join_all h run (results[i := Some v]) first_error order
       | Inl e \<Rightarrow> join_all h run results
           (case first_error of Some e' \<Rightarrow> Some e' | None \<Rightarrow> Some (werr_clone e)) order)"

definition task_fork ::
  "nested \<Rightarrow> host \<Rightarrow> compiled_task list \<Rightarrow> bool \<Rightarrow> json \<Rightarrow> json exec" where
  "task_fork nx h branches compete task_input =
     (let n = length branches; order = completion_order h n
      in if branches = [] then ok (Array [])
         else if compete
         then post (joined h (lit ''fork branch failed: ''))
           (run_branch nx branches task_input (hd order))
         else join_all h (run_branch nx branches task_input) (replicate n None) None order)"

section \<open>Try\<close>

definition set_error_var :: "catch_def \<Rightarrow> workflow_error \<Rightarrow> unit exec" where
  "set_error_var c err =
     set_loop_var (case ca_as c of Some n \<Rightarrow> n | None \<Rightarrow> lit ''error'') (to_problem_json err)"

definition error_attribute :: "workflow_error \<Rightarrow> str \<Rightarrow> json" where
  "error_attribute err key =
     (let p = we_problem err;
          text = (\<lambda>o'. String (case o' of Some t \<Rightarrow> t | None \<Rightarrow> []))
      in if key = lit ''type'' then String (pd_type p)
         else if key = lit ''status'' then json_of_u16 (pd_status p)
         else if key = lit ''title'' then String (pd_title p)
         else if key = lit ''detail'' then text (pd_detail p)
         else if key = lit ''instance'' then text (pd_instance p)
         else or_null (Option.bind (pd_extensions p) (\<lambda>m. map_of m key)))"

definition filter_accepts :: "(str \<times> json) list option \<Rightarrow> workflow_error \<Rightarrow> bool" where
  "filter_accepts flt err =
     (case flt of
        None \<Rightarrow> True
      | Some f \<Rightarrow> list_all (\<lambda>(key, expected). num_equal (error_attribute err key) expected) f)"

text \<open>\<open>when\<close> must hold and \<open>exceptWhen\<close> must not; the second is not evaluated if the first fails.\<close>

definition guards_hold ::
  "host \<Rightarrow> str option \<Rightarrow> str option \<Rightarrow> vmap \<Rightarrow> failure + bool" where
  "guards_hold h when_cond except vars =
     bindR (case when_cond of
              None \<Rightarrow> Inr True
            | Some w \<Rightarrow> bindR (eval_expr h w Null vars None) (\<lambda>v. Inr (is_truthy v)))
       (\<lambda>go. if \<not> go then Inr False
          else (case except of
                  None \<Rightarrow> Inr True
                | Some x \<Rightarrow> bindR (eval_expr h x Null vars None) (\<lambda>v. Inr (\<not> is_truthy v))))"

definition error_variables :: "exec_state \<Rightarrow> expr_context \<Rightarrow> vmap" where
  "error_variables s ectx = map_extend (xs_loop_vars s) (as_variable_map ectx)"

definition catch_matches ::
  "host \<Rightarrow> catch_def \<Rightarrow> workflow_error \<Rightarrow> expr_context \<Rightarrow> bool exec" where
  "catch_matches h c err ectx =
     (\<lambda>s. (if \<not> filter_accepts (ca_filter c) err then Inr False
           else guards_hold h (ca_when c) (ca_except_when c) (error_variables s ectx), s))"

definition retryable :: "host \<Rightarrow> retry_policy_def \<Rightarrow> expr_context \<Rightarrow> bool exec" where
  "retryable h r ectx =
     (\<lambda>s. (guards_hold h (rp_when r) (rp_except_when r) (error_variables s ectx), s))"

text \<open>\<open>2u32.saturating_pow\<close>\<close>

definition u32_pow2_saturating :: "u32 \<Rightarrow> u32" where
  "u32_pow2_saturating e = (if unat e < 32 then 2 ^ unat e else - 1)"

definition backoff_delay :: "retry_policy_def \<Rightarrow> nat \<Rightarrow> duration" where
  "backoff_delay r attempt =
     (let base = (case rp_delay r of Some d \<Rightarrow> d | None \<Rightarrow> 0); a = (word_of_nat attempt :: u32)
      in case rp_backoff r of
           Constant \<Rightarrow> base
         | Linear \<Rightarrow> duration_sat_mul base a
         | Exponential \<Rightarrow>
             duration_sat_mul base (u32_pow2_saturating (if a = 0 then 0 else a - 1)))"

definition compute_delay :: "host \<Rightarrow> retry_policy_def \<Rightarrow> nat \<Rightarrow> duration exec" where
  "compute_delay h r attempt =
     (case rp_jitter r of
        None \<Rightarrow> ok (backoff_delay r attempt)
      | Some (lo, hi) \<Rightarrow>
          bindE (next_random h) (\<lambda>f.
            let range_ms = duration_as_millis (duration_sat_sub hi lo);
                ms = f64_to_usize (f64_mul (f64_of_int (int range_ms)) f);
                jitter = duration_sat_add lo (duration_from_millis (word_of_nat ms))
            in ok (duration_sat_add (backoff_delay r attempt) jitter)))"

text \<open>
  One turn of the loop; \<open>again\<close> is the next turn if the policy has attempts left.
\<close>

definition try_turn ::
  "nested \<Rightarrow> host \<Rightarrow> exec_env \<Rightarrow> compiled_task list \<Rightarrow> catch_def \<Rightarrow> json \<Rightarrow> expr_context
    \<Rightarrow> nat \<Rightarrow> json exec option \<Rightarrow> json exec" where
  "try_turn nx h env body c task_input ectx attempt again =
     bindE (check_cancel env) (\<lambda>_.
     bindE (tryE (nx_scope nx body task_input)) (\<lambda>r.
       case r of
         Inr output \<Rightarrow> ok output
       | Inl err \<Rightarrow>
           bindE (set_error_var c err) (\<lambda>_.
           bindE (catch_matches h c err ectx) (\<lambda>m.
             if \<not> m then throw err
             else
               bindE (case ca_retry c of None \<Rightarrow> ok False | Some p \<Rightarrow> retryable h p ectx) (\<lambda>retry.
                 case (if retry then again else None) of
                   Some next_turn \<Rightarrow>
                     bindE (compute_delay h (the (ca_retry c)) (attempt + 1)) (\<lambda>delay.
                     bindE (wait_with_cancel env delay) (\<lambda>_. next_turn))
                 | None \<Rightarrow>
                     (case ca_do c of
                        Some handler \<Rightarrow> nx_scope nx handler task_input
                      | None \<Rightarrow> ok task_input))))))"

text \<open>\<open>left\<close> is what the limit of the policy leaves after \<open>attempt\<close> attempts.\<close>

fun try_loop ::
  "nested \<Rightarrow> host \<Rightarrow> exec_env \<Rightarrow> compiled_task list \<Rightarrow> catch_def \<Rightarrow> json \<Rightarrow> expr_context
    \<Rightarrow> nat \<Rightarrow> nat \<Rightarrow> json exec" where
  "try_loop nx h env body c task_input ectx attempt 0 =
     try_turn nx h env body c task_input ectx attempt None"
| "try_loop nx h env body c task_input ectx attempt (Suc left) =
     try_turn nx h env body c task_input ectx attempt
       (Some (try_loop nx h env body c task_input ectx (attempt + 1) left))"

definition retry_limit :: "catch_def \<Rightarrow> nat" where
  "retry_limit c = (case Option.bind (ca_retry c) rp_attempt_count of Some n \<Rightarrow> n | None \<Rightarrow> 0)"

definition task_try ::
  "nested \<Rightarrow> host \<Rightarrow> exec_env \<Rightarrow> compiled_task list \<Rightarrow> catch_def \<Rightarrow> json \<Rightarrow> expr_context \<Rightarrow> json exec"
where
  "task_try nx h env body c task_input ectx =
     try_loop nx h env body c task_input ectx 0 (retry_limit c)"

end
