(* ===== verification/TaskIO.thy ===== *)
theory TaskIO
  imports Tasks
begin

text \<open>The tasks of tasks.rs that meet the outside: emit, listen, raise, call, run and wait.\<close>

section \<open>Interpolation\<close>

fun deep_interpolate :: "host \<Rightarrow> expr_context \<Rightarrow> json \<Rightarrow> failure + json" where
  "deep_interpolate h ectx (Object m) =
     bindR (mapR (\<lambda>(k, v). bindR (deep_interpolate h ectx v) (\<lambda>r. Inr (k, r))) m) (\<lambda>kvs.
       Inr (Object (map_extend kvs [])))"
| "deep_interpolate h ectx (Array items) =
     bindR (mapR (deep_interpolate h ectx) items) (\<lambda>vs. Inr (Array vs))"
| "deep_interpolate h ectx (String s) = eval_interpolation h (String s) ectx"
| "deep_interpolate h ectx v = Inr v"

definition interpolate_map ::
  "host \<Rightarrow> (str \<times> json) list option \<Rightarrow> expr_context \<Rightarrow> failure + (str \<Rightarrow> json option)" where
  "interpolate_map h m ectx =
     bindR (mapR (\<lambda>(k, v). bindR (eval_interpolation h v ectx) (\<lambda>r. Inr (k, r)))
              (case m of Some kvs \<Rightarrow> kvs | None \<Rightarrow> []))
       (\<lambda>kvs. Inr (map_of kvs))"

definition interpolate_value ::
  "host \<Rightarrow> json option \<Rightarrow> expr_context \<Rightarrow> failure + json option" where
  "interpolate_value h v ectx =
     (case v of
        None \<Rightarrow> Inr None
      | Some x \<Rightarrow> bindR (eval_interpolation h x ectx) (\<lambda>r. Inr (Some r)))"

definition interpolate_string :: "host \<Rightarrow> expr_context \<Rightarrow> str \<Rightarrow> failure + str" where
  "interpolate_string h ectx s =
     bindR (eval_interpolation h (String s) ectx) (\<lambda>v.
       Inr (case as_str v of Some t \<Rightarrow> t | None \<Rightarrow> json_text (h_platform h) v))"

definition interpolate_opt_string ::
  "host \<Rightarrow> expr_context \<Rightarrow> str option \<Rightarrow> failure + str option" where
  "interpolate_opt_string h ectx s =
     (case s of
        Some t \<Rightarrow> bindR (interpolate_string h ectx t) (\<lambda>r. Inr (Some r))
      | None \<Rightarrow> Inr None)"

definition interpolate_strings :: "host \<Rightarrow> expr_context \<Rightarrow> str list \<Rightarrow> failure + str list" where
  "interpolate_strings h ectx xs = mapR (interpolate_string h ectx) xs"

definition interpolate_env ::
  "host \<Rightarrow> expr_context \<Rightarrow> (str \<times> str) list \<Rightarrow> failure + (str \<times> str) list" where
  "interpolate_env h ectx kvs =
     mapR (\<lambda>(k, v). bindR (interpolate_string h ectx v) (\<lambda>r. Inr (k, r))) kvs"

section \<open>Emit\<close>

definition str_or_empty :: "json \<Rightarrow> str" where
  "str_or_empty v = (case as_str v of Some s \<Rightarrow> s | None \<Rightarrow> [])"

definition set_event_attribute :: "str \<Rightarrow> json \<Rightarrow> cloud_event \<Rightarrow> cloud_event" where
  "set_event_attribute key v e =
     (if key = lit ''id'' then e\<lparr>cev_id := str_or_empty v\<rparr>
      else if key = lit ''source'' then e\<lparr>cev_source := str_or_empty v\<rparr>
      else if key = lit ''type'' then e\<lparr>cev_type := str_or_empty v\<rparr>
      else if key = lit ''time'' then e\<lparr>cev_time := as_str v\<rparr>
      else if key = lit ''subject'' then e\<lparr>cev_subject := as_str v\<rparr>
      else if key = lit ''datacontenttype'' then e\<lparr>cev_data_content_type := as_str v\<rparr>
      else if key = lit ''dataschema'' then e\<lparr>cev_data_schema := as_str v\<rparr>
      else if key = lit ''data'' then e\<lparr>cev_data := Some v\<rparr>
      else e\<lparr>cev_extensions := map_insert key v (cev_extensions e)\<rparr>)"

fun event_attributes ::
  "host \<Rightarrow> expr_context \<Rightarrow> (str \<times> json) list \<Rightarrow> cloud_event \<Rightarrow> failure + cloud_event" where
  "event_attributes h ectx [] e = Inr e"
| "event_attributes h ectx ((key, v) # kvs) e =
     bindR (deep_interpolate h ectx v) (\<lambda>resolved.
       event_attributes h ectx kvs (set_event_attribute key resolved e))"

definition event_source :: "workflow_id \<Rightarrow> str" where
  "event_source i = lit ''/'' @ wi_namespace i @ lit ''/'' @ wi_name i @ lit ''/'' @ wi_version i"

definition task_emit ::
  "host \<Rightarrow> exec_env \<Rightarrow> (str \<times> json) list \<Rightarrow> expr_context \<Rightarrow> json exec" where
  "task_emit h env attributes ectx =
     bindE (lift (event_attributes h ectx attributes
       (cloud_event_new [] (event_source (cw_id (xe_workflow env))) []))) (\<lambda>e0.
     bindE (if cev_id e0 = [] then bindE (new_uuid h) (\<lambda>i. ok (e0\<lparr>cev_id := i\<rparr>)) else ok e0) (\<lambda>e1.
       if cev_type e1 = []
       then throw (semantic_error (lit ''emit task requires an event `type`''))
       else
         bindE (if cev_time e1 = None
                then bindE epoch_seconds (\<lambda>t. ok (e1\<lparr>cev_time := Some (h_iso_time h t)\<rparr>))
                else ok e1) (\<lambda>e2.
         bindE (publish h (to_message e2)) (\<lambda>_. ok (cloud_event_to_value e2)))))"

section \<open>Listen\<close>

record listen_filter =
  li_matcher :: event_matcher
  li_correlate :: "correlation_def list"

definition build_matcher :: "event_filter_def \<Rightarrow> event_matcher" where
  "build_matcher f =
     (let text = (\<lambda>k. Option.bind (map_of (ef_with f) k) as_str)
      in matcher_new\<lparr>mt_type := text (lit ''type''), mt_source := text (lit ''source''),
           mt_subject := text (lit ''subject''),
           mt_attributes := map (\<lambda>(k, v). (k, Equals v))
             (filter (\<lambda>(k, v). k \<notin> {lit ''type'', lit ''source'', lit ''subject''}) (ef_with f))\<rparr>)"

definition build_filter :: "event_filter_def \<Rightarrow> listen_filter" where
  "build_filter f = \<lparr>li_matcher = build_matcher f, li_correlate = ef_correlate f\<rparr>"

definition read_event :: "event_message \<Rightarrow> str \<Rightarrow> json" where
  "read_event e read =
     (if read = lit ''envelope'' then cloud_event_to_value (from_message e)
      else or_null (em_data e))"

text \<open>An error of a correlation expression is no match; a panic stays one.\<close>

fun soft :: "failure + json \<Rightarrow> failure + json option" where
  "soft (Inl (Failed e)) = Inr None"
| "soft (Inl f) = Inl f"
| "soft (Inr v) = Inr (Some v)"

fun correlate ::
  "host \<Rightarrow> vmap \<Rightarrow> json \<Rightarrow> correlation_def list \<Rightarrow> vmap \<Rightarrow> failure + vmap option" where
  "correlate h vars data [] trial = Inr (Some trial)"
| "correlate h vars data (c # cs) trial =
     bindR (soft (eval_expr h (co_from c) data vars None)) (\<lambda>r.
       case r of
         None \<Rightarrow> Inr None
       | Some got \<Rightarrow>
           (case co_expect c of
              Some wanted \<Rightarrow>
                bindR (soft (eval_expr h wanted (or_null (map_of vars (lit ''context''))) vars None)) (\<lambda>r.
                  case r of
                    None \<Rightarrow> Inr None
                  | Some want \<Rightarrow>
                      if num_equal got want then correlate h vars data cs trial else Inr None)
            | None \<Rightarrow>
                (case map_of trial (co_from c) of
                   Some existing \<Rightarrow>
                     if num_equal got existing then correlate h vars data cs trial else Inr None
                 | None \<Rightarrow> correlate h vars data cs (map_insert (co_from c) got trial))))"

definition filter_matches ::
  "host \<Rightarrow> vmap \<Rightarrow> listen_filter \<Rightarrow> event_message \<Rightarrow> vmap \<Rightarrow> failure + vmap option" where
  "filter_matches h vars f e grp =
     (if \<not> event_matches (li_matcher f) (from_message e) then Inr None
      else correlate h vars (or_null (em_data e)) (li_correlate f) grp)"

fun any_matches ::
  "host \<Rightarrow> vmap \<Rightarrow> event_message \<Rightarrow> vmap \<Rightarrow> listen_filter list \<Rightarrow> failure + bool" where
  "any_matches h vars e grp [] = Inr False"
| "any_matches h vars e grp (f # fs) =
     bindR (filter_matches h vars f e grp) (\<lambda>m.
       if m \<noteq> None then Inr True else any_matches h vars e grp fs)"

text \<open>
  One pass over the filters not yet satisfied: the new marks, the correlation group, and whether
  a mark was set.
\<close>

fun mark_filters ::
  "host \<Rightarrow> vmap \<Rightarrow> event_message \<Rightarrow> listen_filter list \<Rightarrow> bool list \<Rightarrow> vmap
    \<Rightarrow> failure + bool list \<times> vmap \<times> bool" where
  "mark_filters h vars e (f # fs) (marked # marks) grp =
     bindR (if marked then Inr None else filter_matches h vars f e grp) (\<lambda>m.
     bindR (mark_filters h vars e fs marks (case m of Some g \<Rightarrow> g | None \<Rightarrow> grp))
       (\<lambda>(marks', grp', advanced).
         Inr ((marked \<or> m \<noteq> None) # marks', grp', advanced \<or> m \<noteq> None)))"
| "mark_filters h vars e _ _ grp = Inr ([], grp, False)"

datatype listen_need = NeedOne | NeedAll

record listen_plan =
  lp_filters :: "listen_filter list"
  lp_need :: listen_need
  lp_until_expression :: "str option"
  lp_until_filters :: "listen_filter list"
  lp_read :: str
  lp_vars :: vmap

record gathering =
  ga_consumed :: "event_message list"
  ga_satisfied :: "bool list"
  ga_until_state :: "bool list"
  ga_until_satisfied :: bool
  ga_group :: vmap

definition gathering_start :: "listen_plan \<Rightarrow> gathering" where
  "gathering_start p =
     \<lparr>ga_consumed = [], ga_satisfied = replicate (length (lp_filters p)) False,
      ga_until_state = replicate (length (lp_until_filters p)) False,
      ga_until_satisfied = False, ga_group = []\<rparr>"

definition has_until :: "listen_plan \<Rightarrow> bool" where
  "has_until p \<longleftrightarrow> lp_until_expression p \<noteq> None \<or> lp_until_filters p \<noteq> []"

definition gathering_done :: "listen_plan \<Rightarrow> gathering \<Rightarrow> bool" where
  "gathering_done p g \<longleftrightarrow>
     (case lp_need p of
        NeedOne \<Rightarrow> (has_until p \<and> lp_filters p = []) \<or> ga_consumed g \<noteq> []
      | NeedAll \<Rightarrow> list_all id (ga_satisfied g))
     \<and> (\<not> has_until p \<or> ga_until_satisfied g)"

text \<open>The strategy: \<open>(grp, marks, accepted)\<close>.\<close>

definition accept_event ::
  "host \<Rightarrow> listen_plan \<Rightarrow> gathering \<Rightarrow> event_message \<Rightarrow> failure + vmap \<times> bool list \<times> bool" where
  "accept_event h p g e =
     (case lp_need p of
        NeedOne \<Rightarrow>
          bindR (if lp_filters p = [] then Inr True
                 else any_matches h (lp_vars p) e (ga_group g) (lp_filters p))
            (\<lambda>m. Inr (ga_group g, ga_satisfied g, m))
      | NeedAll \<Rightarrow>
          bindR (mark_filters h (lp_vars p) e (lp_filters p) (ga_satisfied g) (ga_group g))
            (\<lambda>(marks, grp, advanced). Inr (grp, marks, advanced)))"

definition gather_step ::
  "host \<Rightarrow> listen_plan \<Rightarrow> gathering \<Rightarrow> event_message \<Rightarrow> failure + gathering" where
  "gather_step h p g e =
     bindR (accept_event h p g e) (\<lambda>(group1, marks, accepted).
     bindR (if lp_until_filters p = [] then Inr (ga_until_state g, group1, False)
            else mark_filters h (lp_vars p) e (lp_until_filters p) (ga_until_state g) group1)
       (\<lambda>(until_marks, group2, advanced).
         let consumed = (if accepted \<or> advanced then ga_consumed g @ [e] else ga_consumed g);
             until1 = (if advanced then list_all id until_marks else ga_until_satisfied g);
             g' = \<lparr>ga_consumed = consumed, ga_satisfied = marks, ga_until_state = until_marks,
                   ga_until_satisfied = until1, ga_group = group2\<rparr>
         in case lp_until_expression p of
              None \<Rightarrow> Inr g'
            | Some src \<Rightarrow>
                bindR (eval_expr h src (Array (map (\<lambda>e. read_event e (lp_read p)) consumed))
                         (lp_vars p) None) (\<lambda>v.
                  Inr (if is_truthy v then g'\<lparr>ga_until_satisfied := True\<rparr> else g'))))"

text \<open>The receive loop over what the subscription delivers.\<close>

fun gather ::
  "host \<Rightarrow> exec_env \<Rightarrow> listen_plan \<Rightarrow> gathering \<Rightarrow> event_message list \<Rightarrow> feed_end
    \<Rightarrow> failure + event_message list" where
  "gather h env p g [] fin =
     (if gathering_done p g then Inr (ga_consumed g)
      else (case fin of
              FeedClosed \<Rightarrow> Inr (ga_consumed g)
            | FeedCancelled \<Rightarrow> Inl (Failed (cancelled_error env))
            | FeedExpires k \<Rightarrow> Inl (Elapsed k)
            | FeedAbandoned \<Rightarrow> Inl Abandoned
            | FeedSilent \<Rightarrow> Inl Hung))"
| "gather h env p g (e # es) fin =
     (if gathering_done p g then Inr (ga_consumed g)
      else bindR (gather_step h p g e) (\<lambda>g'. gather h env p g' es fin))"

fun foreach_loop ::
  "nested \<Rightarrow> exec_env \<Rightarrow> listen_foreach_def \<Rightarrow> nat \<Rightarrow> json list \<Rightarrow> json list \<Rightarrow> json exec" where
  "foreach_loop nx env fe i [] outputs = ok (Array outputs)"
| "foreach_loop nx env fe i (item # items) outputs =
     bindE (check_cancel env) (\<lambda>_.
     bindE (set_loop_var (lf_item fe) item) (\<lambda>_.
     bindE (set_loop_var (loop_index_name (lf_at fe)) (json_of_nat i)) (\<lambda>_.
     bindE (nx_scope nx (lf_body fe) item) (\<lambda>body_output.
     bindE (remove_loop_var (lf_item fe)) (\<lambda>_.
     bindE (remove_loop_var (loop_index_name (lf_at fe))) (\<lambda>_.
     bindE (gets xs_ended) (\<lambda>ended.
       if ended then ok (Array (outputs @ [body_output]))
       else foreach_loop nx env fe (i + 1) items (outputs @ [body_output]))))))))"

definition listen_plan_of ::
  "listen_to \<Rightarrow> str option \<Rightarrow> listen_until option \<Rightarrow> expr_context \<Rightarrow> listen_plan" where
  "listen_plan_of to read until ectx =
     \<lparr>lp_filters = (case to of
        ListenOne f \<Rightarrow> [build_filter f]
      | ListenAny fs \<Rightarrow> map build_filter fs
      | ListenAll fs \<Rightarrow> map build_filter fs),
      lp_need = (case to of ListenAll fs \<Rightarrow> NeedAll | _ \<Rightarrow> NeedOne),
      lp_until_expression = (case until of Some (UntilExpression s) \<Rightarrow> Some s | _ \<Rightarrow> None),
      lp_until_filters = (case until of Some (UntilStrategy fs) \<Rightarrow> map build_filter fs | _ \<Rightarrow> []),
      lp_read = (case read of Some r \<Rightarrow> r | None \<Rightarrow> lit ''data''),
      lp_vars = as_variable_map ectx\<rparr>"

definition task_listen ::
  "nested \<Rightarrow> host \<Rightarrow> exec_env \<Rightarrow> listen_to \<Rightarrow> str option \<Rightarrow> listen_until option
    \<Rightarrow> listen_foreach_def option \<Rightarrow> expr_context \<Rightarrow> json exec" where
  "task_listen nx h env to read until foreach ectx =
     (let p = listen_plan_of to read until ectx in
      bindE (external (h_subscribe h)) (\<lambda>(delivered, fin).
      bindE (lift (gather h env p (gathering_start p) delivered fin)) (\<lambda>consumed.
        let read_values = map (\<lambda>e. read_event e (lp_read p)) consumed
        in case foreach of
             Some fe \<Rightarrow> foreach_loop nx env fe 0 read_values []
           | None \<Rightarrow> ok (Array read_values))))"

section \<open>Raise, call, run and wait\<close>

definition raised_problem :: "compiled_task \<Rightarrow> error_definition \<Rightarrow> problem_details" where
  "raised_problem task e =
     (let status = (case value_as_u64 (ed_status e) of Some n \<Rightarrow> ucast n | None \<Rightarrow> 500);
          p = problem_new (ed_type e) (ed_title e) status
      in p\<lparr>pd_detail := ed_detail e,
           pd_instance := Some (case ed_instance e of Some i \<Rightarrow> i | None \<Rightarrow> ct_reference task)\<rparr>)"

definition task_raise :: "exec_env \<Rightarrow> compiled_task \<Rightarrow> error_ref \<Rightarrow> workflow_error" where
  "task_raise env task r =
     (case (case r of
              InlineError e \<Rightarrow> Some e
            | ErrorReference name \<Rightarrow> cw_errors (xe_workflow env) name) of
        Some e \<Rightarrow> with_execution (xe_execution_id env) (werr_new KFault (raised_problem task e))
      | None \<Rightarrow> semantic_error (lit ''undefined error `''
          @ (case r of ErrorReference name \<Rightarrow> name | InlineError e \<Rightarrow> []) @ lit ''`''))"

definition task_call :: "host \<Rightarrow> exec_env \<Rightarrow> call_def \<Rightarrow> expr_context \<Rightarrow> json exec" where
  "task_call h env d ectx =
     bindE (lift (interpolate_map h (cd_with d) ectx)) (\<lambda>args.
       case h_function h (cd_call d) of
         Some invoke \<Rightarrow> external (\<lambda>n. invoke n (cd_call d) args ectx)
       | None \<Rightarrow>
           (case cw_functions (xe_workflow env) (cd_call d) of
              Some func \<Rightarrow>
                (let merged = map_of (case cd_with func of Some w \<Rightarrow> w | None \<Rightarrow> []) ++ args
                 in case h_function h (cd_call func) of
                      Some invoke \<Rightarrow> external (\<lambda>n. invoke n (cd_call func) merged ectx)
                    | None \<Rightarrow> throw (semantic_error (lit ''reusable function `'' @ cd_call d
                        @ lit ''` references unknown function `'' @ cd_call func @ lit ''`'')))
            | None \<Rightarrow> throw (semantic_error (lit ''unknown function `'' @ cd_call d @ lit ''`''))))"

definition process_code :: "process_result \<Rightarrow> json" where
  "process_code r = or_null (map_option (\<lambda>c. Number (number_of_i64 (scast c))) (pr_code r))"

definition process_output :: "process_result \<Rightarrow> run_return \<Rightarrow> json" where
  "process_output r ret =
     (case ret of
        RetStdout \<Rightarrow> or_null (map_option String (pr_stdout r))
      | RetStderr \<Rightarrow> or_null (map_option String (pr_stderr r))
      | RetCode \<Rightarrow> process_code r
      | RetAll \<Rightarrow> Object
          (map_insert (lit ''stderr'') (or_null (map_option String (pr_stderr r)))
          (map_insert (lit ''stdout'') (or_null (map_option String (pr_stdout r)))
          (map_insert (lit ''code'') (process_code r) [])))
      | RetNone \<Rightarrow> Null)"

fun process_request_of :: "host \<Rightarrow> run_process \<Rightarrow> expr_context \<Rightarrow> failure + process_request" where
  "process_request_of h (RunShell p) ectx =
     bindR (interpolate_string h ectx (rh_command p)) (\<lambda>command.
     bindR (interpolate_strings h ectx (rh_arguments p)) (\<lambda>args.
     bindR (interpolate_opt_string h ectx (rh_stdin p)) (\<lambda>stdin.
     bindR (interpolate_env h ectx (rh_environment p)) (\<lambda>env.
       Inr (ShellProcess command args env stdin)))))"
| "process_request_of h (RunScript p) ectx =
     bindR (interpolate_string h ectx (rs_code p)) (\<lambda>code.
     bindR (interpolate_strings h ectx (rs_arguments p)) (\<lambda>args.
     bindR (interpolate_opt_string h ectx (rs_stdin p)) (\<lambda>stdin.
     bindR (interpolate_env h ectx (rs_environment p)) (\<lambda>env.
       Inr (ScriptProcess (rs_language p) code args env stdin)))))"
| "process_request_of h (RunContainer p) ectx =
     bindR (interpolate_strings h ectx (rc_arguments p)) (\<lambda>args.
     bindR (interpolate_opt_string h ectx (rc_stdin p)) (\<lambda>stdin.
     bindR (interpolate_env h ectx (rc_environment p)) (\<lambda>env.
       Inr (ContainerProcess (rc_image p) args env stdin))))"
| "process_request_of h (RunWorkflow p) ectx = Inl (Panicked [])"

definition run_subworkflow ::
  "nested \<Rightarrow> host \<Rightarrow> run_workflow \<Rightarrow> expr_context \<Rightarrow> json exec" where
  "run_subworkflow nx h p ectx =
     bindE (lift (interpolate_value h (rw_input p) ectx)) (\<lambda>input.
       let key = workflow_key \<lparr>wi_namespace = rw_namespace p, wi_name = rw_name p,
                   wi_version = rw_version p\<rparr>
       in case h_workflow h key of
            None \<Rightarrow> throw (runtime_error (lit ''sub-workflow `'' @ key @ lit ''` is not registered''))
          | Some flow \<Rightarrow> in_execution (nx_workflow nx flow (or_null input)))"

definition task_run :: "nested \<Rightarrow> host \<Rightarrow> run_def \<Rightarrow> json \<Rightarrow> expr_context \<Rightarrow> json exec" where
  "task_run nx h d task_input ectx =
     (if \<not> rd_await d then ok task_input
      else
        (case rd_process d of
           RunWorkflow p \<Rightarrow> run_subworkflow nx h p ectx
         | process \<Rightarrow>
             bindE (lift (process_request_of h process ectx)) (\<lambda>request.
             bindE (external (\<lambda>n. h_process h n request)) (\<lambda>r.
               ok (process_output r (rd_return d))))))"

definition task_wait :: "exec_env \<Rightarrow> duration \<Rightarrow> json exec" where
  "task_wait env d = bindE (wait_with_cancel env d) (\<lambda>_. ok Null)"

end
