(* ===== verification/Engine.thy ===== *)
theory Engine
  imports TaskIO
begin

text \<open>
  The engine of engine.rs: the pipeline of a task, the turns of a scope, and the execution of a
  workflow with its records and events.  The functions of the code call each other; here each is
  a step over an \<open>engine\<close> that runs what is nested, and \<open>engine_at\<close> ties the knot up to a number
  of nested steps.
\<close>

section \<open>Extensions\<close>

definition extension_targets :: "compiled_extension \<Rightarrow> compiled_task \<Rightarrow> bool" where
  "extension_targets ext task \<longleftrightarrow>
     ce_extend ext = task_type_name task
     \<or> (case ct_kind task of TaskCall c \<Rightarrow> ce_extend ext = cd_call c | _ \<Rightarrow> False)"

fun select_extensions ::
  "host \<Rightarrow> exec_env \<Rightarrow> compiled_task \<Rightarrow> json \<Rightarrow> compiled_extension list \<Rightarrow> compiled_extension list exec"
where
  "select_extensions h env task input [] = ok []"
| "select_extensions h env task input (ext # exts) =
     (if \<not> extension_targets ext task then select_extensions h env task input exts
      else
        bindE (case ce_when ext of
                 None \<Rightarrow> ok True
               | Some w \<Rightarrow> bindE (eval_in h env w input input Null (Some (ct_descriptor task)) (Some task))
                   (\<lambda>v. ok (is_truthy v)))
          (\<lambda>applies.
            bindE (select_extensions h env task input exts) (\<lambda>rest.
              ok (if applies then ext # rest else rest))))"

definition applicable_extensions ::
  "host \<Rightarrow> exec_env \<Rightarrow> compiled_task \<Rightarrow> json \<Rightarrow> compiled_extension list exec" where
  "applicable_extensions h env task input =
     bindE (gets xs_apply_extensions) (\<lambda>apply'.
       if \<not> apply' then ok []
       else select_extensions h env task input (cw_extensions (xe_workflow env)))"

text \<open>
  The scope of an extension runs with extensions off and the exit mark cleared; both are reset
  when the run returns or fails, but not when its future is dropped or panics.  The result is the
  value and whether the scope exited.
\<close>

definition mark_exit :: "json exec \<Rightarrow> (json \<times> bool) exec" where
  "mark_exit m = bindE m (\<lambda>v. bindE (gets xs_scope_exited) (\<lambda>exited. ok (v, exited)))"

definition extension_frame :: "(json \<times> bool) exec \<Rightarrow> (json \<times> bool) exec" where
  "extension_frame =
     framed (\<lambda>s. s\<lparr>xs_apply_extensions := False, xs_scope_exited := False\<rparr>)
       (\<lambda>s r t. case r of
          Inr _ \<Rightarrow> t\<lparr>xs_scope_exited := False, xs_apply_extensions := xs_apply_extensions s\<rparr>
        | Inl (Failed e) \<Rightarrow> t\<lparr>xs_scope_exited := False, xs_apply_extensions := xs_apply_extensions s\<rparr>
        | Inl _ \<Rightarrow> t)"

definition run_extension_scope ::
  "nested \<Rightarrow> compiled_task list \<Rightarrow> json \<Rightarrow> (json \<times> bool) exec" where
  "run_extension_scope nx scope input =
     (if scope = [] then ok (input, False)
      else extension_frame (mark_exit (nx_scope nx scope input)))"

fun run_before :: "nested \<Rightarrow> compiled_extension list \<Rightarrow> json \<Rightarrow> (json \<times> bool) exec" where
  "run_before nx [] v = ok (v, False)"
| "run_before nx (ext # exts) v =
     bindE (run_extension_scope nx (ce_before ext) v) (\<lambda>(v', exited).
       if exited then ok (v', True) else run_before nx exts v')"

fun run_after :: "nested \<Rightarrow> compiled_extension list \<Rightarrow> json \<Rightarrow> json exec" where
  "run_after nx [] v = ok v"
| "run_after nx (ext # exts) v =
     bindE (run_extension_scope nx (ce_after ext) v) (\<lambda>(v', exited). run_after nx exts v')"

section \<open>The pipeline of a task\<close>

definition plain :: "json exec \<Rightarrow> task_exec exec" where
  "plain m = bindE m (\<lambda>v. ok \<lparr>te_output = v, te_directive = None\<rparr>)"

definition dispatch ::
  "nested \<Rightarrow> host \<Rightarrow> exec_env \<Rightarrow> compiled_task \<Rightarrow> json \<Rightarrow> expr_context \<Rightarrow> task_exec exec" where
  "dispatch nx h env task task_input ectx =
     (case ct_kind task of
        TaskSet v \<Rightarrow> plain (lift (task_set h v ectx))
      | TaskDo body \<Rightarrow> plain (nx_scope nx body task_input)
      | TaskFor d \<Rightarrow> plain (task_for nx h env d task_input ectx)
      | TaskFork branches compete \<Rightarrow> plain (task_fork nx h branches compete task_input)
      | TaskSwitch cases \<Rightarrow> lift (task_switch h cases task_input ectx)
      | TaskTry body c \<Rightarrow> plain (task_try nx h env body c task_input ectx)
      | TaskEmit attributes \<Rightarrow> plain (task_emit h env attributes ectx)
      | TaskListen to read until foreach \<Rightarrow> plain (task_listen nx h env to read until foreach ectx)
      | TaskRaise e \<Rightarrow> throw (task_raise env task e)
      | TaskCall d \<Rightarrow> plain (task_call h env d ectx)
      | TaskRun d \<Rightarrow> plain (task_run nx h d task_input ectx)
      | TaskWait d \<Rightarrow> plain (task_wait env d))"

definition guard_holds :: "host \<Rightarrow> exec_env \<Rightarrow> compiled_task \<Rightarrow> json \<Rightarrow> bool exec" where
  "guard_holds h env task raw_input =
     (case ct_if task of
        None \<Rightarrow> ok True
      | Some src \<Rightarrow>
          bindE (eval_in h env src raw_input raw_input Null (Some (ct_descriptor task)) (Some task))
            (\<lambda>v. ok (is_truthy v)))"

text \<open>Validation and transformation of the input, and the extensions that apply.\<close>

definition enter_task ::
  "host \<Rightarrow> exec_env \<Rightarrow> compiled_task \<Rightarrow> json \<Rightarrow> (json \<times> compiled_extension list) exec" where
  "enter_task h env task raw_input =
     bindE (lift (validate_schema h (dd_schema (ct_input task)) raw_input (ct_reference task))) (\<lambda>_.
     bindE (transform_or
              (\<lambda>src. eval_in h env src raw_input raw_input Null (Some (ct_descriptor task)) (Some task))
              (dd_transform (ct_input task)) raw_input) (\<lambda>task_input.
     bindE (applicable_extensions h env task raw_input) (\<lambda>exts. ok (task_input, exts))))"

text \<open>Output transformation, \<open>after\<close> extensions, and the export to the context.\<close>

definition leave_task ::
  "nested \<Rightarrow> host \<Rightarrow> compiled_task \<Rightarrow> compiled_extension list \<Rightarrow> expr_context \<Rightarrow> json
    \<Rightarrow> task_exec \<Rightarrow> task_exec exec" where
  "leave_task nx h task exts ectx task_input d =
     bindE (transform_or
              (\<lambda>src. lift (eval_expr h src (te_output d)
                 (as_variable_map_updated ectx task_input (te_output d)) (Some task)))
              (dd_transform (ct_output task)) (te_output d)) (\<lambda>transformed.
     bindE (run_after nx exts transformed) (\<lambda>output.
     bindE (lift (validate_schema h (dd_schema (ct_output task)) output (ct_reference task))) (\<lambda>_.
     bindE (case dd_transform (ct_export task) of
              Some src \<Rightarrow> lift (eval_expr h src output
                (as_variable_map_updated ectx task_input output) (Some task))
            | None \<Rightarrow> gets xs_context) (\<lambda>new_context.
     bindE (lift (validate_schema h (dd_schema (ct_export task)) new_context (ct_reference task))) (\<lambda>_.
     bindE (set_context new_context) (\<lambda>_.
       ok \<lparr>te_output = output, te_directive = te_directive d\<rparr>))))))"

definition exec_task ::
  "host \<Rightarrow> nested \<Rightarrow> exec_env \<Rightarrow> compiled_task \<Rightarrow> json \<Rightarrow> task_exec exec" where
  "exec_task h nx env task raw_input =
     bindE (record_task (ct_name task)) (\<lambda>_.
     bindE (guard_holds h env task raw_input) (\<lambda>go.
       if \<not> go then ok \<lparr>te_output = raw_input, te_directive = None\<rparr>
       else
         bindE (enter_task h env task raw_input) (\<lambda>(input, exts).
         bindE (run_before nx exts input) (\<lambda>(task_input, skip_body).
         bindE (gets (\<lambda>s. execution_context env s task_input Null (Some (ct_descriptor task)))) (\<lambda>ectx.
         bindE (if skip_body then ok \<lparr>te_output = task_input, te_directive = None\<rparr>
                else dispatch nx h env task task_input ectx) (\<lambda>d.
           leave_task nx h task exts ectx task_input d))))))"

section \<open>Records and events of an execution\<close>

definition json_of_i64 :: "int \<Rightarrow> json" where
  "json_of_i64 i = Number (number_of_i64 (word_of_int i))"

definition execution_record_of ::
  "exec_env \<Rightarrow> exec_state \<Rightarrow> phase \<Rightarrow> json option \<Rightarrow> int \<Rightarrow> execution_record" where
  "execution_record_of env s ph err started_at =
     (let i = cw_id (xe_workflow env)
      in \<lparr>er_execution_id = xe_execution_id env, er_workflow = workflow_key i,
          er_namespace = wi_namespace i, er_name = wi_name i, er_version = wi_version i,
          er_phase = ph, er_context = xs_context s, er_pointer = Null, er_error = err,
          er_started_at = started_at\<rparr>)"

definition pointer_to :: "nat \<Rightarrow> json \<Rightarrow> json" where
  "pointer_to next_index input =
     Object (map_insert (lit ''input'') input (map_insert (lit ''next'') (json_of_nat next_index) []))"

definition persist_event :: "exec_env \<Rightarrow> u64 \<Rightarrow> str \<Rightarrow> json \<Rightarrow> int \<Rightarrow> unit exec" where
  "persist_event env sequence ty payload timestamp =
     on_store (store_append_event
       \<lparr>sv_execution_id = xe_execution_id env, sv_sequence = sequence, sv_event_type = ty,
        sv_payload = payload, sv_timestamp = timestamp\<rparr>)"

definition persist_started :: "exec_env \<Rightarrow> int \<Rightarrow> unit exec" where
  "persist_started env started_at =
     bindE (gets id) (\<lambda>s.
     bindE (on_store (store_create ((execution_record_of env s Running None started_at)
              \<lparr>er_pointer := pointer_to 0 (xs_context s)\<rparr>))) (\<lambda>_.
       persist_event env 1 (lit ''workflow.started'')
         (Object (map_insert (lit ''startedAt'') (json_of_i64 started_at) [])) started_at))"

definition persist_checkpoint :: "exec_env \<Rightarrow> int \<Rightarrow> nat \<Rightarrow> json \<Rightarrow> unit exec" where
  "persist_checkpoint env started_at next_index input =
     bindE (gets id) (\<lambda>s.
       on_store (store_update ((execution_record_of env s Running None started_at)
         \<lparr>er_pointer := pointer_to next_index input\<rparr>)))"

fun terminal_event_type :: "phase \<Rightarrow> str" where
  "terminal_event_type Completed = lit ''workflow.completed''"
| "terminal_event_type Cancelled = lit ''workflow.cancelled''"
| "terminal_event_type _ = lit ''workflow.faulted''"

definition persist_terminal ::
  "exec_env \<Rightarrow> phase \<Rightarrow> workflow_error option \<Rightarrow> int \<Rightarrow> unit exec" where
  "persist_terminal env ph err started_at =
     bindE (gets id) (\<lambda>s.
     bindE (on_store (store_update
              (execution_record_of env s ph (map_option to_problem_json err) started_at))) (\<lambda>_.
     bindE epoch_seconds (\<lambda>timestamp.
       persist_event env 2 (terminal_event_type ph)
         (case err of
            Some e \<Rightarrow> to_problem_json e
          | None \<Rightarrow> Object (map_insert (lit ''completedAt'') (json_of_i64 timestamp) []))
         timestamp)))"

text \<open>The lifecycle emitter of the crate \<open>ows-runtime-observability\<close>; failures are ignored.\<close>

definition qualified_name :: "workflow_id \<Rightarrow> str" where
  "qualified_name i = wi_name i @ lit ''-'' @ wi_version i @ lit ''.'' @ wi_namespace i"

definition emit_lifecycle ::
  "host \<Rightarrow> exec_env \<Rightarrow> str \<Rightarrow> str \<Rightarrow> str \<Rightarrow> json \<Rightarrow> unit exec" where
  "emit_lifecycle h env suffix ty time data =
     bindE (tryE (publish h (to_message
       ((cloud_event_new (xe_execution_id env @ suffix) (event_source (cw_id (xe_workflow env))) ty)
          \<lparr>cev_time := Some time, cev_data := Some data\<rparr>)))) (\<lambda>_. ok ())"

definition workflow_started :: "host \<Rightarrow> exec_env \<Rightarrow> str \<Rightarrow> unit exec" where
  "workflow_started h env started_at =
     (let i = cw_id (xe_workflow env);
          definition_ref = Object (map_insert (lit ''name'') (String (wi_name i))
            (map_insert (lit ''namespace'') (String (wi_namespace i))
            (map_insert (lit ''version'') (String (wi_version i)) [])))
      in emit_lifecycle h env (lit ''.started'') (lit ''io.serverlessworkflow.workflow.started.v1'')
           started_at
           (Object (map_insert (lit ''name'') (String (qualified_name i))
             (map_insert (lit ''definition'') definition_ref
             (map_insert (lit ''startedAt'') (String started_at) [])))))"

definition workflow_completed :: "host \<Rightarrow> exec_env \<Rightarrow> str \<Rightarrow> unit exec" where
  "workflow_completed h env completed_at =
     emit_lifecycle h env (lit ''.completed'') (lit ''io.serverlessworkflow.workflow.completed.v1'')
       completed_at
       (Object (map_insert (lit ''name'') (String (qualified_name (cw_id (xe_workflow env))))
         (map_insert (lit ''completedAt'') (String completed_at) [])))"


section \<open>Scopes\<close>

record resume_state =
  re_next_index :: nat
  re_input :: json
  re_context :: json

record execution_options =
  eo_execution_id :: "str option"
  eo_resume :: "resume_state option"

definition default_options :: execution_options where
  "default_options = \<lparr>eo_execution_id = None, eo_resume = None\<rparr>"

text \<open>
  \<open>eg_turn env checkpoint tasks index input\<close> runs the loop of a scope from the task at \<open>index\<close>;
  \<open>checkpoint\<close> is the start time of an execution when the scope is its top level.
\<close>

record engine =
  eg_turn :: "exec_env \<Rightarrow> int option \<Rightarrow> compiled_task list \<Rightarrow> nat \<Rightarrow> json \<Rightarrow> json exec"
  eg_task :: "exec_env \<Rightarrow> compiled_task \<Rightarrow> json \<Rightarrow> task_exec exec"
  eg_execute :: "compiled_workflow \<Rightarrow> json \<Rightarrow> execution_options \<Rightarrow> json exec"

definition nested_of :: "engine \<Rightarrow> exec_env \<Rightarrow> nested" where
  "nested_of eg env =
     \<lparr>nx_scope = (\<lambda>tasks input. eg_turn eg env None tasks 0 input),
      nx_task = eg_task eg env,
      nx_workflow = (\<lambda>flow input. eg_execute eg flow input default_options)\<rparr>"

definition task_timeout :: "exec_env \<Rightarrow> compiled_task \<Rightarrow> duration option" where
  "task_timeout env task =
     (case ct_timeout task of Some d \<Rightarrow> Some d | None \<Rightarrow> xe_timeout env)"

definition timeout_failure :: "exec_env \<Rightarrow> compiled_task \<Rightarrow> failure" where
  "timeout_failure env task =
     Failed (with_execution (xe_execution_id env) (werr_timeout (Some (ct_reference task))))"

fun deadline :: "exec_env \<Rightarrow> compiled_task \<Rightarrow> failure + 'a \<Rightarrow> failure + 'a" where
  "deadline env task (Inl (Elapsed 0)) = Inl (timeout_failure env task)"
| "deadline env task (Inl (Elapsed (Suc k))) = Inl (Elapsed k)"
| "deadline env task r = r"

definition run_timed :: "engine \<Rightarrow> exec_env \<Rightarrow> compiled_task \<Rightarrow> json \<Rightarrow> task_exec exec" where
  "run_timed eg env task input =
     (case task_timeout env task of
        Some d \<Rightarrow> post (deadline env task) (eg_task eg env task input)
      | None \<Rightarrow> eg_task eg env task input)"

definition final_directive :: "compiled_task \<Rightarrow> task_exec \<Rightarrow> flow_directive" where
  "final_directive task r =
     (case te_directive r of
        Some d \<Rightarrow> d
      | None \<Rightarrow> (case ct_then task of Some t \<Rightarrow> parse_directive t | None \<Rightarrow> Continue))"

definition unknown_target :: "exec_env \<Rightarrow> str \<Rightarrow> workflow_error" where
  "unknown_target env name = with_execution (xe_execution_id env)
     (semantic_error (lit ''flow directive targets unknown task `'' @ name @ lit ''` in scope''))"

definition save_progress :: "exec_env \<Rightarrow> int option \<Rightarrow> nat \<Rightarrow> json \<Rightarrow> unit exec" where
  "save_progress env checkpoint index input =
     (case checkpoint of
        Some started_at \<Rightarrow> persist_checkpoint env started_at index input
      | None \<Rightarrow> ok ())"

definition scope_turn ::
  "engine \<Rightarrow> exec_env \<Rightarrow> int option \<Rightarrow> compiled_task list \<Rightarrow> nat \<Rightarrow> json \<Rightarrow> json exec" where
  "scope_turn eg env checkpoint tasks index input =
     bindE (check_cancel env) (\<lambda>_.
     bindE (gets xs_ended) (\<lambda>ended.
       if ended \<or> length tasks \<le> index then ok input
       else
         (let task = tasks ! index;
              goto = (\<lambda>i v. bindE (save_progress env checkpoint i v) (\<lambda>_.
                eg_turn eg env checkpoint tasks i v))
          in bindE (run_timed eg env task input) (\<lambda>r.
               case final_directive task r of
                 Continue \<Rightarrow> goto (index + 1) (te_output r)
               | Goto name \<Rightarrow>
                   (case position (\<lambda>t. ct_name t = name) tasks of
                      Some pos \<Rightarrow> goto pos (te_output r)
                    | None \<Rightarrow> throw (unknown_target env name))
               | Exit \<Rightarrow> bindE (modifies (\<lambda>s. s\<lparr>xs_scope_exited := True\<rparr>)) (\<lambda>_. ok (te_output r))
               | End \<Rightarrow> bindE (modifies (\<lambda>s. s\<lparr>xs_ended := True\<rparr>)) (\<lambda>_. ok (te_output r))))))"

section \<open>Executions\<close>

definition resolve_workflow_secrets :: "host \<Rightarrow> compiled_workflow \<Rightarrow> (str, str) amap" where
  "resolve_workflow_secrets h flow =
     fold (\<lambda>name m. case h_secret h name of Some v \<Rightarrow> map_insert name v m | None \<Rightarrow> m)
       (cw_secrets flow) []"

definition apply_workflow_input :: "host \<Rightarrow> exec_env \<Rightarrow> json \<Rightarrow> json exec" where
  "apply_workflow_input h env raw_input =
     (let d = cw_input (xe_workflow env) in
      bindE (lift (validate_schema h (dd_schema d) raw_input (lit ''/input''))) (\<lambda>_.
        transform_or (\<lambda>src. eval_in h env src raw_input raw_input Null None None)
          (dd_transform d) raw_input))"

definition apply_workflow_output :: "host \<Rightarrow> exec_env \<Rightarrow> json \<Rightarrow> json exec" where
  "apply_workflow_output h env raw_output =
     (let d = cw_output (xe_workflow env) in
      bindE (transform_or (\<lambda>src. eval_in h env src raw_output Null raw_output None None)
               (dd_transform d) raw_output) (\<lambda>v.
      bindE (lift (validate_schema h (dd_schema d) v (lit ''/output''))) (\<lambda>_. ok v)))"

definition execution_env ::
  "host \<Rightarrow> compiled_workflow \<Rightarrow> str \<Rightarrow> json \<Rightarrow> int \<Rightarrow> exec_env" where
  "execution_env h flow execution_id raw_input started_at =
     \<lparr>xe_workflow = flow, xe_execution_id = execution_id,
      xe_secrets = resolve_workflow_secrets h flow,
      xe_workflow_descriptor = Object
        (map_insert (lit ''id'') (String execution_id)
        (map_insert (lit ''definition'') (cw_definition flow)
        (map_insert (lit ''input'') raw_input
        (map_insert (lit ''startedAt'') (json_of_i64 started_at) [])))),
      xe_runtime_descriptor = h_runtime_info h, xe_timeout = cw_timeout flow\<rparr>"

text \<open>The entry of an execution: the input of the top-level scope and its first index.\<close>

definition enter_execution ::
  "host \<Rightarrow> exec_env \<Rightarrow> resume_state option \<Rightarrow> json \<Rightarrow> int \<Rightarrow> (json \<times> nat) exec" where
  "enter_execution h env resume raw_input started_at =
     (case resume of
        Some r \<Rightarrow> bindE (set_context (re_context r)) (\<lambda>_. ok (re_input r, re_next_index r))
      | None \<Rightarrow>
          bindE (workflow_started h env (h_iso_time h started_at)) (\<lambda>_.
          bindE (apply_workflow_input h env raw_input) (\<lambda>transformed.
          bindE (set_context transformed) (\<lambda>_.
          bindE (persist_started env started_at) (\<lambda>_. ok (transformed, 0))))))"

definition finish_execution ::
  "host \<Rightarrow> exec_env \<Rightarrow> int \<Rightarrow> workflow_error + json \<Rightarrow> json exec" where
  "finish_execution h env started_at outcome =
     (case outcome of
        Inr v \<Rightarrow>
          bindE epoch_seconds (\<lambda>now.
          bindE (workflow_completed h env (h_iso_time h now)) (\<lambda>_.
          bindE (persist_terminal env Completed None started_at) (\<lambda>_. ok v)))
      | Inl err \<Rightarrow>
          bindE (persist_terminal env (if we_kind err = KCancelled then Cancelled else Faulted)
                   (Some err) started_at) (\<lambda>_. throw err))"

definition execute_with ::
  "host \<Rightarrow> engine \<Rightarrow> compiled_workflow \<Rightarrow> json \<Rightarrow> execution_options \<Rightarrow> json exec" where
  "execute_with h eg flow raw_input options =
     bindE (case eo_execution_id options of Some i \<Rightarrow> ok i | None \<Rightarrow> new_uuid h) (\<lambda>execution_id.
     bindE epoch_seconds (\<lambda>started_at.
       let env = execution_env h flow execution_id raw_input started_at in
       bindE (enter_execution h env (eo_resume options) raw_input started_at) (\<lambda>(scope_input, start).
       bindE (tryE (bindE (eg_turn eg env (Some started_at) (cw_tasks flow) start scope_input)
                (apply_workflow_output h env))) (\<lambda>outcome.
         finish_execution h env started_at outcome))))"

section \<open>The engine, to a number of nested steps\<close>

primrec engine_at :: "host \<Rightarrow> nat \<Rightarrow> engine" where
  "engine_at h 0 =
     \<lparr>eg_turn = (\<lambda>_ _ _ _ _. fails OutOfFuel), eg_task = (\<lambda>_ _ _. fails OutOfFuel),
      eg_execute = (\<lambda>_ _ _. fails OutOfFuel)\<rparr>"
| "engine_at h (Suc n) =
     \<lparr>eg_turn = scope_turn (engine_at h n),
      eg_task = (\<lambda>env. exec_task h (nested_of (engine_at h n) env) env),
      eg_execute = execute_with h (engine_at h n)\<rparr>"

text \<open>\<open>execute\<close>: a run of a workflow from a state of the services.\<close>

definition execute ::
  "host \<Rightarrow> nat \<Rightarrow> compiled_workflow \<Rightarrow> json \<Rightarrow> execution_options \<Rightarrow> world \<Rightarrow> (failure + json) \<times> world"
where
  "execute h n flow input options w =
     (let r = eg_execute (engine_at h n) flow input options (fresh_state w)
      in (fst r, xs_world (snd r)))"

end
