(* ===== verification/EngineSteps.thy ===== *)
theory EngineSteps
  imports Engine
begin

text \<open>
  More nested steps never change an outcome: each function of the engine passes the order
  \<open>refines\<close> on from what it runs to itself.
\<close>

section \<open>Tasks over refined runs\<close>

definition nested_refines :: "nested \<Rightarrow> nested \<Rightarrow> bool" where
  "nested_refines nx nx' \<longleftrightarrow>
     (\<forall>ts v. refines (nx_scope nx ts v) (nx_scope nx' ts v))
     \<and> (\<forall>t v. refines (nx_task nx t v) (nx_task nx' t v))
     \<and> (\<forall>flow v. refines (nx_workflow nx flow v) (nx_workflow nx' flow v))"

lemma nested_refinesD:
  assumes "nested_refines nx nx'"
  shows "refines (nx_scope nx ts v) (nx_scope nx' ts v)"
    and "refines (nx_task nx t v) (nx_task nx' t v)"
    and "refines (nx_workflow nx flow v) (nx_workflow nx' flow v)"
  using assms by (simp_all add: nested_refines_def)

lemma refines_let: "(\<And>x. refines (f x) (f' x)) \<Longrightarrow> refines (Let v f) (Let v f')"
  by (simp add: Let_def)

lemma refines_pair: "(\<And>x y. refines (f x y) (f' x y))
  \<Longrightarrow> refines (case p of (x, y) \<Rightarrow> f x y) (case p of (x, y) \<Rightarrow> f' x y)"
  by (simp split: prod.split)

lemma refines_sum: "(\<And>x. refines (f x) (f' x)) \<Longrightarrow> (\<And>y. refines (g y) (g' y))
  \<Longrightarrow> refines (case r of Inl x \<Rightarrow> f x | Inr y \<Rightarrow> g y) (case r of Inl x \<Rightarrow> f' x | Inr y \<Rightarrow> g' y)"
  by (simp split: sum.split)

lemmas refines_steps = refines_intros refines_let refines_pair refines_sum refines_post refines_framed

lemma for_loop_refines:
  assumes "nested_refines nx nx'"
  shows "refines (for_loop nx h env d i items v out) (for_loop nx' h env d i items v out)"
  by (induction items arbitrary: i v out)
     (auto intro!: refines_steps nested_refinesD [OF assms])

lemma task_for_refines:
  "nested_refines nx nx' \<Longrightarrow> refines (task_for nx h env d v ectx) (task_for nx' h env d v ectx)"
  unfolding task_for_def by (intro refines_steps for_loop_refines)

lemma joined_OutOfFuel: "joined h what (Inl OutOfFuel) = Inl OutOfFuel"
  by simp

lemma run_branch_refines:
  "nested_refines nx nx' \<Longrightarrow> refines (run_branch nx branches v i) (run_branch nx' branches v i)"
  unfolding run_branch_def in_branch_def by (intro refines_steps nested_refinesD)

lemma join_all_refines:
  assumes "\<And>i. refines (run i) (run' i)"
  shows "refines (join_all h run results e order) (join_all h run' results e order)"
  by (induction order arbitrary: results e)
     (auto intro!: refines_steps assms split: option.split)

lemma task_fork_refines:
  "nested_refines nx nx' \<Longrightarrow> refines (task_fork nx h bs c v) (task_fork nx' h bs c v)"
  unfolding task_fork_def
  by (intro refines_steps run_branch_refines join_all_refines joined_OutOfFuel)

lemma try_turn_refines:
  assumes nx: "nested_refines nx nx'"
    and again: "\<And>m. again = Some m \<Longrightarrow> \<exists>m'. again' = Some m' \<and> refines m m'"
    and none: "again = None \<Longrightarrow> again' = None"
  shows "refines (try_turn nx h env body c v ectx k again) (try_turn nx' h env body c v ectx k again')"
proof (cases again)
  case None
  with none show ?thesis
    unfolding try_turn_def by (auto intro!: refines_steps nested_refinesD [OF nx])
next
  case (Some m)
  with again obtain m' where "again' = Some m'" "refines m m'" by blast
  with Some show ?thesis
    unfolding try_turn_def
    by (auto intro!: refines_steps nested_refinesD [OF nx])
qed

lemma try_loop_refines:
  assumes "nested_refines nx nx'"
  shows "refines (try_loop nx h env body c v ectx k left) (try_loop nx' h env body c v ectx k left)"
  by (induction left arbitrary: k) (auto intro!: try_turn_refines assms)

lemma task_try_refines:
  "nested_refines nx nx'
   \<Longrightarrow> refines (task_try nx h env body c v ectx) (task_try nx' h env body c v ectx)"
  unfolding task_try_def by (rule try_loop_refines)

lemma foreach_loop_refines:
  assumes "nested_refines nx nx'"
  shows "refines (foreach_loop nx env fe i items outs) (foreach_loop nx' env fe i items outs)"
  by (induction items arbitrary: i outs)
     (auto intro!: refines_steps nested_refinesD [OF assms])

lemma task_listen_refines:
  "nested_refines nx nx'
   \<Longrightarrow> refines (task_listen nx h env to r u fe ectx) (task_listen nx' h env to r u fe ectx)"
  unfolding task_listen_def by (intro refines_steps foreach_loop_refines)

lemma task_run_refines:
  assumes "nested_refines nx nx'"
  shows "refines (task_run nx h d v ectx) (task_run nx' h d v ectx)"
  unfolding task_run_def run_subworkflow_def in_execution_def
  by (auto intro!: refines_steps nested_refinesD [OF assms] split: run_process.split)

section \<open>The pipeline, scopes and executions\<close>

lemma run_extension_scope_refines:
  "nested_refines nx nx' \<Longrightarrow> refines (run_extension_scope nx ts v) (run_extension_scope nx' ts v)"
  unfolding run_extension_scope_def extension_frame_def mark_exit_def
  by (intro refines_steps nested_refinesD)

lemma run_before_refines:
  assumes "nested_refines nx nx'"
  shows "refines (run_before nx exts v) (run_before nx' exts v)"
  by (induction exts arbitrary: v)
     (auto intro!: refines_steps run_extension_scope_refines [OF assms])

lemma run_after_refines:
  assumes "nested_refines nx nx'"
  shows "refines (run_after nx exts v) (run_after nx' exts v)"
  by (induction exts arbitrary: v)
     (auto intro!: refines_steps run_extension_scope_refines [OF assms])

lemma dispatch_refines:
  assumes "nested_refines nx nx'"
  shows "refines (dispatch nx h env task v ectx) (dispatch nx' h env task v ectx)"
  unfolding dispatch_def plain_def
  by (auto split: task_kind.split intro!: refines_steps nested_refinesD [OF assms]
      task_for_refines [OF assms] task_fork_refines [OF assms] task_try_refines [OF assms]
      task_listen_refines [OF assms] task_run_refines [OF assms])

lemma leave_task_refines:
  "nested_refines nx nx'
   \<Longrightarrow> refines (leave_task nx h task exts ectx v d) (leave_task nx' h task exts ectx v d)"
  unfolding leave_task_def by (intro refines_steps run_after_refines refines_transform)

lemma exec_task_refines:
  assumes "nested_refines nx nx'"
  shows "refines (exec_task h nx env task v) (exec_task h nx' env task v)"
  unfolding exec_task_def
  by (intro refines_steps run_before_refines [OF assms] dispatch_refines [OF assms]
      leave_task_refines [OF assms])

definition engine_refines :: "engine \<Rightarrow> engine \<Rightarrow> bool" where
  "engine_refines eg eg' \<longleftrightarrow>
     (\<forall>env cp ts i v. refines (eg_turn eg env cp ts i v) (eg_turn eg' env cp ts i v))
     \<and> (\<forall>env t v. refines (eg_task eg env t v) (eg_task eg' env t v))
     \<and> (\<forall>flow v opts. refines (eg_execute eg flow v opts) (eg_execute eg' flow v opts))"

lemma engine_refinesD:
  assumes "engine_refines eg eg'"
  shows "refines (eg_turn eg env cp ts i v) (eg_turn eg' env cp ts i v)"
    and "refines (eg_task eg env t v) (eg_task eg' env t v)"
    and "refines (eg_execute eg flow v opts) (eg_execute eg' flow v opts)"
  using assms by (simp_all add: engine_refines_def)

lemma nested_of_refines: "engine_refines eg eg' \<Longrightarrow> nested_refines (nested_of eg env) (nested_of eg' env)"
  by (simp add: nested_refines_def nested_of_def engine_refinesD)

lemma deadline_OutOfFuel: "deadline env task (Inl OutOfFuel) = Inl OutOfFuel"
  by simp

lemma scope_turn_refines:
  assumes "engine_refines eg eg'"
  shows "refines (scope_turn eg env cp ts i v) (scope_turn eg' env cp ts i v)"
  unfolding scope_turn_def run_timed_def
  by (auto simp: Let_def split: flow_directive.split
      intro!: refines_steps engine_refinesD [OF assms] deadline_OutOfFuel)

lemma execute_with_refines:
  assumes "engine_refines eg eg'"
  shows "refines (execute_with h eg flow v opts) (execute_with h eg' flow v opts)"
  unfolding execute_with_def by (intro refines_steps engine_refinesD [OF assms])

lemma engine_at_Suc: "engine_refines (engine_at h n) (engine_at h (Suc n))"
proof (induction n)
  case 0
  then show ?case by (simp add: engine_refines_def refines_def fails_apply)
next
  case (Suc n)
  then show ?case
    by (simp add: engine_refines_def scope_turn_refines execute_with_refines exec_task_refines
        nested_of_refines)
qed

lemma refines_trans: "refines a b \<Longrightarrow> refines b c \<Longrightarrow> refines a c"
  by (auto simp: refines_def) metis

lemma engine_refines_trans:
  assumes "engine_refines a b" "engine_refines b c"
  shows "engine_refines a c"
  unfolding engine_refines_def
  using refines_trans [OF engine_refinesD(1) [OF assms(1)] engine_refinesD(1) [OF assms(2)]]
    refines_trans [OF engine_refinesD(2) [OF assms(1)] engine_refinesD(2) [OF assms(2)]]
    refines_trans [OF engine_refinesD(3) [OF assms(1)] engine_refinesD(3) [OF assms(2)]]
  by simp

lemma engine_at_add: "engine_refines (engine_at h n) (engine_at h (n + k))"
proof (induction k)
  case 0
  show ?case by (simp add: engine_refines_def)
next
  case (Suc k)
  from engine_refines_trans [OF Suc engine_at_Suc] show ?case unfolding add_Suc_right .
qed

lemma execute_stable:
  assumes "execute h n flow v opts w = (r, w')" "r \<noteq> Inl OutOfFuel"
  shows "execute h (n + k) flow v opts w = (r, w')"
proof -
  from assms have "fst (eg_execute (engine_at h n) flow v opts (fresh_state w)) \<noteq> Inl OutOfFuel"
    by (simp add: execute_def Let_def)
  from refinesD [OF engine_refinesD(3) [OF engine_at_add] this] assms(1) show ?thesis
    by (simp add: execute_def Let_def)
qed

end
