(* ===== verification/Runtime.thy ===== *)
theory Runtime
  imports Engine Dsl
begin

text \<open>
  The runtime of runtime.rs: the registry of workflows, the check of a definition's expressions,
  starting an execution behind a handle, and resuming one from the store.
\<close>

section \<open>Registry\<close>

type_synonym registry = "str \<Rightarrow> compiled_workflow option"

definition register :: "compiled_workflow \<Rightarrow> registry \<Rightarrow> registry" where
  "register flow reg = reg(workflow_key (cw_id flow) \<mapsto> flow)"

section \<open>Checking the expressions of a definition\<close>

definition expression_keys :: "str list" where
  "expression_keys = map lit [''if'', ''when'', ''while'', ''in'', ''as'', ''from'', ''exceptWhen'',
     ''until'', ''set'']"

definition is_expression_source :: "str option \<Rightarrow> str \<Rightarrow> bool" where
  "is_expression_source parent source \<longleftrightarrow>
     (case parent of Some k \<Rightarrow> k \<in> set expression_keys | None \<Rightarrow> False)
     \<or> str_contains source [36, 123]"

text \<open>\<open>~\<close> becomes \<open>~0\<close> and \<open>/\<close> becomes \<open>~1\<close>.\<close>

definition pointer_token :: "str \<Rightarrow> str" where
  "pointer_token k =
     concat (map (\<lambda>c. if c = 126 then [126, 48] else if c = 47 then [126, 49] else [c]) k)"

text \<open>
  A panic of the compiler is none of the returned errors; the check of a source stands for the
  cached compilation.
\<close>

definition check_source :: "platform \<Rightarrow> str \<Rightarrow> str \<Rightarrow> failure + unit" where
  "check_source pf path source =
     (case engine_compile pf source of
        Inr c \<Rightarrow> Inr ()
      | Inl (EnginePanic m) \<Rightarrow> Inl (Panicked m)
      | Inl (EngineError e) \<Rightarrow> Inl (Failed (werr_new KExpression
          (with_instance path (with_detail (core_error_text e) (problem_standard SExpression))))))"

fun validate_expression_value :: "platform \<Rightarrow> str \<Rightarrow> str option \<Rightarrow> json \<Rightarrow> failure + unit"
  and validate_items :: "platform \<Rightarrow> str \<Rightarrow> nat \<Rightarrow> json list \<Rightarrow> failure + unit"
  and validate_entries :: "platform \<Rightarrow> str \<Rightarrow> (str \<times> json) list \<Rightarrow> failure + unit"
where
  "validate_expression_value pf path parent (String source) =
     (if is_expression_source parent source then check_source pf path source else Inr ())"
| "validate_expression_value pf path parent (Array items) = validate_items pf path 0 items"
| "validate_expression_value pf path parent (Object m) = validate_entries pf path m"
| "validate_expression_value pf path parent v = Inr ()"
| "validate_items pf path i [] = Inr ()"
| "validate_items pf path i (v # vs) =
     bindR (validate_expression_value pf (path @ lit ''/'' @ nat_str i) None v) (\<lambda>_.
       validate_items pf path (i + 1) vs)"
| "validate_entries pf path [] = Inr ()"
| "validate_entries pf path ((k, v) # kvs) =
     bindR (validate_expression_value pf (path @ lit ''/'' @ pointer_token k) (Some k) v) (\<lambda>_.
       validate_entries pf path kvs)"

definition validate_expressions :: "platform \<Rightarrow> json \<Rightarrow> failure + unit" where
  "validate_expressions pf def = validate_expression_value pf [] None def"

text \<open>The first steps of \<open>Runtime::compile\<close>: the report as an error, then the language.\<close>

definition issue_text :: "validation_issue \<Rightarrow> str" where
  "issue_text i =
     (case vi_instance i of
        Some inst \<Rightarrow> vi_code i @ lit '' at '' @ inst @ lit '': '' @ vi_message i
      | None \<Rightarrow> vi_code i @ lit '': '' @ vi_message i)"

definition report_error :: "report \<Rightarrow> workflow_error" where
  "report_error r =
     (let e = validation_error (join_texts (lit ''; '') (map issue_text r))
      in e\<lparr>we_problem := (we_problem e)\<lparr>pd_instance :=
           (case r of [] \<Rightarrow> None | i # _ \<Rightarrow> vi_instance i)\<rparr>\<rparr>)"

definition language_error :: "str option \<Rightarrow> workflow_error option" where
  "language_error language =
     (case language of
        None \<Rightarrow> None
      | Some l \<Rightarrow>
          if l \<noteq> [] \<and> l \<noteq> lit ''jq''
          then Some (semantic_error (lit ''runtime expression language `'' @ l
            @ lit ''` is not supported by this runtime''))
          else None)"

definition compile_checks ::
  "platform \<Rightarrow> workflow_def \<Rightarrow> str option \<Rightarrow> json \<Rightarrow> failure + unit" where
  "compile_checks pf d language def =
     (let r = validate d in
      if \<not> is_valid r then Inl (Failed (report_error r))
      else
        (case language_error language of
           Some e \<Rightarrow> Inl (Failed e)
         | None \<Rightarrow> validate_expressions pf def))"

section \<open>Executions behind a handle\<close>

text \<open>
  \<open>run_with_cancel\<close>: the time limit of the workflow drops the execution, and so does a
  cancellation of the handle that arrives during a wait.  \<open>wait\<close> of the handle receives nothing
  from a task that panicked, which it reports as a cancellation.
\<close>

fun run_outcome :: "compiled_workflow \<Rightarrow> failure + json \<Rightarrow> failure + json" where
  "run_outcome flow (Inl (Elapsed k)) =
     (if cw_timeout flow \<noteq> None \<and> k = 0 then Inl (Failed (werr_timeout None)) else Inl (Elapsed (k - 1)))"
| "run_outcome flow (Inl Abandoned) = Inl (Failed werr_cancelled)"
| "run_outcome flow r = r"

fun wait_outcome :: "failure + json \<Rightarrow> failure + json" where
  "wait_outcome (Inl (Panicked m)) = Inl (Failed werr_cancelled)"
| "wait_outcome r = r"

definition next_uuid :: "host \<Rightarrow> world \<Rightarrow> str \<times> world" where
  "next_uuid h w = (h_uuid h (w_uuids w), w\<lparr>w_uuids := w_uuids w + 1\<rparr>)"

text \<open>\<open>Runtime::execute\<close> followed by \<open>wait\<close>: the identifier of the handle and the outcome.\<close>

definition runtime_execute ::
  "host \<Rightarrow> nat \<Rightarrow> compiled_workflow \<Rightarrow> json \<Rightarrow> world \<Rightarrow> str \<times> (failure + json) \<times> world" where
  "runtime_execute h n flow input w =
     (let (handle_id, w1) = next_uuid h w;
          (r, w2) = execute h n flow input default_options w1
      in (handle_id, wait_outcome (run_outcome flow r), w2))"

definition unknown_execution :: "str \<Rightarrow> workflow_error" where
  "unknown_execution i = runtime_error (lit ''unknown execution `'' @ i @ lit ''`'')"

definition pointer_next :: "json \<Rightarrow> nat" where
  "pointer_next p =
     (case Option.bind (json_get p (lit ''next'')) value_as_u64 of Some n \<Rightarrow> unat n | None \<Rightarrow> 0)"

definition resume_state_of :: "execution_record \<Rightarrow> resume_state" where
  "resume_state_of r =
     \<lparr>re_next_index = pointer_next (er_pointer r),
      re_input = (case json_get (er_pointer r) (lit ''input'') of Some v \<Rightarrow> v | None \<Rightarrow> er_context r),
      re_context = er_context r\<rparr>"

text \<open>The execution runs under a token of its own, which nobody cancels.\<close>

definition resume :: "host \<Rightarrow> nat \<Rightarrow> str \<Rightarrow> world \<Rightarrow> (failure + json) \<times> world" where
  "resume h n execution_id w =
     (case store_load (w_store w) execution_id of
        None \<Rightarrow> (Inl (Failed (unknown_execution execution_id)), w)
      | Some r \<Rightarrow>
          if is_terminal (er_phase r)
          then (Inl (Failed (runtime_error (lit ''execution `'' @ execution_id @ lit ''` is already ''
                 @ phase_str (er_phase r) @ lit '' and cannot be resumed''))), w)
          else
            (case h_workflow h (er_workflow r) of
               None \<Rightarrow> (Inl (Failed (runtime_error (lit ''workflow `'' @ er_workflow r
                 @ lit ''` is not registered; register it before resuming''))), w)
             | Some flow \<Rightarrow> execute h n flow Null
                 \<lparr>eo_execution_id = Some (er_execution_id r), eo_resume = Some (resume_state_of r)\<rparr> (w\<lparr>w_cancel := None\<rparr>)))"

section \<open>Expressions of an accepted definition\<close>

text \<open>The strings of a value with the key they stand under.\<close>

fun keyed_strings :: "str option \<Rightarrow> json \<Rightarrow> (str option \<times> str) list" where
  "keyed_strings parent (String s) = [(parent, s)]"
| "keyed_strings parent (Array vs) = concat (map (keyed_strings None) vs)"
| "keyed_strings parent (Object m) = concat (map (\<lambda>(k, v). keyed_strings (Some k) v) m)"
| "keyed_strings parent v = []"

definition compiles :: "platform \<Rightarrow> str option \<times> str \<Rightarrow> bool" where
  "compiles pf ks \<longleftrightarrow>
     (is_expression_source (fst ks) (snd ks) \<longrightarrow> (\<exists>c. engine_compile pf (snd ks) = Inr c))"

lemma check_source_ok: "check_source pf path s = Inr () \<longleftrightarrow> (\<exists>c. engine_compile pf s = Inr c)"
  by (simp add: check_source_def split: sum.split engine_failure.split)

lemma validate_expression_value_ok:
  "validate_expression_value pf path parent v = Inr () \<longleftrightarrow>
     (\<forall>ks \<in> set (keyed_strings parent v). compiles pf ks)"
  "validate_items pf path i vs = Inr () \<longleftrightarrow>
     (\<forall>v \<in> set vs. \<forall>ks \<in> set (keyed_strings None v). compiles pf ks)"
  "validate_entries pf path m = Inr () \<longleftrightarrow>
     (\<forall>kv \<in> set m. \<forall>ks \<in> set (keyed_strings (Some (fst kv)) (snd kv)). compiles pf ks)"
proof (induction pf path parent v and pf path i vs and pf path m
    rule: validate_expression_value_validate_items_validate_entries.induct)
qed (simp_all add: compiles_def check_source_ok bindR_eq_Inr case_prod_beta cong: conj_cong)

end
