(* ===== verification/EngineEnds.thy ===== *)
theory EngineEnds
  imports Runtime
begin

text \<open>
  How executions end.  A workflow without extensions and without sub-workflows whose directives
  only lead forward needs a number of nested steps that its tasks determine, and on services that
  all come to an end its execution ends with a result or an error; a scope that jumps back may
  need any number.
\<close>

section \<open>Bounded workflows\<close>

definition goes_forward :: "compiled_task list \<Rightarrow> nat \<Rightarrow> flow_directive \<Rightarrow> bool" where
  "goes_forward ts i d \<longleftrightarrow>
     (case d of
        Goto name \<Rightarrow> (case position (\<lambda>t. ct_name t = name) ts of Some p \<Rightarrow> i < p | None \<Rightarrow> True)
      | _ \<Rightarrow> True)"

definition case_directive :: "switch_case \<Rightarrow> flow_directive" where
  "case_directive c = (case sc_then c of Some t \<Rightarrow> parse_directive t | None \<Rightarrow> Continue)"

definition own_directives :: "compiled_task \<Rightarrow> flow_directive list" where
  "own_directives t =
     (case ct_then t of Some d \<Rightarrow> [parse_directive d] | None \<Rightarrow> [])
     @ (case ct_kind t of TaskSwitch cs \<Rightarrow> map case_directive cs | _ \<Rightarrow> [])"

definition directives_forward :: "compiled_task list \<Rightarrow> bool" where
  "directives_forward ts \<longleftrightarrow>
     list_all (\<lambda>i. list_all (goes_forward ts i) (own_directives (ts ! i))) [0..<length ts]"

definition starts_workflow :: "run_def \<Rightarrow> bool" where
  "starts_workflow d \<longleftrightarrow> (case rd_process d of RunWorkflow p \<Rightarrow> rd_await d | _ \<Rightarrow> False)"

fun task_bounded :: "compiled_task \<Rightarrow> bool" and kind_bounded :: "task_kind \<Rightarrow> bool" where
  "task_bounded (CompiledTask n r i inp out ex tm th de k) = kind_bounded k"
| "kind_bounded (TaskDo b) = (directives_forward b \<and> list_all task_bounded b)"
| "kind_bounded (TaskFor (ForDef e c a w b)) = (directives_forward b \<and> list_all task_bounded b)"
| "kind_bounded (TaskFork bs c) = list_all task_bounded bs"
| "kind_bounded (TaskTry b (CatchDef f a w x r d t)) =
     (directives_forward b \<and> list_all task_bounded b
      \<and> (case d of Some hs \<Rightarrow> directives_forward hs \<and> list_all task_bounded hs | None \<Rightarrow> True))"
| "kind_bounded (TaskListen to r u fe) =
     (case fe of
        Some (ListenForeachDef i a b) \<Rightarrow> directives_forward b \<and> list_all task_bounded b
      | None \<Rightarrow> True)"
| "kind_bounded (TaskRun d) = (\<not> starts_workflow d)"
| "kind_bounded _ = True"

definition scope_bounded :: "compiled_task list \<Rightarrow> bool" where
  "scope_bounded ts \<longleftrightarrow> directives_forward ts \<and> list_all task_bounded ts"

text \<open>The nested steps: a turn per task, below each what the task itself needs.\<close>

fun task_need :: "compiled_task \<Rightarrow> nat" and kind_need :: "task_kind \<Rightarrow> nat" where
  "task_need (CompiledTask n r i inp out ex tm th de k) = Suc (kind_need k)"
| "kind_need (TaskDo b) = Suc (length b) + sum_list (map task_need b)"
| "kind_need (TaskFor (ForDef e c a w b)) = Suc (length b) + sum_list (map task_need b)"
| "kind_need (TaskFork bs c) = sum_list (map task_need bs)"
| "kind_need (TaskTry b (CatchDef f a w x r d t)) =
     Suc (length b) + sum_list (map task_need b)
     + (case d of Some hs \<Rightarrow> Suc (length hs) + sum_list (map task_need hs) | None \<Rightarrow> 0)"
| "kind_need (TaskListen to r u fe) =
     (case fe of
        Some (ListenForeachDef i a b) \<Rightarrow> Suc (length b) + sum_list (map task_need b)
      | None \<Rightarrow> 0)"
| "kind_need _ = 0"

definition scope_need :: "compiled_task list \<Rightarrow> nat" where
  "scope_need ts = Suc (length ts) + sum_list (map task_need ts)"

section \<open>Results that an execution does not have\<close>

text \<open>
  A set of failures that no service brings about: the contract of the services towards the
  engine.  Under it no execution of a bounded workflow fails in one of those ways.
\<close>

fun answer_avoids :: "(failure \<Rightarrow> bool) \<Rightarrow> 'a answer \<Rightarrow> bool" where
  "answer_avoids bad (Expires k) = (\<not> bad (Elapsed k))"
| "answer_avoids bad Abandons = (\<not> bad Abandoned)"
| "answer_avoids bad Hangs = (\<not> bad Hung)"
| "answer_avoids bad a = True"

fun feed_avoids :: "(failure \<Rightarrow> bool) \<Rightarrow> feed_end \<Rightarrow> bool" where
  "feed_avoids bad (FeedExpires k) = (\<not> bad (Elapsed k))"
| "feed_avoids bad FeedAbandoned = (\<not> bad Abandoned)"
| "feed_avoids bad FeedSilent = (\<not> bad Hung)"
| "feed_avoids bad fin = True"

locale allowed_errors =
  fixes bad :: "failure \<Rightarrow> bool"
  assumes errors_allowed: "\<not> bad (Failed e)"
    and panics_allowed: "\<not> bad (Panicked m)"
    and outer_limits: "\<not> bad (Elapsed (Suc k)) \<Longrightarrow> \<not> bad (Elapsed k)"

locale avoided_failures = allowed_errors bad for bad +
  fixes h :: host
  assumes function_answers: "h_function h f = Some invoke \<Longrightarrow> answer_avoids bad (invoke n c args ectx)"
    and process_answers: "answer_avoids bad (h_process h n request)"
    and publish_answers: "answer_avoids bad (h_publish h n message)"
    and subscribe_answers: "answer_avoids bad (h_subscribe h n)"
    and feed_ends_allowed: "h_subscribe h n = Answer (es, fin) \<Longrightarrow> feed_avoids bad fin"

lemma completion_order_range: "set (completion_order h n) = {..<n}"
proof -
  have "sort xs = [0..<n] \<Longrightarrow> set xs = {..<n}" for xs :: "nat list"
  proof -
    assume "sort xs = [0..<n]"
    moreover have "set (sort xs) = set xs" by simp
    ultimately show "set xs = {..<n}" by (metis atLeast_upt)
  qed
  then show ?thesis by (simp add: completion_order_def Let_def atLeast_upt)
qed

context allowed_errors
begin

definition avoids :: "failure + 'a \<Rightarrow> bool" where
  "avoids r \<longleftrightarrow> (\<forall>f. r = Inl f \<longrightarrow> \<not> bad f)"

lemma avoids_simps [simp]: "avoids (Inr x)" "avoids (Inl f) \<longleftrightarrow> \<not> bad f"
  by (simp_all add: avoids_def)

declare errors_allowed [simp] panics_allowed [simp]

lemma avoids_bindR: "avoids m \<Longrightarrow> (\<And>x. avoids (k x)) \<Longrightarrow> avoids (bindR m k)"
  by (auto simp: avoids_def bindR_def split: sum.split)

lemma avoids_mapR: "(\<And>x. x \<in> set xs \<Longrightarrow> avoids (f x)) \<Longrightarrow> avoids (mapR f xs)"
  by (induction xs) (auto intro!: avoids_bindR)

lemma avoids_engine_result: "avoids (engine_result task r)"
  by (cases "(task, r)" rule: engine_result.cases) simp_all

lemma avoids_eval: "avoids (eval_expr h src v vars task)"
  by (simp add: eval_expr_def avoids_engine_result)

lemma avoids_interpolation: "avoids (eval_interpolation h v ectx)"
  by (simp add: eval_interpolation_def avoids_engine_result split: json.split)

lemma avoids_schema: "avoids (validate_schema h schema v inst)"
  by (simp add: validate_schema_def split: option.split)

lemmas avoids_base = avoids_bindR avoids_mapR avoids_eval avoids_interpolation
  avoids_schema

lemma avoids_set: "avoids (task_set h vs ectx)"
proof -
  have "avoids (set_entries h ectx kvs out)" for kvs out
    by (induction kvs arbitrary: out) (auto intro!: avoids_base)
  then show ?thesis by (cases vs) (auto intro!: avoids_base)
qed

lemma avoids_switch: "avoids (task_switch h cs v ectx)"
  by (induction cs) (auto intro!: avoids_base split: option.split)

lemma avoids_for_items: "avoids (for_items h d v ectx)"
  unfolding for_items_def by (auto intro!: avoids_base split: json.split)

lemma avoids_guards: "avoids (guards_hold h w x vars)"
  unfolding guards_hold_def by (auto intro!: avoids_base split: option.split)

lemma avoids_deep: "avoids (deep_interpolate h ectx v)"
  by (induction h ectx v rule: deep_interpolate.induct) (auto intro!: avoids_base)

lemma avoids_attributes: "avoids (event_attributes h ectx kvs e)"
  by (induction kvs arbitrary: e) (auto intro!: avoids_base avoids_deep)

lemma avoids_strings:
  "avoids (interpolate_string h ectx s)" "avoids (interpolate_opt_string h ectx o')"
  "avoids (interpolate_strings h ectx ss)" "avoids (interpolate_env h ectx kvs)"
  "avoids (interpolate_value h v ectx)" "avoids (interpolate_map h m ectx)"
  unfolding interpolate_string_def interpolate_opt_string_def interpolate_strings_def
    interpolate_env_def interpolate_value_def interpolate_map_def
  by (auto intro!: avoids_base split: option.split)

lemma avoids_request: "avoids (process_request_of h p ectx)"
  by (cases p) (auto intro!: avoids_bindR avoids_strings)

lemma avoids_soft: "avoids r \<Longrightarrow> avoids (soft r)"
  by (cases r rule: soft.cases) (auto simp: avoids_def)

lemma avoids_filter: "avoids (filter_matches h vars f e g)"
proof -
  have "avoids (correlate h vars data cs trial)" for data cs trial
    by (induction cs arbitrary: trial)
       (auto intro!: avoids_bindR avoids_soft avoids_eval split: option.split)
  then show ?thesis by (simp add: filter_matches_def)
qed

lemma avoids_mark: "avoids (mark_filters h vars e fs marks g)"
proof (induction fs arbitrary: marks g)
  case (Cons f fs)
  then show ?case by (cases marks) (auto intro!: avoids_bindR avoids_filter)
qed simp

lemma avoids_gather:
  assumes "feed_avoids bad fin"
  shows "avoids (gather h env p g es fin)"
proof -
  have any_free: "avoids (any_matches h vars e g fs)" for vars e g fs
    by (induction fs) (auto intro!: avoids_bindR avoids_filter)
  have step: "avoids (gather_step h p g e)" for g e
    unfolding gather_step_def accept_event_def Let_def
    by (auto intro!: avoids_base avoids_mark any_free split: listen_need.split option.split)
  show ?thesis
    using assms by (induction es arbitrary: g) (auto intro!: avoids_bindR step split: feed_end.split)
qed

lemmas avoids_all = avoids_base avoids_set avoids_switch avoids_for_items
  avoids_guards avoids_attributes avoids_strings avoids_request avoids_gather

definition settles :: "'a exec \<Rightarrow> bool" where
  "settles m \<longleftrightarrow> (\<forall>s. avoids (fst (m s)))"

lemma settles_pure [intro!, simp]:
  "settles (ok x)" "settles (throw e)" "settles (gets f)" "settles (modifies g)" "settles (rethrow q)"
  by (auto simp: settles_def exec_simps rethrow_def split: sum.split)

lemma settles_lift [intro]: "avoids r \<Longrightarrow> settles (lift r)"
  by (simp add: settles_def exec_simps)

lemma settles_local: "(\<And>s. avoids (f s)) \<Longrightarrow> settles (\<lambda>s. (f s, g s))"
  by (simp add: settles_def)

lemma settles_bindE_run:
  "settles m \<Longrightarrow> (\<And>x s t. m s = (Inr x, t) \<Longrightarrow> settles (k x)) \<Longrightarrow> settles (bindE m k)"
proof -
  assume m: "settles m" and k: "\<And>x s t. m s = (Inr x, t) \<Longrightarrow> settles (k x)"
  have "avoids (fst (bindE m k s))" for s
  proof (cases "m s")
    case (Pair r t)
    with m have "avoids r" by (auto simp: settles_def dest: spec [of _ s])
    with Pair k show ?thesis by (cases r) (auto simp: exec_simps settles_def)
  qed
  then show ?thesis by (simp add: settles_def)
qed

lemma settles_bindE: "settles m \<Longrightarrow> (\<And>x. settles (k x)) \<Longrightarrow> settles (bindE m k)"
  by (rule settles_bindE_run)

lemma settles_post: "(\<And>r. avoids r \<Longrightarrow> avoids (g r)) \<Longrightarrow> settles m \<Longrightarrow> settles (post g m)"
  by (simp add: settles_def post_def)

lemma avoids_tried: "avoids r \<Longrightarrow> avoids (tried r)"
  by (cases r rule: tried.cases) (auto simp: avoids_def)

lemma settles_tryE: "settles m \<Longrightarrow> settles (tryE m)"
  unfolding tryE_def by (intro settles_post avoids_tried)

lemma settles_framed: "settles m \<Longrightarrow> settles (framed into back m)"
  by (simp add: settles_def framed_def Let_def)

lemma settles_if: "(b \<Longrightarrow> settles m) \<Longrightarrow> (\<not> b \<Longrightarrow> settles m') \<Longrightarrow> settles (if b then m else m')"
  by simp

lemma settles_option: "settles m \<Longrightarrow> (\<And>x. o' = Some x \<Longrightarrow> settles (f x))
  \<Longrightarrow> settles (case o' of None \<Rightarrow> m | Some x \<Rightarrow> f x)"
  by (simp split: option.split)

lemma settles_sum: "(\<And>x. settles (f x)) \<Longrightarrow> (\<And>y. settles (g y))
  \<Longrightarrow> settles (case r of Inl x \<Rightarrow> f x | Inr y \<Rightarrow> g y)"
  by (simp split: sum.split)

lemma settles_pair: "(\<And>x y. settles (f x y)) \<Longrightarrow> settles (case p of (x, y) \<Rightarrow> f x y)"
  by (simp split: prod.split)

lemma settles_let: "(\<And>x. settles (f x)) \<Longrightarrow> settles (Let v f)"
  by (simp add: Let_def)

lemma settles_transform: "(\<And>src. settles (f src)) \<Longrightarrow> settles (transform_or f src v)"
  by (simp add: transform_or_def split: option.split)

lemmas settles_steps = settles_pure settles_lift settles_bindE settles_tryE settles_framed settles_if
  settles_option settles_sum settles_pair settles_let settles_transform

lemma settles_cancel: "settles is_cancelled" "settles (check_cancel env)"
proof -
  show "settles is_cancelled" by (simp add: settles_def is_cancelled_def split: option.split)
  then show "settles (check_cancel env)" unfolding check_cancel_def by (intro settles_steps)
qed

end

context avoided_failures
begin

lemma settles_external:
  assumes "\<And>n. answer_avoids bad (call n)"
  shows "settles (external call)"
proof -
  have "settles (case call n of Answer x \<Rightarrow> ok x | Refused e \<Rightarrow> throw e | Expires k \<Rightarrow> fails (Elapsed k)
      | Abandons \<Rightarrow> fails Abandoned | Hangs \<Rightarrow> fails Hung | Panics m \<Rightarrow> fails (Panicked m))" for n
    using assms [of n] by (cases "call n") (simp_all add: settles_def exec_simps)
  then show ?thesis unfolding external_def by (intro settles_steps)
qed

lemma external_answer:
  assumes "external call s = (Inr x, t)"
  obtains n where "call n = Answer x"
  using assms by (auto simp: external_def bindE_Inr exec_simps split: answer.splits)

lemma settles_primitives:
  "settles (record_task n)" "settles (sleep d)" "settles (set_loop_var k v)"
  "settles (remove_loop_var k)" "settles (set_context v)" "settles epoch_seconds"
  "settles (new_uuid h)" "settles (next_random h)" "settles (on_store f)"
  "settles (wait_with_cancel env d)" "settles (publish h m)"
  "settles (eval_in h env src this i out ds task)" "settles (catch_matches h c err ectx)"
  "settles (retryable h p ectx)"
  unfolding record_task_def sleep_def set_loop_var_def remove_loop_var_def set_context_def
    epoch_seconds_def new_uuid_def next_random_def on_store_def wait_with_cancel_def publish_def
  by (intro settles_steps settles_cancel settles_external publish_answers
      | simp add: settles_def eval_in_def catch_matches_def retryable_def avoids_eval
        avoids_guards)+

lemmas settles_base = settles_steps settles_primitives settles_cancel avoids_all

section \<open>Tasks over runs that settle\<close>

lemma settles_for:
  assumes "\<And>v. settles (nx_scope nx (fo_body d) v)"
  shows "settles (task_for nx h env d v ectx)"
proof -
  have "settles (for_loop nx h env d i items v out)" for i items v out
    by (induction items arbitrary: i v out)
       (auto simp: while_holds_def intro!: settles_base assms)
  then show ?thesis unfolding task_for_def by (intro settles_base)
qed

lemma avoids_joined: "avoids r \<Longrightarrow> avoids (joined h what r)"
  by (cases "(h, what, r)" rule: joined.cases) simp_all

lemma settles_fork:
  assumes "\<And>t v. t \<in> set bs \<Longrightarrow> settles (nx_task nx t v)"
  shows "settles (task_fork nx h bs c v)"
proof -
  have branch: "settles (run_branch nx bs v i)" if "i < length bs" for i
    unfolding run_branch_def in_branch_def
    using that by (intro settles_steps assms) simp
  have "settles (join_all h (run_branch nx bs v) rs e order)" if "\<forall>i \<in> set order. i < length bs" for rs e order
    using that
  proof (induction order arbitrary: rs e)
    case (Cons i order)
    then show ?case by (auto intro!: settles_base settles_post avoids_joined branch)
  qed (auto split: option.split)
  moreover have "hd (completion_order h (length bs)) < length bs" if "bs \<noteq> []"
  proof -
    have "completion_order h (length bs) \<noteq> []"
      using completion_order_range [of h "length bs"] that by fastforce
    then have "hd (completion_order h (length bs)) \<in> set (completion_order h (length bs))" by simp
    then show ?thesis by (simp add: completion_order_range)
  qed
  ultimately show ?thesis
    unfolding task_fork_def Let_def
    by (auto intro!: settles_post avoids_joined branch simp: completion_order_range)
qed

lemma settles_try:
  assumes "\<And>v. settles (nx_scope nx body v)"
    and "\<And>hs v. ca_do c = Some hs \<Longrightarrow> settles (nx_scope nx hs v)"
  shows "settles (task_try nx h env body c v ectx)"
proof -
  have delay: "settles (compute_delay h p k)" for p k
    unfolding compute_delay_def by (intro settles_base)
  have turn: "settles (try_turn nx h env body c v ectx k again)"
    if "\<And>m. again = Some m \<Longrightarrow> settles m" for k again
    unfolding try_turn_def set_error_var_def
    by (intro settles_base assms delay) (auto split: if_splits intro: that)
  have "settles (try_loop nx h env body c v ectx k left)" for k left
    by (induction left arbitrary: k) (auto intro!: turn)
  then show ?thesis unfolding task_try_def .
qed

lemma settles_listen:
  assumes "\<And>e v. fe = Some e \<Longrightarrow> settles (nx_scope nx (lf_body e) v)"
  shows "settles (task_listen nx h env to r u fe ectx)"
proof -
  have "settles (foreach_loop nx env e i items outs)" if "fe = Some e" for e i items outs
    by (induction items arbitrary: i outs) (auto intro!: settles_base assms [OF that])
  note loop = this
  have "settles (case x of (delivered, fin) \<Rightarrow>
      bindE (lift (gather h env p g delivered fin)) (\<lambda>consumed.
        case fe of
          Some e \<Rightarrow> foreach_loop nx env e 0 (map (\<lambda>e. read_event e (lp_read p)) consumed) []
        | None \<Rightarrow> ok (Array (map (\<lambda>e. read_event e (lp_read p)) consumed))))"
    if ran: "external (h_subscribe h) s = (Inr x, t)" for x s t p g
  proof -
    obtain delivered fin where x: "x = (delivered, fin)" by (cases x)
    obtain n where "h_subscribe h n = Answer (delivered, fin)" using external_answer [OF ran] x by blast
    then have "feed_avoids bad fin" by (rule feed_ends_allowed)
    then show ?thesis unfolding x prod.case by (intro settles_base loop)
  qed
  then show ?thesis
    unfolding task_listen_def Let_def
    by (intro settles_bindE_run [OF settles_external [OF subscribe_answers]])
qed

lemma settles_run: "\<not> starts_workflow d \<Longrightarrow> settles (task_run nx h d v ectx)"
  unfolding task_run_def starts_workflow_def
  by (auto intro!: settles_base settles_external process_answers split: run_process.split)

lemma settles_call: "settles (task_call h env cd ectx)"
  unfolding task_call_def
  by (intro settles_base settles_external) (erule function_answers)+

lemma settles_other: "settles (task_emit h env attrs ectx)" "settles (task_wait env d)"
  unfolding task_emit_def task_wait_def by (intro settles_base)+

definition runs_nested :: "nested \<Rightarrow> task_kind \<Rightarrow> bool" where
  "runs_nested nx k \<longleftrightarrow>
     (\<forall>v. case k of
        TaskDo b \<Rightarrow> settles (nx_scope nx b v)
      | TaskFor d \<Rightarrow> settles (nx_scope nx (fo_body d) v)
      | TaskFork bs c \<Rightarrow> \<forall>t \<in> set bs. settles (nx_task nx t v)
      | TaskTry b c \<Rightarrow> settles (nx_scope nx b v)
          \<and> (\<forall>hs. ca_do c = Some hs \<longrightarrow> settles (nx_scope nx hs v))
      | TaskListen to r u fe \<Rightarrow> \<forall>e. fe = Some e \<longrightarrow> settles (nx_scope nx (lf_body e) v)
      | TaskRun d \<Rightarrow> \<not> starts_workflow d
      | _ \<Rightarrow> True)"

lemma settles_dispatch:
  assumes "runs_nested nx (ct_kind task)"
  shows "settles (dispatch nx h env task v ectx)"
  using assms unfolding dispatch_def plain_def runs_nested_def
  by (cases "ct_kind task")
     (auto intro!: settles_base settles_for settles_fork settles_try settles_listen settles_run
       settles_call settles_other)

lemma settles_exec_task:
  assumes "runs_nested nx (ct_kind task)" "cw_extensions (xe_workflow env) = []"
  shows "settles (exec_task h nx env task v)"
proof -
  have exts: "enter_task h env task v s = (Inr (input, exts), t) \<Longrightarrow> exts = []" for s input exts t
    using assms(2)
    by (auto simp: enter_task_def applicable_extensions_def bindE_def ok_def gets_def
        split: prod.splits sum.splits if_splits)
  have enter: "settles (enter_task h env task v)"
    unfolding enter_task_def applicable_extensions_def assms(2) select_extensions.simps
    by (intro settles_base)
  have rest: "settles (bindE (run_before nx [] input) (\<lambda>(task_input, skip_body).
      bindE (gets (\<lambda>s. execution_context env s task_input Null (Some (ct_descriptor task)))) (\<lambda>ectx.
      bindE (if skip_body then ok \<lparr>te_output = task_input, te_directive = None\<rparr>
             else dispatch nx h env task task_input ectx) (\<lambda>d.
        leave_task nx h task [] ectx task_input d))))" for input
    unfolding leave_task_def run_before.simps run_after.simps
    by (intro settles_base settles_dispatch assms(1))
  have "settles (bindE (enter_task h env task v) (\<lambda>(input, exts).
      bindE (run_before nx exts input) (\<lambda>(task_input, skip_body).
      bindE (gets (\<lambda>s. execution_context env s task_input Null (Some (ct_descriptor task)))) (\<lambda>ectx.
      bindE (if skip_body then ok \<lparr>te_output = task_input, te_directive = None\<rparr>
             else dispatch nx h env task task_input ectx) (\<lambda>d.
        leave_task nx h task exts ectx task_input d)))))"
  proof (rule settles_bindE_run [OF enter])
    fix p s t
    assume ran: "enter_task h env task v s = (Inr p, t)"
    obtain input es where p: "p = (input, es)" by (cases p)
    with ran exts have "es = []" by blast
    with rest [of input] p show "settles (case p of (input, exts) \<Rightarrow>
        bindE (run_before nx exts input) (\<lambda>(task_input, skip_body).
        bindE (gets (\<lambda>s. execution_context env s task_input Null (Some (ct_descriptor task)))) (\<lambda>ectx.
        bindE (if skip_body then ok \<lparr>te_output = task_input, te_directive = None\<rparr>
               else dispatch nx h env task task_input ectx) (\<lambda>d.
          leave_task nx h task exts ectx task_input d))))"
      by (simp only: prod.case)
  qed
  note pipeline = this
  have guard: "settles (guard_holds h env task v)"
    unfolding guard_holds_def by (intro settles_base)
  show ?thesis
    unfolding exec_task_def
    by (rule settles_bindE [OF settles_primitives(1)], rule settles_bindE [OF guard], rule settles_if)
       (simp, rule pipeline)
qed

section \<open>The engine\<close>

lemma forward_goto:
  assumes "directives_forward ts" "i < length ts" "final_directive (ts ! i) r = Goto name"
    and "te_directive r \<noteq> None \<Longrightarrow> the (te_directive r) \<in> set (own_directives (ts ! i))"
    and "position (\<lambda>t. ct_name t = name) ts = Some p"
  shows "i < p"
proof -
  have "Goto name \<in> set (own_directives (ts ! i))"
    using assms(3,4) by (auto simp: final_directive_def own_directives_def split: option.splits)
  with assms(1,2) have "goes_forward ts i (Goto name)"
    by (auto simp: directives_forward_def list_all_iff)
  with assms(5) show ?thesis by (simp add: goes_forward_def)
qed

lemma switch_directive:
  "task_switch h cs v ectx = Inr r \<Longrightarrow> te_directive r \<noteq> None
   \<Longrightarrow> the (te_directive r) \<in> set (map case_directive cs)"
  by (induction cs) (auto simp: bindR_eq_Inr case_directive_def split: if_splits option.splits)

lemma dispatch_directive:
  assumes "dispatch nx h env task v ectx s = (Inr r, t)" "te_directive r \<noteq> None"
  shows "the (te_directive r) \<in> set (own_directives task)"
proof (cases "ct_kind task")
  case (TaskSwitch cs)
  with assms(1) have "task_switch h cs v ectx = Inr r" by (simp add: dispatch_def exec_simps)
  from switch_directive [OF this assms(2)] TaskSwitch show ?thesis by (simp add: own_directives_def)
qed (use assms in \<open>auto simp: dispatch_def plain_def bindE_Inr exec_simps\<close>)

lemma exec_task_directive:
  assumes "exec_task h nx env task v s = (Inr r, t)" "te_directive r \<noteq> None"
  shows "the (te_directive r) \<in> set (own_directives task)"
  using assms
  by (auto simp: exec_task_def bindE_Inr exec_simps leave_task_def split: if_splits
      dest!: dispatch_directive)

lemma turn_settles:
  assumes task: "\<And>v. i < length ts \<Longrightarrow> settles (eg_task eg env (ts ! i) v)"
    and directive: "\<And>v s r t. eg_task eg env (ts ! i) v s = (Inr r, t) \<Longrightarrow> te_directive r \<noteq> None
      \<Longrightarrow> the (te_directive r) \<in> set (own_directives (ts ! i))"
    and next_turn: "\<And>j v. i < j \<Longrightarrow> i < length ts \<Longrightarrow> settles (eg_turn eg env cp ts j v)"
    and forward: "directives_forward ts"
  shows "settles (scope_turn eg env cp ts i v)"
proof -
  let ?goto = "\<lambda>j v. bindE (save_progress env cp j v) (\<lambda>_. eg_turn eg env cp ts j v)"
  have goto: "settles (?goto j v)" if "i < j" "i < length ts" for j v
    unfolding save_progress_def persist_checkpoint_def by (intro settles_base next_turn that)
  have run: "settles (run_timed eg env (ts ! i) v)" if "i < length ts" for v
  proof -
    have "avoids r \<Longrightarrow> avoids (deadline env task r)" for task and r :: "failure + task_exec"
      by (cases "(env, task, r)" rule: deadline.cases) (auto simp: timeout_failure_def dest: outer_limits)
    then show ?thesis
      unfolding run_timed_def by (intro settles_option task that settles_post)
  qed
  let ?k = "\<lambda>r. case final_directive (ts ! i) r of
      Continue \<Rightarrow> ?goto (i + 1) (te_output r)
    | Goto name \<Rightarrow>
        (case position (\<lambda>t. ct_name t = name) ts of
           Some pos \<Rightarrow> ?goto pos (te_output r)
         | None \<Rightarrow> throw (unknown_target env name))
    | Exit \<Rightarrow> bindE (modifies (\<lambda>s. s\<lparr>xs_scope_exited := True\<rparr>)) (\<lambda>_. ok (te_output r))
    | End \<Rightarrow> bindE (modifies (\<lambda>s. s\<lparr>xs_ended := True\<rparr>)) (\<lambda>_. ok (te_output r))"
  have cont: "settles (?k r)" if i: "i < length ts"
    and ran: "run_timed eg env (ts ! i) v s = (Inr r, t)" for v s r t
  proof -
    have "eg_task eg env (ts ! i) v s = (Inr r, t)"
      using ran by (auto simp: run_timed_def post_def prod_eq_iff split: option.splits
          elim: deadline.elims)
    note own = directive [OF this]
    have "i < pos" if "final_directive (ts ! i) r = Goto name"
      "position (\<lambda>t. ct_name t = name) ts = Some pos" for name pos
      using forward_goto [OF forward i that(1) own that(2)] .
    then show ?thesis
      by (cases "final_directive (ts ! i) r") (auto intro!: settles_base goto i)
  qed
  have "settles (bindE (run_timed eg env (ts ! i) v) ?k)" if "i < length ts"
    by (rule settles_bindE_run [OF run [OF that] cont [OF that]])
  then show ?thesis
    unfolding scope_turn_def Let_def
    by (intro settles_bindE [OF settles_cancel(2)] settles_bindE [OF settles_pure(3)] settles_if)
       (auto simp: not_le)
qed


definition turn_need :: "compiled_task list \<Rightarrow> nat \<Rightarrow> nat" where
  "turn_need ts i = Suc (length ts - i) + sum_list (map task_need ts)"

lemma scope_need_turn: "scope_need ts = turn_need ts 0"
  by (simp add: scope_need_def turn_need_def)

definition engine_settles :: "engine \<Rightarrow> nat \<Rightarrow> bool" where
  "engine_settles eg n \<longleftrightarrow>
     (\<forall>env cp ts i v. cw_extensions (xe_workflow env) = [] \<longrightarrow> scope_bounded ts
        \<longrightarrow> turn_need ts i \<le> n \<longrightarrow> settles (eg_turn eg env cp ts i v))
     \<and> (\<forall>env t v. cw_extensions (xe_workflow env) = [] \<longrightarrow> task_bounded t
        \<longrightarrow> task_need t \<le> n \<longrightarrow> settles (eg_task eg env t v))"

lemma engine_settlesD:
  assumes "engine_settles eg n" "cw_extensions (xe_workflow env) = []"
  shows "scope_bounded ts \<Longrightarrow> turn_need ts i \<le> n \<Longrightarrow> settles (eg_turn eg env cp ts i v)"
    and "task_bounded t \<Longrightarrow> task_need t \<le> n \<Longrightarrow> settles (eg_task eg env t v)"
  using assms by (simp_all add: engine_settles_def)

lemma task_need_kind: "task_need t = Suc (kind_need (ct_kind t))"
  by (cases t) simp

lemma task_bounded_kind: "task_bounded t \<longleftrightarrow> kind_bounded (ct_kind t)"
  by (cases t) simp

lemma runs_nested_bounded:
  assumes "engine_settles eg n" "cw_extensions (xe_workflow env) = []"
    and "kind_bounded k" "kind_need k \<le> n"
  shows "runs_nested (nested_of eg env) k"
proof -
  note scope = engine_settlesD(1) [OF assms(1,2), where i = 0]
  note task = engine_settlesD(2) [OF assms(1,2)]
  show ?thesis
  proof (cases k)
    case (TaskFor d)
    with assms(3,4) show ?thesis
      by (cases d) (auto simp: runs_nested_def nested_of_def scope_bounded_def turn_need_def intro!: scope)
  next
    case (TaskFork bs c)
    then have "task_need t \<le> n" if "t \<in> set bs" for t
      using assms(4) that member_le_sum_list [of "task_need t" "map task_need bs"] by fastforce
    with TaskFork assms(3) show ?thesis
      by (auto simp: runs_nested_def nested_of_def list_all_iff intro!: task)
  next
    case (TaskTry b c)
    with assms(3,4) show ?thesis
      by (cases c) (auto simp: runs_nested_def nested_of_def scope_bounded_def turn_need_def intro!: scope)
  next
    case (TaskListen to r u fe)
    with assms(3,4) show ?thesis
      by (auto simp: runs_nested_def nested_of_def scope_bounded_def turn_need_def intro!: scope
          split: listen_foreach_def.splits)
  qed (use assms(3,4) in \<open>auto simp: runs_nested_def nested_of_def scope_bounded_def turn_need_def
        intro!: scope\<close>)
qed

lemma engine_directive:
  assumes "eg_task (engine_at h n) env t v s = (Inr r, s')" "te_directive r \<noteq> None"
  shows "the (te_directive r) \<in> set (own_directives t)"
  using assms by (cases n) (auto simp: fails_apply dest: exec_task_directive)

theorem engine_at_settles: "engine_settles (engine_at h n) n"
proof (induction n)
  case 0
  show ?case by (simp add: engine_settles_def turn_need_def task_need_kind)
next
  case (Suc n)
  have "settles (scope_turn (engine_at h n) env cp ts i v)"
    if env: "cw_extensions (xe_workflow env) = []" and ts: "scope_bounded ts"
      and need: "turn_need ts i \<le> Suc n" for env cp ts i v
  proof (rule turn_settles [OF _ engine_directive])
    fix v
    assume i: "i < length ts"
    then have "task_need (ts ! i) \<le> sum_list (map task_need ts)"
      by (intro member_le_sum_list) auto
    with need i ts show "settles (eg_task (engine_at h n) env (ts ! i) v)"
      by (intro engine_settlesD(2) [OF Suc env]) (auto simp: turn_need_def scope_bounded_def list_all_iff)
  next
    fix j v
    assume "i < j" "i < length ts"
    with need ts show "settles (eg_turn (engine_at h n) env cp ts j v)"
      by (intro engine_settlesD(1) [OF Suc env]) (auto simp: turn_need_def)
  next
    show "directives_forward ts" using ts by (simp add: scope_bounded_def)
  qed
  moreover have "settles (exec_task h (nested_of (engine_at h n) env) env t v)"
    if "cw_extensions (xe_workflow env) = []" "task_bounded t" "task_need t \<le> Suc n" for env t v
    using that by (intro settles_exec_task runs_nested_bounded [OF Suc])
      (simp_all add: task_need_kind task_bounded_kind)
  ultimately show ?case by (simp add: engine_settles_def)
qed

lemma settles_lifecycle:
  "settles (workflow_started h env t)" "settles (workflow_completed h env t)"
  unfolding workflow_started_def workflow_completed_def emit_lifecycle_def by (intro settles_base)+

lemma execute_avoids:
  assumes "cw_extensions flow = []" "scope_bounded (cw_tasks flow)" "scope_need (cw_tasks flow) < n"
  shows "avoids (fst (execute h n flow v opts w))"
proof -
  obtain m where n: "n = Suc m" using assms(3) by (cases n) simp_all
  have "settles (eg_turn (engine_at h m) (execution_env h flow i v t) cp (cw_tasks flow) start input)"
    for i t cp start input
    using assms n by (intro engine_settlesD(1) [OF engine_at_settles])
      (auto simp: execution_env_def scope_need_turn turn_need_def)
  then have "settles (execute_with h (engine_at h m) flow v opts)"
    unfolding execute_with_def enter_execution_def finish_execution_def apply_workflow_input_def
      apply_workflow_output_def persist_started_def persist_terminal_def persist_event_def Let_def
    by (intro settles_base settles_lifecycle)
  then show ?thesis
    by (simp add: execute_def n Let_def settles_def)
qed

end

section \<open>Services that come to an end\<close>

text \<open>Whatever the services do, the nested steps do not run out.\<close>

interpretation any_services: avoided_failures "\<lambda>f. f = OutOfFuel" h for h
proof (unfold_locales, goal_cases)
  case (4 f invoke n c args ectx)
  show ?case by (cases "invoke n c args ectx") simp_all
next
  case (5 n request)
  show ?case by (cases "h_process h n request") simp_all
next
  case (6 n message)
  show ?case by (cases "h_publish h n message") simp_all
next
  case (7 n)
  show ?case by (cases "h_subscribe h n") simp_all
next
  case (8 n es fin)
  show ?case by (cases fin) simp_all
qed simp_all

lemma execute_settles:
  assumes "cw_extensions flow = []" "scope_bounded (cw_tasks flow)" "scope_need (cw_tasks flow) < n"
  shows "fst (execute h n flow v opts w) \<noteq> Inl OutOfFuel"
  using any_services.execute_avoids [OF assms, where h = h and v = v and opts = opts and w = w]
  unfolding any_services.avoids_def by blast

text \<open>
  A service comes to an end if it answers, refuses, panics or sees the handle cancelled; where the
  workflow has a time limit, it may also outlast the innermost one.
\<close>

fun answer_ends :: "bool \<Rightarrow> 'a answer \<Rightarrow> bool" where
  "answer_ends limited Hangs = False"
| "answer_ends limited (Expires k) = (limited \<and> k = 0)"
| "answer_ends limited a = True"

fun feed_ends :: "bool \<Rightarrow> feed_end \<Rightarrow> bool" where
  "feed_ends limited FeedSilent = False"
| "feed_ends limited (FeedExpires k) = (limited \<and> k = 0)"
| "feed_ends limited fin = True"

definition responsive :: "bool \<Rightarrow> host \<Rightarrow> bool" where
  "responsive limited h \<longleftrightarrow>
     (\<forall>f invoke n c args ectx. h_function h f = Some invoke \<longrightarrow> answer_ends limited (invoke n c args ectx))
     \<and> (\<forall>n request. answer_ends limited (h_process h n request))
     \<and> (\<forall>n message. answer_ends limited (h_publish h n message))
     \<and> (\<forall>n. answer_ends limited (h_subscribe h n))
     \<and> (\<forall>n es fin. h_subscribe h n = Answer (es, fin) \<longrightarrow> feed_ends limited fin)"

fun endless :: "bool \<Rightarrow> failure \<Rightarrow> bool" where
  "endless limited OutOfFuel = True"
| "endless limited Hung = True"
| "endless limited (Elapsed k) = (\<not> limited \<or> k \<noteq> 0)"
| "endless limited f = False"

lemma ends_avoids:
  "answer_ends limited a \<Longrightarrow> answer_avoids (endless limited) a"
  "feed_ends limited fin \<Longrightarrow> feed_avoids (endless limited) fin"
  by (cases a; simp) (cases fin; simp)

lemma responsive_services:
  assumes "responsive limited h"
  shows "avoided_failures (endless limited) h"
proof (unfold_locales, goal_cases)
  case (3 k)
  then show ?case by simp
qed (use assms in \<open>auto simp: responsive_def intro!: ends_avoids\<close>)

lemma responsive_execution:
  assumes "responsive (cw_timeout flow \<noteq> None) h" "cw_extensions flow = []"
    and "scope_bounded (cw_tasks flow)" "scope_need (cw_tasks flow) < n"
  shows "case fst (execute h n flow v opts w) of Inr out \<Rightarrow> True | Inl f \<Rightarrow> \<not> endless (cw_timeout flow \<noteq> None) f"
proof -
  note services = responsive_services [OF assms(1)]
  from avoided_failures.execute_avoids [OF services assms(2-4), of v opts w] show ?thesis
    unfolding allowed_errors.avoids_def [OF avoided_failures.axioms(1) [OF services]] by (simp split: sum.split)
qed

text \<open>Behind a handle every end is a result or an error.\<close>

lemma runtime_ends:
  assumes "responsive (cw_timeout flow \<noteq> None) h" "cw_extensions flow = []"
    and "scope_bounded (cw_tasks flow)" "scope_need (cw_tasks flow) < n"
  shows "(\<exists>out. fst (snd (runtime_execute h n flow v w)) = Inr out)
    \<or> (\<exists>e. fst (snd (runtime_execute h n flow v w)) = Inl (Failed e))"
proof -
  obtain i w1 where uuid: "next_uuid h w = (i, w1)" by force
  obtain r w2 where run: "execute h n flow v default_options w1 = (r, w2)" by force
  with responsive_execution [OF assms, of v default_options w1]
  have "case r of Inr out \<Rightarrow> True | Inl f \<Rightarrow> \<not> endless (cw_timeout flow \<noteq> None) f" by simp
  then have "(\<exists>out. wait_outcome (run_outcome flow r) = Inr out)
      \<or> (\<exists>e. wait_outcome (run_outcome flow r) = Inl (Failed e))"
    by (cases r; cases "projl r") auto
  with uuid run show ?thesis by (simp add: runtime_execute_def)
qed

end
