(* ===== verification/TaskLaws.thy ===== *)
theory TaskLaws
  imports Engine
begin

text \<open>What the composite tasks compute over runs of their bodies: loops, retries, forks, listeners.\<close>

lemma check_cancel_never:
  assumes "w_cancel (xs_world s) = None"
  shows "check_cancel env s = (Inr (), s)"
  using assms by (simp add: check_cancel_def is_cancelled_def bindE_def ok_apply)

text \<open>A state in which nobody has asked for the end: neither the handle nor an \<open>end\<close> directive.\<close>

definition idle :: "exec_state \<Rightarrow> bool" where
  "idle s \<longleftrightarrow> w_cancel (xs_world s) = None \<and> \<not> xs_ended s"

lemma idle_updates [simp]:
  "(\<And>w. w_cancel (f w) = w_cancel w) \<Longrightarrow> idle (on_world f s) = idle s"
  "idle (s\<lparr>xs_context := c\<rparr>) = idle s"
  "idle (s\<lparr>xs_loop_vars := vars\<rparr>) = idle s"
  by (simp_all add: idle_def on_world_def)

text \<open>Also, the variables of loops form a map with every key once.\<close>

definition at_rest :: "exec_state \<Rightarrow> bool" where
  "at_rest s \<longleftrightarrow> idle s \<and> map_ok (xs_loop_vars s)"

lemma at_rest_world [simp]:
  "(\<And>w. w_cancel (f w) = w_cancel w) \<Longrightarrow> at_rest (on_world f s) = at_rest s"
  by (simp add: at_rest_def) (simp add: on_world_def)

section \<open>For\<close>

definition for_vars :: "for_def \<Rightarrow> nat \<Rightarrow> json \<Rightarrow> exec_state \<Rightarrow> exec_state" where
  "for_vars d i item s = s\<lparr>xs_loop_vars := map_insert (loop_index_name (fo_at d)) (json_of_nat i)
     (map_insert (fo_each d) item (xs_loop_vars s))\<rparr>"

lemma for_loop_Cons:
  assumes "fo_while d = None" "w_cancel (xs_world s) = None"
  shows "for_loop nx h env d i (item # items) v out s =
    bindE (nx_scope nx (fo_body d) v) (\<lambda>out'. bindE (gets xs_ended) (\<lambda>ended.
      if ended then ok out' else for_loop nx h env d (i + 1) items out' out')) (for_vars d i item s)"
  using assms
  by (simp add: bindE_apply check_cancel_never set_loop_var_def while_holds_def for_vars_def exec_simps)

text \<open>A body that returns in every idle state, its output a function of the item, of the index and
  of what it got, is folded over the items; what else it does is up to the body.\<close>

lemma for_loop_folds:
  assumes "fo_while d = None" "fo_each d \<noteq> loop_index_name (fo_at d)"
    and body: "\<And>i item v s. at_rest s \<Longrightarrow> map_of (xs_loop_vars s) (fo_each d) = Some item
      \<Longrightarrow> map_of (xs_loop_vars s) (loop_index_name (fo_at d)) = Some (json_of_nat i)
      \<Longrightarrow> \<exists>t. nx_scope nx (fo_body d) v s = (Inr (g item i v), t) \<and> at_rest t
        \<and> w_task_order (xs_world t) = w_task_order (xs_world s) @ ns"
  shows "at_rest s \<Longrightarrow> \<exists>t. for_loop nx h env d i items v out s =
      (Inr (if items = [] then out else fold (\<lambda>(k, item). g item k) (enumerate i items) v), t)
    \<and> at_rest t \<and> w_task_order (xs_world t) = w_task_order (xs_world s) @ concat (replicate (length items) ns)"
proof (induction items arbitrary: i v out s)
  case Nil
  then show ?case by (simp add: exec_simps)
next
  case (Cons item items)
  let ?s = "for_vars d i item s"
  have "at_rest ?s" "map_of (xs_loop_vars ?s) (fo_each d) = Some item"
      "map_of (xs_loop_vars ?s) (loop_index_name (fo_at d)) = Some (json_of_nat i)"
    using Cons.prems assms(2) by (simp_all add: for_vars_def at_rest_def map_ok_map_insert)
  from body [OF this, of v] obtain t where run: "nx_scope nx (fo_body d) v ?s = (Inr (g item i v), t)" "at_rest t"
      "w_task_order (xs_world t) = w_task_order (xs_world s) @ ns"
    by (auto simp: for_vars_def)
  have live: "w_cancel (xs_world s) = None" and on: "\<not> xs_ended t"
    using Cons.prems run(2) by (simp_all add: at_rest_def idle_def)
  have "for_loop nx h env d i (item # items) v out s = for_loop nx h env d (i + 1) items (g item i v) (g item i v) t"
    unfolding for_loop_Cons [OF assms(1) live] bindE_apply(2) [where m = "nx_scope nx (fo_body d) v", OF run(1)]
    by (simp add: exec_simps on)
  with Cons.IH [OF run(2), of "i + 1" "g item i v" "g item i v"] run(3) show ?case by auto
qed

text \<open>A loop that ends takes its two variables out, whether it put them in or not.\<close>

lemma task_for_unbinds:
  assumes "task_for nx h env d v ectx s = (Inr out, t)"
  shows "map_of (xs_loop_vars t) (fo_each d) = None
    \<and> map_of (xs_loop_vars t) (loop_index_name (fo_at d)) = None"
  using assms by (auto simp: task_for_def bindE_Inr remove_loop_var_def exec_simps)

lemma task_for_folds:
  assumes "for_items h d v ectx = Inr items"
    and "fo_while d = None" "fo_each d \<noteq> loop_index_name (fo_at d)"
    and "\<And>i item v s. at_rest s \<Longrightarrow> map_of (xs_loop_vars s) (fo_each d) = Some item
      \<Longrightarrow> map_of (xs_loop_vars s) (loop_index_name (fo_at d)) = Some (json_of_nat i)
      \<Longrightarrow> \<exists>t. nx_scope nx (fo_body d) v s = (Inr (g item i v), t) \<and> at_rest t
        \<and> w_task_order (xs_world t) = w_task_order (xs_world s) @ ns"
    and "at_rest s"
  shows "\<exists>t. task_for nx h env d v ectx s =
      (Inr (if items = [] then Null else fold (\<lambda>(k, item). g item k) (enumerate 0 items) v), t)
    \<and> at_rest t \<and> w_task_order (xs_world t) = w_task_order (xs_world s) @ concat (replicate (length items) ns)"
proof -
  have "\<exists>t. for_loop nx h env d 0 items v Null s =
      (Inr (if items = [] then Null else fold (\<lambda>(k, item). g item k) (enumerate 0 items) v), t)
    \<and> at_rest t \<and> w_task_order (xs_world t) = w_task_order (xs_world s) @ concat (replicate (length items) ns)"
    by (rule for_loop_folds [OF assms(2,3)]) (erule (2) assms(4), rule assms(5))
  then obtain t where
    run: "for_loop nx h env d 0 items v Null s =
      (Inr (if items = [] then Null else fold (\<lambda>(k, item). g item k) (enumerate 0 items) v), t)"
      "at_rest t" "w_task_order (xs_world t) = w_task_order (xs_world s) @ concat (replicate (length items) ns)"
    by blast
  then show ?thesis
    by (simp add: task_for_def assms(1) bindE_apply remove_loop_var_def exec_simps at_rest_def map_ok_map_remove)
qed

section \<open>Retries\<close>

lemma unat_pow2: "e < 32 \<Longrightarrow> unat (2 ^ e :: u32) = 2 ^ e"
  using unsigned_of_nat [of "2 ^ e", where 'b = 32 and 'a = nat]
  by (simp add: take_bit_nat_eq_self_iff)

text \<open>The delays of the three policies; the exponent of the last one saturates.\<close>

lemma backoff_delay_cases:
  assumes "attempt < 2 ^ 32"
  shows "backoff_delay r attempt =
    (let base = (case rp_delay r of Some d \<Rightarrow> d | None \<Rightarrow> 0) in
     case rp_backoff r of
       Constant \<Rightarrow> base
     | Linear \<Rightarrow> min (base * attempt) duration_max
     | Exponential \<Rightarrow> min (base * (if attempt \<le> 32 then 2 ^ (attempt - 1) else 2 ^ 32 - 1)) duration_max)"
proof -
  define w :: u32 where "w = word_of_nat attempt"
  have a: "unat w = attempt"
    using assms by (simp add: w_def unsigned_of_nat take_bit_nat_eq_self_iff)
  have pow: "unat (u32_pow2_saturating (if w = 0 then 0 else w - 1)) =
      (if attempt \<le> 32 then 2 ^ (attempt - 1) else 2 ^ 32 - 1)"
  proof (cases "attempt = 0")
    case True
    with a have "w = 0" by (simp add: unsigned_eq_0_iff)
    with True show ?thesis by (simp add: u32_pow2_saturating_def)
  next
    case False
    with a have ne: "w \<noteq> 0" by auto
    then have "unat (w - 1) = attempt - 1" using unat_minus_one [OF ne] a by simp
    then show ?thesis
      using False ne unat_pow2 [of "attempt - 1"]
      by (auto simp: u32_pow2_saturating_def unsigned_minus_1_eq_mask mask_eq_exp_minus_1)
  qed
  have "backoff_delay r attempt =
    (let base = (case rp_delay r of Some d \<Rightarrow> d | None \<Rightarrow> 0) in
     case rp_backoff r of
       Constant \<Rightarrow> base
     | Linear \<Rightarrow> duration_sat_mul base w
     | Exponential \<Rightarrow> duration_sat_mul base (u32_pow2_saturating (if w = 0 then 0 else w - 1)))"
    by (simp only: backoff_delay_def Let_def w_def)
  then show ?thesis
    by (simp only: duration_sat_mul_def a pow)
qed

text \<open>A body that always fails, in a try task that catches everything.\<close>

definition catches_all :: "catch_def \<Rightarrow> bool" where
  "catches_all c \<longleftrightarrow> ca_filter c = None \<and> ca_when c = None \<and> ca_except_when c = None"

definition retries_always :: "retry_policy_def \<Rightarrow> bool" where
  "retries_always p \<longleftrightarrow> rp_when p = None \<and> rp_except_when p = None \<and> rp_jitter p = None"

lemma clock_elapsed_less: "clock_elapsed c < 2 ^ 64"
proof -
  have "unat x < 2 ^ 64" for x :: u64 using unsigned_less [of x, where 'a = nat] by simp
  then show ?thesis by (simp add: clock_elapsed_def)
qed

lemma clock_elapsed_mod [simp]: "clock_elapsed c mod 2 ^ 64 = clock_elapsed c"
  using clock_elapsed_less by (rule mod_less)

lemma try_turn_fails:
  assumes "catches_all c" "ca_retry c = Some p" "retries_always p" "w_cancel (xs_world s) = None"
    and "nx_scope nx body v s = (Inl (Failed err), t)" "w_cancel (xs_world t) = None"
    and "u = t\<lparr>xs_loop_vars :=
      map_insert (case ca_as c of Some a \<Rightarrow> a | None \<Rightarrow> lit ''error'') (to_problem_json err) (xs_loop_vars t)\<rparr>"
  shows "try_turn nx h env body c v ectx k again s =
    (case again of
       Some next_turn \<Rightarrow> next_turn (on_world (\<lambda>w. w\<lparr>w_clock := clock_sleep (backoff_delay p (k + 1)) (w_clock w)\<rparr>) u)
     | None \<Rightarrow> (case ca_do c of Some hs \<Rightarrow> nx_scope nx hs v | None \<Rightarrow> ok v) u)"
  using assms(1-4,6,7)
  by (simp add: try_turn_def bindE_apply check_cancel_never tryE_apply(2) [where m = "nx_scope nx body v", OF assms(5)]
      set_error_var_def set_loop_var_def catch_matches_def filter_accepts_def guards_hold_def
      catches_all_def retries_always_def retryable_def exec_simps on_world_def compute_delay_def
      wait_with_cancel_def sleep_def split: option.split)

lemma try_loop_attempts:
  assumes "catches_all c" "ca_retry c = Some p" "retries_always p"
    and body: "\<And>s. idle s \<Longrightarrow> \<exists>t. nx_scope nx body v s = (Inl (Failed err), t) \<and> idle t
      \<and> w_clock (xs_world t) = w_clock (xs_world s)
      \<and> w_task_order (xs_world t) = w_task_order (xs_world s) @ ns"
  shows "idle s \<Longrightarrow> \<exists>u.
    try_loop nx h env body c v ectx k left s =
      (case ca_do c of Some hs \<Rightarrow> nx_scope nx hs v | None \<Rightarrow> ok v) u
    \<and> idle u \<and> w_task_order (xs_world u) = w_task_order (xs_world s) @ concat (replicate (Suc left) ns)
    \<and> clock_elapsed (w_clock (xs_world u)) =
        (clock_elapsed (w_clock (xs_world s)) + (\<Sum>i = k + 1..k + left. backoff_delay p i)) mod 2 ^ 64
    \<and> map_of (xs_loop_vars u) (case ca_as c of Some a \<Rightarrow> a | None \<Rightarrow> lit ''error'') = Some (to_problem_json err)"
proof (induction left arbitrary: k s)
  case 0
  from body [OF 0] obtain t where t: "nx_scope nx body v s = (Inl (Failed err), t)" "idle t"
      "w_clock (xs_world t) = w_clock (xs_world s)" "w_task_order (xs_world t) = w_task_order (xs_world s) @ ns"
    by blast
  with 0 try_turn_fails [OF assms(1-3) _ t(1) _ refl, of h env ectx k None] show ?case
    by (intro exI [of _ "t\<lparr>xs_loop_vars :=
          map_insert (case ca_as c of Some a \<Rightarrow> a | None \<Rightarrow> lit ''error'') (to_problem_json err) (xs_loop_vars t)\<rparr>"])
       (simp add: idle_def clock_elapsed_mod [simplified])
next
  case (Suc left)
  from body [OF Suc.prems] obtain t where t: "nx_scope nx body v s = (Inl (Failed err), t)" "idle t"
      "w_clock (xs_world t) = w_clock (xs_world s)" "w_task_order (xs_world t) = w_task_order (xs_world s) @ ns"
    by blast
  let ?u = "on_world (\<lambda>w. w\<lparr>w_clock := clock_sleep (backoff_delay p (k + 1)) (w_clock w)\<rparr>) (t\<lparr>xs_loop_vars :=
      map_insert (case ca_as c of Some a \<Rightarrow> a | None \<Rightarrow> lit ''error'') (to_problem_json err) (xs_loop_vars t)\<rparr>)"
  have turn: "try_loop nx h env body c v ectx k (Suc left) s = try_loop nx h env body c v ectx (k + 1) left ?u"
    using Suc.prems t(2)
    by (simp add: try_turn_fails [OF assms(1-3) _ t(1) _ refl] idle_def)
  have "idle ?u" using t(2) by simp
  from Suc.IH [OF this, of "k + 1"] obtain u where u:
    "try_loop nx h env body c v ectx (k + 1) left ?u = (case ca_do c of Some hs \<Rightarrow> nx_scope nx hs v | None \<Rightarrow> ok v) u"
    "idle u" "w_task_order (xs_world u) = w_task_order (xs_world ?u) @ concat (replicate (Suc left) ns)"
    "clock_elapsed (w_clock (xs_world u)) = (clock_elapsed (w_clock (xs_world ?u))
       + (\<Sum>i = k + 1 + 1..k + 1 + left. backoff_delay p i)) mod 2 ^ 64"
    "map_of (xs_loop_vars u) (case ca_as c of Some a \<Rightarrow> a | None \<Rightarrow> lit ''error'') = Some (to_problem_json err)"
    by blast
  have "(\<Sum>i = k + 1..k + Suc left. backoff_delay p i) =
      backoff_delay p (k + 1) + (\<Sum>i = k + 1 + 1..k + 1 + left. backoff_delay p i)"
    by (subst sum.atLeast_Suc_atMost) simp_all
  then have clock: "(clock_elapsed (w_clock (xs_world ?u)) + (\<Sum>i = k + 1 + 1..k + 1 + left. backoff_delay p i)) mod 2 ^ 64
      = (clock_elapsed (w_clock (xs_world s)) + (\<Sum>i = k + 1..k + Suc left. backoff_delay p i)) mod 2 ^ 64"
    by (simp only:) (simp add: on_world_def t(3) clock_sleep_def clock_elapsed_advance mod_add_left_eq add.assoc)
  have order: "w_task_order (xs_world ?u) @ concat (replicate (Suc left) ns)
      = w_task_order (xs_world s) @ concat (replicate (Suc (Suc left)) ns)"
    by (simp add: on_world_def t(4))
  show ?case
    unfolding turn
    by (intro exI [of _ u] conjI u(1,2,5)) (simp_all only: u(3,4) order clock)
qed

section \<open>Forks\<close>

lemma completion_order_sorted: "sort (completion_order h n) = [0..<n]"
  by (simp add: completion_order_def Let_def)

lemma completion_order_set: "set (completion_order h n) = {..<n}"
  using arg_cong [OF completion_order_sorted [of h n], of set] by (simp add: atLeast_upt)

lemma run_branch_result:
  assumes "\<And>s. fst (nx_task nx (branches ! i) v s) = Inr r"
  shows "fst (run_branch nx branches v i s) = Inr (te_output r)"
proof -
  obtain t where "nx_task nx (branches ! i) v s = (Inr r, t)"
    using assms [of s] by (metis prod.collapse)
  then show ?thesis by (simp add: run_branch_def in_branch_def framed_def Let_def exec_simps)
qed

lemma join_all_results:
  assumes "\<And>i s. i \<in> set order \<Longrightarrow> fst (run i s) = Inr (f i)"
  shows "fst (join_all h run results None order s) =
    Inr (Array (map or_null (fold (\<lambda>i rs. rs[i := Some (f i)]) order results)))"
  using assms
proof (induction order arbitrary: results s)
  case (Cons i order)
  obtain t where run: "run i s = (Inr (f i), t)"
    using Cons.prems [of i s] by (metis list.set_intros(1) prod.collapse)
  have "post (joined h (lit ''fork branch panicked: '')) (run i) s = (Inr (f i), t)"
    by (simp add: post_def run)
  with Cons show ?case by (simp add: bindE_apply tryE_apply)
qed (simp add: exec_simps)

lemma fold_updates:
  assumes "distinct order" "set order = {..<length rs}"
  shows "fold (\<lambda>i rs. rs[i := Some (f i)]) order rs = map (\<lambda>i. Some (f i)) [0..<length rs]"
proof -
  have len: "length (fold (\<lambda>i rs. rs[i := Some (f i)]) order rs) = length rs" for order rs
    by (induction order arbitrary: rs) simp_all
  have "fold (\<lambda>i rs. rs[i := Some (f i)]) order rs ! j =
      (if j \<in> set order then Some (f j) else rs ! j)" if "j < length rs" "distinct order" for j order rs
    using that by (induction order arbitrary: rs) (auto simp: nth_list_update)
  with assms len show ?thesis by (intro nth_equalityI) simp_all
qed

lemma task_fork_results:
  assumes "\<And>i s. i < length branches \<Longrightarrow> fst (nx_task nx (branches ! i) v s) = Inr (r i)"
  shows "fst (task_fork nx h branches compete v s) =
    Inr (if branches = [] then Array []
         else if compete then te_output (r (hd (completion_order h (length branches))))
         else Array (map (te_output \<circ> r) [0..<length branches]))"
proof -
  let ?n = "length branches" let ?order = "completion_order h ?n"
  have run: "fst (run_branch nx branches v i s) = Inr (te_output (r i))" if "i < ?n" for i s
    using run_branch_result assms that by blast
  have distinct: "distinct ?order"
    using completion_order_sorted [of h ?n] distinct_sort [of "\<lambda>x. x" ?order] by simp
  have "fst (join_all h (run_branch nx branches v) (replicate ?n None) None ?order s) =
      Inr (Array (map or_null (fold (\<lambda>i rs. rs[i := Some (te_output (r i))]) ?order (replicate ?n None))))"
    by (rule join_all_results) (simp add: run completion_order_set)
  then have all: "fst (join_all h (run_branch nx branches v) (replicate ?n None) None ?order s) =
      Inr (Array (map (te_output \<circ> r) [0..<?n]))"
    using fold_updates [OF distinct, of "replicate ?n None" "te_output \<circ> r"]
    by (simp add: completion_order_set or_null_def comp_def)
  have first: "hd ?order < ?n" if "branches \<noteq> []"
  proof -
    from that completion_order_set [of h ?n] have "?order \<noteq> []" by fastforce
    then have "hd ?order \<in> set ?order" by simp
    then show ?thesis by (simp add: completion_order_set)
  qed
  show ?thesis
    using all run [OF first] by (auto simp: task_fork_def Let_def exec_simps post_def)
qed

section \<open>Listeners\<close>

definition wanted :: "event_filter_def list \<Rightarrow> event_message \<Rightarrow> bool" where
  "wanted fs e \<longleftrightarrow> (\<exists>f \<in> set fs. event_matches (build_matcher f) (from_message e))"

lemma any_matches_uncorrelated:
  assumes "\<forall>f \<in> set fs. ef_correlate f = []"
  shows "any_matches h vars e g (map build_filter fs) = Inr (wanted fs e)"
  using assms
  by (induction fs) (simp_all add: filter_matches_def build_filter_def wanted_def bindR_def)

text \<open>Without correlation and \<open>until\<close>, \<open>one\<close> and \<open>any\<close> take the first event a filter wants.\<close>

lemma gather_first:
  assumes "lp_filters p = map build_filter fs" "fs \<noteq> []" "\<forall>f \<in> set fs. ef_correlate f = []"
    and "lp_need p = NeedOne" "\<not> has_until p" "ga_consumed g = []"
  shows "gather h env p g es fin =
    (case dropWhile (\<lambda>e. \<not> wanted fs e) es of
       e # _ \<Rightarrow> Inr [e]
     | [] \<Rightarrow> gather h env p g [] fin)"
  using assms(6)
proof (induction es arbitrary: g)
  case (Cons e es)
  have until: "lp_until_filters p = []" "lp_until_expression p = None"
    using assms(5) by (auto simp: has_until_def)
  have pending: "\<not> gathering_done p g"
    using assms Cons.prems by (simp add: gathering_done_def)
  have step: "\<exists>g'. gather_step h p g e = Inr g' \<and> ga_consumed g' = (if wanted fs e then [e] else [])
      \<and> gathering_done p g' = wanted fs e"
    using assms(1-5) Cons.prems
    by (simp add: gather_step_def accept_event_def until any_matches_uncorrelated gathering_done_def
        has_until_def bindR_def Let_def)
  have same: "gather h env p g' [] fin = gather h env p g [] fin"
    if "ga_consumed g' = []" for g'
    using that Cons.prems assms by (cases fin) (simp_all add: gathering_done_def)
  from step obtain g' where g': "gather_step h p g e = Inr g'"
      "ga_consumed g' = (if wanted fs e then [e] else [])" "gathering_done p g' = wanted fs e"
    by blast
  show ?case
  proof (cases "wanted fs e")
    case True
    then show ?thesis using g' pending by (cases es) (simp_all add: bindR_def)
  next
    case False
    with g' Cons.IH [of g'] same [of g'] pending show ?thesis 
      by (cases "dropWhile (\<lambda>e. \<not> wanted fs e) es") (simp_all add: bindR_def del: gather.simps(1) dropWhile_eq_Nil_conv)
  qed
qed simp

lemma task_listen_first:
  assumes "to = ListenAny fs \<or> (\<exists>f. to = ListenOne f \<and> fs = [f])"
    and "fs \<noteq> []" "\<forall>f \<in> set fs. ef_correlate f = []"
    and "h_subscribe h (w_calls (xs_world s)) = Answer (es, fin)"
    and "dropWhile (\<lambda>e. \<not> wanted fs e) es = e # rest"
  shows "fst (task_listen nx h env to read None None ectx s) =
    Inr (Array [read_event e (case read of Some r \<Rightarrow> r | None \<Rightarrow> lit ''data'')])"
proof -
  let ?p = "listen_plan_of to read None ectx"
  have plan: "lp_filters ?p = map build_filter fs" "lp_need ?p = NeedOne" "\<not> has_until ?p"
      "lp_read ?p = (case read of Some r \<Rightarrow> r | None \<Rightarrow> lit ''data'')"
    using assms(1) by (auto simp: listen_plan_of_def has_until_def)
  have "gather h env ?p (gathering_start ?p) es fin = Inr [e]"
    using gather_first [OF plan(1) assms(2,3) plan(2,3), of "gathering_start ?p" h env es fin] assms(5)
    by (simp add: gathering_start_def)
  with assms(4) plan(4) show ?thesis
    by (simp add: task_listen_def external_def exec_simps Let_def bindE_def on_world_def)
qed

section \<open>Extension scopes\<close>

text \<open>An extension scope that returns or fails leaves the two marks as they were set.\<close>

lemma extension_marks_restored:
  assumes "scope \<noteq> []" "run_extension_scope nx scope v s = (r, t)"
    and "\<And>f. r = Inl f \<Longrightarrow> \<exists>e. f = Failed e"
  shows "xs_apply_extensions t = xs_apply_extensions s \<and> \<not> xs_scope_exited t"
  using assms
  by (cases r) (auto simp: run_extension_scope_def extension_frame_def framed_def Let_def
      split: sum.splits failure.splits)

section \<open>Skipped tasks\<close>

lemma exec_task_skipped:
  assumes "guard_holds h env t v (on_world (\<lambda>w. w\<lparr>w_task_order := w_task_order w @ [ct_name t]\<rparr>) s)
    = (Inr False, u)"
  shows "exec_task h nx env t v s = (Inr \<lparr>te_output = v, te_directive = None\<rparr>, u)"
  unfolding exec_task_def record_task_def bindE_simps
    bindE_apply(2) [where m = "guard_holds h env t v", OF assms]
  by (simp add: ok_apply)

end
