(* ===== verification/EngineRuns.thy ===== *)
theory EngineRuns
  imports TaskLaws
begin

text \<open>
  What runs of the engine do: scopes that loop, the variables of loops, retries, forks, listeners
  and extensions.
\<close>

section \<open>Plain tasks\<close>

definition no_data :: data_def where
  "no_data = \<lparr>dd_schema = None, dd_transform = None\<rparr>"

definition plain_task :: "str \<Rightarrow> str option \<Rightarrow> task_kind \<Rightarrow> compiled_task" where
  "plain_task n th k = CompiledTask n n None no_data no_data no_data None th Null k"

lemma plain_task_sel [simp]:
  "ct_name (plain_task n th k) = n" "ct_reference (plain_task n th k) = n"
  "ct_if (plain_task n th k) = None" "ct_input (plain_task n th k) = no_data"
  "ct_output (plain_task n th k) = no_data" "ct_export (plain_task n th k) = no_data"
  "ct_timeout (plain_task n th k) = None" "ct_then (plain_task n th k) = th"
  "ct_descriptor (plain_task n th k) = Null" "ct_kind (plain_task n th k) = k"
  by (simp_all add: plain_task_def)

lemma no_data_sel [simp]: "dd_schema no_data = None" "dd_transform no_data = None"
  by (simp_all add: no_data_def)

lemma validate_no_schema [simp]: "validate_schema h None v inst = Inr ()"
  by (simp add: validate_schema_def)

text \<open>A task without guard, data definitions and extensions is its body.\<close>

lemma exec_plain_task:
  assumes "cw_extensions (xe_workflow env) = []" "w_task_order (xs_world s) = past"
    and "s1 = on_world (\<lambda>w. w\<lparr>w_task_order := past @ [n]\<rparr>) s"
    and "dispatch nx h env (plain_task n th k) v (execution_context env s1 v Null (Some Null)) s1 = (Inr r, t)"
  shows "exec_task h nx env (plain_task n th k) v s = (Inr r, t)"
  using assms
  by (simp add: exec_task_def record_task_def guard_holds_def enter_task_def leave_task_def
      transform_or_def applicable_extensions_def exec_simps set_context_def on_world_def
      bindE_def split: prod.split)

lemma exec_set_task:
  assumes "cw_extensions (xe_workflow env) = []"
  shows "exec_task h nx env (plain_task n th (TaskSet (SetMap []))) v s =
    (Inr \<lparr>te_output = Object [], te_directive = None\<rparr>,
     on_world (\<lambda>w. w\<lparr>w_task_order := w_task_order w @ [n]\<rparr>) s)"
  by (rule exec_plain_task [OF assms refl])
     (simp_all add: dispatch_def plain_def exec_simps on_world_def)

text \<open>A task that fails.\<close>

lemma exec_plain_failure:
  assumes "cw_extensions (xe_workflow env) = []" "w_task_order (xs_world s) = past"
    and "s1 = on_world (\<lambda>w. w\<lparr>w_task_order := past @ [n]\<rparr>) s"
    and "dispatch nx h env (plain_task n th k) v (execution_context env s1 v Null (Some Null)) s1 = (Inl f, t)"
  shows "exec_task h nx env (plain_task n th k) v s = (Inl f, t)"
  using assms
  by (simp add: exec_task_def record_task_def guard_holds_def enter_task_def
      transform_or_def applicable_extensions_def exec_simps on_world_def
      bindE_def split: prod.split)

lemma turn_past_end:
  assumes "idle s" "length ts \<le> i"
  shows "eg_turn (engine_at h (Suc m)) env cp ts i v s = (Inr v, s)"
  using assms
  by (simp add: scope_turn_def idle_def bindE_apply(2) [where m = "check_cancel env", OF check_cancel_never] exec_simps)

text \<open>A scope of one plain task.\<close>

lemma plain_scope:
  assumes "cw_extensions (xe_workflow env) = []" "xe_timeout env = None" "idle s"
    and "s1 = on_world (\<lambda>w. w\<lparr>w_task_order := w_task_order w @ [n]\<rparr>) s"
    and run: "dispatch (nested_of (engine_at h m) env) h env (plain_task n None k) v
      (execution_context env s1 v Null (Some Null)) s1 = (r, t)"
  shows "r = Inr \<lparr>te_output = out, te_directive = None\<rparr> \<Longrightarrow> idle t
      \<Longrightarrow> eg_turn (engine_at h (Suc (Suc m))) env None [plain_task n None k] 0 v s = (Inr out, t)"
    and "r = Inl f \<Longrightarrow> eg_turn (engine_at h (Suc (Suc m))) env None [plain_task n None k] 0 v s = (Inl f, t)"
proof -
  have s: "w_cancel (xs_world s) = None" "\<not> xs_ended s" using assms(3) by (simp_all add: idle_def)
  have step: "eg_turn (engine_at h (Suc (Suc m))) = scope_turn (engine_at h (Suc m))" by simp
  have timed: "run_timed (engine_at h (Suc m)) env (plain_task n None k) v
      = exec_task h (nested_of (engine_at h m) env) env (plain_task n None k) v"
    by (simp add: run_timed_def task_timeout_def assms(2))
  show "eg_turn (engine_at h (Suc (Suc m))) env None [plain_task n None k] 0 v s = (Inr out, t)"
    if "r = Inr \<lparr>te_output = out, te_directive = None\<rparr>" "idle t"
  proof -
    have "exec_task h (nested_of (engine_at h m) env) env (plain_task n None k) v s
        = (Inr \<lparr>te_output = out, te_directive = None\<rparr>, t)"
      by (rule exec_plain_task [OF assms(1) refl]) (use assms(4) run that(1) in \<open>simp_all add: on_world_def\<close>)
    with s turn_past_end [OF that(2), of "[plain_task n None k]" 1 h m env None out] show ?thesis
      unfolding step
      by (simp add: scope_turn_def bindE_apply check_cancel_never timed final_directive_def
          save_progress_def Let_def exec_simps del: engine_at.simps)
  qed
  show "eg_turn (engine_at h (Suc (Suc m))) env None [plain_task n None k] 0 v s = (Inl f, t)" if "r = Inl f"
  proof -
    have "exec_task h (nested_of (engine_at h m) env) env (plain_task n None k) v s = (Inl f, t)"
      by (rule exec_plain_failure [OF assms(1) refl]) (use assms(4) run that in \<open>simp_all add: on_world_def\<close>)
    with s show ?thesis
      unfolding step
      by (simp add: scope_turn_def bindE_apply check_cancel_never timed Let_def exec_simps del: engine_at.simps)
  qed
qed

section \<open>Skipped tasks\<close>

text \<open>A task whose guard is false still sends the scope where its \<open>then\<close> points.\<close>

lemma skipped_turn:
  assumes "w_cancel (xs_world s) = None" "\<not> xs_ended s" "task_timeout env t = None"
    and "guard_holds h env t v (on_world (\<lambda>w. w\<lparr>w_task_order := w_task_order w @ [ct_name t]\<rparr>) s)
      = (Inr False, u)"
  shows "eg_turn (engine_at h (Suc (Suc n))) env cp (t # ts) 0 v s =
    (case (case ct_then t of Some d \<Rightarrow> parse_directive d | None \<Rightarrow> Continue) of
       Continue \<Rightarrow> bindE (save_progress env cp 1 v) (\<lambda>_. eg_turn (engine_at h (Suc n)) env cp (t # ts) 1 v) u
     | Goto name \<Rightarrow>
         (case position (\<lambda>t. ct_name t = name) (t # ts) of
            Some pos \<Rightarrow> bindE (save_progress env cp pos v) (\<lambda>_. eg_turn (engine_at h (Suc n)) env cp (t # ts) pos v) u
          | None \<Rightarrow> (Inl (Failed (unknown_target env name)), u))
     | Exit \<Rightarrow> (Inr v, u\<lparr>xs_scope_exited := True\<rparr>)
     | End \<Rightarrow> (Inr v, u\<lparr>xs_ended := True\<rparr>))"
proof -
  have task: "eg_task (engine_at h (Suc n)) env t v s = (Inr \<lparr>te_output = v, te_directive = None\<rparr>, u)"
    using exec_task_skipped [OF assms(4)] by simp
  have step: "eg_turn (engine_at h (Suc (Suc n))) = scope_turn (engine_at h (Suc n))" by simp
  show ?thesis
    unfolding step using assms(2,3)
    by (simp add: scope_turn_def bindE_apply(2) [where m = "check_cancel env", OF check_cancel_never [OF assms(1)]]
        run_timed_def bindE_apply(2) [where m = "eg_task (engine_at h (Suc n)) env t v", OF task]
        final_directive_def Let_def exec_simps del: engine_at.simps
        split: flow_directive.split option.split)
qed

end
