(* ===== verification/EngineJumps.thy ===== *)
theory EngineJumps
  imports EngineRuns
begin

text \<open>
  Scopes that jump: what keeps a scope running, and the only ways out of a scope whose tasks all
  send it on to one of them.
\<close>

section \<open>Computations that end no workflow\<close>

text \<open>The mark that an \<open>end\<close> directive leaves.\<close>

interpretation live: state_relation "\<lambda>s t. \<not> xs_ended s \<longrightarrow> \<not> xs_ended t"
  by unfold_locales auto

lemma live_modifies: "(\<And>s. xs_ended (f s) = xs_ended s) \<Longrightarrow> live.keeps (modifies f)"
  by (simp add: live.keeps_def exec_simps)

lemma live_world: "live.keeps (modifies (on_world f))"
  by (simp add: live_modifies on_world_def)

lemma live_external: "live.keeps (external call)"
  unfolding external_def
  by (intro live.keeps_intros live_world) (auto intro!: live.keeps_intros split: answer.split)

lemma live_steps:
  "live.keeps (check_cancel env)" "live.keeps (new_uuid h)" "live.keeps (publish h m)" "live.keeps (set_context v)"
  "live.keeps (on_store g)" "live.keeps (eval_in h env src a b c d e)"
proof -
  have "live.keeps is_cancelled"
    by (simp add: live.keeps_def is_cancelled_def on_world_def split: option.split)
  then show "live.keeps (check_cancel env)"
    by (auto simp: check_cancel_def intro!: live.keeps_intros)
  show "live.keeps (new_uuid h)" "live.keeps (set_context v)" "live.keeps (on_store g)" "live.keeps (publish h m)"
    unfolding new_uuid_def set_context_def on_store_def publish_def
    by (intro live.keeps_intros live_world live_external live_modifies; simp)+
  show "live.keeps (eval_in h env src a b c d e)"
    by (simp add: live.keeps_def eval_in_def)
qed

lemma live_framed:
  "(\<And>s r t. xs_ended (back s r t) = xs_ended s) \<Longrightarrow> live.keeps (framed into back m)"
  by (simp add: live.keeps_def framed_def Let_def)

lemma live_primitives:
  "live.keeps (record_task n)" "live.keeps (sleep d)" "live.keeps (wait_with_cancel env d)"
  "live.keeps epoch_seconds" "live.keeps (is_cancelled)"
proof -
  show rec: "live.keeps (record_task n)" "live.keeps (sleep d)" for n d
    unfolding record_task_def sleep_def by (rule live_world)+
  show "live.keeps (wait_with_cancel env d)"
    unfolding wait_with_cancel_def by (intro live.keeps_intros live_steps rec)
  show "live.keeps epoch_seconds" unfolding epoch_seconds_def by (rule live.keeps_intros)
  show "live.keeps is_cancelled"
    by (simp add: live.keeps_def is_cancelled_def on_world_def split: option.split)
qed

lemma live_transform: "(\<And>src. live.keeps (f src)) \<Longrightarrow> live.keeps (transform_or f src v)"
  unfolding transform_or_def by (auto intro: live.keeps_intros split: option.split)

text \<open>A bind whose first part always has values of some kind.\<close>

text \<open>Every value of the computation satisfies the predicate.\<close>

definition gives :: "'a exec \<Rightarrow> ('a \<Rightarrow> bool) \<Rightarrow> bool" where
  "gives m P \<longleftrightarrow> (\<forall>s x t. m s = (Inr x, t) \<longrightarrow> P x)"

lemma gives_any: "gives m (\<lambda>x. True)"
  by (simp add: gives_def)

lemma gives_ok: "P x \<Longrightarrow> gives (ok x) P"
  by (simp add: gives_def exec_simps)

lemma gives_bind: "gives m P \<Longrightarrow> (\<And>x. P x \<Longrightarrow> gives (f x) Q) \<Longrightarrow> gives (bindE m f) Q"
  by (auto simp: gives_def bindE_Inr) blast

lemma live_gives:
  assumes "live.keeps m" "gives m P" "\<And>x. P x \<Longrightarrow> live.keeps (f x)"
  shows "live.keeps (bindE m f)"
proof (rule live.keepsI, rule impI)
  fix s :: exec_state
  assume s: "\<not> xs_ended s"
  obtain r t where m: "m s = (r, t)" by force
  with live.keepsD_eq [OF assms(1) m] s have t: "\<not> xs_ended t" by simp
  show "\<not> xs_ended (snd (bindE m f s))"
  proof (cases r)
    case (Inl e)
    with m t show ?thesis by (simp add: bindE_apply)
  next
    case (Inr x)
    with m assms(2) have "P x" by (auto simp: gives_def)
    from live.keepsD [OF assms(3) [OF this], of t] Inr m t show ?thesis by (simp add: bindE_apply)
  qed
qed

lemma no_extensions:
  assumes "cw_extensions (xe_workflow env) = []"
  shows "gives (enter_task h env t v) (\<lambda>(task_input, exts). exts = [])"
proof -
  have "gives (applicable_extensions h env t v) (\<lambda>exts. exts = [])"
    unfolding applicable_extensions_def
    by (rule gives_bind [OF gives_any]) (simp add: assms gives_ok)
  then show ?thesis
    unfolding enter_task_def
    by (intro gives_bind [OF gives_any] gives_bind [where P = "\<lambda>exts. exts = []"] gives_ok) simp_all
qed

section \<open>Leaf tasks\<close>

definition leaf_kind :: "task_kind \<Rightarrow> bool" where
  "leaf_kind k \<longleftrightarrow>
     (case k of
        TaskSet v \<Rightarrow> True | TaskEmit a \<Rightarrow> True | TaskListen to r u fe \<Rightarrow> fe = None | TaskRaise e \<Rightarrow> True
      | TaskCall c \<Rightarrow> True | TaskRun d \<Rightarrow> True | TaskWait d \<Rightarrow> True | _ \<Rightarrow> False)"

lemma live_leaf:
  assumes "leaf_kind (ct_kind t)"
  shows "live.keeps (dispatch nx h env t v ectx)"
proof -
  have emit: "live.keeps (task_emit h env a ectx)" for a
    unfolding task_emit_def by (auto intro!: live.keeps_intros live_steps live_primitives)
  have listen: "live.keeps (task_listen nx h env to r u None ectx)" for to r u
    unfolding task_listen_def Let_def
    by (auto intro!: live.keeps_intros live_external split: prod.split)
  have call: "live.keeps (task_call h env d ectx)" for d
    unfolding task_call_def Let_def
    by (auto intro!: live.keeps_intros live_external split: option.split)
  have "live.keeps (run_subworkflow nx h p ectx)" for p
    unfolding run_subworkflow_def Let_def in_execution_def
    by (auto intro!: live.keeps_intros live_framed split: option.split)
  then have run: "live.keeps (task_run nx h d v ectx)" for d
    unfolding task_run_def by (auto intro!: live.keeps_intros live_external split: run_process.split)
  show ?thesis
    using assms emit listen call run
    by (cases "ct_kind t")
       (auto simp: leaf_kind_def dispatch_def plain_def task_wait_def intro!: live.keeps_intros live_primitives)
qed

lemma live_leave: "live.keeps (leave_task nx h t [] ectx v d)"
  unfolding leave_task_def run_after.simps
  by (auto intro!: live.keeps_intros live_transform live_steps split: option.split)

lemma live_exec_leaf:
  assumes "leaf_kind (ct_kind t)" "cw_extensions (xe_workflow env) = []"
  shows "live.keeps (exec_task h nx env t v)"
proof -
  have enter: "live.keeps (enter_task h env t v)"
    unfolding enter_task_def applicable_extensions_def assms(2) select_extensions.simps
    by (auto intro!: live.keeps_intros live_transform live_steps)
  have body: "live.keeps (bindE (dispatch nx h env t w ectx) (leave_task nx h t [] ectx w))" for w ectx
    by (intro live.keeps_bindE live_leaf assms(1) live_leave)
  have rest: "live.keeps (bindE (run_before nx [] w) (\<lambda>(task_input, skip_body).
      bindE (gets (\<lambda>s. execution_context env s task_input Null (Some (ct_descriptor t)))) (\<lambda>ectx.
      bindE (if skip_body then ok \<lparr>te_output = task_input, te_directive = None\<rparr>
             else dispatch nx h env t task_input ectx) (leave_task nx h t [] ectx task_input))))" for w
    by (simp add: bindE_simps(1)) (intro live.keeps_bindE live.keeps_pure(5) body)
  have pipeline: "live.keeps (bindE (enter_task h env t v) (\<lambda>(input, exts).
      bindE (run_before nx exts input) (\<lambda>(task_input, skip_body).
      bindE (gets (\<lambda>s. execution_context env s task_input Null (Some (ct_descriptor t)))) (\<lambda>ectx.
      bindE (if skip_body then ok \<lparr>te_output = task_input, te_directive = None\<rparr>
             else dispatch nx h env t task_input ectx) (leave_task nx h t exts ectx task_input)))))"
    by (rule live_gives [OF enter no_extensions [OF assms(2)]]) (use rest in auto)
  show ?thesis
    unfolding exec_task_def guard_holds_def
    by (intro live.keeps_bindE live_primitives)
       (auto intro!: live.keeps_intros live_steps pipeline split: option.split)
qed

lemma leaf_directive:
  assumes "exec_task h nx env t v s = (Inr r, s')" "leaf_kind (ct_kind t)"
  shows "te_directive r = None"
proof -
  have "dispatch nx h env t w ectx s1 = (Inr d, s2) \<Longrightarrow> te_directive d = None" for w ectx s1 d s2
    using assms(2) by (cases "ct_kind t") (auto simp: leaf_kind_def dispatch_def plain_def bindE_Inr exec_simps)
  with assms(1) show ?thesis
    by (auto simp: exec_task_def bindE_Inr exec_simps leave_task_def split: if_splits)
qed

section \<open>Scopes that jump within themselves\<close>

definition sent_on :: "compiled_task list \<Rightarrow> compiled_task \<Rightarrow> bool" where
  "sent_on ts t \<longleftrightarrow> (\<exists>d. ct_then t = Some d \<and> parse_directive d = Goto d \<and> d \<in> ct_name ` set ts)"

definition jumps_within :: "compiled_task list \<Rightarrow> bool" where
  "jumps_within ts \<longleftrightarrow> (\<forall>t \<in> set ts. leaf_kind (ct_kind t) \<and> sent_on ts t)"

lemma sent_on_target:
  assumes "sent_on ts t" "te_directive r = None"
  obtains d pos where "final_directive t r = Goto d" "position (\<lambda>t. ct_name t = d) ts = Some pos" "pos < length ts"
proof -
  from assms(1) obtain d where d: "ct_then t = Some d" "parse_directive d = Goto d" "d \<in> ct_name ` set ts"
    by (auto simp: sent_on_def)
  from d(3) have "position (\<lambda>t. ct_name t = d) ts \<noteq> None" by (auto simp: position_None)
  then obtain pos where pos: "position (\<lambda>t. ct_name t = d) ts = Some pos" by blast
  with position_SomeD [OF pos] d assms(2) that show ?thesis by (simp add: final_directive_def)
qed

lemma live_progress: "live.keeps (save_progress env cp i v)"
  unfolding save_progress_def persist_checkpoint_def
  by (auto intro!: live.keeps_intros live_steps split: option.split)

lemma deadline_Inr: "deadline env t r = Inr x \<Longrightarrow> \<exists>y. r = Inr y"
  by (cases "(env, t, r)" rule: deadline.cases) auto

lemma timed_result:
  assumes "run_timed eg env t v s = (Inr r, s')"
  shows "eg_task eg env t v s = (Inr r, s')"
  using assms by (auto simp: run_timed_def post_def prod_eq_iff split: option.splits elim: deadline.elims)

lemma jumping_scope_never_returns:
  assumes "cw_extensions (xe_workflow env) = []" "jumps_within ts"
  shows "i < length ts \<Longrightarrow> \<not> xs_ended s \<Longrightarrow> fst (eg_turn (engine_at h m) env cp ts i v s) \<noteq> Inr out"
proof (induction m arbitrary: i v s)
  case 0
  then show ?case by (simp add: exec_simps)
next
  case (Suc m)
  let ?t = "ts ! i"
  have t: "leaf_kind (ct_kind ?t)" "sent_on ts ?t"
    using assms(2) Suc.prems(1) by (auto simp: jumps_within_def)
  show ?case
  proof
    assume "fst (eg_turn (engine_at h (Suc m)) env cp ts i v s) = Inr out"
    then obtain s' where "scope_turn (engine_at h m) env cp ts i v s = (Inr out, s')" by (simp add: prod_eq_iff)
    then obtain s1 where check: "check_cancel env s = (Inr (), s1)"
      and rest: "bindE (gets xs_ended) (\<lambda>ended. if ended \<or> length ts \<le> i then ok v
        else bindE (run_timed (engine_at h m) env ?t v) (\<lambda>r.
          case final_directive ?t r of
            Continue \<Rightarrow> bindE (save_progress env cp (i + 1) (te_output r)) (\<lambda>_. eg_turn (engine_at h m) env cp ts (i + 1) (te_output r))
          | Goto name \<Rightarrow>
              (case position (\<lambda>t. ct_name t = name) ts of
                 Some pos \<Rightarrow> bindE (save_progress env cp pos (te_output r)) (\<lambda>_. eg_turn (engine_at h m) env cp ts pos (te_output r))
               | None \<Rightarrow> throw (unknown_target env name))
          | Exit \<Rightarrow> bindE (modifies (\<lambda>s. s\<lparr>xs_scope_exited := True\<rparr>)) (\<lambda>_. ok (te_output r))
          | End \<Rightarrow> bindE (modifies (\<lambda>s. s\<lparr>xs_ended := True\<rparr>)) (\<lambda>_. ok (te_output r)))) s1 = (Inr out, s')"
      unfolding scope_turn_def Let_def bindE_Inr [of "check_cancel env"] by auto
    have s1: "\<not> xs_ended s1" using live.keepsD_eq [OF live_steps(1) check] Suc.prems(2) by simp
    with rest Suc.prems(1) obtain r s2 where timed: "run_timed (engine_at h m) env ?t v s1 = (Inr r, s2)"
      and cont: "(case final_directive ?t r of
            Continue \<Rightarrow> bindE (save_progress env cp (i + 1) (te_output r)) (\<lambda>_. eg_turn (engine_at h m) env cp ts (i + 1) (te_output r))
          | Goto name \<Rightarrow>
              (case position (\<lambda>t. ct_name t = name) ts of
                 Some pos \<Rightarrow> bindE (save_progress env cp pos (te_output r)) (\<lambda>_. eg_turn (engine_at h m) env cp ts pos (te_output r))
               | None \<Rightarrow> throw (unknown_target env name))
          | Exit \<Rightarrow> bindE (modifies (\<lambda>s. s\<lparr>xs_scope_exited := True\<rparr>)) (\<lambda>_. ok (te_output r))
          | End \<Rightarrow> bindE (modifies (\<lambda>s. s\<lparr>xs_ended := True\<rparr>)) (\<lambda>_. ok (te_output r))) s2 = (Inr out, s')"
      by (simp add: bindE_simps(2) not_le bindE_Inr) blast
    from timed_result [OF timed] have task: "eg_task (engine_at h m) env ?t v s1 = (Inr r, s2)" .
    then obtain m' where m: "m = Suc m'" by (cases m) (auto simp: exec_simps)
    with task have exec: "exec_task h (nested_of (engine_at h m') env) env ?t v s1 = (Inr r, s2)" by simp
    have s2: "\<not> xs_ended s2" using live.keepsD_eq [OF live_exec_leaf [OF t(1) assms(1)] exec] s1 by simp
    from sent_on_target [OF t(2) leaf_directive [OF exec t(1)]] obtain d pos where
      d: "final_directive ?t r = Goto d" "position (\<lambda>t. ct_name t = d) ts = Some pos" "pos < length ts" .
    with cont obtain u s3 where "save_progress env cp pos (te_output r) s2 = (Inr u, s3)"
        "eg_turn (engine_at h m) env cp ts pos (te_output r) s3 = (Inr out, s')"
      by (auto simp: bindE_Inr)
    with Suc.IH [OF d(3), of s3 "te_output r"] live.keepsD_eq [OF live_progress] s2 show False by fastforce
  qed
qed

section \<open>Scopes that only cancellation ends\<close>

text \<open>Tasks that cannot fail: waits, and sets whose values can always be computed.\<close>

definition steady :: "host \<Rightarrow> compiled_task \<Rightarrow> bool" where
  "steady h t \<longleftrightarrow> (\<exists>n th k. t = plain_task n th k
     \<and> ((\<exists>d. k = TaskWait d) \<or> (\<exists>vs. k = TaskSet vs \<and> (\<forall>ectx. \<exists>out. task_set h vs ectx = Inr out))))"

lemma steady_wait: "steady h (plain_task n th (TaskWait d))"
  by (auto simp: steady_def)

lemma steady_set: "(\<And>ectx. \<exists>out. task_set h vs ectx = Inr out) \<Longrightarrow> steady h (plain_task n th (TaskSet vs))"
  unfolding steady_def by blast

definition circling :: "host \<Rightarrow> compiled_task list \<Rightarrow> bool" where
  "circling h ts \<longleftrightarrow> (\<forall>t \<in> set ts. steady h t \<and> sent_on ts t)"

text \<open>Whether a cancellation is on its way, and after how many checks at most.\<close>

definition cancel_within :: "exec_state \<Rightarrow> nat option \<Rightarrow> bool" where
  "cancel_within s b \<longleftrightarrow>
     (case b of None \<Rightarrow> w_cancel (xs_world s) = None | Some k \<Rightarrow> \<exists>j \<le> k. w_cancel (xs_world s) = Some j)"

lemma check_cancel_within:
  assumes "cancel_within s b" "\<not> xs_ended s"
  shows "(\<exists>t. check_cancel env s = (Inr (), t) \<and> \<not> xs_ended t
        \<and> (case b of None \<Rightarrow> cancel_within t None | Some k \<Rightarrow> 0 < k \<and> cancel_within t (Some (k - 1))))
    \<or> b \<noteq> None \<and> (\<exists>t. check_cancel env s = (Inl (Failed (cancelled_error env)), t))"
proof (cases "w_cancel (xs_world s)")
  case None
  with assms show ?thesis
    by (intro disjI1 exI [of _ s]) (auto simp: check_cancel_never cancel_within_def split: option.splits)
next
  case (Some j)
  with assms(1) obtain k where b: "b = Some k" "j \<le> k" by (auto simp: cancel_within_def split: option.splits)
  show ?thesis
  proof (cases j)
    case 0
    with Some b show ?thesis
      by (simp add: check_cancel_def is_cancelled_def bindE_def throw_apply)
  next
    case (Suc i)
    with Some b assms(2) show ?thesis
      by (intro disjI1) (auto simp: check_cancel_def is_cancelled_def bindE_def ok_apply on_world_def cancel_within_def)
  qed
qed

lemma cancel_within_mono: "cancel_within s (Some j) \<Longrightarrow> j \<le> k \<Longrightarrow> cancel_within s (Some k)"
  by (auto simp: cancel_within_def)

lemma cancel_within_world: "(\<And>w. w_cancel (f w) = w_cancel w) \<Longrightarrow> cancel_within (on_world f s) b = cancel_within s b"
  by (simp add: cancel_within_def on_world_def split: option.split)

lemma steady_task:
  assumes "steady h t" "cw_extensions (xe_workflow env) = []" "cancel_within s b" "\<not> xs_ended s"
  shows "(\<exists>out u. exec_task h nx env t v s = (Inr \<lparr>te_output = out, te_directive = None\<rparr>, u)
        \<and> cancel_within u b \<and> \<not> xs_ended u)
    \<or> b \<noteq> None \<and> (\<exists>u. exec_task h nx env t v s = (Inl (Failed (cancelled_error env)), u))"
proof -
  from assms(1) obtain n th k where t: "t = plain_task n th k"
    and k: "(\<exists>d. k = TaskWait d) \<or> (\<exists>vs. k = TaskSet vs \<and> (\<forall>ectx. \<exists>out. task_set h vs ectx = Inr out))"
    by (auto simp: steady_def)
  define s1 where "s1 = on_world (\<lambda>w. w\<lparr>w_task_order := w_task_order (xs_world s) @ [n]\<rparr>) s"
  define ectx where "ectx = execution_context env s1 v Null (Some Null)"
  have s1: "cancel_within s1 b" "\<not> xs_ended s1"
    using assms(3) by (simp add: s1_def cancel_within_world) (use assms(4) in \<open>simp add: s1_def on_world_def\<close>)
  have past: "w_task_order (xs_world s) = w_task_order (xs_world s)" by (rule refl)
  note ran = exec_plain_task [OF assms(2) past s1_def, where v = v, folded ectx_def]
    and failed = exec_plain_failure [OF assms(2) past s1_def, where v = v, folded ectx_def]
  from k show ?thesis
  proof
    assume "\<exists>d. k = TaskWait d"
    then obtain d where k: "k = TaskWait d" by blast
    from check_cancel_within [OF s1, of env] show ?thesis
    proof
      assume "\<exists>u. check_cancel env s1 = (Inr (), u) \<and> \<not> xs_ended u
          \<and> (case b of None \<Rightarrow> cancel_within u None | Some k \<Rightarrow> 0 < k \<and> cancel_within u (Some (k - 1)))"
      then obtain u where u: "check_cancel env s1 = (Inr (), u)" "\<not> xs_ended u" "cancel_within u b"
        using cancel_within_mono [of _ "k - 1" k for k] by (cases b) (fastforce simp del: One_nat_def)+
      let ?u = "on_world (\<lambda>w. w\<lparr>w_clock := clock_sleep d (w_clock w)\<rparr>) u"
      have "dispatch nx h env (plain_task n th k) v ectx s1 = (Inr \<lparr>te_output = Null, te_directive = None\<rparr>, ?u)"
        by (simp add: dispatch_def k plain_def task_wait_def wait_with_cancel_def sleep_def
            bindE_apply u(1) exec_simps)
      from ran [OF this] u(2,3) t show ?thesis by (auto simp: cancel_within_world) (auto simp: on_world_def)
    next
      assume "b \<noteq> None \<and> (\<exists>u. check_cancel env s1 = (Inl (Failed (cancelled_error env)), u))"
      then obtain u where b: "b \<noteq> None" and u: "check_cancel env s1 = (Inl (Failed (cancelled_error env)), u)" by blast
      have "dispatch nx h env (plain_task n th k) v ectx s1 = (Inl (Failed (cancelled_error env)), u)"
        by (simp add: dispatch_def k plain_def task_wait_def wait_with_cancel_def bindE_apply u)
      from failed [OF this] b t show ?thesis by auto
    qed
  next
    assume "\<exists>vs. k = TaskSet vs \<and> (\<forall>ectx. \<exists>out. task_set h vs ectx = Inr out)"
    then obtain vs out where k: "k = TaskSet vs" "task_set h vs ectx = Inr out" by blast
    then have "dispatch nx h env (plain_task n th k) v ectx s1 = (Inr \<lparr>te_output = out, te_directive = None\<rparr>, s1)"
      by (simp add: dispatch_def plain_def exec_simps)
    from ran [OF this] s1 t show ?thesis by auto
  qed
qed

lemma circling_turns:
  assumes "cw_extensions (xe_workflow env) = []" "xe_timeout env = None" "circling h ts"
  shows "i < length ts \<Longrightarrow> \<not> xs_ended s \<Longrightarrow> cancel_within s b \<Longrightarrow>
    (case b of
       None \<Rightarrow> fst (eg_turn (engine_at h m) env None ts i v s) = Inl OutOfFuel
     | Some k \<Rightarrow> fst (eg_turn (engine_at h m) env None ts i v s) = Inl (Failed (cancelled_error env))
         \<or> m \<le> k + 1 \<and> fst (eg_turn (engine_at h m) env None ts i v s) = Inl OutOfFuel)"
proof (induction m arbitrary: i v s b)
  case 0
  then show ?case by (simp add: exec_simps split: option.split)
next
  case (Suc m)
  let ?t = "ts ! i"
  have t: "steady h ?t" "sent_on ts ?t" using assms(3) Suc.prems(1) by (auto simp: circling_def)
  have timeout: "task_timeout env ?t = None"
    using t(1) assms(2) by (auto simp: steady_def task_timeout_def)
  from check_cancel_within [OF Suc.prems(3,2), of env] show ?case
  proof
    assume "b \<noteq> None \<and> (\<exists>t. check_cancel env s = (Inl (Failed (cancelled_error env)), t))"
    then show ?thesis by (auto simp: scope_turn_def bindE_apply)
  next
    assume "\<exists>u. check_cancel env s = (Inr (), u) \<and> \<not> xs_ended u
        \<and> (case b of None \<Rightarrow> cancel_within u None | Some k \<Rightarrow> 0 < k \<and> cancel_within u (Some (k - 1)))"
    then obtain u b' where check: "check_cancel env s = (Inr (), u)" and u: "\<not> xs_ended u" "cancel_within u b'"
      and b': "b' = map_option (\<lambda>k. k - 1) b" "\<And>k. b = Some k \<Longrightarrow> 0 < k"
      by (cases b) auto
    have turn: "eg_turn (engine_at h (Suc m)) env None ts i v s =
      bindE (eg_task (engine_at h m) env ?t v) (\<lambda>r.
        case final_directive ?t r of
          Continue \<Rightarrow> eg_turn (engine_at h m) env None ts (i + 1) (te_output r)
        | Goto name \<Rightarrow>
            (case position (\<lambda>t. ct_name t = name) ts of
               Some pos \<Rightarrow> eg_turn (engine_at h m) env None ts pos (te_output r)
             | None \<Rightarrow> throw (unknown_target env name))
        | Exit \<Rightarrow> bindE (modifies (\<lambda>s. s\<lparr>xs_scope_exited := True\<rparr>)) (\<lambda>_. ok (te_output r))
        | End \<Rightarrow> bindE (modifies (\<lambda>s. s\<lparr>xs_ended := True\<rparr>)) (\<lambda>_. ok (te_output r))) u"
      using u(1) Suc.prems(1) timeout
      by (simp add: scope_turn_def bindE_apply(2) [where m = "check_cancel env", OF check] exec_simps run_timed_def
          save_progress_def Let_def not_le [symmetric])
    show ?thesis
    proof (cases m)
      case 0
      with b'(2) show ?thesis unfolding turn by (auto simp: exec_simps split: option.split)
    next
      case (Suc l)
      from steady_task [OF t(1) assms(1) u(2,1), of "nested_of (engine_at h l) env" v] show ?thesis
      proof
        assume "b' \<noteq> None \<and> (\<exists>w. exec_task h (nested_of (engine_at h l) env) env ?t v u
            = (Inl (Failed (cancelled_error env)), w))"
        then obtain w where task: "eg_task (engine_at h m) env ?t v u = (Inl (Failed (cancelled_error env)), w)"
          and b: "b \<noteq> None" using b'(1) by (auto simp: Suc)
        show ?thesis
          unfolding turn bindE_apply(1) [where m = "eg_task (engine_at h m) env ?t v", OF task]
          using b by auto
      next
        assume "\<exists>out w. exec_task h (nested_of (engine_at h l) env) env ?t v u
              = (Inr \<lparr>te_output = out, te_directive = None\<rparr>, w) \<and> cancel_within w b' \<and> \<not> xs_ended w"
        then obtain out w where task: "eg_task (engine_at h m) env ?t v u = (Inr \<lparr>te_output = out, te_directive = None\<rparr>, w)"
          and w: "cancel_within w b'" "\<not> xs_ended w" by (auto simp: Suc)
        obtain d pos where d: "final_directive ?t \<lparr>te_output = out, te_directive = None\<rparr> = Goto d"
            "position (\<lambda>t. ct_name t = d) ts = Some pos" "pos < length ts"
          by (rule sent_on_target [OF t(2), of "\<lparr>te_output = out, te_directive = None\<rparr>"]) simp_all
        have "eg_turn (engine_at h (Suc m)) env None ts i v s = eg_turn (engine_at h m) env None ts pos out w"
          unfolding turn bindE_apply(2) [where m = "eg_task (engine_at h m) env ?t v", OF task]
          by (simp add: d)
        with Suc.IH [OF d(3) w(2,1), of out] b' show ?thesis by (cases b) auto
      qed
    qed
  qed
qed

end
