(* ===== verification/EngineLogs.thy ===== *)
theory EngineLogs
  imports Engine
begin

text \<open>
  What an execution does to the shared services.  A relation between service states that the
  primitive operations respect is respected by every execution; the instances are that the logs
  only grow, that the store keeps its records under their own identifiers, and that a token that
  nobody cancels stays as it is.
\<close>

section \<open>Relations of service states\<close>

locale service_relation =
  fixes W :: "world \<Rightarrow> world \<Rightarrow> bool"
  assumes W_refl: "W w w"
    and W_trans: "W u v \<Longrightarrow> W v w \<Longrightarrow> W u w"
    and W_cancel: "w_cancel w = Some j \<Longrightarrow> W w (w\<lparr>w_cancel := Some k\<rparr>)"
    and W_calls: "W w (w\<lparr>w_calls := w_calls w + 1\<rparr>)"
    and W_clock: "W w (w\<lparr>w_clock := clock_sleep d (w_clock w)\<rparr>)"
    and W_uuids: "W w (w\<lparr>w_uuids := w_uuids w + 1\<rparr>)"
    and W_randoms: "W w (w\<lparr>w_randoms := w_randoms w + 1\<rparr>)"
    and W_task: "W w (w\<lparr>w_task_order := w_task_order w @ [n]\<rparr>)"
    and W_publish: "W w (w\<lparr>w_published := w_published w @ [m]\<rparr>)"
    and W_create: "W w (w\<lparr>w_store := store_create r (w_store w)\<rparr>)"
    and W_update: "W w (w\<lparr>w_store := store_update r (w_store w)\<rparr>)"
    and W_event: "W w (w\<lparr>w_store := store_append_event e (w_store w)\<rparr>)"

sublocale service_relation \<subseteq> services: state_relation "\<lambda>s t. W (xs_world s) (xs_world t)"
  by unfold_locales (blast intro: W_refl W_trans)+

context service_relation
begin

lemmas keeps_intros = services.keeps_pure services.keeps_bindE services.keeps_tryE
  services.keeps_post services.keeps_mapE

lemma keeps_if: "(b \<Longrightarrow> services.keeps m) \<Longrightarrow> (\<not> b \<Longrightarrow> services.keeps m')
  \<Longrightarrow> services.keeps (if b then m else m')"
  by simp

lemma keeps_let: "(\<And>x. services.keeps (f x)) \<Longrightarrow> services.keeps (Let v f)"
  by (simp add: Let_def)

lemma keeps_option: "services.keeps m \<Longrightarrow> (\<And>x. o' = Some x \<Longrightarrow> services.keeps (f x))
  \<Longrightarrow> services.keeps (case o' of None \<Rightarrow> m | Some x \<Rightarrow> f x)"
  by (simp split: option.split)

lemma keeps_pair: "(\<And>x y. services.keeps (f x y)) \<Longrightarrow> services.keeps (case p of (x, y) \<Rightarrow> f x y)"
  by (simp split: prod.split)

lemma keeps_sum: "(\<And>x. services.keeps (f x)) \<Longrightarrow> (\<And>y. services.keeps (g y))
  \<Longrightarrow> services.keeps (case r of Inl x \<Rightarrow> f x | Inr y \<Rightarrow> g y)"
  by (simp split: sum.split)

lemma keeps_same_world: "(\<And>s. xs_world (snd (m s)) = xs_world s) \<Longrightarrow> services.keeps m"
  by (simp add: services.keeps_def W_refl)

lemma keeps_framed:
  "(\<And>s. xs_world (into s) = xs_world s) \<Longrightarrow> (\<And>s r t. xs_world (back s r t) = xs_world t)
   \<Longrightarrow> services.keeps m \<Longrightarrow> services.keeps (framed into back m)"
  unfolding services.keeps_def framed_def Let_def by (metis snd_conv)

lemmas keeps_steps = keeps_intros keeps_if keeps_let keeps_option keeps_pair keeps_sum

lemma keeps_local: "(\<And>s. xs_world (f s) = xs_world s) \<Longrightarrow> services.keeps (modifies f)"
  by (simp add: services.keeps_def exec_simps W_refl)

lemma keeps_world: "(\<And>w. W w (f w)) \<Longrightarrow> services.keeps (modifies (on_world f))"
  by (simp add: services.keeps_def exec_simps on_world_def)

lemma keeps_is_cancelled: "services.keeps is_cancelled"
  by (auto simp: services.keeps_def is_cancelled_def on_world_def W_refl W_cancel split: option.split)

lemma keeps_check_cancel: "services.keeps (check_cancel env)"
  unfolding check_cancel_def by (intro keeps_steps keeps_is_cancelled)

lemma keeps_counted:
  assumes "\<And>w. W w (g (c w) w)" "\<And>n. services.keeps (k n)"
  shows "services.keeps (bindE (gets (\<lambda>s. c (xs_world s))) (\<lambda>n.
    bindE (modifies (on_world (g n))) (\<lambda>_. k n)))"
proof (rule services.keepsI)
  fix s
  have "W (xs_world s) (xs_world (on_world (g (c (xs_world s))) s))"
    by (simp add: on_world_def assms(1))
  moreover have "W (xs_world (on_world (g (c (xs_world s))) s))
      (xs_world (snd (k (c (xs_world s)) (on_world (g (c (xs_world s))) s))))"
    by (rule services.keepsD [OF assms(2)])
  ultimately show "W (xs_world s) (xs_world (snd (bindE (gets (\<lambda>s. c (xs_world s))) (\<lambda>n.
      bindE (modifies (on_world (g n))) (\<lambda>_. k n)) s)))"
    by (simp add: exec_simps W_trans)
qed

lemma keeps_external: "services.keeps (external call)"
  unfolding external_def
  by (rule keeps_counted [where c = w_calls and g = "\<lambda>n w. w\<lparr>w_calls := n + 1\<rparr>", OF W_calls])
     (auto intro!: keeps_steps split: answer.split)

lemma keeps_new_uuid: "services.keeps (new_uuid h)"
  unfolding new_uuid_def
  by (rule keeps_counted [where c = w_uuids and g = "\<lambda>n w. w\<lparr>w_uuids := n + 1\<rparr>", OF W_uuids])
     (auto intro!: keeps_steps)

lemma keeps_next_random: "services.keeps (next_random h)"
  unfolding next_random_def
  by (rule keeps_counted [where c = w_randoms and g = "\<lambda>n w. w\<lparr>w_randoms := n + 1\<rparr>", OF W_randoms])
     (auto intro!: keeps_steps)

lemma keeps_primitives:
  "services.keeps (record_task n)" "services.keeps (sleep d)" "services.keeps (set_loop_var k v)"
  "services.keeps (remove_loop_var k)" "services.keeps (set_context v)"
  "services.keeps epoch_seconds" "services.keeps (eval_in h env src this i out ds task)"
  "services.keeps (wait_with_cancel env d)" "services.keeps (publish h m)"
  unfolding record_task_def sleep_def set_loop_var_def remove_loop_var_def set_context_def
    epoch_seconds_def wait_with_cancel_def publish_def
  by (intro keeps_world keeps_local keeps_steps keeps_check_cancel keeps_external W_task W_clock
        W_publish keeps_same_world; simp add: eval_in_def)+

lemma keeps_store:
  "services.keeps (on_store (store_create r))" "services.keeps (on_store (store_update r))"
  "services.keeps (on_store (store_append_event e))"
  unfolding on_store_def by (intro keeps_world W_create W_update W_event)+

lemma keeps_transform: "(\<And>src. services.keeps (f src)) \<Longrightarrow> services.keeps (transform_or f src v)"
  unfolding transform_or_def by (intro keeps_steps)

lemmas keeps_base = keeps_steps keeps_primitives keeps_store keeps_transform keeps_check_cancel
  keeps_external keeps_new_uuid keeps_next_random

subsection \<open>Tasks\<close>

definition nested_keeps :: "nested \<Rightarrow> bool" where
  "nested_keeps nx \<longleftrightarrow>
     (\<forall>ts v. services.keeps (nx_scope nx ts v)) \<and> (\<forall>t v. services.keeps (nx_task nx t v))
     \<and> (\<forall>flow v. services.keeps (nx_workflow nx flow v))"

lemma nested_keepsD:
  assumes "nested_keeps nx"
  shows "services.keeps (nx_scope nx ts v)" "services.keeps (nx_task nx t v)"
    "services.keeps (nx_workflow nx flow v)"
  using assms by (simp_all add: nested_keeps_def)

lemma keeps_select_extensions: "services.keeps (select_extensions h env task v exts)"
  by (induction exts) (auto intro!: keeps_base)

lemma keeps_for:
  assumes "nested_keeps nx"
  shows "services.keeps (task_for nx h env d v ectx)"
proof -
  have "services.keeps (for_loop nx h env d i items v out)" for i items v out
    by (induction items arbitrary: i v out)
       (auto simp: while_holds_def intro!: keeps_base nested_keepsD [OF assms])
  then show ?thesis unfolding task_for_def by (intro keeps_base)
qed

lemma keeps_fork:
  assumes "nested_keeps nx"
  shows "services.keeps (task_fork nx h bs c v)"
proof -
  have branch: "services.keeps (run_branch nx bs v i)" for i
    unfolding run_branch_def in_branch_def
    by (intro keeps_framed keeps_base nested_keepsD [OF assms]) simp_all
  have "services.keeps (join_all h (run_branch nx bs v) rs e order)" for rs e order
    by (induction order arbitrary: rs e) (auto intro!: keeps_base branch split: option.split)
  with branch show ?thesis unfolding task_fork_def by (intro keeps_base)
qed

lemma keeps_try:
  assumes "nested_keeps nx"
  shows "services.keeps (task_try nx h env body c v ectx)"
proof -
  have same: "services.keeps (catch_matches h c err ectx)" "services.keeps (retryable h p ectx)" for err p
    by (rule keeps_same_world; simp add: catch_matches_def retryable_def)+
  have delay: "services.keeps (compute_delay h p k)" for p k
    unfolding compute_delay_def by (intro keeps_base)
  have turn: "services.keeps (try_turn nx h env body c v ectx k again)"
    if "\<And>m. again = Some m \<Longrightarrow> services.keeps m" for k again
    unfolding try_turn_def set_error_var_def
    by (intro keeps_base nested_keepsD [OF assms] same delay) (auto split: if_splits intro: that)
  have "services.keeps (try_loop nx h env body c v ectx k left)" for k left
    by (induction left arbitrary: k) (auto intro!: turn)
  then show ?thesis unfolding task_try_def .
qed

lemma keeps_listen:
  assumes "nested_keeps nx"
  shows "services.keeps (task_listen nx h env to r u fe ectx)"
proof -
  have "services.keeps (foreach_loop nx env e i items outs)" for e i items outs
    by (induction items arbitrary: i outs) (auto intro!: keeps_base nested_keepsD [OF assms])
  then show ?thesis unfolding task_listen_def by (intro keeps_base)
qed

lemma keeps_run:
  assumes "nested_keeps nx"
  shows "services.keeps (task_run nx h d v ectx)"
  unfolding task_run_def run_subworkflow_def in_execution_def
  by (auto intro!: keeps_base keeps_framed nested_keepsD [OF assms] simp: fresh_state_def
      split: run_process.split)

lemma keeps_call: "services.keeps (task_call h env d ectx)"
  unfolding task_call_def by (intro keeps_base)

lemma keeps_emit: "services.keeps (task_emit h env attrs ectx)"
  unfolding task_emit_def by (intro keeps_base)

lemma keeps_dispatch:
  assumes "nested_keeps nx"
  shows "services.keeps (dispatch nx h env task v ectx)"
  unfolding dispatch_def plain_def task_wait_def
  by (auto split: task_kind.split intro!: keeps_base nested_keepsD [OF assms] keeps_for [OF assms]
      keeps_fork [OF assms] keeps_try [OF assms] keeps_listen [OF assms] keeps_run [OF assms]
      keeps_call keeps_emit)

subsection \<open>The engine\<close>

lemma keeps_extension_scope:
  assumes "nested_keeps nx"
  shows "services.keeps (run_extension_scope nx ts v)"
  unfolding run_extension_scope_def extension_frame_def mark_exit_def
  by (intro keeps_framed keeps_base nested_keepsD [OF assms])
     (simp_all split: sum.split failure.split)

lemma keeps_exec_task:
  assumes "nested_keeps nx"
  shows "services.keeps (exec_task h nx env task v)"
proof -
  have before: "services.keeps (run_before nx exts v)" for exts v
    by (induction exts arbitrary: v) (auto intro!: keeps_base keeps_extension_scope [OF assms])
  have after: "services.keeps (run_after nx exts v)" for exts v
    by (induction exts arbitrary: v) (auto intro!: keeps_base keeps_extension_scope [OF assms])
  show ?thesis
    unfolding exec_task_def guard_holds_def enter_task_def applicable_extensions_def leave_task_def
    by (intro keeps_base before after keeps_dispatch [OF assms] keeps_select_extensions)
qed

definition engine_keeps :: "engine \<Rightarrow> bool" where
  "engine_keeps eg \<longleftrightarrow>
     (\<forall>env cp ts i v. services.keeps (eg_turn eg env cp ts i v))
     \<and> (\<forall>env t v. services.keeps (eg_task eg env t v))
     \<and> (\<forall>flow v opts. services.keeps (eg_execute eg flow v opts))"

lemma engine_keepsD:
  assumes "engine_keeps eg"
  shows "services.keeps (eg_turn eg env cp ts i v)" "services.keeps (eg_task eg env t v)"
    "services.keeps (eg_execute eg flow v opts)"
  using assms by (simp_all add: engine_keeps_def)

lemma keeps_scope_turn:
  assumes "engine_keeps eg"
  shows "services.keeps (scope_turn eg env cp ts i v)"
  unfolding scope_turn_def run_timed_def save_progress_def persist_checkpoint_def Let_def
  by (auto split: flow_directive.split
      intro!: keeps_base keeps_local engine_keepsD [OF assms])

lemma keeps_lifecycle:
  "services.keeps (workflow_started h env t)" "services.keeps (workflow_completed h env t)"
  unfolding workflow_started_def workflow_completed_def emit_lifecycle_def
  by (intro keeps_base)+

lemma keeps_execute_with:
  assumes "engine_keeps eg"
  shows "services.keeps (execute_with h eg flow v opts)"
  unfolding execute_with_def enter_execution_def finish_execution_def apply_workflow_input_def
    apply_workflow_output_def persist_started_def persist_terminal_def persist_event_def
  by (intro keeps_base keeps_lifecycle engine_keepsD [OF assms])

theorem engine_at_keeps: "engine_keeps (engine_at h n)"
proof (induction n)
  case 0
  then show ?case by (simp add: engine_keeps_def services.keeps_pure)
next
  case (Suc n)
  have "nested_keeps (nested_of (engine_at h n) env)" for env
    using engine_keepsD [OF Suc] by (simp add: nested_keeps_def nested_of_def)
  with Suc show ?case
    by (simp add: engine_keeps_def keeps_scope_turn keeps_execute_with keeps_exec_task)
qed

lemma execute_keeps: "W w (snd (execute h n flow v opts w))"
  using services.keepsD [OF engine_keepsD(3) [OF engine_at_keeps], of "fresh_state w"]
  by (simp add: execute_def Let_def fresh_state_def)

end

section \<open>The logs grow\<close>

definition logs_grow :: "world \<Rightarrow> world \<Rightarrow> bool" where
  "logs_grow u w \<longleftrightarrow>
     starts_with (w_published w) (w_published u) \<and> starts_with (w_task_order w) (w_task_order u)
     \<and> starts_with (ms_events (w_store w)) (ms_events (w_store u))
     \<and> dom (ms_records (w_store u)) \<subseteq> dom (ms_records (w_store w))
     \<and> w_calls u \<le> w_calls w \<and> w_uuids u \<le> w_uuids w \<and> w_randoms u \<le> w_randoms w"

lemma starts_with_refl [simp]: "starts_with s s"
  by (simp add: starts_with_def)

lemma starts_with_append [simp]: "starts_with (s @ t) s"
  by (simp add: starts_with_def)

lemma starts_with_trans: "starts_with b a \<Longrightarrow> starts_with c b \<Longrightarrow> starts_with c a"
  by (auto simp: starts_with_iff)

lemma logs_grow_trans: "logs_grow u v \<Longrightarrow> logs_grow v w \<Longrightarrow> logs_grow u w"
  unfolding logs_grow_def
  by (elim conjE, intro conjI; (erule (1) starts_with_trans | erule (1) subset_trans | erule (1) le_trans))

interpretation logs: service_relation logs_grow
proof (unfold_locales, goal_cases)
  case (2 u v w)
  then show ?case by (rule logs_grow_trans)
qed (simp_all add: logs_grow_def store_create_def store_update_def store_append_event_def subset_insertI)

section \<open>The store keeps records under their identifiers\<close>

definition store_keyed :: "memory_store \<Rightarrow> bool" where
  "store_keyed s \<longleftrightarrow> (\<forall>i r. store_load s i = Some r \<longrightarrow> er_execution_id r = i)"

lemma store_keyed_ops:
  assumes "store_keyed s"
  shows "store_keyed (store_create r s)" "store_keyed (store_update r s)"
    "store_keyed (store_append_event e s)"
  using assms by (auto simp: store_keyed_def mem.load_create mem.load_update mem.load_append)

interpretation keyed: service_relation "\<lambda>u w. store_keyed (w_store u) \<longrightarrow> store_keyed (w_store w)"
  by unfold_locales (simp_all add: store_keyed_ops)

section \<open>Nobody else is cancelled\<close>

text \<open>An execution whose token nobody cancels leaves it so.\<close>

interpretation untouched: service_relation "\<lambda>u w. w_cancel u = None \<longrightarrow> w_cancel w = None"
  by unfold_locales simp_all

end
