(* ===== verification/EngineRecords.thy ===== *)
theory EngineRecords
  imports EngineLogs EngineRuns Runtime
begin

text \<open>
  The record an execution leaves in the store, and what can be resumed from it.
\<close>

section \<open>The record an execution leaves\<close>

definition execution_id_of :: "host \<Rightarrow> execution_options \<Rightarrow> world \<Rightarrow> str" where
  "execution_id_of h opts w =
     (case eo_execution_id opts of Some i \<Rightarrow> i | None \<Rightarrow> h_uuid h (w_uuids w))"

text \<open>The store's record of an outcome, and the event that closes the history.\<close>

definition recorded :: "memory_store \<Rightarrow> str \<Rightarrow> phase \<Rightarrow> json option \<Rightarrow> bool" where
  "recorded s i ph err \<longleftrightarrow>
     (\<exists>r es e. store_load s i = Some r \<and> er_phase r = ph \<and> er_error r = err
        \<and> store_events s i = es @ [e] \<and> sv_event_type e = terminal_event_type ph)"

definition error_phase :: "workflow_error \<Rightarrow> phase" where
  "error_phase e = (if we_kind e = KCancelled then Cancelled else Faulted)"

fun outcome_recorded :: "memory_store \<Rightarrow> str \<Rightarrow> failure + json \<Rightarrow> bool" where
  "outcome_recorded s i (Inr v) = recorded s i Completed None"
| "outcome_recorded s i (Inl (Failed e)) = recorded s i (error_phase e) (Some (to_problem_json e))"
| "outcome_recorded s i (Inl f) = False"

lemma persist_terminal_records:
  assumes "persist_terminal env ph err t s = (r, s')"
  shows "r = Inr () \<and> recorded (w_store (xs_world s')) (xe_execution_id env) ph (map_option to_problem_json err)"
  using assms
  by (auto simp: persist_terminal_def persist_event_def on_store_def epoch_seconds_def exec_simps
      on_world_def recorded_def mem.load_append mem.load_update mem.events_append mem.events_update
      execution_record_of_def Let_def)

lemma completed_quiet: "workflow_completed h env now s = (Inl (Failed e), t) \<longleftrightarrow> False"
  by (auto simp: workflow_completed_def emit_lifecycle_def tryE_def post_def bindE_Inl exec_simps
      elim: tried.elims)

lemma finish_records:
  assumes "finish_execution h env t outcome s = (r, s')"
    and "r = Inr v \<or> r = Inl (Failed e)"
  shows "outcome_recorded (w_store (xs_world s')) (xe_execution_id env) r"
proof (cases outcome)
  case (Inl err)
  obtain q s1 where q: "persist_terminal env (error_phase err) (Some err) t s = (q, s1)" by force
  with persist_terminal_records have rec: "q = Inr ()"
      "recorded (w_store (xs_world s1)) (xe_execution_id env) (error_phase err) (Some (to_problem_json err))"
    by fastforce+
  from Inl q rec(1) assms(1) have "r = Inl (Failed err)" "s' = s1"
    by (simp_all add: finish_execution_def error_phase_def bindE_apply throw_apply)
  with rec(2) show ?thesis by simp
next
  case (Inr x)
  obtain p s1 where p: "workflow_completed h env (h_iso_time h (clock_epoch_seconds (w_clock (xs_world s)))) s = (p, s1)"
    by force
  have outcome: "finish_execution h env t outcome s = (case p of Inl f \<Rightarrow> (Inl f, s1)
      | Inr _ \<Rightarrow> bindE (persist_terminal env Completed None t) (\<lambda>_. ok x) s1)"
    using Inr p by (simp add: finish_execution_def epoch_seconds_def exec_simps split: sum.split)
  show ?thesis
  proof (cases p)
    case (Inl f)
    with outcome assms p show ?thesis using completed_quiet by fastforce
  next
    case (Inr u)
    obtain q s2 where q: "persist_terminal env Completed None t s1 = (q, s2)" by force
    with persist_terminal_records have rec: "q = Inr ()"
        "recorded (w_store (xs_world s2)) (xe_execution_id env) Completed None"
      by fastforce+
    with outcome Inr q assms(1) show ?thesis by (simp add: bindE_apply ok_apply)
  qed
qed

lemma publish_keeps_store: "w_store (xs_world (snd (publish h m s))) = w_store (xs_world s)"
  by (auto simp: publish_def external_def bindE_def exec_simps on_world_def
      split: prod.splits sum.splits answer.splits)

lemma lifecycle_keeps_store: "w_store (xs_world (snd (workflow_started h env t s))) = w_store (xs_world s)"
  using publish_keeps_store [of h _ s]
  by (auto simp: workflow_started_def emit_lifecycle_def tryE_def post_def bindE_def ok_apply Let_def
      split: prod.splits sum.splits)

lemma enter_failure_keeps_store:
  assumes "enter_execution h env res v t s = (Inl f, s')"
  shows "res = None \<and> w_store (xs_world s') = w_store (xs_world s)"
proof (cases res)
  case None
  have quiet: "w_store (xs_world s2) = w_store (xs_world s1)" if "apply_workflow_input h env v s1 = (r, s2)"
    for s1 s2 r
    using that
    by (auto simp: apply_workflow_input_def transform_or_def eval_in_def bindE_def exec_simps Let_def
        split: option.splits sum.splits)
  have started: "w_store (xs_world s2) = w_store (xs_world s1)" if "workflow_started h env x s1 = (r, s2)"
    for s1 s2 r x
    using lifecycle_keeps_store [of h env x s1] that by simp
  from None assms show ?thesis
    by (auto simp: enter_execution_def bindE_Inl set_context_def persist_started_def persist_event_def
        on_store_def exec_simps dest!: quiet started)
qed (use assms in \<open>simp add: enter_execution_def set_context_def exec_simps\<close>)

lemma execute_records:
  assumes "execute h n flow v opts w = (r, w')" and "r = Inr out \<or> r = Inl (Failed e)"
  shows "outcome_recorded (w_store w') (execution_id_of h opts w) r
    \<or> (r = Inl (Failed e) \<and> eo_resume opts = None \<and> w_store w' = w_store w)"
proof -
  obtain m where n: "n = Suc m"
    using assms by (cases n) (auto simp: execute_def fails_apply)
  let ?i = "execution_id_of h opts w"
  obtain s1 where id: "(case eo_execution_id opts of Some i \<Rightarrow> ok i | None \<Rightarrow> new_uuid h) (fresh_state w) =
      (Inr ?i, s1)" and s1: "w_store (xs_world s1) = w_store w"
    by (cases "eo_execution_id opts")
       (auto simp: execution_id_of_def new_uuid_def exec_simps fresh_state_def on_world_def)
  obtain t where clock: "epoch_seconds s1 = (Inr t, s1)" by (simp add: epoch_seconds_def exec_simps)
  let ?env = "execution_env h flow ?i v t"
  obtain r1 s2 where enter: "enter_execution h ?env (eo_resume opts) v t s1 = (r1, s2)" by force
  have ex: "execute_with h (engine_at h m) flow v opts (fresh_state w) =
      bindE (enter_execution h ?env (eo_resume opts) v t) (\<lambda>(scope_input, start).
        bindE (tryE (bindE (eg_turn (engine_at h m) ?env (Some t) (cw_tasks flow) start scope_input)
          (apply_workflow_output h ?env))) (finish_execution h ?env t)) s1"
    by (simp only: execute_with_def Let_def bindE_apply(2) [where m = "case eo_execution_id opts of Some i \<Rightarrow> ok i | None \<Rightarrow> new_uuid h", OF id]
        bindE_apply(2) [where m = epoch_seconds, OF clock])
  have i: "xe_execution_id ?env = ?i" by (simp add: execution_env_def)
  show ?thesis
  proof (cases r1)
    case (Inl f)
    with enter_failure_keeps_store [of h ?env "eo_resume opts" v t s1 f s2] enter assms n s1 ex
    show ?thesis by (auto simp: execute_def bindE_apply Let_def)
  next
    case (Inr p)
    obtain scope_input start where p: "p = (scope_input, start)" by force
    let ?run = "tryE (bindE (eg_turn (engine_at h m) ?env (Some t) (cw_tasks flow) start scope_input)
          (apply_workflow_output h ?env))"
    obtain r2 s3 where run: "?run s2 = (r2, s3)" by force
    have ex2: "execute_with h (engine_at h m) flow v opts (fresh_state w) =
        (case r2 of Inl f \<Rightarrow> (Inl f, s3) | Inr outcome \<Rightarrow> finish_execution h ?env t outcome s3)"
      unfolding ex using enter Inr p run
      by (cases r2) (simp_all add: bindE_apply)
    have "r2 \<noteq> Inl (Failed x)" for x
      using run by (auto simp: tryE_def post_def elim: tried.elims)
    with ex2 assms n obtain outcome where "finish_execution h ?env t outcome s3 =
        (r, snd (execute_with h (engine_at h m) flow v opts (fresh_state w)))"
      by (cases r2) (auto simp: execute_def Let_def prod_eq_iff)
    from finish_records [OF this assms(2)] assms(1) n show ?thesis
      by (auto simp: execute_def Let_def i)
  qed
qed

section \<open>Resuming\<close>

lemma resume_recorded:
  assumes "recorded (w_store w) i ph err" "is_terminal ph"
  shows "\<exists>e. resume h n i w = (Inl (Failed e), w) \<and> we_kind e = KRuntime"
  using assms by (auto simp: recorded_def resume_def runtime_error_def werr_new_def)

lemma outcome_recorded_terminal:
  "outcome_recorded s i r \<Longrightarrow> \<exists>ph err. recorded s i ph err \<and> is_terminal ph"
  by (cases "(s, i, r)" rule: outcome_recorded.cases) (auto simp: error_phase_def split: if_splits)

lemma pointer_roundtrip:
  assumes "i < 2 ^ 64" "er_pointer r = pointer_to i v"
  shows "resume_state_of r = \<lparr>re_next_index = i, re_input = v, re_context = er_context r\<rparr>"
  using assms
  by (simp add: resume_state_of_def pointer_to_def pointer_next_def json_of_nat_def unat_of_nat
      take_bit_nat_eq_self_iff unsigned_of_nat)

lemma checkpoint_resumes:
  assumes "i < 2 ^ 64" "persist_checkpoint env t i v s = (r, s')"
  shows "\<exists>rec. store_load (w_store (xs_world s')) (xe_execution_id env) = Some rec
    \<and> er_phase rec = Running
    \<and> resume_state_of rec = \<lparr>re_next_index = i, re_input = v, re_context = xs_context s\<rparr>"
  using assms(2)
  by (auto simp: persist_checkpoint_def on_store_def on_world_def exec_simps mem.load_update
      execution_record_of_def Let_def pointer_roundtrip [OF assms(1)])

section \<open>A run with nothing to do\<close>

definition publishes :: "host \<Rightarrow> bool" where
  "publishes h \<longleftrightarrow> (\<forall>n m. h_publish h n m = Answer ())"

lemma emit_idle:
  assumes "publishes h" "idle s"
  shows "\<exists>t. emit_lifecycle h env suffix ty time data s = (Inr (), t) \<and> idle t"
  using assms
  by (simp add: emit_lifecycle_def publish_def external_def publishes_def exec_simps)

lemma enter_idle:
  assumes "publishes h" "idle s" "cw_input (xe_workflow env) = no_data"
  shows "\<exists>t. enter_execution h env None v started_at s = (Inr (v, 0), t) \<and> idle t"
proof -
  obtain t where t: "workflow_started h env (h_iso_time h started_at) s = (Inr (), t)" "idle t"
    using emit_idle [OF assms(1,2)] unfolding workflow_started_def Let_def by blast
  have "apply_workflow_input h env v t = (Inr v, t)"
    by (simp add: apply_workflow_input_def assms(3) transform_or_def exec_simps)
  with t show ?thesis
    by (simp add: enter_execution_def bindE_apply set_context_def persist_started_def
        persist_event_def on_store_def exec_simps)
qed

lemma execute_empty:
  assumes "publishes h" "w_cancel w = None" "cw_tasks flow = []"
    and "cw_input flow = no_data" "cw_output flow = no_data"
  shows "fst (execute h (Suc (Suc n)) flow v default_options w) = Inr v"
proof -
  let ?eg = "engine_at h (Suc n)"
  obtain s where s: "new_uuid h (fresh_state w) = (Inr (h_uuid h (w_uuids w)), s)" "idle s"
    using assms(2) by (simp add: new_uuid_def exec_simps idle_def fresh_state_def on_world_def)
  define started where "started = clock_epoch_seconds (w_clock (xs_world s))"
  let ?env = "execution_env h flow (h_uuid h (w_uuids w)) v started"
  have env: "xe_workflow ?env = flow" by (simp add: execution_env_def)
  obtain t where t: "enter_execution h ?env None v started s = (Inr (v, 0), t)" "idle t"
    using enter_idle [OF assms(1) s(2)] assms(4) env by metis
  have turn: "eg_turn ?eg ?env (Some started) [] 0 v t = (Inr v, t)"
    using t(2) by (simp add: scope_turn_def bindE_apply check_cancel_never idle_def exec_simps)
  have out: "apply_workflow_output h ?env v t = (Inr v, t)"
    by (simp add: apply_workflow_output_def env assms(5) transform_or_def exec_simps)
  obtain u where u: "workflow_completed h ?env (h_iso_time h (clock_epoch_seconds (w_clock (xs_world t)))) t = (Inr (), u)"
    using emit_idle [OF assms(1) t(2)] unfolding workflow_completed_def by blast
  have finish: "fst (finish_execution h ?env started (Inr v) t) = Inr v"
    using u by (simp add: finish_execution_def epoch_seconds_def bindE_apply persist_terminal_def
        persist_event_def on_store_def exec_simps)
  have "execute_with h ?eg flow v default_options (fresh_state w) = finish_execution h ?env started (Inr v) t"
    using s(1) t(1) turn out assms(3)
    by (simp add: execute_with_def default_options_def epoch_seconds_def exec_simps started_def Let_def
        del: engine_at.simps)
  moreover have "eg_execute (engine_at h (Suc (Suc n))) = execute_with h ?eg" by simp
  ultimately show ?thesis using finish by (simp add: execute_def Let_def del: engine_at.simps)
qed

section \<open>A run that is dropped\<close>

lemma enter_running:
  assumes "publishes h" "idle s" "cw_input (xe_workflow env) = no_data"
  shows "\<exists>t r. enter_execution h env None v started_at s = (Inr (v, 0), t) \<and> idle t
    \<and> store_load (w_store (xs_world t)) (xe_execution_id env) = Some r \<and> er_phase r = Running"
proof -
  obtain t where t: "workflow_started h env (h_iso_time h started_at) s = (Inr (), t)" "idle t"
    using emit_idle [OF assms(1,2)] unfolding workflow_started_def Let_def by blast
  have "apply_workflow_input h env v t = (Inr v, t)"
    by (simp add: apply_workflow_input_def assms(3) transform_or_def exec_simps)
  with t show ?thesis
    by (simp add: enter_execution_def bindE_apply set_context_def persist_started_def
        persist_event_def on_store_def exec_simps execution_record_of_def Let_def)
       (simp add: on_world_def mem.load_append mem.load_create)
qed

definition call_task :: "str \<Rightarrow> str \<Rightarrow> compiled_task" where
  "call_task n f = plain_task n None (TaskCall \<lparr>cd_call = f, cd_with = None\<rparr>)"

lemma call_task_sel [simp]:
  "ct_name (call_task n f) = n" "ct_if (call_task n f) = None" "ct_timeout (call_task n f) = None"
  "ct_descriptor (call_task n f) = Null"
  by (simp_all add: call_task_def)

lemma exec_abandoned_call:
  assumes "h_function h f = Some invoke" "\<And>k a c. invoke k f a c = Abandons"
    and "cw_extensions (xe_workflow env) = []"
  shows "exec_task h nx env (call_task n f) v s =
    (Inl Abandoned, on_world (\<lambda>w. w\<lparr>w_task_order := w_task_order w @ [n], w_calls := w_calls w + 1\<rparr>) s)"
proof -
  let ?s = "on_world (\<lambda>w. w\<lparr>w_task_order := w_task_order w @ [n]\<rparr>) s"
  have enter: "enter_task h env (call_task n f) v ?s = (Inr (v, []), ?s)"
    using assms(3) by (simp add: enter_task_def call_task_def transform_or_def applicable_extensions_def exec_simps bindE_def)
  have "dispatch nx h env (call_task n f) v ectx ?s =
      (Inl Abandoned, on_world (\<lambda>w. w\<lparr>w_calls := w_calls w + 1\<rparr>) ?s)" for ectx
    using assms(1,2)
    by (simp add: dispatch_def call_task_def plain_def task_call_def interpolate_map_def external_def
        exec_simps bindE_def on_world_def)
  then show ?thesis
    by (simp add: exec_task_def record_task_def guard_holds_def enter exec_simps) (simp add: on_world_def)
qed

lemma abandoned_stays_running:
  assumes "publishes h" "w_cancel w = None" "cw_tasks flow = [call_task n f]"
    and "cw_extensions flow = []" "cw_input flow = no_data" "cw_timeout flow = None"
    and "h_function h f = Some invoke" "\<And>k a c. invoke k f a c = Abandons"
  shows "\<exists>w' r. runtime_execute h (Suc (Suc (Suc m))) flow v w =
      (h_uuid h (w_uuids w), Inl (Failed werr_cancelled), w')
    \<and> store_load (w_store w') (h_uuid h (w_uuids w + 1)) = Some r \<and> er_phase r = Running"
proof -
  let ?eg = "engine_at h (Suc (Suc m))"
  let ?i = "h_uuid h (w_uuids w + 1)"
  let ?w = "w\<lparr>w_uuids := w_uuids w + 1\<rparr>"
  obtain s where s: "new_uuid h (fresh_state ?w) = (Inr ?i, s)" "idle s"
    using assms(2) by (simp add: new_uuid_def exec_simps idle_def fresh_state_def on_world_def)
  define started where "started = clock_epoch_seconds (w_clock (xs_world s))"
  let ?env = "execution_env h flow ?i v started"
  have env: "xe_workflow ?env = flow" "xe_execution_id ?env = ?i" "xe_timeout ?env = None"
    using assms(6) by (simp_all add: execution_env_def)
  obtain t r where t: "enter_execution h ?env None v started s = (Inr (v, 0), t)" "idle t"
      "store_load (w_store (xs_world t)) ?i = Some r" "er_phase r = Running"
    using enter_running [OF assms(1) s(2), of ?env v started] assms(5) env by auto
  let ?u = "on_world (\<lambda>w. w\<lparr>w_task_order := w_task_order w @ [n], w_calls := w_calls w + 1\<rparr>) t"
  have "eg_task (engine_at h (Suc m)) ?env (call_task n f) v t = (Inl Abandoned, ?u)"
    using exec_abandoned_call [OF assms(7,8)] assms(4) env(1) by simp
  then have turn: "eg_turn ?eg ?env (Some started) [call_task n f] 0 v t = (Inl Abandoned, ?u)"
    using t(2) env(3)
    by (simp add: scope_turn_def idle_def bindE_apply check_cancel_never run_timed_def task_timeout_def
        call_task_def exec_simps Let_def del: engine_at.simps(2))
       (simp add: scope_turn_def bindE_apply check_cancel_never run_timed_def task_timeout_def
        call_task_def exec_simps Let_def)
  have "execute_with h ?eg flow v default_options (fresh_state ?w) = (Inl Abandoned, ?u)"
    using s(1) t(1) turn assms(3)
    by (simp add: execute_with_def default_options_def epoch_seconds_def exec_simps started_def Let_def
        tryE_def post_def bindE_apply del: engine_at.simps)
  moreover have "eg_execute (engine_at h (Suc (Suc (Suc m)))) = execute_with h ?eg" by simp
  ultimately have "execute h (Suc (Suc (Suc m))) flow v default_options ?w = (Inl Abandoned, xs_world ?u)"
    by (simp add: execute_def Let_def del: engine_at.simps)
  with t(3,4) show ?thesis
    by (simp add: runtime_execute_def next_uuid_def on_world_def del: engine_at.simps)
qed

end
