(* ===== verification/Durations.thy ===== *)
theory Durations
  imports Ir
begin

text \<open>Reading ISO 8601 durations: whole numbers of a unit are read exactly.\<close>

section \<open>Products of small integers are exact\<close>

lemma bitlen_shift: "0 < n \<Longrightarrow> bitlen (n * 2 ^ j) = bitlen n + j"
proof (induction j)
  case (Suc j)
  then show ?case by (subst bitlen.simps) (simp add: mult.left_commute [of n 2])
qed simp

lemma bitlen_power: "bitlen (2 ^ j) = Suc j"
  using bitlen_shift [of 1 j] by (simp add: bitlen.simps)

text \<open>A common power of two in numerator and denominator does not change the nearest double.\<close>

lemma f64_round_shift:
  assumes n: "0 < n" "n < 2 ^ 53"
  shows "f64_round s (n * 2 ^ j) (2 ^ j) = f64_round s n 1"
proof -
  let ?k = "bitlen n"
  have k: "0 < ?k" "?k \<le> 53" using n by (simp_all add: bitlen_pos bitlen_le)
  have low: "2 ^ (?k - 1) \<le> n" and up: "n < 2 ^ ?k"
    using bitlen_lower [OF n(1)] bitlen_upper by auto
  have "(2::nat) ^ 53 = 2 ^ (?k - 1) * 2 ^ (54 - ?k)" using k by (simp flip: power_add)
  then have big: "2 ^ 53 \<le> n * 2 ^ (54 - ?k)" using mult_le_mono1 [OF low] by metis
  have "(2::nat) ^ 53 = 2 ^ ?k * 2 ^ (53 - ?k)" using k by (simp flip: power_add)
  moreover have "n * 2 ^ (53 - ?k) < 2 ^ ?k * 2 ^ (53 - ?k)" using up by simp
  ultimately have less: "n * 2 ^ (53 - ?k) < 2 ^ 53" by presburger
  have e1: "max (int (?k + j) - int (Suc j) - 53) (- 1074) = int ?k - 54" using k by simp
  have s1: "f64_scale (n * 2 ^ j) (2 ^ j) (int ?k - 54) = (n * 2 ^ (54 - ?k) * 2 ^ j, 2 ^ j)"
    using k by (simp add: f64_scale_def nat_diff_distrib)
  have s2: "f64_scale (n * 2 ^ j) (2 ^ j) (int ?k - 53) = (n * 2 ^ (53 - ?k) * 2 ^ j, 2 ^ j)"
    using k by (auto simp: f64_scale_def nat_diff_distrib)
  have q: "round_half_even (n * 2 ^ (53 - ?k) * 2 ^ j) (2 ^ j) = n * 2 ^ (53 - ?k)"
    by (rule round_half_even_exact) simp
  have pos: "n * 2 ^ (53 - ?k) \<noteq> 0" and quot: "n * 2 ^ (54 - ?k) * 2 ^ j div 2 ^ j = n * 2 ^ (54 - ?k)"
    using n by simp_all
  have "f64_round s (n * 2 ^ j) (2 ^ j) = Finite s (n * 2 ^ (53 - ?k)) (int ?k - 53)"
    unfolding f64_round_def bitlen_shift [OF n(1)] bitlen_power e1 Let_def s1 prod.case quot
    using n big less k pos by (simp add: s2 [simplified] q [simplified])
  then show ?thesis by (simp only: f64_round_small [OF n])
qed

lemma f64_of_dyadic_shift:
  assumes "0 < n" "n < 2 ^ 53"
  shows "f64_of_dyadic False (int (n * 2 ^ j)) (- int j) = f64_round False n 1"
proof -
  have "f64_of_dyadic False (int (n * 2 ^ j)) (- int j) = f64_round False (n * 2 ^ j) (2 ^ j)"
    using assms(1) by (cases j) (simp_all add: f64_of_dyadic_def del: of_nat_mult of_nat_power power_Suc of_nat_Suc)
  with f64_round_shift [OF assms] show ?thesis by simp
qed

lemma f64_mul_int:
  assumes "0 \<le> a" "0 \<le> b" "a * b < 2 ^ 53" "a < 2 ^ 53" "b < 2 ^ 53"
  shows "f64_mul (f64_of_int a) (f64_of_int b) = f64_of_int (a * b)"
proof (cases "a = 0 \<or> b = 0")
  case True
  have shape: "\<exists>m e. f64_of_int c = Finite False m e \<and> (c = 0 \<longrightarrow> m = 0)" if "0 \<le> c" "c < 2 ^ 53" for c
    using that f64_of_int_small [of c]
    by (cases "c = 0") (auto simp: f64_of_int_def f64_of_dyadic_def f64_zero_def)
  from shape [of a] shape [of b] assms obtain m e m' e' where
      "f64_of_int a = Finite False m e" "f64_of_int b = Finite False m' e'" "a = 0 \<longrightarrow> m = 0" "b = 0 \<longrightarrow> m' = 0"
    by auto
  with True show ?thesis by (auto simp: f64_of_int_def f64_of_dyadic_def sig_def)
next
  case False
  let ?ka = "bitlen (nat a)" and ?kb = "bitlen (nat b)"
  have k: "?ka \<le> 53" "?kb \<le> 53" using assms False by (simp_all add: bitlen_le nat_less_iff)
  have n: "0 < nat a * nat b" "nat a * nat b < 2 ^ 53"
    using False assms by (simp_all add: nat_less_iff flip: nat_mult_distrib)
  let ?j = "(53 - ?ka) + (53 - ?kb)"
  have e: "int ?ka - 53 + (int ?kb - 53) = - int ?j" using k by simp
  have p: "nat a * 2 ^ (53 - ?ka) * (nat b * 2 ^ (53 - ?kb)) = nat a * nat b * 2 ^ ?j"
    by (simp add: power_add)
  have i: "sig False (nat a * 2 ^ (53 - ?ka)) * sig False (nat b * 2 ^ (53 - ?kb)) =
      int (nat a * nat b * 2 ^ ?j)"
    unfolding sig_def if_False by (simp flip: of_nat_mult add: p)
  have "f64_mul (f64_of_int a) (f64_of_int b) = f64_of_dyadic False (int (nat a * nat b * 2 ^ ?j)) (- int ?j)"
    using False assms by (simp add: f64_of_int_small e i del: of_nat_mult of_nat_power)
  also have "\<dots> = f64_round False (nat a * nat b) 1" by (rule f64_of_dyadic_shift [OF n])
  also have "\<dots> = f64_of_int (a * b)"
    using n False assms not_less [THEN iffD2, OF mult_nonneg_nonneg [OF assms(1,2)]]
    by (auto simp: f64_of_int_def f64_of_dyadic_def nat_mult_distrib)
  finally show ?thesis .
qed

section \<open>Decimal notation\<close>

lemma digits_value_append: "digits_value acc (xs @ [c]) = 10 * digits_value acc xs + (c - 48)"
  by (induction xs arbitrary: acc) simp_all

lemma digits_value_nat_str: "digits_value 0 (nat_str n) = n"
proof (induction n rule: nat_str.induct)
  case (1 n)
  show ?case
    by (subst nat_str.simps) (use 1 in \<open>simp add: digits_value_append\<close>)
qed

lemma nat_str_digits: "nat_str n \<noteq> [] \<and> (\<forall>c \<in> set (nat_str n). is_ascii_digit c)"
proof (induction n rule: nat_str.induct)
  case (1 n)
  show ?case
    by (subst (1 2) nat_str.simps)
       (use 1 mod_less_divisor [of 10 n] in \<open>auto simp: is_ascii_digit_def\<close>)
qed

lemma parse_f64_nat_str:
  assumes "n < 2 ^ 53"
  shows "parse_f64 (nat_str n) = Some (f64_of_int (int n))"
proof -
  obtain d ds where ds: "nat_str n = d # ds" and d: "is_ascii_digit d" "\<forall>c \<in> set ds. is_ascii_digit c"
    using nat_str_digits [of n] by (cases "nat_str n") auto
  have low: "ascii_lower d \<le> 57" using d(1) by (simp add: ascii_lower_def is_ascii_digit_def)
  have "span is_ascii_digit (d # ds) = (d # ds, [])"
    using d by (simp add: span_def takeWhile_eq_all_conv)
  moreover have "take_sign (d # ds) = (False, d # ds)"
    using d(1) by (simp add: take_sign_def is_ascii_digit_def)
  ultimately have "parse_f64 (d # ds) = Some (f64_of_decimal False (digits_value 0 (d # ds)) 0)"
    using low by (auto simp: parse_f64_def lit_def)
  moreover have "digits_value 0 (d # ds) = n" using digits_value_nat_str [of n] by (simp add: ds)
  moreover have "f64_of_decimal False n 0 = f64_of_int (int n)"
    by (simp add: f64_of_decimal_def f64_of_int_def f64_of_dyadic_def)
  ultimately show ?thesis by (simp add: ds)
qed

section \<open>Sections of a duration\<close>

lemma section_digits:
  assumes "list_all is_duration_digit ds"
  shows "duration_section pf input units num fl t (ds @ cs) =
    duration_section pf input units (num @ ds) (fl \<or> ds \<noteq> []) t cs"
  using assms by (induction ds arbitrary: num fl) simp_all

definition unit_nanos :: "nat \<Rightarrow> nat" where
  "unit_nanos c = (if c = 72 then 3600000000000 else if c = 77 then 60000000000 else 1000000000)"

lemma section_unit:
  assumes "c \<in> {72, 77, 83}" "n * unit_nanos c < 2 ^ 53" "0 \<le> t" "t + int (n * unit_nanos c) \<le> u128_max"
  shows "duration_section pf input time_units [] fl t (nat_str n @ c # cs) =
    duration_section pf input time_units [] False (t + int (n * unit_nanos c)) cs"
proof -
  have n: "int n * 3600 < 2 ^ 53" "int n * 60 < 2 ^ 53" "n < 2 ^ 53" if "c = 72"
    using assms(2) that by (simp_all add: unit_nanos_def)
  have n2: "int n * 60 < 2 ^ 53" "n < 2 ^ 53" if "c = 77"
    using assms(2) that by (simp_all add: unit_nanos_def)
  have n3: "n < 2 ^ 53" if "c = 83"
    using assms(2) that by (simp add: unit_nanos_def)
  have small: "n < 2 ^ 53" using assms(1) n(3) n2(2) n3 by blast
  obtain factors where units: "time_units c = Some factors"
    and prod: "fold (\<lambda>u x. f64_mul x u) factors (f64_of_int (int n)) = f64_of_int (int (n * unit_nanos c))"
  proof -
    from assms(1) consider "c = 72" | "c = 77" | "c = 83" by blast
    then show thesis
    proof cases
      case 1
      with n assms(2) show thesis
        by (intro that [of "[f64_of_int 3600, f64_of_int 1000000000]"])
           (simp_all add: time_units_def f64_mul_int unit_nanos_def mult.commute)
    next
      case 2
      with n2 assms(2) show thesis
        by (intro that [of "[f64_of_int 60, f64_of_int 1000000000]"])
           (simp_all add: time_units_def f64_mul_int unit_nanos_def mult.commute)
    next
      case 3
      with n3 assms(2) show thesis
        by (intro that [of "[f64_of_int 1000000000]"])
           (simp_all add: time_units_def f64_mul_int unit_nanos_def mult.commute)
    qed
  qed
  have digits: "list_all is_duration_digit (nat_str n)"
    using nat_str_digits [of n] by (auto simp: list_all_iff is_duration_digit_def)
  have "f64_to_int_sat 0 u128_max (f64_of_int (int (n * unit_nanos c))) = int (n * unit_nanos c)"
    using assms(2,3,4) by (intro f64_to_int_of_int) (simp_all add: u128_max_def del: of_nat_mult)
  with assms(4) have "add_nanos pf t (f64_of_int (int (n * unit_nanos c))) = Inr (t + int (n * unit_nanos c))"
    by (simp add: add_nanos_def)
  moreover have "\<not> is_duration_digit c" using assms(1) by (auto simp: is_duration_digit_def is_ascii_digit_def)
  ultimately show ?thesis
    using nat_str_digits [of n] section_digits [OF digits]
    by (simp add: units prod parse_f64_nat_str [OF small])
qed

section \<open>Times of day\<close>

definition hms_text :: "nat \<Rightarrow> nat \<Rightarrow> nat \<Rightarrow> str" where
  "hms_text h m s = lit ''PT'' @ nat_str h @ lit ''H'' @ nat_str m @ lit ''M'' @ nat_str s @ lit ''S''"

definition hms_nanos :: "nat \<Rightarrow> nat \<Rightarrow> nat \<Rightarrow> nat" where
  "hms_nanos h m s = (h * 3600 + m * 60 + s) * 1000000000"

lemma trim_visible:
  assumes "\<not> is_whitespace c" "\<not> is_whitespace d"
  shows "trim (c # xs @ [d]) = c # xs @ [d]"
  using assms by (simp add: trim_def)

lemma parse_time_part:
  assumes "\<not> is_whitespace d" "body = xs @ [d]"
  shows "parse_iso8601_duration pf (80 # 84 # body) =
    bindR (duration_section pf (80 # 84 # body) time_units [] False 0 body) (\<lambda>nanos.
      Inr (duration_from_nanos (word_of_int nanos)))"
proof -
  have "trim (80 # 84 # body) = 80 # 84 # body"
    using trim_visible [of 80 d "84 # xs"] assms by (simp add: is_whitespace_def)
  then show ?thesis by (simp add: parse_iso8601_duration_def)
qed

lemma duration_from_nanos_small: "n < 2 ^ 64 \<Longrightarrow> duration_from_nanos (word_of_int (int n)) = n"
  by (simp add: duration_from_nanos_def unsigned_of_nat take_bit_nat_eq_self_iff)

lemma parse_hms:
  assumes "hms_nanos h m s < 2 ^ 53"
  shows "parse_iso8601_duration pf (hms_text h m s) = Inr (hms_nanos h m s)"
proof -
  let ?body = "nat_str h @ 72 # nat_str m @ 77 # nat_str s @ [83]"
  have units: "h * unit_nanos 72 < 2 ^ 53" "m * unit_nanos 77 < 2 ^ 53" "s * unit_nanos 83 < 2 ^ 53"
    using assms by (simp_all add: hms_nanos_def unit_nanos_def)
  have sum: "int (h * unit_nanos 72) + int (m * unit_nanos 77) + int (s * unit_nanos 83) = int (hms_nanos h m s)"
    by (simp add: hms_nanos_def unit_nanos_def)
  have room: "int (hms_nanos h m s) \<le> u128_max"
    using assms by (simp add: u128_max_def)
  have "duration_section pf input time_units [] False 0 ?body = Inr (int (hms_nanos h m s))" for input
    using units sum room
    by (simp add: section_unit [of 72] section_unit [of 77] section_unit [of 83] del: of_nat_mult)
  moreover have "hms_text h m s = 80 # 84 # ?body" by (simp add: hms_text_def lit_def)
  ultimately show ?thesis
    using parse_time_part [of 83 ?body "nat_str h @ 72 # nat_str m @ 77 # nat_str s" pf]
      duration_from_nanos_small [of "hms_nanos h m s"] assms
    by (simp add: is_whitespace_def)
qed

text \<open>A number without a designator at the end of the text is dropped.\<close>

lemma parse_trailing_number: "parse_iso8601_duration pf (lit ''PT'' @ nat_str n) = Inr 0"
proof -
  obtain xs d where ds: "nat_str n = xs @ [d]" and d: "is_ascii_digit d"
    using nat_str_digits [of n] by (cases "nat_str n" rule: rev_cases) auto
  have digits: "list_all is_duration_digit (nat_str n)"
    using nat_str_digits [of n] by (auto simp: list_all_iff is_duration_digit_def)
  have "duration_section pf input time_units [] False 0 (nat_str n) = Inr 0" for input
    using section_digits [OF digits, where cs = "[]"] by simp
  moreover have "\<not> is_whitespace d" using d by (auto simp: is_whitespace_def is_ascii_digit_def)
  ultimately show ?thesis
    using parse_time_part [of d "nat_str n" xs pf] ds
    by (simp add: lit_def duration_from_nanos_def)
qed

end
