(* ===== verification/Compile.thy ===== *)
theory Compile
  imports Runtime
begin

text \<open>
  The compiler of compile.rs: the lowering of parsed definitions to compiled workflows, with the
  resolution of references to reusable components.  The types of the workflow SDK are outside the
  repository; what the compiler reads of them is written down as data, and what \<open>serde_json\<close> makes
  of a task or a definition is a parameter.
\<close>

section \<open>The definition, as far as the compiler reads it\<close>

datatype sdk_endpoint = EndpointUri str | EndpointDefinition str

record sdk_schema =
  sks_format :: str
  sks_document :: "json option"
  sks_resource :: "sdk_endpoint option"

text \<open>The models of input and output data; the expression is \<open>from\<close> or \<open>as\<close>.\<close>

record sdk_data =
  skd_schema :: "sdk_schema option"
  skd_expression :: "json option"

datatype sdk_timeout = InlineTimeout duration_or_expression | TimeoutReference str

record sdk_fields =
  skf_if :: "str option"
  skf_input :: "sdk_data option"
  skf_output :: "sdk_data option"
  skf_export :: "sdk_data option"
  skf_timeout :: "sdk_timeout option"
  skf_then :: "str option"

record sdk_backoff =
  skb_exponential :: bool
  skb_linear :: bool

record sdk_attempt =
  ska_count :: "nat option"
  ska_duration :: "u64 option"

record sdk_retry =
  skr_when :: "str option"
  skr_except_when :: "str option"
  skr_delay :: "u64 option"
  skr_backoff :: "sdk_backoff option"
  skr_jitter :: "(u64 \<times> u64) option"
  skr_limit :: "(sdk_attempt option \<times> u64 option) option"

datatype sdk_retry_ref = InlineRetry sdk_retry | RetryReference str

record sdk_filter =
  skl_with :: "(str \<times> json) list option"
  skl_correlate :: "(str \<times> correlation_def) list option"

datatype sdk_strategy =
  SdkStrategy (sy_one: "sdk_filter option") (sy_all: "sdk_filter list option")
    (sy_any: "sdk_filter list option") (sy_until: "(sdk_strategy + str) option")

record sdk_container =
  skc_image :: str
  skc_command :: "str option"
  skc_arguments :: "str list option"
  skc_environment :: "(str \<times> str) list option"
  skc_stdin :: "str option"
  skc_name :: "str option"

record sdk_script =
  skp_language :: str
  skp_code :: "str option"
  skp_arguments :: "str list option"
  skp_environment :: "(str \<times> str) list option"
  skp_stdin :: "str option"

record sdk_shell =
  skh_command :: str
  skh_arguments :: "str list option"
  skh_environment :: "(str \<times> str) list option"

record sdk_process =
  sko_await :: "bool option"
  sko_container :: "sdk_container option"
  sko_script :: "sdk_script option"
  sko_shell :: "sdk_shell option"
  sko_workflow :: "run_workflow option"

record sdk_for =
  sku_each :: str
  sku_in :: str
  sku_at :: "str option"
  sku_while :: "str option"

record sdk_catch =
  skx_errors :: "(str \<times> json) list option option"
  skx_as :: "str option"
  skx_when :: "str option"
  skx_except_when :: "str option"
  skx_retry :: "sdk_retry_ref option"

text \<open>A scope is the SDK's list of one-entry maps, \<open>None\<close> for an entry without a key.\<close>

datatype sdk_task =
    SdkCall sdk_fields call_def
  | SdkDo sdk_fields "(str \<times> sdk_task) option list"
  | SdkEmit sdk_fields "(str \<times> json) list"
  | SdkFor sdk_fields sdk_for "(str \<times> sdk_task) option list"
  | SdkFork sdk_fields "(str \<times> sdk_task) option list" bool
  | SdkListen sdk_fields sdk_strategy "str option"
      "(str option \<times> str option \<times> (str \<times> sdk_task) option list option) option"
  | SdkRaise sdk_fields error_ref
  | SdkRun sdk_fields sdk_process
  | SdkSet sdk_fields set_values
  | SdkSwitch sdk_fields "switch_case_def option list"
  | SdkTry sdk_fields "(str \<times> sdk_task) option list" sdk_catch "(str \<times> sdk_task) option list option"
  | SdkWait sdk_fields duration_or_expression

type_synonym sdk_scope = "(str \<times> sdk_task) option list"

record sdk_extension =
  ske_extend :: str
  ske_when :: "str option"
  ske_before :: "(str \<times> sdk_task) list list option"
  ske_after :: "(str \<times> sdk_task) list list option"

record sdk_components =
  skm_authentications :: "(str \<Rightarrow> json option) option"
  skm_catalogs :: "(str \<times> sdk_endpoint) list option"
  skm_timeouts :: "(str \<Rightarrow> duration_or_expression option) option"
  skm_retries :: "(str \<Rightarrow> sdk_retry option) option"
  skm_errors :: "(str \<Rightarrow> error_definition option) option"
  skm_functions :: "(str \<Rightarrow> call_def option) option"
  skm_extensions :: "(str \<times> sdk_extension) list list option"
  skm_secrets :: "str list option"

record sdk_schedule =
  skq_every :: "u64 option"
  skq_after :: "u64 option"
  skq_cron :: "str option"
  skq_on :: "sdk_strategy option"

record sdk_evaluate =
  sdv_language :: str
  sdv_mode :: "str option"

record sdk_workflow =
  skw_document :: document_def
  skw_do :: sdk_scope
  skw_input :: "sdk_data option"
  skw_output :: "sdk_data option"
  skw_timeout :: "sdk_timeout option"
  skw_schedule :: "sdk_schedule option"
  skw_use :: "sdk_components option"
  skw_evaluate :: "sdk_evaluate option"

record serializer =
  sz_task :: "sdk_task \<Rightarrow> str + json"
  sz_workflow :: "sdk_workflow \<Rightarrow> str + json"

section \<open>What the validator sees\<close>

fun sdk_common :: "sdk_task \<Rightarrow> sdk_fields" where
  "sdk_common (SdkCall f c) = f"
| "sdk_common (SdkDo f s) = f"
| "sdk_common (SdkEmit f e) = f"
| "sdk_common (SdkFor f x s) = f"
| "sdk_common (SdkFork f s c) = f"
| "sdk_common (SdkListen f y r e) = f"
| "sdk_common (SdkRaise f e) = f"
| "sdk_common (SdkRun f p) = f"
| "sdk_common (SdkSet f v) = f"
| "sdk_common (SdkSwitch f cs) = f"
| "sdk_common (SdkTry f s c h) = f"
| "sdk_common (SdkWait f d) = f"

definition seen_fields :: "sdk_fields \<Rightarrow> common_fields" where
  "seen_fields f = \<lparr>cm_if = skf_if f, cm_then = skf_then f\<rparr>"

text \<open>Both recursions below descend from a task to its scopes and along a scope.\<close>

definition scope_size :: "(str \<times> sdk_task) option list \<Rightarrow> nat" where
  "scope_size s = size_list (size_option (size_prod (\<lambda>_. 0) size)) s"

lemma scope_size_simps [simp]:
  "scope_size [] = 0"
  "scope_size (e # s) = Suc (scope_size s + (case e of None \<Rightarrow> 1 | Some p \<Rightarrow> Suc (Suc (size (snd p)))))"
  by (simp_all add: scope_size_def split: option.split)

lemma scope_size_child [simp]:
  "scope_size s < size (SdkDo f s)"
  "scope_size s < size (SdkFor f x s)"
  "scope_size s < size (SdkFork f s c)"
  "scope_size s < size (SdkTry f s k h)"
  "scope_size s < size (SdkTry f b k (Some s))"
  "scope_size s < size (SdkListen f y r (Some (item, pos, Some s)))"
  by (simp_all add: scope_size_def)

function seen_task :: "sdk_task \<Rightarrow> task_def"
  and seen_scope :: "(str \<times> sdk_task) option list \<Rightarrow> scope"
where
  "seen_task (SdkCall f c) = DCall (seen_fields f)"
| "seen_task (SdkDo f s) = DDo (seen_fields f) (seen_scope s)"
| "seen_task (SdkEmit f e) = DEmit (seen_fields f)"
| "seen_task (SdkFor f x s) = DFor (seen_fields f) (sku_in x) (seen_scope s)"
| "seen_task (SdkFork f s c) = DFork (seen_fields f) (seen_scope s)"
| "seen_task (SdkListen f y r e) = DListen (seen_fields f)"
| "seen_task (SdkRaise f e) = DRaise (seen_fields f)"
| "seen_task (SdkRun f p) = DRun (seen_fields f)"
| "seen_task (SdkSet f v) = DSet (seen_fields f)"
| "seen_task (SdkSwitch f cs) = DSwitch (seen_fields f) cs"
| "seen_task (SdkTry f s c None) = DTry (seen_fields f) (seen_scope s) None"
| "seen_task (SdkTry f s c (Some h)) = DTry (seen_fields f) (seen_scope s) (Some (seen_scope h))"
| "seen_task (SdkWait f d) = DWait (seen_fields f)"
| "seen_scope [] = []"
| "seen_scope (None # s) = None # seen_scope s"
| "seen_scope (Some (name, t) # s) = Some (name, seen_task t) # seen_scope s"
  by pat_completeness auto
termination by (relation "measure (case_sum size scope_size)") (simp_all del: sdk_task.size)

definition seen_workflow :: "sdk_workflow \<Rightarrow> workflow_def" where
  "seen_workflow d = \<lparr>wd_document = skw_document d, wd_do = seen_scope (skw_do d)\<rparr>"

section \<open>References to reusable components\<close>

definition compile_error :: "str \<Rightarrow> failure" where
  "compile_error msg = Failed (semantic_error msg)"

definition components_get :: "(sdk_components \<Rightarrow> (str \<Rightarrow> 'a option) option) \<Rightarrow>
    sdk_components option \<Rightarrow> str \<Rightarrow> 'a option" where
  "components_get part comps name = Option.bind (Option.bind comps part) (\<lambda>m. m name)"

text \<open>\<open>map_err\<close> of the message; an overflow panics.\<close>

fun duration_result :: "str \<Rightarrow> iso_failure + 'a \<Rightarrow> failure + 'a" where
  "duration_result prefix (Inr d) = Inr d"
| "duration_result prefix (Inl (IsoInvalid msg)) = Inl (compile_error (prefix @ msg))"
| "duration_result prefix (Inl IsoOverflow) = Inl (Panicked (lit ''attempt to add with overflow''))"

fun resolve_timeout ::
  "platform \<Rightarrow> sdk_components option \<Rightarrow> sdk_timeout option \<Rightarrow> failure + duration option" where
  "resolve_timeout pf comps None = Inr None"
| "resolve_timeout pf comps (Some (InlineTimeout d)) = duration_result [] (resolve_duration pf d)"
| "resolve_timeout pf comps (Some (TimeoutReference name)) =
     (case components_get skm_timeouts comps name of
        None \<Rightarrow> Inl (compile_error (lit ''undefined timeout `'' @ name @ lit ''`''))
      | Some d \<Rightarrow> duration_result [] (resolve_duration pf d))"

definition retry_backoff :: "sdk_backoff option \<Rightarrow> backoff" where
  "retry_backoff b =
     (case b of
        None \<Rightarrow> Constant
      | Some b \<Rightarrow> if skb_exponential b then Exponential else if skb_linear b then Linear else Constant)"

definition retry_policy :: "sdk_retry \<Rightarrow> retry_policy_def" where
  "retry_policy p =
     (let attempt = Option.bind (skr_limit p) fst in
      \<lparr>rp_when = skr_when p, rp_except_when = skr_except_when p,
       rp_delay = map_option duration_from_millis (skr_delay p),
       rp_backoff = retry_backoff (skr_backoff p),
       rp_jitter = map_option (map_prod duration_from_millis duration_from_millis) (skr_jitter p),
       rp_attempt_count = Option.bind attempt ska_count,
       rp_attempt_duration = map_option duration_from_millis (Option.bind attempt ska_duration),
       rp_retry_duration = map_option duration_from_millis (Option.bind (skr_limit p) snd)\<rparr>)"

fun resolve_retry ::
  "sdk_components option \<Rightarrow> sdk_retry_ref option \<Rightarrow> failure + retry_policy_def option" where
  "resolve_retry comps None = Inr None"
| "resolve_retry comps (Some (InlineRetry p)) = Inr (Some (retry_policy p))"
| "resolve_retry comps (Some (RetryReference name)) =
     (case components_get skm_retries comps name of
        None \<Rightarrow> Inl (compile_error (lit ''undefined retry policy `'' @ name @ lit ''`''))
      | Some p \<Rightarrow> Inr (Some (retry_policy p)))"

section \<open>Data, events and processes\<close>

definition compile_schema :: "sdk_schema \<Rightarrow> schema_def" where
  "compile_schema s =
     \<lparr>sd_format = sks_format s, sd_document = sks_document s,
      sd_resource = map_option (\<lambda>e. case e of EndpointUri u \<Rightarrow> u | EndpointDefinition u \<Rightarrow> u)
        (sks_resource s)\<rparr>"

fun value_to_string :: "json \<Rightarrow> str option" where
  "value_to_string (String s) = Some s"
| "value_to_string _ = None"

text \<open>\<open>compile_data\<close>, \<open>compile_output\<close> and \<open>compile_export\<close> differ in the name of the field.\<close>

definition compile_data :: "sdk_data option \<Rightarrow> data_def" where
  "compile_data d =
     (case d of
        None \<Rightarrow> \<lparr>dd_schema = None, dd_transform = None\<rparr>
      | Some d \<Rightarrow> \<lparr>dd_schema = map_option compile_schema (skd_schema d),
                   dd_transform = Option.bind (skd_expression d) value_to_string\<rparr>)"

definition compile_filter :: "sdk_filter \<Rightarrow> event_filter_def" where
  "compile_filter f =
     \<lparr>ef_with = (case skl_with f of Some m \<Rightarrow> m | None \<Rightarrow> []),
      ef_correlate = (case skl_correlate f of Some m \<Rightarrow> map snd m | None \<Rightarrow> [])\<rparr>"

definition compile_listen_to :: "sdk_strategy \<Rightarrow> listen_to" where
  "compile_listen_to y =
     (case sy_one y of
        Some f \<Rightarrow> ListenOne (compile_filter f)
      | None \<Rightarrow>
          (case sy_all y of
             Some fs \<Rightarrow> ListenAll (map compile_filter fs)
           | None \<Rightarrow>
               (case sy_any y of
                  Some fs \<Rightarrow> ListenAny (map compile_filter fs)
                | None \<Rightarrow> ListenAny [])))"

definition compile_listen_until :: "(sdk_strategy + str) option \<Rightarrow> listen_until option" where
  "compile_listen_until u =
     (case u of
        None \<Rightarrow> None
      | Some (Inr e) \<Rightarrow> Some (UntilExpression e)
      | Some (Inl y) \<Rightarrow>
          Some (UntilStrategy
            (case compile_listen_to y of ListenOne f \<Rightarrow> [f] | ListenAny fs \<Rightarrow> fs | ListenAll fs \<Rightarrow> fs)))"

definition or_empty :: "'a list option \<Rightarrow> 'a list" where
  "or_empty xs = (case xs of Some ys \<Rightarrow> ys | None \<Rightarrow> [])"

definition compile_process :: "sdk_process \<Rightarrow> run_process option" where
  "compile_process p =
     (case sko_container p of
        Some c \<Rightarrow> Some (RunContainer
          \<lparr>rc_image = skc_image c, rc_command = skc_command c,
           rc_arguments = or_empty (skc_arguments c), rc_environment = or_empty (skc_environment c),
           rc_stdin = skc_stdin c, rc_name = skc_name c\<rparr>)
      | None \<Rightarrow>
     (case sko_script p of
        Some c \<Rightarrow> Some (RunScript
          \<lparr>rs_language = skp_language c, rs_code = or_empty (skp_code c),
           rs_arguments = or_empty (skp_arguments c), rs_environment = or_empty (skp_environment c),
           rs_stdin = skp_stdin c\<rparr>)
      | None \<Rightarrow>
     (case sko_shell p of
        Some c \<Rightarrow> Some (RunShell
          \<lparr>rh_command = skh_command c, rh_arguments = or_empty (skh_arguments c),
           rh_environment = or_empty (skh_environment c), rh_stdin = None\<rparr>)
      | None \<Rightarrow> map_option RunWorkflow (sko_workflow p))))"

definition compile_run :: "sdk_process \<Rightarrow> failure + task_kind" where
  "compile_run p =
     (case compile_process p of
        None \<Rightarrow> Inl (compile_error (lit ''run task must define a process''))
      | Some process \<Rightarrow> Inr (TaskRun
          \<lparr>rd_process = process,
           rd_await = (case sko_await p of Some b \<Rightarrow> b | None \<Rightarrow> True),
           rd_return = RetStdout\<rparr>))"

section \<open>Tasks\<close>

definition compile_cases :: "switch_case_def option list \<Rightarrow> switch_case list" where
  "compile_cases cs =
     map (\<lambda>c. \<lparr>sc_name = scd_name c, sc_when = scd_when c, sc_then = scd_then c\<rparr>) (List.map_filter id cs)"

definition catch_def_of :: "sdk_catch \<Rightarrow> retry_policy_def option \<Rightarrow> compiled_task list option \<Rightarrow> catch_def" where
  "catch_def_of c policy handler =
     CatchDef (Option.bind (skx_errors c) id) (skx_as c) (skx_when c) (skx_except_when c) policy handler None"

definition item_name :: "str option \<Rightarrow> str" where
  "item_name item = (case item of Some n \<Rightarrow> n | None \<Rightarrow> lit ''item'')"

text \<open>Everything of a task but its kind.\<close>

definition lower_task ::
  "platform \<Rightarrow> serializer \<Rightarrow> sdk_components option \<Rightarrow> str \<Rightarrow> str \<Rightarrow> sdk_task \<Rightarrow> task_kind
    \<Rightarrow> failure + compiled_task" where
  "lower_task pf sz comps name reference task kind =
     (let f = sdk_common task;
          descriptor = (case sz_task sz task of Inr v \<Rightarrow> v | Inl m \<Rightarrow> Null)
      in bindR (resolve_timeout pf comps (skf_timeout f)) (\<lambda>timeout.
           Inr (CompiledTask name reference (skf_if f) (compile_data (skf_input f))
             (compile_data (skf_output f)) (compile_data (skf_export f)) timeout (skf_then f)
             descriptor kind)))"

function compile_scope ::
  "platform \<Rightarrow> serializer \<Rightarrow> sdk_components option \<Rightarrow> str \<Rightarrow> nat \<Rightarrow> (str \<times> sdk_task) option list
    \<Rightarrow> failure + compiled_task list"
  and compile_task ::
  "platform \<Rightarrow> serializer \<Rightarrow> sdk_components option \<Rightarrow> str \<Rightarrow> str \<Rightarrow> sdk_task \<Rightarrow> failure + compiled_task"
  and compile_kind ::
  "platform \<Rightarrow> serializer \<Rightarrow> sdk_components option \<Rightarrow> str \<Rightarrow> sdk_task \<Rightarrow> failure + task_kind"
where
  "compile_scope pf sz comps base index [] = Inr []"
| "compile_scope pf sz comps base index (None # s) = compile_scope pf sz comps base index s"
| "compile_scope pf sz comps base index (Some (name, task) # s) =
     bindR (compile_task pf sz comps name (base @ lit ''/'' @ nat_str index @ lit ''/'' @ name) task) (\<lambda>t.
     bindR (compile_scope pf sz comps base (index + 1) s) (\<lambda>ts. Inr (t # ts)))"
| "compile_task pf sz comps name reference task =
     bindR (compile_kind pf sz comps reference task) (\<lambda>kind.
       lower_task pf sz comps name reference task kind)"
| "compile_kind pf sz comps r (SdkSet f v) = Inr (TaskSet v)"
| "compile_kind pf sz comps r (SdkDo f s) =
     bindR (compile_scope pf sz comps (r @ lit ''/do'') 0 s) (\<lambda>ts. Inr (TaskDo ts))"
| "compile_kind pf sz comps r (SdkFor f x s) =
     bindR (compile_scope pf sz comps (r @ lit ''/do'') 0 s) (\<lambda>ts.
       Inr (TaskFor (ForDef (sku_each x) (sku_in x) (sku_at x) (sku_while x) ts)))"
| "compile_kind pf sz comps r (SdkFork f s compete) =
     bindR (compile_scope pf sz comps (r @ lit ''/fork/branches'') 0 s) (\<lambda>ts. Inr (TaskFork ts compete))"
| "compile_kind pf sz comps r (SdkSwitch f cs) = Inr (TaskSwitch (compile_cases cs))"
| "compile_kind pf sz comps r (SdkTry f s c None) =
     bindR (compile_scope pf sz comps (r @ lit ''/try'') 0 s) (\<lambda>body.
     bindR (resolve_retry comps (skx_retry c)) (\<lambda>policy.
       Inr (TaskTry body (catch_def_of c policy None))))"
| "compile_kind pf sz comps r (SdkTry f s c (Some h)) =
     bindR (compile_scope pf sz comps (r @ lit ''/try'') 0 s) (\<lambda>body.
     bindR (resolve_retry comps (skx_retry c)) (\<lambda>policy.
     bindR (compile_scope pf sz comps (r @ lit ''/catch/do'') 0 h) (\<lambda>handler.
       Inr (TaskTry body (catch_def_of c policy (Some handler))))))"
| "compile_kind pf sz comps r (SdkEmit f e) = Inr (TaskEmit e)"
| "compile_kind pf sz comps r (SdkListen f y read None) =
     Inr (TaskListen (compile_listen_to y) read (compile_listen_until (sy_until y)) None)"
| "compile_kind pf sz comps r (SdkListen f y read (Some (item, pos, None))) =
     Inr (TaskListen (compile_listen_to y) read (compile_listen_until (sy_until y))
       (Some (ListenForeachDef (item_name item) pos [])))"
| "compile_kind pf sz comps r (SdkListen f y read (Some (item, pos, Some s))) =
     bindR (compile_scope pf sz comps (r @ lit ''/foreach/do'') 0 s) (\<lambda>body.
       Inr (TaskListen (compile_listen_to y) read (compile_listen_until (sy_until y))
         (Some (ListenForeachDef (item_name item) pos body))))"
| "compile_kind pf sz comps r (SdkRaise f e) = Inr (TaskRaise e)"
| "compile_kind pf sz comps r (SdkCall f c) = Inr (TaskCall c)"
| "compile_kind pf sz comps r (SdkRun f p) = compile_run p"
| "compile_kind pf sz comps r (SdkWait f d) =
     bindR (duration_result (lit ''wait: '') (resolve_duration pf d)) (\<lambda>dur.
       Inr (TaskWait (case dur of Some n \<Rightarrow> n | None \<Rightarrow> 0)))"
  by pat_completeness auto
termination
  by (relation "measure (\<lambda>x. case x of
        Inl (pf, sz, comps, base, i, s) \<Rightarrow> 3 * scope_size s
      | Inr (Inl (pf, sz, comps, n, r, t)) \<Rightarrow> 3 * size t + 2
      | Inr (Inr (pf, sz, comps, r, t)) \<Rightarrow> 3 * size t + 1)")
     (simp_all add: less_Suc_eq_le less_imp_le del: sdk_task.size)

section \<open>Extensions\<close>

definition task_list_to_map :: "(str \<times> sdk_task) list list \<Rightarrow> sdk_scope" where
  "task_list_to_map tasks = map Some (concat tasks)"

definition compile_hook ::
  "platform \<Rightarrow> serializer \<Rightarrow> sdk_components option \<Rightarrow> str \<Rightarrow> (str \<times> sdk_task) list list option
    \<Rightarrow> failure + compiled_task list" where
  "compile_hook pf sz comps reference tasks =
     (case tasks of
        Some ts \<Rightarrow> compile_scope pf sz comps reference 0 (task_list_to_map ts)
      | None \<Rightarrow> Inr [])"

definition compile_extension ::
  "platform \<Rightarrow> serializer \<Rightarrow> sdk_components option \<Rightarrow> nat \<times> str \<times> sdk_extension
    \<Rightarrow> failure + compiled_extension" where
  "compile_extension pf sz comps entry =
     (case entry of (index, name, ext) \<Rightarrow>
        let base = lit ''/use/extensions/'' @ nat_str index @ lit ''/'' @ name in
        bindR (compile_hook pf sz comps (base @ lit ''/before'') (ske_before ext)) (\<lambda>before.
        bindR (compile_hook pf sz comps (base @ lit ''/after'') (ske_after ext)) (\<lambda>after.
          Inr \<lparr>ce_extend = ske_extend ext, ce_when = ske_when ext, ce_before = before,
               ce_after = after\<rparr>)))"

definition compile_extensions ::
  "platform \<Rightarrow> serializer \<Rightarrow> sdk_components option \<Rightarrow> failure + compiled_extension list" where
  "compile_extensions pf sz comps =
     (case Option.bind comps skm_extensions of
        None \<Rightarrow> Inr []
      | Some entries \<Rightarrow>
          mapR (compile_extension pf sz comps)
            (concat (map (\<lambda>(index, entry). map (Pair index) entry) (enumerate 0 entries))))"

section \<open>Secrets\<close>

text \<open>The matches of the two regular expressions, from left to right.\<close>

definition secret_char :: "nat \<Rightarrow> bool" where
  "secret_char c \<longleftrightarrow> (65 \<le> c \<and> c \<le> 90) \<or> (97 \<le> c \<and> c \<le> 122) \<or> (48 \<le> c \<and> c \<le> 57) \<or> c = 95 \<or> c = 45"

definition dot_prefix :: str where
  "dot_prefix = lit ''$secrets.''"

text \<open>A match is its name and what follows it.\<close>

definition dot_match :: "str \<Rightarrow> (str \<times> str) option" where
  "dot_match s =
     (if \<not> starts_with s dot_prefix then None
      else
        (let (name, after) = span secret_char (drop (length dot_prefix) s)
         in if name = [] then None else Some (name, after)))"

lemma dot_match_shorter: "dot_match s = Some (name, after) \<Longrightarrow> length after < length s"
  by (cases s)
     (auto simp: dot_match_def span_def dot_prefix_def less_Suc_eq_le split: if_splits
       intro: order_trans [OF length_dropWhile_le])

function dot_refs :: "str \<Rightarrow> str list" where
  "dot_refs s =
     (case dot_match s of
        Some (name, after) \<Rightarrow> name # dot_refs after
      | None \<Rightarrow> (case s of [] \<Rightarrow> [] | c # s' \<Rightarrow> dot_refs s'))"
  by pat_completeness auto
termination by (relation "measure length") (auto dest: dot_match_shorter)

declare dot_refs.simps [simp del]

definition is_quote :: "nat \<Rightarrow> bool" where
  "is_quote c \<longleftrightarrow> c = 39 \<or> c = 34"

definition bracket_prefix :: str where
  "bracket_prefix = lit ''$secrets[''"

definition bracket_match :: "str \<Rightarrow> (str \<times> str) option" where
  "bracket_match s =
     (if \<not> starts_with s bracket_prefix then None
      else
        (case dropWhile is_whitespace (drop (length bracket_prefix) s) of
           [] \<Rightarrow> None
         | q # rest \<Rightarrow>
             if \<not> is_quote q then None
             else
               (let name = takeWhile (\<lambda>c. \<not> is_quote c) rest in
                if name = [] then None
                else
                  (case dropWhile (\<lambda>c. \<not> is_quote c) rest of
                     [] \<Rightarrow> None
                   | _ # tail \<Rightarrow>
                       (case dropWhile is_whitespace tail of
                          [] \<Rightarrow> None
                        | b # after \<Rightarrow> if b = 93 then Some (name, after) else None)))))"

lemma length_dropWhile_Cons: "dropWhile P xs = y # ys \<Longrightarrow> length ys < length xs"
  by (metis length_dropWhile_le length_Cons Suc_le_eq)

lemma bracket_match_shorter: "bracket_match s = Some (name, after) \<Longrightarrow> length after < length s"
  by (auto simp: bracket_match_def Let_def split: if_splits list.splits dest!: length_dropWhile_Cons)

function bracket_refs :: "str \<Rightarrow> str list" where
  "bracket_refs s =
     (case bracket_match s of
        Some (name, after) \<Rightarrow> name # bracket_refs after
      | None \<Rightarrow> (case s of [] \<Rightarrow> [] | c # s' \<Rightarrow> bracket_refs s'))"
  by pat_completeness auto
termination by (relation "measure length") (auto dest: bracket_match_shorter)

declare bracket_refs.simps [simp del]

fun collect_secret_refs :: "json \<Rightarrow> str list" where
  "collect_secret_refs (String s) = dot_refs s @ bracket_refs s"
| "collect_secret_refs (Array items) = concat (map collect_secret_refs items)"
| "collect_secret_refs (Object m) = concat (map (\<lambda>(k, v). collect_secret_refs v) m)"
| "collect_secret_refs _ = []"

text \<open>The set is visited in the order of the names.\<close>

definition enforce_declared_secrets :: "json \<Rightarrow> str list \<Rightarrow> failure + unit" where
  "enforce_declared_secrets definition declared =
     (case find (\<lambda>name. name \<notin> set declared) (sort (remdups (collect_secret_refs definition))) of
        None \<Rightarrow> Inr ()
      | Some name \<Rightarrow>
          Inl (compile_error (lit ''reference to undeclared secret `'' @ name @ lit ''`'')))"

section \<open>Schedules\<close>

definition event_like_of :: "sdk_filter \<Rightarrow> event_message_like list" where
  "event_like_of f =
     (case skl_with f of
        None \<Rightarrow> []
      | Some m \<Rightarrow>
          [\<lparr>eml_type = (case Option.bind (map_of m (lit ''type'')) value_to_string of
                         Some t \<Rightarrow> t | None \<Rightarrow> lit ''*''),
            eml_source = Option.bind (map_of m (lit ''source'')) value_to_string\<rparr>])"

definition build_schedule_trigger :: "sdk_schedule \<Rightarrow> schedule_trigger" where
  "build_schedule_trigger s =
     (case skq_every s of
        Some d \<Rightarrow> Every (duration_from_millis d)
      | None \<Rightarrow>
     (case skq_after s of
        Some d \<Rightarrow> After (duration_from_millis d)
      | None \<Rightarrow>
     (case skq_cron s of
        Some c \<Rightarrow> Cron c
      | None \<Rightarrow>
          OnEvents (case skq_on s of
            None \<Rightarrow> []
          | Some y \<Rightarrow>
              (case sy_one y of Some f \<Rightarrow> event_like_of f | None \<Rightarrow> [])
              @ (case sy_any y of Some fs \<Rightarrow> concat (map event_like_of fs) | None \<Rightarrow> [])))))"

section \<open>Workflows\<close>

definition compile_evaluate :: "sdk_evaluate option \<Rightarrow> eval_config" where
  "compile_evaluate e =
     (case e of
        None \<Rightarrow> default_eval_config
      | Some v \<Rightarrow> \<lparr>ev_language = sdv_language v,
          ev_mode = (if sdv_mode v = Some (lit ''loose'') then Loose else Strict)\<rparr>)"

definition definition_id :: "document_def \<Rightarrow> workflow_id" where
  "definition_id doc = \<lparr>wi_namespace = doc_namespace doc, wi_name = doc_name doc, wi_version = doc_version doc\<rparr>"

definition definition_value :: "serializer \<Rightarrow> sdk_workflow \<Rightarrow> json" where
  "definition_value sz d = (case sz_workflow sz d of Inr v \<Rightarrow> v | Inl m \<Rightarrow> Null)"

definition declared_secrets :: "sdk_workflow \<Rightarrow> str list" where
  "declared_secrets d = or_empty (Option.bind (skw_use d) skm_secrets)"

definition compile :: "platform \<Rightarrow> serializer \<Rightarrow> sdk_workflow \<Rightarrow> failure + compiled_workflow" where
  "compile pf sz d =
     (let r = validate (seen_workflow d); comps = skw_use d in
      if \<not> is_valid r then Inl (Failed (report_error r))
      else
        bindR (resolve_timeout pf comps (skw_timeout d)) (\<lambda>timeout.
        bindR (compile_scope pf sz comps (lit ''/do'') 0 (skw_do d)) (\<lambda>tasks.
        bindR (compile_extensions pf sz comps) (\<lambda>extensions.
        bindR (enforce_declared_secrets (definition_value sz d) (declared_secrets d)) (\<lambda>_.
          Inr \<lparr>cw_id = definition_id (skw_document d),
               cw_definition = definition_value sz d,
               cw_tasks = tasks,
               cw_input = compile_data (skw_input d),
               cw_output = compile_data (skw_output d),
               cw_timeout = timeout,
               cw_evaluate = compile_evaluate (skw_evaluate d),
               cw_secrets = declared_secrets d,
               cw_errors = components_get skm_errors comps,
               cw_functions = components_get skm_functions comps,
               cw_extensions = extensions,
               cw_schedule = map_option (\<lambda>s. \<lparr>sh_trigger = build_schedule_trigger s\<rparr>) (skw_schedule d)\<rparr>)))))"

text \<open>\<open>Runtime::compile\<close> and \<open>Runtime::register_definition\<close>\<close>

definition runtime_compile ::
  "platform \<Rightarrow> serializer \<Rightarrow> sdk_workflow \<Rightarrow> failure + compiled_workflow" where
  "runtime_compile pf sz d =
     (let checks = compile_checks pf (seen_workflow d) (map_option sdv_language (skw_evaluate d)) in
      case sz_workflow sz d of
        Inr v \<Rightarrow> bindR (checks v) (\<lambda>_. compile pf sz d)
      | Inl m \<Rightarrow> bindR (checks Null) (\<lambda>_.
          Inl (Failed (validation_error (lit ''cannot inspect workflow expressions: '' @ m)))))"

definition register_definition ::
  "platform \<Rightarrow> serializer \<Rightarrow> sdk_workflow \<Rightarrow> registry \<Rightarrow> failure + registry" where
  "register_definition pf sz d reg =
     bindR (runtime_compile pf sz d) (\<lambda>flow. Inr (register flow reg))"

end
