(* ===== verification/CompileLaws.thy ===== *)
theory CompileLaws
  imports Compile DslLaws
begin

text \<open>
  Laws of the compiler: the scopes of a compiled workflow are those of the definition, so that
  what the validator accepts holds of what the engine runs; references that resolve nowhere and
  secrets that are not declared are rejected.
\<close>

section \<open>Scopes\<close>

definition scope_items :: "(str \<times> sdk_task) option list \<Rightarrow> (str \<times> sdk_task) list" where
  "scope_items s = List.map_filter id s"

lemma scope_items_simps [simp]:
  "scope_items [] = []"
  "scope_items (None # s) = scope_items s"
  "scope_items (Some p # s) = p # scope_items s"
  by (simp_all add: scope_items_def List.map_filter_simps)

lemma scope_items_map_Some [simp]: "scope_items (map Some ps) = ps"
  by (induction ps) simp_all

lemma set_scope_items: "p \<in> set (scope_items s) \<longleftrightarrow> Some p \<in> set s"
  by (force simp: scope_items_def map_filter_def)

definition task_reference :: "str \<Rightarrow> nat \<Rightarrow> str \<Rightarrow> str" where
  "task_reference base index name = base @ lit ''/'' @ nat_str index @ lit ''/'' @ name"

text \<open>A scope is compiled entry by entry, each at the reference of its index.\<close>

lemma compile_scope_items:
  "compile_scope pf sz comps base i s =
     mapR (\<lambda>(k, name, task). compile_task pf sz comps name (task_reference base k name) task)
       (enumerate i (scope_items s))"
proof (induction s arbitrary: i)
  case (Cons e s)
  then show ?case by (cases e) (auto simp: task_reference_def simp del: compile_task.simps)
qed simp

lemma compile_scope_nth:
  assumes "compile_scope pf sz comps base i s = Inr ts" "k < length ts"
  shows "k < length (scope_items s)"
    and "compile_task pf sz comps (fst (scope_items s ! k))
           (task_reference base (i + k) (fst (scope_items s ! k))) (snd (scope_items s ! k)) = Inr (ts ! k)"
proof -
  show k: "k < length (scope_items s)"
    using assms mapR_Inr_length unfolding compile_scope_items by fastforce
  show "compile_task pf sz comps (fst (scope_items s ! k))
      (task_reference base (i + k) (fst (scope_items s ! k))) (snd (scope_items s ! k)) = Inr (ts ! k)"
    using mapR_Inr_nth [OF assms(1) [unfolded compile_scope_items], of k] k
    by (simp add: nth_enumerate_eq case_prod_beta)
qed

lemma compile_scope_length:
  "compile_scope pf sz comps base i s = Inr ts \<Longrightarrow> length ts = length (scope_items s)"
  unfolding compile_scope_items by (auto dest: mapR_Inr_length)

lemma compile_task_fields:
  assumes "compile_task pf sz comps name r task = Inr t"
  shows "ct_name t = name" "ct_reference t = r" "ct_then t = skf_then (sdk_common task)"
    and "compile_kind pf sz comps r task = Inr (ct_kind t)"
    and "resolve_timeout pf comps (skf_timeout (sdk_common task)) = Inr (ct_timeout t)"
  using assms by (auto simp: lower_task_def Let_def bindR_eq_Inr)

declare compile_task.simps [simp del]

lemma compile_scope_names:
  assumes "compile_scope pf sz comps base i s = Inr ts"
  shows "map ct_name ts = map fst (scope_items s)"
proof (rule nth_equalityI)
  fix k
  assume "k < length (map ct_name ts)"
  with compile_scope_nth [OF assms, of k] show "map ct_name ts ! k = map fst (scope_items s) ! k"
    by (auto dest: compile_task_fields(1))
qed (simp add: compile_scope_length [OF assms])

lemma seen_scope_map: "seen_scope s = map (map_option (map_prod id seen_task)) s"
proof (induction s)
  case (Cons e s)
  then show ?case by (cases e) auto
qed simp

lemma in_seen_scope: "(n, t) \<in> set (scope_items s) \<Longrightarrow> Some (n, seen_task t) \<in> set (seen_scope s)"
  by (force simp: seen_scope_map set_scope_items)

lemma scope_names_seen: "scope_names (seen_scope s) = map fst (scope_items s)"
proof (induction s)
  case (Cons e s)
  then show ?case by (cases e) auto
qed simp

lemma common_then_seen: "common_then (seen_task t) = skf_then (sdk_common t)"
  by (cases t rule: sdk_common.cases; cases "\<exists>f s c h. t = SdkTry f s c (Some h)")
     (auto simp: common_then_def seen_fields_def elim: option.exhaust)

section \<open>Nested scopes\<close>

text \<open>
  The scopes of a compiled task that the validator reaches: neither the body of a listen task nor,
  beside the tasks, the scopes of extensions are among them.
\<close>

fun compiled_children :: "task_kind \<Rightarrow> compiled_task list list" where
  "compiled_children (TaskDo ts) = [ts]"
| "compiled_children (TaskFor f) = [fo_body f]"
| "compiled_children (TaskFork ts c) = [ts]"
| "compiled_children (TaskTry ts c) = ts # (case ca_do c of Some h \<Rightarrow> [h] | None \<Rightarrow> [])"
| "compiled_children _ = []"

inductive compiled_subscope :: "compiled_task list \<Rightarrow> compiled_task list \<Rightarrow> bool" for ts where
  self: "compiled_subscope ts ts"
| child: "t \<in> set outer \<Longrightarrow> inner \<in> set (compiled_children (ct_kind t)) \<Longrightarrow> compiled_subscope ts inner
    \<Longrightarrow> compiled_subscope ts outer"

lemma compile_kind_children:
  assumes "compile_kind pf sz comps r task = Inr k" "inner \<in> set (compiled_children k)"
  shows "\<exists>base s. compile_scope pf sz comps base 0 s = Inr inner \<and> seen_scope s \<in> set (child_scopes (seen_task task))"
  using assms
  by (cases "(pf, sz, comps, r, task)" rule: compile_kind.cases)
     (simp_all add: bindR_eq_Inr catch_def_of_def compile_run_def split: option.splits, fastforce+)

lemma compiled_subscope_seen:
  assumes "compiled_subscope ts' ts" "compile_scope pf sz comps base i s = Inr ts"
  shows "\<exists>base' i' s'. compile_scope pf sz comps base' i' s' = Inr ts' \<and> subscope (seen_scope s') (seen_scope s)"
  using assms
proof (induction arbitrary: base i s rule: compiled_subscope.induct)
  case self
  then show ?case using subscope.self by blast
next
  case (child t outer inner)
  then obtain k where k: "k < length outer" "t = outer ! k" by (auto simp: in_set_conv_nth)
  let ?e = "scope_items s ! k"
  note task = compile_scope_nth [OF child.prems k(1)]
  from child.hyps(2) compile_task_fields(4) [OF task(2)] obtain base' s'
    where inner: "compile_scope pf sz comps base' 0 s' = Inr inner"
      "seen_scope s' \<in> set (child_scopes (seen_task (snd ?e)))"
    by (auto simp: k dest: compile_kind_children)
  have "Some (fst ?e, seen_task (snd ?e)) \<in> set (seen_scope s)"
    using task(1) by (intro in_seen_scope) simp
  with child.IH [OF inner(1)] inner(2) show ?case by (blast intro: subscope.child)
qed

section \<open>Targets\<close>

lemma compile_parts:
  assumes "compile pf sz d = Inr flow"
  shows "validate (seen_workflow d) = []"
    and "compile_scope pf sz (skw_use d) (lit ''/do'') 0 (skw_do d) = Inr (cw_tasks flow)"
    and "compile_extensions pf sz (skw_use d) = Inr (cw_extensions flow)"
    and "enforce_declared_secrets (cw_definition flow) (cw_secrets flow) = Inr ()"
    and "cw_definition flow = definition_value sz d" "cw_secrets flow = declared_secrets d"
    and "resolve_timeout pf (skw_use d) (skw_timeout d) = Inr (cw_timeout flow)"
    and "cw_schedule flow = map_option (\<lambda>s. \<lparr>sh_trigger = build_schedule_trigger s\<rparr>) (skw_schedule d)"
  using assms by (auto simp: compile_def Let_def is_valid_def bindR_eq_Inr split: if_splits)

lemma runtime_compile_parts:
  assumes "runtime_compile pf sz d = Inr flow"
  shows "compile pf sz d = Inr flow" "sz_workflow sz d = Inr (cw_definition flow)"
    and "compile_checks pf (seen_workflow d) (map_option sdv_language (skw_evaluate d))
           (cw_definition flow) = Inr ()"
proof -
  from assms obtain v where v: "sz_workflow sz d = Inr v"
    "compile_checks pf (seen_workflow d) (map_option sdv_language (skw_evaluate d)) v = Inr ()"
    and c: "compile pf sz d = Inr flow"
    by (auto simp: runtime_compile_def Let_def bindR_eq_Inr split: sum.splits)
  have "cw_definition flow = v" using compile_parts(5) [OF c] v(1) by (simp add: definition_value_def)
  with v c show "compile pf sz d = Inr flow" "sz_workflow sz d = Inr (cw_definition flow)"
    "compile_checks pf (seen_workflow d) (map_option sdv_language (skw_evaluate d))
      (cw_definition flow) = Inr ()" by simp_all
qed

lemma compiled_scope_ok:
  assumes "compile pf sz d = Inr flow" "compiled_subscope ts (cw_tasks flow)"
  obtains base i s where "compile_scope pf sz (skw_use d) base i s = Inr ts" "scope_ok (seen_scope s)"
proof -
  from compiled_subscope_seen [OF assms(2) compile_parts(2) [OF assms(1)]] obtain base i s
    where s: "compile_scope pf sz (skw_use d) base i s = Inr ts"
      "subscope (seen_scope s) (seen_scope (skw_do d))" by blast
  with compile_parts(1) [OF assms(1)] have "scope_ok (seen_scope s)"
    by (simp add: validate_nil seen_workflow_def)
  with s(1) show thesis by (rule that)
qed

lemma compiled_scope_distinct:
  assumes "compile pf sz d = Inr flow" "compiled_subscope ts (cw_tasks flow)"
  shows "distinct (map ct_name ts)" "list_all is_identifier (map ct_name ts)"
  by (rule compiled_scope_ok [OF assms]; simp add: compile_scope_names scope_ok_def scope_names_seen)+

lemma compiled_target:
  assumes "compile pf sz d = Inr flow" "compiled_subscope ts (cw_tasks flow)" "t \<in> set ts"
    and "ct_then t = Some target" "parse_directive target = Goto n"
  shows "n \<in> set (map ct_name ts)"
proof (rule compiled_scope_ok [OF assms(1,2)])
  fix base i s
  assume s: "compile_scope pf sz (skw_use d) base i s = Inr ts" and ok: "scope_ok (seen_scope s)"
  from assms(3) obtain k where k: "k < length ts" "t = ts ! k" by (auto simp: in_set_conv_nth)
  note task = compile_scope_nth [OF s k(1)]
  have "Some (fst (scope_items s ! k), seen_task (snd (scope_items s ! k))) \<in> set (seen_scope s)"
    using task(1) by (intro in_seen_scope) simp
  with ok have "target_ok (scope_names (seen_scope s)) (seen_task (snd (scope_items s ! k)))"
    by (auto simp: scope_ok_def)
  with assms(4,5) compile_task_fields(3) [OF task(2)] show ?thesis
    by (auto simp: target_ok_def common_then_seen k scope_names_seen compile_scope_names [OF s]
        parse_directive_def split: if_splits)
qed

lemma compiled_goto:
  assumes "compile pf sz d = Inr flow" "compiled_subscope ts (cw_tasks flow)" "t \<in> set ts"
    and "te_directive r = None" "final_directive t r = Goto n"
  shows "\<exists>p < length ts. position (\<lambda>t. ct_name t = n) ts = Some p
    \<and> (\<forall>q < length ts. ct_name (ts ! q) = n \<longleftrightarrow> q = p)"
proof -
  from assms(4,5) obtain target where "ct_then t = Some target" "parse_directive target = Goto n"
    by (auto simp: final_directive_def split: option.splits)
  with compiled_target [OF assms(1-3)] have "n \<in> set (map ct_name ts)" by blast
  then obtain p where p: "position (\<lambda>t. ct_name t = n) ts = Some p"
    using position_None [of "\<lambda>t. ct_name t = n" ts] by fastforce
  with position_SomeD [OF p] compiled_scope_distinct(1) [OF assms(1,2)] show ?thesis
    by (auto simp: distinct_conv_nth)
qed

section \<open>References\<close>

fun sdk_children :: "sdk_task \<Rightarrow> sdk_scope list" where
  "sdk_children (SdkDo f s) = [s]"
| "sdk_children (SdkFor f x s) = [s]"
| "sdk_children (SdkFork f s c) = [s]"
| "sdk_children (SdkTry f s c h) = s # (case h of Some b \<Rightarrow> [b] | None \<Rightarrow> [])"
| "sdk_children (SdkListen f y r e) =
     (case e of Some (item, pos, Some s) \<Rightarrow> [s] | _ \<Rightarrow> [])"
| "sdk_children _ = []"

inductive task_within :: "sdk_task \<Rightarrow> sdk_scope \<Rightarrow> bool" for t where
  here: "Some (n, t) \<in> set s \<Longrightarrow> task_within t s"
| inside: "Some (n, u) \<in> set s \<Longrightarrow> s' \<in> set (sdk_children u) \<Longrightarrow> task_within t s' \<Longrightarrow> task_within t s"

lemma compile_scope_member:
  assumes "compile_scope pf sz comps base i s = Inr ts" "Some (n, t) \<in> set s"
  shows "\<exists>r ct. compile_task pf sz comps n r t = Inr ct"
proof -
  from assms(2) have "(n, t) \<in> set (scope_items s)" by (simp add: set_scope_items)
  then obtain k where k: "k < length (scope_items s)" "scope_items s ! k = (n, t)"
    by (auto simp: in_set_conv_nth)
  with compile_scope_nth(2) [OF assms(1), of k] compile_scope_length [OF assms(1)] show ?thesis by auto
qed

lemma compile_kind_child:
  assumes "compile_kind pf sz comps r t = Inr k" "s \<in> set (sdk_children t)"
  shows "\<exists>base ts. compile_scope pf sz comps base 0 s = Inr ts"
  using assms
  by (cases "(pf, sz, comps, r, t)" rule: compile_kind.cases)
     (simp_all add: bindR_eq_Inr split: option.splits, fastforce+)

lemma compile_task_within:
  assumes "task_within t s" "compile_scope pf sz comps base i s = Inr ts"
  shows "\<exists>n r ct. compile_task pf sz comps n r t = Inr ct"
  using assms
proof (induction arbitrary: base i ts rule: task_within.induct)
  case (here n s)
  then show ?case using compile_scope_member by blast
next
  case (inside n u s s')
  from compile_scope_member [OF inside.prems inside.hyps(1)] inside.hyps(2) inside.IH show ?case
    by (blast dest: compile_task_fields(4) compile_kind_child)
qed

fun retry_reference :: "sdk_task \<Rightarrow> str option" where
  "retry_reference (SdkTry f s c h) =
     (case skx_retry c of Some (RetryReference n) \<Rightarrow> Some n | _ \<Rightarrow> None)"
| "retry_reference _ = None"

lemma compile_try_retry:
  "compile_kind pf sz comps r (SdkTry f s c h) = Inr k \<Longrightarrow> \<exists>p. resolve_retry comps (skx_retry c) = Inr p"
  by (cases h) (auto simp: bindR_eq_Inr)

lemma compile_task_references:
  assumes "compile_task pf sz comps name r t = Inr ct"
  shows "skf_timeout (sdk_common t) = Some (TimeoutReference n) \<Longrightarrow> components_get skm_timeouts comps n \<noteq> None"
    and "retry_reference t = Some n \<Longrightarrow> components_get skm_retries comps n \<noteq> None"
proof -
  assume "skf_timeout (sdk_common t) = Some (TimeoutReference n)"
  with compile_task_fields(5) [OF assms] show "components_get skm_timeouts comps n \<noteq> None"
    by (auto split: option.splits)
next
  assume "retry_reference t = Some n"
  with compile_task_fields(4) [OF assms] show "components_get skm_retries comps n \<noteq> None"
    by (cases t) (auto dest!: compile_try_retry split: option.splits sdk_retry_ref.splits)
qed

section \<open>Secrets\<close>

lemma dot_prefix_chars: "length dot_prefix = 9" "\<not> secret_char 36"
  "dot_prefix = 36 # tl dot_prefix" "36 \<notin> set (tl dot_prefix)"
  by (simp_all add: dot_prefix_def lit_def secret_char_def)

lemma dot_match_SomeD:
  assumes "dot_match s = Some (name, after)"
  shows "s = dot_prefix @ name @ after" "list_all secret_char name" "name \<noteq> []"
proof -
  from assms have s: "take (length dot_prefix) s = dot_prefix" "name = takeWhile secret_char (drop (length dot_prefix) s)"
    "after = dropWhile secret_char (drop (length dot_prefix) s)" "name \<noteq> []"
    by (auto simp: dot_match_def starts_with_def span_def split: if_splits)
  then show "s = dot_prefix @ name @ after" by (metis append_take_drop_id takeWhile_dropWhile_id)
  show "list_all secret_char name" using s(2) by (auto simp: list_all_iff dest: set_takeWhileD)
  show "name \<noteq> []" by (fact s(4))
qed

lemma dot_match_found:
  assumes "list_all secret_char name" "name \<noteq> []" "rest = [] \<or> \<not> secret_char (hd rest)"
  shows "dot_match (dot_prefix @ name @ rest) = Some (name, rest)"
proof -
  have "takeWhile secret_char rest = [] \<and> dropWhile secret_char rest = rest"
    using assms(3) by (cases rest) auto
  then have "takeWhile secret_char (name @ rest) = name" "dropWhile secret_char (name @ rest) = rest"
    using assms(1) by (simp_all add: list_all_iff takeWhile_append2 dropWhile_append2)
  with assms(2) show ?thesis by (simp add: dot_match_def starts_with_def span_def)
qed

text \<open>A match holds no second dollar sign, so that no reference is lost in another one.\<close>

lemma append_after_mark:
  assumes "pre @ x # ys = (x # zs) @ after" "pre \<noteq> []" "x \<notin> set zs"
  shows "\<exists>us. pre = (x # zs) @ us \<and> after = us @ x # ys"
proof -
  from assms(1) obtain us where "pre = (x # zs) @ us \<and> us @ x # ys = after
      \<or> pre @ us = x # zs \<and> x # ys = us @ after"
    by (auto simp only: append_eq_append_conv2)
  moreover have "us = []" if "pre @ us = x # zs" "x # ys = us @ after"
    using that assms(2,3) by (cases us; cases pre) auto
  ultimately show ?thesis by (metis append_Nil2 append_Nil)
qed

lemma dot_refs_found:
  assumes "list_all secret_char name" "name \<noteq> []" "rest = [] \<or> \<not> secret_char (hd rest)"
  shows "name \<in> set (dot_refs (pre @ dot_prefix @ name @ rest))"
proof (induction "length pre" arbitrary: pre rule: less_induct)
  case less
  let ?s = "pre @ dot_prefix @ name @ rest"
  show ?case
  proof (cases pre)
    case Nil
    then show ?thesis by (subst dot_refs.simps) (simp add: dot_match_found [OF assms])
  next
    case (Cons c pre')
    show ?thesis
    proof (cases "dot_match ?s")
      case None
      with less [of pre'] show ?thesis by (subst dot_refs.simps) (simp add: Cons)
    next
      case (Some m)
      obtain other after where m: "m = (other, after)" by (cases m)
      note match = dot_match_SomeD [OF Some [unfolded m]]
      have "36 \<notin> set other" using match(2) by (auto simp: list_all_iff secret_char_def)
      then obtain us where us: "pre = dot_prefix @ other @ us" "after = us @ dot_prefix @ name @ rest"
        using append_after_mark [of pre 36 "tl dot_prefix @ name @ rest" "tl dot_prefix @ other" after]
          match(1) Cons dot_prefix_chars(3,4) by (metis (no_types) append_Cons append_assoc list.distinct(1) Un_iff set_append)
      have "name \<in> set (dot_refs after)"
        unfolding us(2) using us(1) dot_prefix_chars(1) by (intro less) simp
      then show ?thesis by (subst dot_refs.simps) (simp add: Some m)
    qed
  qed
qed

lemma collect_secret_refs_string:
  "(k, s) \<in> set (keyed_strings parent v) \<Longrightarrow> set (dot_refs s) \<union> set (bracket_refs s) \<subseteq> set (collect_secret_refs v)"
  by (induction parent v rule: keyed_strings.induct) (auto, (fastforce)+)

lemma enforce_declared_ok:
  "enforce_declared_secrets v declared = Inr () \<longleftrightarrow> set (collect_secret_refs v) \<subseteq> set declared"
proof -
  have "enforce_declared_secrets v declared = Inr () \<longleftrightarrow>
      (\<forall>name \<in> set (sort (remdups (collect_secret_refs v))). name \<in> set declared)"
    by (simp only: enforce_declared_secrets_def option.case_eq_if)
       (auto simp: find_None_iff)
  then show ?thesis by auto
qed

text \<open>The body of a listener's loop is not among what the checks see.\<close>

lemma foreach_unchecked:
  "compile_checks pf (seen_workflow (d\<lparr>skw_do := [Some (name, SdkListen f y r body)]\<rparr>)) l v =
   compile_checks pf (seen_workflow (d\<lparr>skw_do := [Some (name, SdkListen f y r other)]\<rparr>)) l v"
  by (simp add: seen_workflow_def)

end
