(* ===== verification/Schedule.thy ===== *)
theory Schedule
  imports Compile
begin

text \<open>
  The loops of schedule.rs and the schedulers of the crate \<open>ows-runtime-scheduler\<close>.  One loop is
  run at a time (the theory ScheduleSet lets them interleave); how the waits of a loop end is given
  from outside, and so are the cron library and the subscription of an event schedule.
\<close>

section \<open>Schedulers and cron expressions\<close>

text \<open>The recording scheduler; the no-op scheduler keeps nothing.\<close>

type_synonym recording_scheduler = "scheduled_execution list"

definition recording_schedule ::
  "scheduled_execution \<Rightarrow> recording_scheduler \<Rightarrow> str \<times> recording_scheduler" where
  "recording_schedule e s = (lit ''sched-'' @ nat_str (length s), s @ [e])"

text \<open>
  What the cron and time libraries answer: parsing an expression gives an error text or the
  times of its occurrences after a moment, in order; some moments are no date.
\<close>

record cron_library =
  cl_parse :: "str \<Rightarrow> str + (int \<Rightarrow> nat \<Rightarrow> int option)"
  cl_is_date :: "int \<Rightarrow> bool"

record cron_schedule =
  cs_upcoming :: "int \<Rightarrow> nat \<Rightarrow> int option"
  cs_expression :: str

definition cron_parse :: "cron_library \<Rightarrow> str \<Rightarrow> workflow_error + cron_schedule" where
  "cron_parse cl expression =
     (case cl_parse cl expression of
        Inl e \<Rightarrow> Inl (werr_new KSchema (with_detail
          (lit ''invalid cron expression `'' @ expression @ lit ''`: '' @ e)
          (problem_standard SValidation)))
      | Inr upcoming \<Rightarrow> Inr \<lparr>cs_upcoming = upcoming, cs_expression = expression\<rparr>)"

definition next_after_epoch :: "cron_library \<Rightarrow> cron_schedule \<Rightarrow> int \<Rightarrow> int option" where
  "next_after_epoch cl s t = (if cl_is_date cl t then cs_upcoming s t 0 else None)"

definition next_after_epoch_n :: "cron_library \<Rightarrow> cron_schedule \<Rightarrow> int \<Rightarrow> nat \<Rightarrow> int list" where
  "next_after_epoch_n cl s t n =
     (if cl_is_date cl t
      then map the (takeWhile (\<lambda>x. x \<noteq> None) (map (cs_upcoming s t) [0..<n]))
      else [])"

definition describe_trigger :: "schedule_trigger \<Rightarrow> str" where
  "describe_trigger t =
     (case t of
        Every d \<Rightarrow> lit ''every '' @ nat_str (duration_as_millis d) @ lit ''ms''
      | After d \<Rightarrow> lit ''after '' @ nat_str (duration_as_millis d) @ lit ''ms''
      | Cron c \<Rightarrow> lit ''cron `'' @ c @ lit ''`''
      | OnEvents es \<Rightarrow> lit ''on events ['' @ join_texts (lit '', '') (map eml_type es) @ lit '']'')"

section \<open>Events of a schedule\<close>

definition trigger_accepts :: "event_message \<Rightarrow> event_message_like list \<Rightarrow> bool" where
  "trigger_accepts e filters \<longleftrightarrow>
     filters = []
     \<or> list_ex (\<lambda>f. (eml_type f = lit ''*'' \<or> eml_type f = em_type e)
          \<and> (case eml_source f of Some s \<Rightarrow> s = em_source e | None \<Rightarrow> True)) filters"

definition insert_some :: "string \<Rightarrow> json option \<Rightarrow> vmap \<Rightarrow> vmap" where
  "insert_some k v m = (case v of Some x \<Rightarrow> map_insert (lit k) x m | None \<Rightarrow> m)"

definition event_envelope :: "event_message \<Rightarrow> json" where
  "event_envelope e =
     (let base = map_insert (lit ''specversion'') (String (lit ''1.0''))
                (map_insert (lit ''id'') (String (em_id e))
                (map_insert (lit ''source'') (String (em_source e))
                (map_insert (lit ''type'') (String (em_type e)) [])))
      in Object (insert_some ''subject'' (map_option String (em_subject e))
           (insert_some ''time'' (map_option String (em_time e))
           (insert_some ''data'' (em_data e) base))))"

section \<open>One firing\<close>

text \<open>
  The number of triggered executions is an atomic 64-bit counter.  The outcome of the run is
  dropped; only a run that does not return is passed on.
\<close>

record schedule_state =
  ss_world :: world
  ss_triggered :: u64

definition fire ::
  "host \<Rightarrow> nat \<Rightarrow> compiled_workflow \<Rightarrow> json \<Rightarrow> schedule_state \<Rightarrow> failure + schedule_state" where
  "fire h n flow input st =
     (let (handle_id, r, w) = runtime_execute h n flow input (ss_world st);
          st' = \<lparr>ss_world = w, ss_triggered = ss_triggered st + 1\<rparr>
      in case r of
           Inr v \<Rightarrow> Inr st'
         | Inl (Failed e) \<Rightarrow> Inr st'
         | Inl f \<Rightarrow> Inl f)"

section \<open>Loops\<close>

text \<open>
  How a wait ends: after the sleep, after the sleep with a cancellation at the same time, or by
  the cancellation alone.  A loop is run along the ends of its waits; \<open>StillWaiting\<close> is a loop that
  still waits.
\<close>

datatype wait_end = Slept | SleptCancelled | Interrupted

datatype loop_end = StillWaiting | Stopped

definition slept :: "duration \<Rightarrow> schedule_state \<Rightarrow> schedule_state" where
  "slept d st = st\<lparr>ss_world := (ss_world st)\<lparr>w_clock := clock_sleep d (w_clock (ss_world st))\<rparr>\<rparr>"

fun sleep_or_cancel :: "duration \<Rightarrow> wait_end \<Rightarrow> schedule_state \<Rightarrow> bool \<times> schedule_state" where
  "sleep_or_cancel d Slept st = (True, slept d st)"
| "sleep_or_cancel d SleptCancelled st = (False, slept d st)"
| "sleep_or_cancel d Interrupted st = (False, st)"

type_synonym firing = "json \<Rightarrow> schedule_state \<Rightarrow> failure + schedule_state"

fun run_every ::
  "firing \<Rightarrow> duration \<Rightarrow> wait_end list \<Rightarrow> schedule_state \<Rightarrow> failure + loop_end \<times> schedule_state" where
  "run_every trigger d [] st = Inr (StillWaiting, st)"
| "run_every trigger d (a # as) st =
     (let (slept_all, st1) = sleep_or_cancel d a st in
      if \<not> slept_all then Inr (Stopped, st1)
      else bindR (trigger Null st1) (run_every trigger d as))"

fun run_after ::
  "firing \<Rightarrow> duration \<Rightarrow> wait_end list \<Rightarrow> schedule_state \<Rightarrow> failure + loop_end \<times> schedule_state" where
  "run_after trigger d [] st = bindR (trigger Null st) (\<lambda>st1. Inr (StillWaiting, st1))"
| "run_after trigger d (a # as) st =
     bindR (trigger Null st) (\<lambda>st1.
       let (slept_all, st2) = sleep_or_cancel d a st1 in
       if \<not> slept_all then Inr (Stopped, st2) else run_after trigger d as st2)"

definition cron_delay :: "int \<Rightarrow> int \<Rightarrow> duration" where
  "cron_delay now upcoming = nat (max (upcoming - now) 0) * 1000000000"

fun run_cron ::
  "cron_library \<Rightarrow> cron_schedule \<Rightarrow> firing \<Rightarrow> wait_end list \<Rightarrow> schedule_state
    \<Rightarrow> failure + loop_end \<times> schedule_state" where
  "run_cron cl s trigger as st =
     (let now = clock_epoch_seconds (w_clock (ss_world st)) in
      case next_after_epoch cl s now of
        None \<Rightarrow> Inr (Stopped, st)
      | Some upcoming \<Rightarrow>
          (case as of
             [] \<Rightarrow> Inr (StillWaiting, st)
           | a # as' \<Rightarrow>
               (let (slept_all, st1) = sleep_or_cancel (cron_delay now upcoming) a st in
                if \<not> slept_all then Inr (Stopped, st1)
                else bindR (trigger Null st1) (run_cron cl s trigger as'))))"

declare run_cron.simps [simp del]

text \<open>The end of the subscription, or the cancellation, stops the loop.\<close>

fun run_on_events ::
  "event_message_like list \<Rightarrow> firing \<Rightarrow> event_message list \<Rightarrow> feed_end \<Rightarrow> schedule_state
    \<Rightarrow> failure + loop_end \<times> schedule_state" where
  "run_on_events filters trigger [] fin st =
     Inr (if fin \<in> {FeedClosed, FeedCancelled} then Stopped else StillWaiting, st)"
| "run_on_events filters trigger (e # es) fin st =
     (if \<not> trigger_accepts e filters then run_on_events filters trigger es fin st
      else bindR (trigger (Array [event_envelope e]) st)
             (run_on_events filters trigger es fin))"

definition subscribed :: "schedule_state \<Rightarrow> schedule_state" where
  "subscribed st = st\<lparr>ss_world := (ss_world st)\<lparr>w_calls := w_calls (ss_world st) + 1\<rparr>\<rparr>"

fun run_schedule ::
  "host \<Rightarrow> cron_library \<Rightarrow> nat \<Rightarrow> compiled_workflow \<Rightarrow> wait_end list \<Rightarrow> schedule_trigger \<Rightarrow> schedule_state
    \<Rightarrow> failure + loop_end \<times> schedule_state" where
  "run_schedule h cl n flow as (Every d) st = run_every (fire h n flow) d as st"
| "run_schedule h cl n flow as (After d) st = run_after (fire h n flow) d as st"
| "run_schedule h cl n flow as (Cron expression) st =
     (case cron_parse cl expression of
        Inl e \<Rightarrow> Inr (Stopped, st)
      | Inr s \<Rightarrow> run_cron cl s (fire h n flow) as st)"
| "run_schedule h cl n flow as (OnEvents filters) st =
     (case h_subscribe h (w_calls (ss_world st)) of
        Answer (delivered, fin) \<Rightarrow> run_on_events filters (fire h n flow) delivered fin (subscribed st)
      | Hangs \<Rightarrow> Inr (StillWaiting, subscribed st)
      | Panics m \<Rightarrow> Inl (Panicked m)
      | _ \<Rightarrow> Inr (Stopped, subscribed st))"

section \<open>Starting the schedules\<close>

definition scheduled_execution_of :: "compiled_workflow \<Rightarrow> compiled_schedule \<Rightarrow> scheduled_execution" where
  "scheduled_execution_of flow s =
     \<lparr>se_trigger = sh_trigger s, se_namespace = wi_namespace (cw_id flow), se_name = wi_name (cw_id flow),
      se_version = wi_version (cw_id flow)\<rparr>"

text \<open>
  The loops to start and the scheduler after the registrations; an error of the scheduler is
  only logged.  The registered workflows are given in the order of the visit.
\<close>

fun start_schedules ::
  "(scheduled_execution \<Rightarrow> 's \<Rightarrow> (workflow_error + str) \<times> 's) \<Rightarrow> compiled_workflow list \<Rightarrow> 's
    \<Rightarrow> (compiled_workflow \<times> schedule_trigger) list \<times> 's" where
  "start_schedules sched [] s = ([], s)"
| "start_schedules sched (flow # flows) s =
     (case cw_schedule flow of
        None \<Rightarrow> start_schedules sched flows s
      | Some cs \<Rightarrow>
          (let (answered, s1) = sched (scheduled_execution_of flow cs) s;
               (loops, s2) = start_schedules sched flows s1
           in ((flow, sh_trigger cs) # loops, s2)))"

section \<open>Laws\<close>

text \<open>The executions a loop starts, one after the other.\<close>

fun fire_all :: "firing \<Rightarrow> json list \<Rightarrow> schedule_state \<Rightarrow> failure + schedule_state" where
  "fire_all trigger [] st = Inr st"
| "fire_all trigger (v # vs) st = bindR (trigger v st) (fire_all trigger vs)"

lemma fire_triggered: "fire h n flow v st = Inr st' \<Longrightarrow> ss_triggered st' = ss_triggered st + 1"
  by (auto simp: fire_def Let_def split: prod.splits sum.splits failure.splits)

lemma slept_triggered [simp]: "ss_triggered (slept d st) = ss_triggered st"
  by (simp add: slept_def)

lemma fire_all_triggered:
  "fire_all (fire h n flow) vs st = Inr st' \<Longrightarrow> ss_triggered st' = ss_triggered st + of_nat (length vs)"
  by (induction vs arbitrary: st) (auto simp: bindR_eq_Inr dest!: fire_triggered)

lemma run_on_events_fire_all:
  "run_on_events filters trigger es fin st =
     bindR (fire_all trigger (map (\<lambda>e. Array [event_envelope e]) (filter (\<lambda>e. trigger_accepts e filters) es)) st)
       (\<lambda>st'. Inr (if fin \<in> {FeedClosed, FeedCancelled} then Stopped else StillWaiting, st'))"
proof (induction es arbitrary: st)
  case (Cons e es)
  then show ?case by (cases "trigger (Array [event_envelope e]) st") auto
qed simp

definition completed :: "wait_end list \<Rightarrow> nat" where
  "completed as = length (takeWhile (\<lambda>a. a = Slept) as)"

definition loop_end_of :: "wait_end list \<Rightarrow> loop_end" where
  "loop_end_of as = (if set as \<subseteq> {Slept} then StillWaiting else Stopped)"

lemma run_every_counts:
  "run_every (fire h n flow) d as st = Inr (e, st') \<Longrightarrow>
     e = loop_end_of as \<and> ss_triggered st' = ss_triggered st + of_nat (completed as)"
proof (induction as arbitrary: st)
  case (Cons a as)
  then show ?case
    by (cases a) (auto simp: bindR_eq_Inr completed_def loop_end_of_def dest!: fire_triggered Cons.IH)
qed (simp add: completed_def loop_end_of_def)

lemma run_after_counts:
  "run_after (fire h n flow) d as st = Inr (e, st') \<Longrightarrow>
     e = loop_end_of as \<and> ss_triggered st' = ss_triggered st + of_nat (Suc (completed as))"
proof (induction as arbitrary: st)
  case (Cons a as)
  then show ?case
    by (cases a) (auto simp: bindR_eq_Inr completed_def loop_end_of_def dest!: fire_triggered Cons.IH)
qed (auto simp: bindR_eq_Inr completed_def loop_end_of_def dest!: fire_triggered)

end
