(* ===== verification/ScheduleSet.thy ===== *)
theory ScheduleSet
  imports Schedule EngineLogs
begin

text \<open>
  The set of schedule loops that \<open>start_schedules\<close> spawns (schedule.rs), as a state machine: every
  loop is a task of its own, the loops take turns in any order, and the set is cancelled at any
  moment.  A turn goes from one await to the next.  A cancellation sets the flag and notifies the
  loops that are waiting at that moment, and no others, as \<open>Notify::notify_waiters\<close> does.  An
  execution started by a loop acts on the runtime as a whole, at its end; meanwhile others go on.
\<close>

section \<open>Loops\<close>

datatype sleeper = SleepEvery duration | SleepAfter duration | SleepCron cron_schedule

text \<open>What a loop does after the execution it has started.\<close>

datatype continuation =
    ThenSleep sleeper
  | ThenReceive "event_message_like list" "event_message list" feed_end

text \<open>
  A loop that was spawned and not polled yet; between the check of the flag and the wait; in the
  \<open>select\<close> of \<open>sleep_or_cancel\<close> or of the event loop, notified or not; in an execution; returned.
\<close>

datatype schedule_loop =
    Spawned compiled_workflow schedule_trigger
  | Checked compiled_workflow sleeper duration
  | Asleep compiled_workflow sleeper duration bool
  | Receiving compiled_workflow "event_message_like list" "event_message list" feed_end bool
  | Firing compiled_workflow continuation json
  | Finished

fun sleep_for :: "cron_library \<Rightarrow> sleeper \<Rightarrow> int \<Rightarrow> duration option" where
  "sleep_for cl (SleepEvery d) now = Some d"
| "sleep_for cl (SleepAfter d) now = Some d"
| "sleep_for cl (SleepCron s) now = map_option (cron_delay now) (next_after_epoch cl s now)"

definition loop_time :: "schedule_state \<Rightarrow> int" where
  "loop_time st = clock_epoch_seconds (w_clock (ss_world st))"

text \<open>The way to the next sleep: the time of the next occurrence, then the check of the flag.\<close>

definition to_sleep :: "cron_library \<Rightarrow> bool \<Rightarrow> compiled_workflow \<Rightarrow> sleeper \<Rightarrow> schedule_state \<Rightarrow> schedule_loop" where
  "to_sleep cl cancelled flow s st =
     (case sleep_for cl s (loop_time st) of
        None \<Rightarrow> Finished
      | Some d \<Rightarrow> if cancelled then Finished else Checked flow s d)"

fun go_on :: "cron_library \<Rightarrow> bool \<Rightarrow> compiled_workflow \<Rightarrow> continuation \<Rightarrow> schedule_state \<Rightarrow> schedule_loop" where
  "go_on cl c flow (ThenSleep s) st = to_sleep cl c flow s st"
| "go_on cl c flow (ThenReceive filters queue fin) st = Receiving flow filters queue fin False"

text \<open>The two halves of \<open>fire\<close>: the count at the start, the run of the workflow.\<close>

definition count_firing :: "schedule_state \<Rightarrow> schedule_state" where
  "count_firing st = st\<lparr>ss_triggered := ss_triggered st + 1\<rparr>"

definition execution_done ::
  "host \<Rightarrow> nat \<Rightarrow> compiled_workflow \<Rightarrow> json \<Rightarrow> schedule_state \<Rightarrow> failure + schedule_state" where
  "execution_done h n flow input st =
     (let (handle_id, r, w) = runtime_execute h n flow input (ss_world st)
      in case r of
           Inr v \<Rightarrow> Inr (st\<lparr>ss_world := w\<rparr>)
         | Inl (Failed e) \<Rightarrow> Inr (st\<lparr>ss_world := w\<rparr>)
         | Inl f \<Rightarrow> Inl f)"

lemma fire_split: "fire h n flow v st = execution_done h n flow v (count_firing st)"
  by (simp add: fire_def execution_done_def count_firing_def Let_def split: prod.split sum.split failure.split)

text \<open>
  One turn of a loop, with the flag of the set.  The label is the input of the execution that the
  turn starts, if it starts one.  When the notification and something else are ready at the same
  time, \<open>select\<close> takes either; a notification that is not taken is lost with its wait.
\<close>

inductive loop_turn ::
  "host \<Rightarrow> cron_library \<Rightarrow> nat \<Rightarrow> bool \<Rightarrow> schedule_loop \<Rightarrow> schedule_state \<Rightarrow> json option
    \<Rightarrow> schedule_loop \<Rightarrow> schedule_state \<Rightarrow> bool"
  for h cl n c where
    poll_every: "loop_turn h cl n c (Spawned flow (Every d)) st None (to_sleep cl c flow (SleepEvery d) st) st"
  | poll_after:
      "loop_turn h cl n c (Spawned flow (After d)) st (Some Null) (Firing flow (ThenSleep (SleepAfter d)) Null) (count_firing st)"
  | poll_cron:
      "cron_parse cl text = Inr s \<Longrightarrow>
       loop_turn h cl n c (Spawned flow (Cron text)) st None (to_sleep cl c flow (SleepCron s) st) st"
  | poll_bad_cron: "cron_parse cl text = Inl e \<Longrightarrow> loop_turn h cl n c (Spawned flow (Cron text)) st None Finished st"
  | poll_events:
      "h_subscribe h (w_calls (ss_world st)) = Answer (delivered, fin) \<Longrightarrow>
       loop_turn h cl n c (Spawned flow (OnEvents filters)) st None
         (Receiving flow filters delivered fin False) (subscribed st)"
  | poll_refused:
      "h_subscribe h (w_calls (ss_world st)) = Refused e \<Longrightarrow>
       loop_turn h cl n c (Spawned flow (OnEvents filters)) st None Finished (subscribed st)"
  | register: "loop_turn h cl n c (Checked flow s d) st None (Asleep flow s d False) st"
  | wake:
      "\<not> c \<Longrightarrow> loop_turn h cl n c (Asleep flow s d b) st (Some Null) (Firing flow (ThenSleep s) Null) (count_firing (slept d st))"
  | wake_cancelled: "c \<Longrightarrow> loop_turn h cl n c (Asleep flow s d b) st None Finished (slept d st)"
  | interrupt: "loop_turn h cl n c (Asleep flow s d True) st None Finished st"
  | receive_accepted:
      "trigger_accepts e filters \<Longrightarrow>
       loop_turn h cl n c (Receiving flow filters (e # es) fin b) st (Some (Array [event_envelope e]))
         (Firing flow (ThenReceive filters es fin) (Array [event_envelope e])) (count_firing st)"
  | receive_other:
      "\<not> trigger_accepts e filters \<Longrightarrow>
       loop_turn h cl n c (Receiving flow filters (e # es) fin b) st None (Receiving flow filters es fin False) st"
  | receive_end: "loop_turn h cl n c (Receiving flow filters [] FeedClosed b) st None Finished st"
  | receive_notified: "loop_turn h cl n c (Receiving flow filters es fin True) st None Finished st"
  | return:
      "execution_done h n flow v st = Inr st' \<Longrightarrow>
       loop_turn h cl n c (Firing flow k v) st None (go_on cl c flow k st') st'"

section \<open>The set\<close>

record schedule_set =
  sl_shared :: schedule_state
  sl_cancelled :: bool
  sl_loops :: "schedule_loop list"

definition set_started :: "world \<Rightarrow> (compiled_workflow \<times> schedule_trigger) list \<Rightarrow> schedule_set" where
  "set_started w loops =
     \<lparr>sl_shared = \<lparr>ss_world = w, ss_triggered = 0\<rparr>, sl_cancelled = False,
      sl_loops = map (\<lambda>(flow, trigger). Spawned flow trigger) loops\<rparr>"

fun notified :: "schedule_loop \<Rightarrow> schedule_loop" where
  "notified (Asleep flow s d b) = Asleep flow s d True"
| "notified (Receiving flow filters es fin b) = Receiving flow filters es fin True"
| "notified l = l"

text \<open>\<open>ScheduleSet::cancel\<close>, which dropping the set calls too.\<close>

definition set_cancel :: "schedule_set \<Rightarrow> schedule_set" where
  "set_cancel S = S\<lparr>sl_cancelled := True, sl_loops := map notified (sl_loops S)\<rparr>"

definition set_triggered :: "schedule_set \<Rightarrow> u64" where
  "set_triggered S = ss_triggered (sl_shared S)"

definition set_len :: "schedule_set \<Rightarrow> nat" where
  "set_len S = length (sl_loops S)"

definition set_is_empty :: "schedule_set \<Rightarrow> bool" where
  "set_is_empty S \<longleftrightarrow> sl_loops S = []"

text \<open>\<open>join\<close> returns when every loop has.\<close>

definition set_joined :: "schedule_set \<Rightarrow> bool" where
  "set_joined S \<longleftrightarrow> (\<forall>l \<in> set (sl_loops S). l = Finished)"

datatype set_event = Turn nat "json option" | CancelAll

inductive set_step :: "host \<Rightarrow> cron_library \<Rightarrow> nat \<Rightarrow> schedule_set \<Rightarrow> set_event \<Rightarrow> schedule_set \<Rightarrow> bool"
  for h cl n where
    turn:
      "i < length (sl_loops S) \<Longrightarrow>
       loop_turn h cl n (sl_cancelled S) (sl_loops S ! i) (sl_shared S) v l st \<Longrightarrow>
       set_step h cl n S (Turn i v) (S\<lparr>sl_shared := st, sl_loops := (sl_loops S)[i := l]\<rparr>)"
  | cancel: "set_step h cl n S CancelAll (set_cancel S)"

inductive set_run :: "host \<Rightarrow> cron_library \<Rightarrow> nat \<Rightarrow> schedule_set \<Rightarrow> set_event list \<Rightarrow> schedule_set \<Rightarrow> bool"
  for h cl n where
    stay: "set_run h cl n S [] S"
  | step: "set_step h cl n S a T \<Longrightarrow> set_run h cl n T as U \<Longrightarrow> set_run h cl n S (a # as) U"

inductive_cases set_stepE: "set_step h cl n S a T"

inductive_cases set_runE [elim]: "set_run h cl n S (a # as) U" "set_run h cl n S [] U"

inductive_simps loop_turn_simps:
  "loop_turn h cl n c (Spawned flow t) st v l st'"
  "loop_turn h cl n c (Checked flow s d) st v l st'"
  "loop_turn h cl n c (Asleep flow s d b) st v l st'"
  "loop_turn h cl n c (Receiving flow filters es fin b) st v l st'"
  "loop_turn h cl n c (Firing flow k v0) st v l st'"
  "loop_turn h cl n c Finished st v l st'"

text \<open>The executions that loop \<open>i\<close> starts in a run, by their inputs, and the number of its turns.\<close>

fun starts_of :: "nat \<Rightarrow> set_event list \<Rightarrow> json list" where
  "starts_of i [] = []"
| "starts_of i (Turn j v # as) = (if j = i then (case v of Some x \<Rightarrow> [x] | None \<Rightarrow> []) else []) @ starts_of i as"
| "starts_of i (CancelAll # as) = starts_of i as"

fun turns_of :: "nat \<Rightarrow> set_event list \<Rightarrow> nat" where
  "turns_of i [] = 0"
| "turns_of i (Turn j v # as) = (if j = i then 1 else 0) + turns_of i as"
| "turns_of i (CancelAll # as) = turns_of i as"

fun all_starts :: "set_event list \<Rightarrow> json list" where
  "all_starts [] = []"
| "all_starts (Turn j (Some x) # as) = x # all_starts as"
| "all_starts (a # as) = all_starts as"

section \<open>Properties of one loop in a run of the set\<close>

lemma length_loops: "set_step h cl n S a T \<Longrightarrow> length (sl_loops T) = length (sl_loops S)"
  by (auto elim!: set_stepE simp: set_cancel_def)

lemma stays_cancelled: "set_step h cl n S a T \<Longrightarrow> sl_cancelled S \<Longrightarrow> sl_cancelled T"
  by (auto elim!: set_stepE simp: set_cancel_def)

lemma set_run_append:
  "set_run h cl n S as T \<Longrightarrow> set_run h cl n T bs U \<Longrightarrow> set_run h cl n S (as @ bs) U"
  by (induction rule: set_run.induct) (auto intro: set_run.step)

lemma set_run_length: "set_run h cl n S as T \<Longrightarrow> length (sl_loops T) = length (sl_loops S)"
  by (induction rule: set_run.induct) (auto dest: length_loops)

text \<open>
  What the turns of a loop and the notifications keep, every run keeps, whatever the other loops
  do.  \<open>P vs k l\<close> speaks of the executions the loop has started, its turns, and where it is; it may
  rest on the flag being set, or on the absence of cancellations.
\<close>

locale loop_property =
  fixes h :: host and cl :: cron_library and n :: nat
    and flagged :: bool and uncancelled :: bool
    and P :: "json list \<Rightarrow> nat \<Rightarrow> schedule_loop \<Rightarrow> bool"
  assumes turn_keeps: "P vs k l \<Longrightarrow> loop_turn h cl n c l st v l' st' \<Longrightarrow> flagged \<longrightarrow> c
      \<Longrightarrow> P (vs @ (case v of Some x \<Rightarrow> [x] | None \<Rightarrow> [])) (Suc k) l'"
    and notified_keeps: "P vs k l \<Longrightarrow> \<not> uncancelled \<Longrightarrow> P vs k (notified l)"
begin

lemma step_keeps:
  assumes "set_step h cl n S a T" "P vs k (sl_loops S ! i)" "i < length (sl_loops S)"
    and "flagged \<longrightarrow> sl_cancelled S" "uncancelled \<longrightarrow> a \<noteq> CancelAll"
  shows "P (vs @ starts_of i [a]) (k + turns_of i [a]) (sl_loops T ! i)"
  using assms(1)
proof (cases rule: set_step.cases)
  case (turn j v l st)
  with assms(2-) show ?thesis
    using turn_keeps [of vs k "sl_loops S ! i" "sl_cancelled S" "sl_shared S" v l st] by (cases "j = i") auto
next
  case cancel
  with assms(2-) show ?thesis by (simp add: set_cancel_def notified_keeps)
qed

lemma run_keeps:
  assumes "set_run h cl n S as T" "P vs k (sl_loops S ! i)" "i < length (sl_loops S)"
    and "flagged \<longrightarrow> sl_cancelled S" "uncancelled \<longrightarrow> CancelAll \<notin> set as"
  shows "P (vs @ starts_of i as) (k + turns_of i as) (sl_loops T ! i)"
  using assms
proof (induction arbitrary: vs k rule: set_run.induct)
  case (step S a T as U)
  have "P (vs @ starts_of i [a]) (k + turns_of i [a]) (sl_loops T ! i)"
    using step.hyps(1) step.prems by (intro step_keeps) auto
  then have "P ((vs @ starts_of i [a]) @ starts_of i as) (k + turns_of i [a] + turns_of i as) (sl_loops U ! i)"
    using step.hyps(1) step.prems by (intro step.IH) (auto simp: length_loops stays_cancelled)
  moreover have "starts_of i [a] @ starts_of i as = starts_of i (a # as)"
    "turns_of i [a] + turns_of i as = turns_of i (a # as)" by (cases a; simp)+
  ultimately show ?case by (simp add: add.assoc)
qed simp

end

section \<open>Loops that sleep\<close>

text \<open>The loops of interval, delay and cron schedules, and the turns they have left once cancelled.\<close>

fun sleeping_loop :: "schedule_loop \<Rightarrow> bool" where
  "sleeping_loop (Spawned flow (OnEvents filters)) = False"
| "sleeping_loop (Receiving flow filters es fin b) = False"
| "sleeping_loop (Firing flow (ThenReceive filters es fin) v) = False"
| "sleeping_loop _ = True"

fun starts_left :: "schedule_loop \<Rightarrow> nat" where
  "starts_left (Spawned flow (After d)) = 1"
| "starts_left _ = 0"

fun turns_left :: "schedule_loop \<Rightarrow> nat" where
  "turns_left (Spawned flow (After d)) = 2"
| "turns_left (Checked flow s d) = 2"
| "turns_left Finished = 0"
| "turns_left _ = 1"

lemma to_sleep_flagged [simp]: "to_sleep cl True flow s st = Finished"
  by (simp add: to_sleep_def split: option.split)

interpretation stopping:
  loop_property h cl n True False
    "\<lambda>vs k l. sleeping_loop l \<and> length vs + starts_left l \<le> a \<and> k + turns_left l \<le> b" for h cl n a b
proof (unfold_locales, goal_cases)
  case (1 vs k l c st v l' st')
  then have c: "c" by simp
  show ?case
    using 1(1,2) c
    by (cases l rule: turns_left.cases; cases l rule: sleeping_loop.cases) (auto simp: loop_turn_simps)
next
  case (2 vs k l)
  then show ?case by (cases l) simp_all
qed

text \<open>
  Executions of a workflow return when they are started in a world whose cancellation token is
  untouched, and every turn leaves it untouched: a cancelled set does not cancel executions.
\<close>

definition executions_return :: "host \<Rightarrow> nat \<Rightarrow> compiled_workflow \<Rightarrow> bool" where
  "executions_return h n flow \<longleftrightarrow>
     (\<forall>v st. w_cancel (ss_world st) = None \<longrightarrow> (\<exists>st'. execution_done h n flow v st = Inr st'))"

lemma executions_returnD:
  assumes "executions_return h n flow" "w_cancel (ss_world st) = None"
  obtains st' where "execution_done h n flow v st = Inr st'"
  using assms unfolding executions_return_def by meson

lemma execution_untouched:
  assumes "execution_done h n flow v st = Inr st'" "w_cancel (ss_world st) = None"
  shows "w_cancel (ss_world st') = None"
proof -
  have "w_cancel (snd (execute h n flow v default_options (snd (next_uuid h (ss_world st))))) = None"
    using untouched.execute_keeps assms(2) by (simp add: next_uuid_def)
  with assms(1) show ?thesis
    by (auto simp: execution_done_def runtime_execute_def Let_def case_prod_beta split: sum.splits failure.splits)
qed

lemma turn_untouched:
  assumes "loop_turn h cl n c l st v l' st'" "w_cancel (ss_world st) = None"
  shows "w_cancel (ss_world st') = None"
  using assms by cases (auto simp: count_firing_def subscribed_def slept_def intro: execution_untouched)

lemma step_untouched:
  "set_step h cl n S a T \<Longrightarrow> w_cancel (ss_world (sl_shared S)) = None \<Longrightarrow> w_cancel (ss_world (sl_shared T)) = None"
  by (auto elim!: set_stepE simp: set_cancel_def intro: turn_untouched)

lemma run_untouched:
  "set_run h cl n S as T \<Longrightarrow> w_cancel (ss_world (sl_shared S)) = None \<Longrightarrow> w_cancel (ss_world (sl_shared T)) = None"
  by (induction rule: set_run.induct) (auto dest: step_untouched)

fun returning :: "host \<Rightarrow> nat \<Rightarrow> schedule_loop \<Rightarrow> bool" where
  "returning h n (Spawned flow t) = executions_return h n flow"
| "returning h n (Checked flow s d) = executions_return h n flow"
| "returning h n (Asleep flow s d b) = executions_return h n flow"
| "returning h n (Receiving flow filters es fin b) = executions_return h n flow"
| "returning h n (Firing flow k v) = executions_return h n flow"
| "returning h n Finished = True"

lemma returning_to_sleep: "executions_return h n flow \<Longrightarrow> returning h n (to_sleep cl c flow s st)"
  by (simp add: to_sleep_def split: option.split)

interpretation returning: loop_property h cl n False False "\<lambda>vs k l. returning h n l" for h cl n
proof (unfold_locales, goal_cases)
  case (1 vs k l c st v l' st')
  from 1(2,1) show ?case
  proof cases
    case (return flow u q)
    with 1(1) show ?thesis by (cases q) (simp_all add: returning_to_sleep)
  qed (use 1(1) in \<open>simp_all add: returning_to_sleep\<close>)
next
  case (2 vs k l)
  then show ?case by (cases l) simp_all
qed

text \<open>A cancelled loop that sleeps is never stuck, as long as its executions return.\<close>

lemma cancelled_can_turn:
  assumes "sleeping_loop l" "l \<noteq> Finished" "returning h n l" "w_cancel (ss_world st) = None"
  shows "\<exists>v l' st'. loop_turn h cl n True l st v l' st'"
proof (cases l)
  case (Spawned flow t)
  show ?thesis
  proof (cases t)
    case (Cron ex)
    with Spawned show ?thesis by (cases "cron_parse cl ex") (auto simp: loop_turn_simps)
  qed (use assms(1) Spawned in \<open>auto simp: loop_turn_simps\<close>)
next
  case (Firing flow k v)
  with assms(3) have "executions_return h n flow" by simp
  then obtain st' where "execution_done h n flow v st = Inr st'"
    by (rule executions_returnD [OF _ assms(4)])
  with Firing show ?thesis by (auto simp: loop_turn_simps)
qed (use assms in \<open>auto simp: loop_turn_simps\<close>)

lemma turn_run:
  assumes "i < length (sl_loops S)" "loop_turn h cl n (sl_cancelled S) (sl_loops S ! i) (sl_shared S) v l st"
  shows "set_run h cl n S [Turn i v] (S\<lparr>sl_shared := st, sl_loops := (sl_loops S)[i := l]\<rparr>)"
  using set_step.turn [OF assms] set_run.intros by blast

text \<open>So a cancelled set of such loops is joined, at the latest when all have taken the turns left to them.\<close>

definition set_turns_left :: "schedule_set \<Rightarrow> nat" where
  "set_turns_left S = sum_list (map turns_left (sl_loops S))"

lemma cancelled_turn_counts:
  assumes "sleeping_loop l" "loop_turn h cl n True l st v l' st'"
  shows "sleeping_loop l' \<and> turns_left l' < turns_left l"
  using stopping.turn_keeps [where vs = "[]" and k = 0 and a = "starts_left l" and b = "turns_left l", OF _ assms(2)]
    assms(1) by simp

lemma sum_list_update_less:
  fixes xs :: "nat list"
  assumes "i < length xs" "y < xs ! i"
  shows "sum_list (xs[i := y]) < sum_list xs"
  using assms by (induction xs arbitrary: i) (auto simp: nth_Cons split: nat.splits)

definition sleepers_only :: "host \<Rightarrow> nat \<Rightarrow> schedule_set \<Rightarrow> bool" where
  "sleepers_only h n S \<longleftrightarrow>
     w_cancel (ss_world (sl_shared S)) = None \<and> (\<forall>l \<in> set (sl_loops S). sleeping_loop l \<and> returning h n l)"

lemma sleepers_stay:
  assumes "set_run h cl n S as T" "sl_cancelled S" "sleepers_only h n S"
  shows "sl_cancelled T \<and> sleepers_only h n T"
proof -
  have "sl_cancelled T" using assms(1,2) by (induction rule: set_run.induct) (auto dest: stays_cancelled)
  moreover have "sleeping_loop (sl_loops T ! i) \<and> returning h n (sl_loops T ! i)" if i: "i < length (sl_loops T)" for i
  proof -
    have i': "i < length (sl_loops S)" using i set_run_length [OF assms(1)] by simp
    with assms(3) have l: "sleeping_loop (sl_loops S ! i)" "returning h n (sl_loops S ! i)"
      by (simp_all add: sleepers_only_def)
    show ?thesis
      using stopping.run_keeps [where vs = "[]" and k = 0 and i = i and a = "starts_left (sl_loops S ! i)"
          and b = "turns_left (sl_loops S ! i)", OF assms(1)]
        returning.run_keeps [OF assms(1) l(2) i'] assms(2) i' l by simp
  qed
  ultimately show ?thesis
    using run_untouched [OF assms(1)] assms(3) by (auto simp: sleepers_only_def in_set_conv_nth)
qed

lemma cancelled_sleepers_end:
  assumes "sl_cancelled S" "sleepers_only h n S"
  shows "\<exists>as T. set_run h cl n S as T \<and> set_joined T"
  using assms
proof (induction "set_turns_left S" arbitrary: S rule: less_induct)
  case less
  show ?case
  proof (cases "set_joined S")
    case True
    then show ?thesis using set_run.stay by blast
  next
    case False
    then obtain i where i: "i < length (sl_loops S)" "sl_loops S ! i \<noteq> Finished"
      by (auto simp: set_joined_def in_set_conv_nth)
    with less.prems have l: "sleeping_loop (sl_loops S ! i)" "returning h n (sl_loops S ! i)"
      "w_cancel (ss_world (sl_shared S)) = None" by (auto simp: sleepers_only_def)
    from cancelled_can_turn [OF l(1) i(2) l(2,3)] obtain v l' st' where
      t: "loop_turn h cl n True (sl_loops S ! i) (sl_shared S) v l' st'" by blast
    let ?T = "S\<lparr>sl_shared := st', sl_loops := (sl_loops S)[i := l']\<rparr>"
    from t less.prems(1) have run: "set_run h cl n S [Turn i v] ?T" by (intro turn_run [OF i(1)]) simp
    have "set_turns_left ?T < set_turns_left S"
      using cancelled_turn_counts [OF l(1) t] i(1)
      by (auto simp: set_turns_left_def map_update intro!: sum_list_update_less)
    then obtain as U where "set_run h cl n ?T as U" "set_joined U"
      using less.hyps [of ?T] sleepers_stay [OF run less.prems] by auto
    with run show ?thesis using set_run_append by blast
  qed
qed

section \<open>Loops that wait for events\<close>

definition event_inputs :: "event_message_like list \<Rightarrow> event_message list \<Rightarrow> json list" where
  "event_inputs filters es = map (\<lambda>e. Array [event_envelope e]) (filter (\<lambda>e. trigger_accepts e filters) es)"

text \<open>The inputs of the executions a loop still starts if it is left alone.\<close>

fun owed :: "schedule_loop \<Rightarrow> json list" where
  "owed (Receiving flow filters es fin b) = event_inputs filters es"
| "owed (Firing flow (ThenReceive filters es fin) v) = event_inputs filters es"
| "owed _ = []"

fun receiving_loop :: "schedule_loop \<Rightarrow> bool" where
  "receiving_loop (Receiving flow filters es fin b) = True"
| "receiving_loop (Firing flow (ThenReceive filters es fin) v) = True"
| "receiving_loop _ = False"

interpretation serving:
  loop_property h cl n False False
    "\<lambda>vs k l. (receiving_loop l \<and> vs @ owed l = ws) \<or> (l = Finished \<and> (\<exists>rest. vs @ rest = ws))" for h cl n ws
proof (unfold_locales, goal_cases)
  case (1 vs k l c st v l' st')
  then show ?case
    by (cases l rule: receiving_loop.cases) (auto simp: loop_turn_simps event_inputs_def)
next
  case (2 vs k l)
  then show ?case by (cases l) auto
qed

text \<open>
  A loop that misses a cancellation: in an execution, or about to subscribe, it is not notified,
  and it never reads the flag.
\<close>

definition subscriptions_silent :: "host \<Rightarrow> bool" where
  "subscriptions_silent h \<longleftrightarrow> (\<forall>k. \<exists>es. h_subscribe h k = Answer (es, FeedSilent))"

fun deaf :: "host \<Rightarrow> schedule_loop \<Rightarrow> bool" where
  "deaf h (Spawned flow (OnEvents filters)) = subscriptions_silent h"
| "deaf h (Receiving flow filters es fin b) = (fin = FeedSilent \<and> \<not> b)"
| "deaf h (Firing flow (ThenReceive filters es fin) v) = (fin = FeedSilent)"
| "deaf h _ = False"

interpretation missing: loop_property h cl n False True "\<lambda>vs k l. deaf h l" for h cl n
proof (unfold_locales, goal_cases)
  case (1 vs k l c st v l' st')
  then show ?case
  proof (cases l)
    case (Spawned flow t)
    with 1(1) obtain filters where t: "t = OnEvents filters" and "subscriptions_silent h" by (cases t) auto
    then obtain es where "h_subscribe h (w_calls (ss_world st)) = Answer (es, FeedSilent)"
      unfolding subscriptions_silent_def by meson
    with t Spawned 1(2) show ?thesis by (auto simp: loop_turn_simps)
  next
    case (Firing flow q u)
    with 1(1,2) show ?thesis by (cases q) (auto simp: loop_turn_simps)
  qed (use 1(1,2) in \<open>auto simp: loop_turn_simps\<close>)
qed simp

lemma deaf_serves:
  assumes "sl_loops S ! i = Receiving flow filters es FeedSilent False" "i < length (sl_loops S)"
    and "executions_return h n flow" "w_cancel (ss_world (sl_shared S)) = None"
  shows "\<exists>as T. set_run h cl n S as T \<and> CancelAll \<notin> set as \<and> starts_of i as = event_inputs filters es"
  using assms(1,2,4)
proof (induction es arbitrary: S)
  case Nil
  have "set_run h cl n S [] S" by (rule set_run.stay)
  then show ?case by (force simp: event_inputs_def)
next
  case (Cons e es)
  let ?at = "\<lambda>l st. S\<lparr>sl_shared := st, sl_loops := (sl_loops S)[i := l]\<rparr>"
  let ?next = "Receiving flow filters es FeedSilent False"
  show ?case
  proof (cases "trigger_accepts e filters")
    case True
    let ?v = "Array [event_envelope e]"
    let ?firing = "Firing flow (ThenReceive filters es FeedSilent) ?v"
    have "w_cancel (ss_world (count_firing (sl_shared S))) = None" using Cons.prems(3) by (simp add: count_firing_def)
    then obtain st' where st': "execution_done h n flow ?v (count_firing (sl_shared S)) = Inr st'"
      by (rule executions_returnD [OF assms(3)])
    have "set_run h cl n S [Turn i (Some ?v)] (?at ?firing (count_firing (sl_shared S)))"
      using Cons.prems True by (intro turn_run) (auto simp: loop_turn_simps)
    moreover have "set_run h cl n (?at ?firing (count_firing (sl_shared S))) [Turn i None] (?at ?next st')"
      using Cons.prems st' turn_run [of i "?at ?firing (count_firing (sl_shared S))" h cl n None ?next st']
      by (auto simp: loop_turn_simps)
    ultimately have run: "set_run h cl n S ([Turn i (Some ?v)] @ [Turn i None]) (?at ?next st')"
      by (rule set_run_append)
    obtain as T where "set_run h cl n (?at ?next st') as T" "CancelAll \<notin> set as" "starts_of i as = event_inputs filters es"
      using Cons.IH [of "?at ?next st'"] Cons.prems run_untouched [OF run] by auto
    with set_run_append [OF run this(1)] True show ?thesis
      by (intro exI [of _ "([Turn i (Some ?v)] @ [Turn i None]) @ as"] exI [of _ T]) (simp add: event_inputs_def)
  next
    case False
    have run: "set_run h cl n S [Turn i None] (?at ?next (sl_shared S))"
      using Cons.prems False by (intro turn_run) (auto simp: loop_turn_simps)
    obtain as T where "set_run h cl n (?at ?next (sl_shared S)) as T" "CancelAll \<notin> set as"
      "starts_of i as = event_inputs filters es"
      using Cons.IH [of "?at ?next (sl_shared S)"] Cons.prems by auto
    with set_run_append [OF run this(1)] False show ?thesis
      by (intro exI [of _ "[Turn i None] @ as"] exI [of _ T]) (simp add: event_inputs_def)
  qed
qed

section \<open>The counter\<close>

lemma turn_triggered:
  "loop_turn h cl n c l st v l' st' \<Longrightarrow>
     ss_triggered st' = ss_triggered st + (case v of Some x \<Rightarrow> 1 | None \<Rightarrow> 0)"
  by (induction rule: loop_turn.induct)
     (auto simp: count_firing_def subscribed_def execution_done_def split: prod.splits sum.splits failure.splits)

lemma run_triggered:
  "set_run h cl n S as T \<Longrightarrow> set_triggered T = set_triggered S + of_nat (length (all_starts as))"
proof (induction rule: set_run.induct)
  case (step S a T as U)
  from step.hyps(1) have "set_triggered T = set_triggered S + of_nat (length (all_starts [a]))"
    by (auto elim!: set_stepE simp: set_triggered_def set_cancel_def dest!: turn_triggered split: option.splits)
  moreover have "all_starts (a # as) = all_starts [a] @ all_starts as"
  proof (cases a)
    case (Turn j v)
    then show ?thesis by (cases v) simp_all
  qed simp
  ultimately show ?case using step.IH by simp
qed simp

section \<open>A loop alone\<close>

text \<open>
  The loops of the theory Schedule, run along the ends of their waits, are runs of the set with that
  loop alone: a wait that ends with a cancellation is a cancellation of the set.
\<close>

definition alone :: "schedule_state \<Rightarrow> bool \<Rightarrow> schedule_loop \<Rightarrow> schedule_set" where
  "alone st c l = \<lparr>sl_shared = st, sl_cancelled = c, sl_loops = [l]\<rparr>"

definition reaches :: "host \<Rightarrow> cron_library \<Rightarrow> nat \<Rightarrow> schedule_set \<Rightarrow> schedule_set \<Rightarrow> bool" where
  "reaches h cl n S T \<longleftrightarrow> (\<exists>as. set_run h cl n S as T)"

lemma reaches_refl [intro]: "reaches h cl n S S"
  by (auto simp: reaches_def intro: set_run.stay)

lemma reaches_trans [trans]: "reaches h cl n S T \<Longrightarrow> reaches h cl n T U \<Longrightarrow> reaches h cl n S U"
  unfolding reaches_def using set_run_append by blast

lemma reaches_turn: "loop_turn h cl n c l st v l' st' \<Longrightarrow> reaches h cl n (alone st c l) (alone st' c l')"
  using turn_run [of 0 "alone st c l" h cl n v l' st'] by (auto simp: reaches_def alone_def)

lemma reaches_cancel: "reaches h cl n (alone st c l) (alone st True (notified l))"
  using set_step.cancel [of h cl n "alone st c l"] set_run.intros
  by (fastforce simp: reaches_def alone_def set_cancel_def)

lemma reaches_asleep: "reaches h cl n (alone st c (Checked flow s d)) (alone st c (Asleep flow s d False))"
  by (rule reaches_turn, rule loop_turn.register)

lemma reaches_woken:
  "reaches h cl n (alone st False (Checked flow s d)) (alone (count_firing (slept d st)) False (Firing flow (ThenSleep s) Null))"
  by (rule reaches_trans [OF reaches_asleep reaches_turn [OF loop_turn.wake]]) simp

lemma reaches_returned:
  assumes "fire h n flow v st = Inr st'"
  shows "reaches h cl n (alone (count_firing st) c (Firing flow k v)) (alone st' c (go_on cl c flow k st'))"
  using assms by (intro reaches_turn [OF loop_turn.return]) (simp add: fire_split)

lemma reaches_stopped:
  assumes "a \<noteq> Slept" "sleep_or_cancel d a st = (b, st')"
  shows "reaches h cl n (alone st False (Checked flow s d)) (alone st' True Finished)"
proof -
  have "reaches h cl n (alone st False (Checked flow s d)) (alone st True (Asleep flow s d True))"
    using reaches_trans [OF reaches_asleep reaches_cancel, of h cl n st False flow s d] by simp
  moreover have "reaches h cl n (alone st True (Asleep flow s d True)) (alone st' True Finished)"
    using assms by (cases a) (auto intro!: reaches_turn loop_turn.wake_cancelled loop_turn.interrupt)
  ultimately show ?thesis by (rule reaches_trans)
qed

text \<open>Where a loop that is run alone ends up, given how \<open>run_schedule\<close> ends.\<close>

definition ends_as :: "host \<Rightarrow> cron_library \<Rightarrow> nat \<Rightarrow> schedule_set \<Rightarrow> loop_end \<Rightarrow> schedule_state \<Rightarrow> bool" where
  "ends_as h cl n S e st \<longleftrightarrow>
     (\<exists>c l. reaches h cl n S (alone st c l) \<and> (e = Stopped \<longleftrightarrow> l = Finished))"

lemma ends_as_finished: "reaches h cl n S (alone st c Finished) \<Longrightarrow> ends_as h cl n S Stopped st"
  by (auto simp: ends_as_def)

lemma ends_as_after: "reaches h cl n S T \<Longrightarrow> ends_as h cl n T e st \<Longrightarrow> ends_as h cl n S e st"
  unfolding ends_as_def using reaches_trans by blast

lemma every_alone:
  "run_every (fire h n flow) d as st = Inr (e, st') \<Longrightarrow>
     ends_as h cl n (alone st False (to_sleep cl False flow (SleepEvery d) st)) e st'"
proof (induction as arbitrary: st)
  case Nil
  then show ?case by (auto simp: ends_as_def to_sleep_def)
next
  case (Cons a as)
  show ?case
  proof (cases "a = Slept")
    case True
    with Cons.prems obtain st1 where st1: "fire h n flow Null (slept d st) = Inr st1"
      "run_every (fire h n flow) d as st1 = Inr (e, st')" by (auto simp: bindR_eq_Inr)
    have "reaches h cl n (alone st False (Checked flow (SleepEvery d) d))
        (alone st1 False (to_sleep cl False flow (SleepEvery d) st1))"
      using reaches_trans [OF reaches_woken reaches_returned [OF st1(1)]] by simp
    with Cons.IH [OF st1(2)] show ?thesis by (simp add: to_sleep_def ends_as_after)
  next
    case False
    with Cons.prems have "sleep_or_cancel d a st = (False, st')" "e = Stopped" by (cases a; auto)+
    with ends_as_finished [OF reaches_stopped [OF False]] show ?thesis by (simp add: to_sleep_def)
  qed
qed

lemma after_alone:
  "run_after (fire h n flow) d as st = Inr (e, st') \<Longrightarrow>
     ends_as h cl n (alone (count_firing st) False (Firing flow (ThenSleep (SleepAfter d)) Null)) e st'"
proof (induction as arbitrary: st)
  case Nil
  then have "fire h n flow Null st = Inr st'" "e = StillWaiting" by (auto simp: bindR_eq_Inr)
  with reaches_returned [OF this(1), of cl False] show ?case by (force simp: ends_as_def to_sleep_def)
next
  case (Cons a as)
  then obtain st1 where st1: "fire h n flow Null st = Inr st1" by (auto simp: bindR_eq_Inr)
  have next_sleep: "reaches h cl n (alone (count_firing st) False (Firing flow (ThenSleep (SleepAfter d)) Null))
      (alone st1 False (Checked flow (SleepAfter d) d))"
    using reaches_returned [OF st1, of cl False "ThenSleep (SleepAfter d)"] by (simp add: to_sleep_def)
  show ?case
  proof (cases "a = Slept")
    case True
    with Cons.prems st1 have "run_after (fire h n flow) d as (slept d st1) = Inr (e, st')" by simp
    from ends_as_after [OF reaches_trans [OF next_sleep reaches_woken] Cons.IH [OF this]] show ?thesis .
  next
    case False
    with Cons.prems st1 have stop: "sleep_or_cancel d a st1 = (False, st')" "e = Stopped" by (cases a; auto)+
    show ?thesis
      unfolding stop(2) by (rule ends_as_finished, rule reaches_trans [OF next_sleep], rule reaches_stopped [OF False stop(1)])
  qed
qed

lemma cron_alone:
  "run_cron cl s (fire h n flow) as st = Inr (e, st') \<Longrightarrow>
     ends_as h cl n (alone st False (to_sleep cl False flow (SleepCron s) st)) e st'"
proof (induction as arbitrary: st)
  case Nil
  then show ?case
    by (subst (asm) run_cron.simps)
       (auto simp: ends_as_def to_sleep_def loop_time_def Let_def split: option.splits)
next
  case (Cons a as)
  let ?now = "loop_time st"
  show ?case
  proof (cases "next_after_epoch cl s ?now")
    case None
    with Cons.prems show ?thesis
      by (subst (asm) run_cron.simps) (auto simp: ends_as_def to_sleep_def loop_time_def Let_def)
  next
    case (Some upcoming)
    let ?d = "cron_delay ?now upcoming"
    have at: "to_sleep cl False flow (SleepCron s) st = Checked flow (SleepCron s) ?d"
      using Some by (simp add: to_sleep_def)
    show ?thesis
    proof (cases "a = Slept")
      case True
      with Cons.prems Some obtain st1 where st1: "fire h n flow Null (slept ?d st) = Inr st1"
        "run_cron cl s (fire h n flow) as st1 = Inr (e, st')"
        by (subst (asm) run_cron.simps) (auto simp: bindR_eq_Inr loop_time_def Let_def)
      have "reaches h cl n (alone st False (Checked flow (SleepCron s) ?d))
          (alone st1 False (to_sleep cl False flow (SleepCron s) st1))"
        using reaches_trans [OF reaches_woken reaches_returned [OF st1(1)]] by simp
      with Cons.IH [OF st1(2)] show ?thesis by (simp add: at ends_as_after)
    next
      case False
      with Cons.prems Some have "sleep_or_cancel ?d a st = (False, st')" "e = Stopped"
        by (subst (asm) run_cron.simps, cases a; auto simp: loop_time_def Let_def)+
      with ends_as_finished [OF reaches_stopped [OF False]] show ?thesis by (simp add: at)
    qed
  qed
qed

lemma events_alone:
  "run_on_events filters (fire h n flow) es fin st = Inr (e, st') \<Longrightarrow>
     ends_as h cl n (alone st False (Receiving flow filters es fin False)) e st'"
proof (induction es arbitrary: st)
  case Nil
  show ?case
  proof (cases "fin \<in> {FeedClosed, FeedCancelled}")
    case True
    have "reaches h cl n (alone st False (Receiving flow filters [] fin False)) (alone st True Finished)"
      if "fin = FeedCancelled"
      using reaches_trans [OF reaches_cancel [of h cl n st False "Receiving flow filters [] fin False", simplified]
          reaches_turn [OF loop_turn.receive_notified]] .
    moreover have "reaches h cl n (alone st False (Receiving flow filters [] fin False)) (alone st False Finished)"
      if "fin = FeedClosed"
      using that by (auto intro!: reaches_turn loop_turn.receive_end)
    moreover have "e = Stopped" "st' = st" using Nil True by auto
    ultimately show ?thesis using True ends_as_finished by blast
  next
    case False
    with Nil show ?thesis by (auto simp: ends_as_def)
  qed
next
  case (Cons x es)
  show ?case
  proof (cases "trigger_accepts x filters")
    case True
    let ?v = "Array [event_envelope x]"
    from True Cons.prems obtain st1 where st1: "fire h n flow ?v st = Inr st1"
      "run_on_events filters (fire h n flow) es fin st1 = Inr (e, st')" by (auto simp: bindR_eq_Inr)
    have "reaches h cl n (alone st False (Receiving flow filters (x # es) fin False))
        (alone (count_firing st) False (Firing flow (ThenReceive filters es fin) ?v))"
      by (rule reaches_turn, rule loop_turn.receive_accepted [OF True])
    also have "reaches h cl n \<dots> (alone st1 False (Receiving flow filters es fin False))"
      using reaches_returned [OF st1(1), of cl False "ThenReceive filters es fin"] by simp
    finally have "reaches h cl n (alone st False (Receiving flow filters (x # es) fin False))
        (alone st1 False (Receiving flow filters es fin False))" .
    with Cons.IH [OF st1(2)] show ?thesis by (simp add: ends_as_after)
  next
    case False
    then have "reaches h cl n (alone st False (Receiving flow filters (x # es) fin False))
        (alone st False (Receiving flow filters es fin False))"
      by (rule reaches_turn [OF loop_turn.receive_other])
    with Cons False show ?thesis by (simp add: ends_as_after)
  qed
qed

lemma run_schedule_alone:
  assumes "run_schedule h cl n flow waits t st = Inr (e, st')"
    and "\<And>k. (\<exists>x. h_subscribe h k = Answer x) \<or> (\<exists>err. h_subscribe h k = Refused err)"
  shows "ends_as h cl n (alone st False (Spawned flow t)) e st'"
proof (cases t)
  case (Every d)
  with assms(1) every_alone show ?thesis
    by (auto intro: ends_as_after [OF reaches_turn [OF loop_turn.poll_every]])
next
  case (After d)
  with assms(1) after_alone show ?thesis
    by (auto intro: ends_as_after [OF reaches_turn [OF loop_turn.poll_after]])
next
  case (Cron ex)
  show ?thesis
  proof (cases "cron_parse cl ex")
    case (Inl err)
    with Cron assms(1) have "e = Stopped" "st' = st" by auto
    with Cron ends_as_finished [OF reaches_turn [OF loop_turn.poll_bad_cron [OF Inl]]] show ?thesis by simp
  next
    case (Inr s)
    with Cron assms(1) cron_alone show ?thesis
      by (auto intro: ends_as_after [OF reaches_turn [OF loop_turn.poll_cron [OF Inr]]])
  qed
next
  case (OnEvents filters)
  from assms(2) [of "w_calls (ss_world st)"] show ?thesis
  proof
    assume "\<exists>x. h_subscribe h (w_calls (ss_world st)) = Answer x"
    then obtain es fin where a: "h_subscribe h (w_calls (ss_world st)) = Answer (es, fin)" by auto
    with OnEvents assms(1) events_alone show ?thesis
      by (auto intro: ends_as_after [OF reaches_turn [OF loop_turn.poll_events [OF a]]])
  next
    assume "\<exists>err. h_subscribe h (w_calls (ss_world st)) = Refused err"
    then obtain err where a: "h_subscribe h (w_calls (ss_world st)) = Refused err" by auto
    with OnEvents assms(1) have "e = Stopped" "st' = subscribed st" by auto
    with OnEvents ends_as_finished [OF reaches_turn [OF loop_turn.poll_refused [OF a]]] show ?thesis by simp
  qed
qed

end
