(* ===== verification/Service.thy ===== *)
theory Service
  imports TaskIO
begin

text \<open>
  The built-in call functions of service.rs: HTTP, OpenAPI, MCP, A2A, AsyncAPI and the gRPC
  gateway.  The HTTP client and the libraries for URLs, JSON bytes and base64 are a parameter.
  An invocation keeps what it sent and published, so that the network policy can be stated.
\<close>

section \<open>The client\<close>

datatype http_body = JsonBody json | TextBody str

record http_request =
  hr_method :: str
  hr_uri :: str
  hr_headers :: "(str, str) amap"
  hr_query :: "(str \<times> str) list option"
  hr_body :: "http_body option"

text \<open>A header without a textual value has none here; the body may fail to arrive.\<close>

record http_response =
  hs_status :: u16
  hs_headers :: "(str \<times> str option) list"
  hs_body :: "str + u8 list"

text \<open>
  A request is told how many were sent before.  \<open>hl_url\<close> gives scheme and host of a URL,
  \<open>hl_method\<close> a method that the client accepts, \<open>hl_visit\<close> the order in which a hash map with
  these keys is visited; errors are texts.
\<close>

record http_library =
  hl_send :: "nat \<Rightarrow> http_request \<Rightarrow> str + http_response"
  hl_response_json :: "http_response \<Rightarrow> str + json"
  hl_from_json :: "u8 list \<Rightarrow> str + json"
  hl_from_utf8 :: "u8 list \<Rightarrow> str option"
  hl_url :: "str \<Rightarrow> str + (str \<times> str option)"
  hl_method :: "str \<Rightarrow> str option"
  hl_uppercase :: "str \<Rightarrow> str"
  hl_base64 :: "u8 list \<Rightarrow> str"
  hl_base64_text :: "str \<Rightarrow> str"
  hl_visit :: "str list \<Rightarrow> str list"
  hl_publish :: "event_message \<Rightarrow> workflow_error + unit"
  hl_subscribe :: "workflow_error + (event_message list \<times> feed_end)"

record net_state =
  ns_sent :: "http_request list"
  ns_published :: "event_message list"

type_synonym 'a net = "net_state \<Rightarrow> (failure + 'a) \<times> net_state"

definition bindN :: "'a net \<Rightarrow> ('a \<Rightarrow> 'b net) \<Rightarrow> 'b net" where
  "bindN m f = (\<lambda>s. case m s of (Inl e, t) \<Rightarrow> (Inl e, t) | (Inr x, t) \<Rightarrow> f x t)"

definition liftN :: "failure + 'a \<Rightarrow> 'a net" where
  "liftN r = (\<lambda>s. (r, s))"

abbreviation okN :: "'a \<Rightarrow> 'a net" where
  "okN x \<equiv> liftN (Inr x)"

definition failN :: "workflow_error \<Rightarrow> 'a net" where
  "failN e = liftN (Inl (Failed e))"

text \<open>An absent value as an error.\<close>

definition require :: "workflow_error \<Rightarrow> 'a option \<Rightarrow> failure + 'a" where
  "require e v = (case v of Some x \<Rightarrow> Inr x | None \<Rightarrow> Inl (Failed e))"

definition send :: "http_library \<Rightarrow> (str \<Rightarrow> workflow_error) \<Rightarrow> http_request \<Rightarrow> http_response net" where
  "send lib failed r = (\<lambda>s.
     ((case hl_send lib (length (ns_sent s)) r of Inr x \<Rightarrow> Inr x | Inl e \<Rightarrow> Inl (Failed (failed e))),
      s\<lparr>ns_sent := ns_sent s @ [r]\<rparr>))"

section \<open>Policy\<close>

definition network_denied :: "runtime_policy \<Rightarrow> str \<times> str option \<Rightarrow> workflow_error option" where
  "network_denied policy url =
     (let (scheme, host) = url; host_name = (case host of Some t \<Rightarrow> t | None \<Rightarrow> []) in
      if \<not> scheme_allowed policy scheme
      then Some (policy_error (lit ''network access to scheme `'' @ scheme @ lit ''` is denied by policy''))
      else if \<not> host_allowed policy host_name
      then Some (policy_error (lit ''network access to host `'' @ host_name @ lit ''` is denied by policy''))
      else None)"

definition enforce_network_policy :: "http_library \<Rightarrow> host \<Rightarrow> str \<Rightarrow> failure + unit" where
  "enforce_network_policy lib h uri =
     (case hl_url lib uri of
        Inl e \<Rightarrow> Inl (Failed (semantic_error (lit ''invalid endpoint uri `'' @ uri @ lit ''`: '' @ e)))
      | Inr url \<Rightarrow>
          (case network_denied (h_policy h) url of Some e \<Rightarrow> Inl (Failed e) | None \<Rightarrow> Inr ()))"

section \<open>Arguments\<close>

definition value_text :: "host \<Rightarrow> json \<Rightarrow> str" where
  "value_text h v = (case as_str v of Some s \<Rightarrow> s | None \<Rightarrow> json_text (h_platform h) v)"

definition str_replace :: "str \<Rightarrow> str \<Rightarrow> str \<Rightarrow> str" where
  "str_replace s pattern new = join_strs new (split_str s pattern)"

definition braced :: "str \<Rightarrow> str" where
  "braced name = [123] @ name @ [125]"

text \<open>The names in braces, from left to right.\<close>

function template_names :: "str \<Rightarrow> str list" where
  "template_names [] = []"
| "template_names (c # s) =
     (if c = 123
      then (case position (\<lambda>c. c = 125) s of
              Some close \<Rightarrow> take close s # template_names (drop (close + 1) s)
            | None \<Rightarrow> template_names s)
      else template_names s)"
  by pat_completeness auto
termination by (relation "measure length") auto

definition expand_uri_template :: "host \<Rightarrow> str \<Rightarrow> json \<Rightarrow> str" where
  "expand_uri_template h uri workflow =
     fold (\<lambda>name out.
         case Option.bind (json_get workflow (lit ''input'')) (\<lambda>i. json_get i name) of
           Some v \<Rightarrow> str_replace out (braced name) (value_text h v)
         | None \<Rightarrow> out)
       (template_names uri) uri"

definition resolve_endpoint :: "host \<Rightarrow> json \<Rightarrow> expr_context \<Rightarrow> failure + str \<times> json option" where
  "resolve_endpoint h endpoint ectx =
     bindR (case endpoint of
              String s \<Rightarrow> Inr (s, None)
            | Object m \<Rightarrow>
                bindR (require (semantic_error (lit ''endpoint object requires a `uri`''))
                    (Option.bind (map_of m (lit ''uri'')) as_str))
                  (\<lambda>uri. Inr (uri, map_of m (lit ''authentication'')))
            | _ \<Rightarrow> Inl (Failed (semantic_error (lit ''http endpoint must be a string or an object''))))
       (\<lambda>(uri_raw, auth).
         bindR (eval_interpolation h (String uri_raw) ectx) (\<lambda>interpolated.
           let uri = (case as_str interpolated of Some u \<Rightarrow> u | None \<Rightarrow> uri_raw)
           in Inr (expand_uri_template h uri (or_null (ec_workflow ectx)), auth)))"

definition text_entries :: "host \<Rightarrow> vmap \<Rightarrow> expr_context \<Rightarrow> failure + (str \<times> str) list" where
  "text_entries h m ectx =
     mapR (\<lambda>(k, v). bindR (eval_interpolation h v ectx) (\<lambda>r. Inr (k, value_text h r))) m"

definition resolve_headers :: "host \<Rightarrow> json option \<Rightarrow> expr_context \<Rightarrow> failure + (str, str) amap" where
  "resolve_headers h headers ectx =
     (case headers of
        Some (Object m) \<Rightarrow> bindR (text_entries h m ectx) (\<lambda>kvs. Inr (map_extend kvs []))
      | _ \<Rightarrow> Inr [])"

definition resolve_query ::
  "host \<Rightarrow> json option \<Rightarrow> expr_context \<Rightarrow> failure + (str \<times> str) list option" where
  "resolve_query h query ectx =
     (case query of
        Some (Object m) \<Rightarrow> bindR (text_entries h m ectx) (\<lambda>kvs. Inr (Some kvs))
      | _ \<Rightarrow> Inr None)"

fun interpolate_body :: "host \<Rightarrow> expr_context \<Rightarrow> json \<Rightarrow> failure + json" where
  "interpolate_body h ectx (Object m) =
     bindR (mapR (\<lambda>(k, v). bindR (interpolate_body h ectx v) (\<lambda>r. Inr (k, r))) m) (\<lambda>kvs.
       Inr (Object (map_extend kvs [])))"
| "interpolate_body h ectx (Array items) =
     bindR (mapR (interpolate_body h ectx) items) (\<lambda>vs. Inr (Array vs))"
| "interpolate_body h ectx (String s) = eval_interpolation h (String s) ectx"
| "interpolate_body h ectx v = Inr v"

definition resolve_body :: "host \<Rightarrow> json option \<Rightarrow> expr_context \<Rightarrow> failure + json option" where
  "resolve_body h body ectx =
     (case body of
        None \<Rightarrow> Inr None
      | Some v \<Rightarrow> bindR (interpolate_body h ectx v) (\<lambda>r. Inr (Some r)))"

definition resolve_optional_str :: "host \<Rightarrow> json option \<Rightarrow> expr_context \<Rightarrow> failure + str" where
  "resolve_optional_str h v ectx =
     (case v of
        None \<Rightarrow> Inr []
      | Some v \<Rightarrow> bindR (eval_interpolation h v ectx) (\<lambda>r. Inr (value_text h r)))"

definition apply_auth ::
  "http_library \<Rightarrow> host \<Rightarrow> json option \<Rightarrow> (str, str) amap \<Rightarrow> expr_context \<Rightarrow> failure + (str, str) amap" where
  "apply_auth lib h auth headers ectx =
     (case auth of
        Some (Object m) \<Rightarrow>
          (case map_of m (lit ''basic'') of
             Some (Object basic) \<Rightarrow>
               bindR (resolve_optional_str h (map_of basic (lit ''username'')) ectx) (\<lambda>username.
               bindR (resolve_optional_str h (map_of basic (lit ''password'')) ectx) (\<lambda>password.
                 Inr (map_insert (lit ''authorization'')
                   (lit ''Basic '' @ hl_base64_text lib (username @ lit '':'' @ password)) headers)))
           | _ \<Rightarrow>
               (case map_of m (lit ''bearer'') of
                  Some (Object bearer) \<Rightarrow>
                    bindR (resolve_optional_str h (map_of bearer (lit ''token'')) ectx) (\<lambda>token.
                      Inr (map_insert (lit ''authorization'') (lit ''Bearer '' @ token) headers))
                | _ \<Rightarrow> Inr headers))
      | _ \<Rightarrow> Inr headers)"

section \<open>Responses\<close>

definition is_json_content_type :: "(str, str) amap \<Rightarrow> bool" where
  "is_json_content_type headers \<longleftrightarrow>
     (case map_of headers (lit ''content-type'') of Some ct \<Rightarrow> str_contains ct (lit ''json'') | None \<Rightarrow> False)"

definition deserialize_body :: "http_library \<Rightarrow> u8 list \<Rightarrow> str \<Rightarrow> json option" where
  "deserialize_body lib bytes content_type =
     (if str_contains content_type (lit ''json'')
      then (case hl_from_json lib bytes of Inr v \<Rightarrow> Some v | Inl e \<Rightarrow> None)
      else map_option String (hl_from_utf8 lib bytes))"

definition response_headers :: "http_response \<Rightarrow> (str, str) amap" where
  "response_headers r =
     map_extend (map (\<lambda>(k, v). (k, case v of Some t \<Rightarrow> t | None \<Rightarrow> [])) (hs_headers r)) []"

definition content_type_of :: "(str, str) amap \<Rightarrow> str" where
  "content_type_of headers =
     (case map_of headers (lit ''content-type'') of Some ct \<Rightarrow> ct | None \<Rightarrow> [])"

definition read_body :: "http_response \<Rightarrow> failure + u8 list" where
  "read_body r =
     (case hs_body r of
        Inr bytes \<Rightarrow> Inr bytes
      | Inl e \<Rightarrow> Inl (Failed (communication_error 500 (lit ''failed to read response: '' @ e))))"

definition success_status :: "u16 \<Rightarrow> bool" where
  "success_status st \<longleftrightarrow> 200 \<le> unat st \<and> unat st < 300"

definition headers_value :: "(str, str) amap \<Rightarrow> json" where
  "headers_value m = Object (map (\<lambda>(k, v). (k, String v)) m)"

definition response_value ::
  "str \<Rightarrow> str \<Rightarrow> (str, str) amap \<Rightarrow> (str, str) amap \<Rightarrow> u16 \<Rightarrow> json option \<Rightarrow> json" where
  "response_value verb uri request_headers headers st content =
     Object (map_insert (lit ''request'') (Object (map_insert (lit ''method'') (String verb)
                (map_insert (lit ''uri'') (String uri)
                (map_insert (lit ''headers'') (headers_value request_headers) []))))
            (map_insert (lit ''headers'') (headers_value headers)
            (map_insert (lit ''statusCode'') (Number (PosInt (ucast st)))
            (map_insert (lit ''content'') (or_null content) []))))"

definition raw_value :: "http_library \<Rightarrow> u8 list \<Rightarrow> json" where
  "raw_value lib bytes = Object (map_insert (lit ''content'') (String (hl_base64 lib bytes)) [])"

definition shape_response ::
  "http_library \<Rightarrow> str \<Rightarrow> str \<Rightarrow> (str, str) amap \<Rightarrow> u16 \<Rightarrow> (str, str) amap \<Rightarrow> str \<Rightarrow> u8 list \<Rightarrow> str \<Rightarrow> json" where
  "shape_response lib uri verb request_headers st headers content_type bytes output =
     (let content = deserialize_body lib bytes content_type in
      if output = lit ''response'' then response_value verb uri request_headers headers st content
      else or_null content)"

definition output_mode :: "(str \<Rightarrow> json option) \<Rightarrow> str" where
  "output_mode args =
     (case Option.bind (args (lit ''output'')) as_str of Some s \<Rightarrow> s | None \<Rightarrow> lit ''content'')"

definition accepted_method :: "http_library \<Rightarrow> str \<Rightarrow> str" where
  "accepted_method lib verb = (case hl_method lib verb of Some v \<Rightarrow> v | None \<Rightarrow> lit ''GET'')"

section \<open>HTTP\<close>

definition request_body :: "host \<Rightarrow> (str, str) amap \<Rightarrow> json option \<Rightarrow> http_body option" where
  "request_body h headers body =
     map_option (\<lambda>b. if is_json_content_type headers then JsonBody b
       else TextBody (json_text (h_platform h) b)) body"

definition http_result ::
  "http_library \<Rightarrow> (str \<Rightarrow> json option) \<Rightarrow> http_request \<Rightarrow> str \<Rightarrow> http_response \<Rightarrow> u8 list \<Rightarrow> failure + json" where
  "http_result lib args req verb r bytes =
     (let st = hs_status r;
          headers = response_headers r;
          redirect = Option.bind (args (lit ''redirect'')) (\<lambda>v. case v of Bool b \<Rightarrow> Some b | _ \<Rightarrow> None) = Some True;
          success = (if redirect then 200 \<le> unat st \<and> unat st < 400 else success_status st);
          content = deserialize_body lib bytes (content_type_of headers)
      in if \<not> success
         then Inl (Failed (communication_error st (lit ''http request returned status '' @ nat_str (unat st))))
         else if output_mode args = lit ''raw'' then Inr (raw_value lib bytes)
         else if output_mode args = lit ''response''
         then Inr (response_value verb (hr_uri req) (hr_headers req) headers st content)
         else Inr (or_null content))"

definition invoke_http ::
  "http_library \<Rightarrow> host \<Rightarrow> (str \<Rightarrow> json option) \<Rightarrow> expr_context \<Rightarrow> json net" where
  "invoke_http lib h args ectx =
     bindN (liftN (require (semantic_error (lit ''http call requires a `method`''))
       (Option.bind (args (lit ''method'')) as_str))) (\<lambda>m.
     bindN (liftN (require (semantic_error (lit ''http call requires an `endpoint`''))
       (args (lit ''endpoint'')))) (\<lambda>endpoint.
     bindN (liftN (resolve_endpoint h endpoint ectx)) (\<lambda>(uri, auth).
     bindN (liftN (enforce_network_policy lib h uri)) (\<lambda>_.
     bindN (liftN (resolve_headers h (args (lit ''headers'')) ectx)) (\<lambda>plain.
     bindN (liftN (apply_auth lib h auth plain ectx)) (\<lambda>headers.
     bindN (liftN (resolve_body h (args (lit ''body'')) ectx)) (\<lambda>body.
     bindN (liftN (resolve_query h (args (lit ''query'')) ectx)) (\<lambda>query.
       let verb = hl_uppercase lib m;
           req = \<lparr>hr_method = accepted_method lib verb, hr_uri = uri, hr_headers = headers,
                  hr_query = query, hr_body = request_body h headers body\<rparr>
       in bindN (send lib (\<lambda>e. communication_error 500 (lit ''http request failed: '' @ e)) req) (\<lambda>r.
          bindN (liftN (read_body r)) (\<lambda>bytes.
            liftN (http_result lib args req verb r bytes)))))))))))"

section \<open>OpenAPI\<close>

definition document_uri :: "(str \<Rightarrow> json option) \<Rightarrow> failure + str" where
  "document_uri args =
     bindR (require (semantic_error (lit ''openapi call requires a document endpoint''))
        (Option.bind (args (lit ''document'')) (\<lambda>d. json_get d (lit ''endpoint'')))) (\<lambda>document.
       case document of
         String s \<Rightarrow> Inr s
       | Object m \<Rightarrow> require (semantic_error (lit ''openapi document endpoint requires a uri''))
           (Option.bind (map_of m (lit ''uri'')) as_str)
       | _ \<Rightarrow> Inl (Failed (semantic_error (lit ''openapi document endpoint must be a string or object''))))"

definition path_methods :: "str list" where
  "path_methods = map lit [''get'', ''post'', ''put'', ''patch'', ''delete'', ''options'', ''head'']"

definition has_operation :: "str \<Rightarrow> vmap \<Rightarrow> str \<Rightarrow> bool" where
  "has_operation operation_id item verb \<longleftrightarrow>
     Option.bind (Option.bind (map_of item verb) (\<lambda>op. json_get op (lit ''operationId''))) as_str
       = Some operation_id"

text \<open>A path whose item is no object ends the search.\<close>

fun find_in_paths :: "str \<Rightarrow> vmap \<Rightarrow> (str \<times> str) option" where
  "find_in_paths operation_id [] = None"
| "find_in_paths operation_id ((path, item) # paths) =
     (case item of
        Object m \<Rightarrow>
          (case find (has_operation operation_id m) path_methods of
             Some verb \<Rightarrow> Some (verb, path)
           | None \<Rightarrow> find_in_paths operation_id paths)
      | _ \<Rightarrow> None)"

definition find_operation :: "json \<Rightarrow> str \<Rightarrow> (str \<times> str) option" where
  "find_operation spec operation_id =
     (case json_get spec (lit ''paths'') of
        Some (Object paths) \<Rightarrow> find_in_paths operation_id paths
      | _ \<Rightarrow> None)"

definition server_url :: "json \<Rightarrow> str \<Rightarrow> str" where
  "server_url spec doc_uri =
     (case json_get spec (lit ''servers'') of
        Some (Array (s # _)) \<Rightarrow>
          (case Option.bind (json_get s (lit ''url'')) as_str of Some u \<Rightarrow> u | None \<Rightarrow> doc_uri)
      | _ \<Rightarrow> doc_uri)"

definition interpolate_params :: "host \<Rightarrow> vmap \<Rightarrow> expr_context \<Rightarrow> failure + (str \<times> json) list" where
  "interpolate_params h params ectx =
     mapR (\<lambda>(k, v). bindR (eval_interpolation h v ectx) (\<lambda>r. Inr (k, r))) params"

definition visited :: "http_library \<Rightarrow> (str \<times> 'a) list \<Rightarrow> (str \<times> 'a) list" where
  "visited lib m = List.map_filter (\<lambda>k. map_option (Pair k) (map_of m k)) (hl_visit lib (map fst m))"

definition trim_slashes :: "str \<Rightarrow> str" where
  "trim_slashes s = rev (dropWhile (\<lambda>c. c = 47) (rev s))"

definition operation_url :: "http_library \<Rightarrow> str \<Rightarrow> str \<Rightarrow> (str \<times> str) list \<Rightarrow> str" where
  "operation_url lib server path path_params =
     fold (\<lambda>(k, v) url. str_replace url (braced k) v) (visited lib path_params) (trim_slashes server @ path)"

definition operation_request ::
  "http_library \<Rightarrow> host \<Rightarrow> str \<Rightarrow> str \<Rightarrow> str \<Rightarrow> (str \<times> json) list \<Rightarrow> http_request" where
  "operation_request lib h server verb path params =
     (let entries = map (\<lambda>(k, v). (k, value_text h v)) (visited lib params);
          (path_params, query) = partition (\<lambda>(k, v). str_contains path (braced k)) entries
      in \<lparr>hr_method = accepted_method lib (hl_uppercase lib verb),
          hr_uri = operation_url lib server path path_params, hr_headers = [],
          hr_query = (if query = [] then None else Some query), hr_body = None\<rparr>)"

text \<open>The headers of the answer also stand for those of the request.\<close>

definition openapi_result ::
  "http_library \<Rightarrow> (str \<Rightarrow> json option) \<Rightarrow> http_request \<Rightarrow> http_response \<Rightarrow> u8 list \<Rightarrow> failure + json" where
  "openapi_result lib args req r bytes =
     (let st = hs_status r;
          headers = response_headers r;
          content = deserialize_body lib bytes (content_type_of headers)
      in if \<not> success_status st
         then Inl (Failed (communication_error st (lit ''openapi call returned status '' @ nat_str (unat st))))
         else if output_mode args = lit ''response''
         then Inr (response_value (hr_method req) (hr_uri req) headers headers st content)
         else if output_mode args = lit ''raw'' then Inr (raw_value lib bytes)
         else Inr (or_null content))"

definition get_request :: "str \<Rightarrow> http_request" where
  "get_request uri = \<lparr>hr_method = lit ''GET'', hr_uri = uri, hr_headers = [], hr_query = None, hr_body = None\<rparr>"

text \<open>Fetching a document: \<open>kind\<close> is the name in the messages.\<close>

definition fetch_document :: "http_library \<Rightarrow> str \<Rightarrow> str \<Rightarrow> json net" where
  "fetch_document lib kind uri =
     bindN (send lib (\<lambda>e. communication_error 500 (lit ''failed to fetch '' @ kind @ lit '' document: '' @ e))
       (get_request uri)) (\<lambda>r.
     liftN (case hl_response_json lib r of
              Inr v \<Rightarrow> Inr v
            | Inl e \<Rightarrow> Inl (Failed (communication_error 500
                (lit ''failed to parse '' @ kind @ lit '' document: '' @ e)))))"

definition object_or_empty :: "json option \<Rightarrow> vmap" where
  "object_or_empty v = (case v of Some (Object m) \<Rightarrow> m | _ \<Rightarrow> [])"

definition invoke_openapi ::
  "http_library \<Rightarrow> host \<Rightarrow> (str \<Rightarrow> json option) \<Rightarrow> expr_context \<Rightarrow> json net" where
  "invoke_openapi lib h args ectx =
     bindN (liftN (document_uri args)) (\<lambda>doc_uri.
     bindN (liftN (require (semantic_error (lit ''openapi call requires an operationId''))
       (Option.bind (args (lit ''operationId'')) as_str))) (\<lambda>operation_id.
     bindN (liftN (enforce_network_policy lib h doc_uri)) (\<lambda>_.
     bindN (fetch_document lib (lit ''openapi'') doc_uri) (\<lambda>spec.
     bindN (liftN (require (semantic_error (lit ''operationId `'' @ operation_id @ lit ''` not found in document''))
       (find_operation spec operation_id))) (\<lambda>(verb, path).
     bindN (liftN (interpolate_params h (object_or_empty (args (lit ''parameters''))) ectx)) (\<lambda>params.
       let req = operation_request lib h (server_url spec doc_uri) verb path params
       in bindN (send lib (\<lambda>e. communication_error 500 (lit ''openapi call failed: '' @ e)) req) (\<lambda>r.
          bindN (liftN (read_body r)) (\<lambda>bytes.
            liftN (openapi_result lib args req r bytes)))))))))"

section \<open>JSON over POST: MCP, A2A and the gRPC gateway\<close>

definition send_json_request ::
  "http_library \<Rightarrow> str \<Rightarrow> (str, str) amap \<Rightarrow> json \<Rightarrow> (u16 \<times> (str, str) amap \<times> str \<times> u8 list) net" where
  "send_json_request lib uri headers body =
     bindN (send lib (\<lambda>e. communication_error 500 (lit ''request to `'' @ uri @ lit ''` failed: '' @ e))
       \<lparr>hr_method = lit ''POST'', hr_uri = uri, hr_headers = headers, hr_query = None,
        hr_body = Some (JsonBody body)\<rparr>) (\<lambda>r.
     bindN (liftN (read_body r)) (\<lambda>bytes.
       okN (hs_status r, response_headers r, content_type_of (response_headers r), bytes)))"

record post_result =
  po_uri :: str
  po_request_headers :: "(str, str) amap"
  po_status :: u16
  po_headers :: "(str, str) amap"
  po_content_type :: str
  po_bytes :: "u8 list"

definition post_checked ::
  "http_library \<Rightarrow> str \<Rightarrow> str \<Rightarrow> (str, str) amap \<Rightarrow> json \<Rightarrow> post_result net" where
  "post_checked lib text uri headers body =
     bindN (send_json_request lib uri headers body) (\<lambda>(st, resp_headers, content_type, bytes).
       if \<not> success_status st
       then failN (communication_error st (text @ lit '' returned status '' @ nat_str (unat st)))
       else okN \<lparr>po_uri = uri, po_request_headers = headers, po_status = st, po_headers = resp_headers,
              po_content_type = content_type, po_bytes = bytes\<rparr>)"

definition shape_post :: "http_library \<Rightarrow> post_result \<Rightarrow> str \<Rightarrow> json" where
  "shape_post lib p output =
     shape_response lib (po_uri p) (lit ''post'') (po_request_headers p) (po_status p) (po_headers p)
       (po_content_type p) (po_bytes p) output"

text \<open>What the three have in common: the endpoint, the policy, the headers and the request.\<close>

definition post_json ::
  "http_library \<Rightarrow> host \<Rightarrow> str \<Rightarrow> (str \<Rightarrow> json option) \<Rightarrow> expr_context \<Rightarrow> json \<Rightarrow> post_result net" where
  "post_json lib h kind args ectx body =
     bindN (liftN (require (semantic_error (kind @ lit '' call requires an `endpoint`''))
       (args (lit ''endpoint'')))) (\<lambda>endpoint.
     bindN (liftN (resolve_endpoint h endpoint ectx)) (\<lambda>(uri, auth).
     bindN (liftN (enforce_network_policy lib h uri)) (\<lambda>_.
     bindN (liftN (resolve_headers h (args (lit ''headers'')) ectx)) (\<lambda>plain.
     bindN (liftN (apply_auth lib h auth
       (map_insert (lit ''content-type'') (lit ''application/json'') plain) ectx)) (\<lambda>headers.
       post_checked lib (kind @ lit '' call'') uri headers body)))))"

definition rpc_request :: "str \<Rightarrow> json \<Rightarrow> json" where
  "rpc_request verb params =
     Object (map_insert (lit ''jsonrpc'') (String (lit ''2.0''))
            (map_insert (lit ''id'') (json_of_nat 1)
            (map_insert (lit ''method'') (String verb)
            (map_insert (lit ''params'') params []))))"

definition rpc_result :: "http_library \<Rightarrow> host \<Rightarrow> str \<Rightarrow> post_result \<Rightarrow> failure + json" where
  "rpc_result lib h kind p =
     (case hl_from_json lib (po_bytes p) of
        Inl e \<Rightarrow> Inl (Failed (communication_error 500 (lit ''invalid '' @ kind @ lit '' json-rpc response: '' @ e)))
      | Inr envelope \<Rightarrow>
          (case json_get envelope (lit ''error'') of
             Some err \<Rightarrow>
               if err \<noteq> Null
               then Inl (Failed (communication_error (po_status p)
                 (kind @ lit '' json-rpc error: '' @ json_text (h_platform h) err)))
               else Inr (or_null (json_get envelope (lit ''result'')))
           | None \<Rightarrow> Inr (or_null (json_get envelope (lit ''result'')))))"

definition text_of_item :: "json \<Rightarrow> str option" where
  "text_of_item i =
     (if Option.bind (json_get i (lit ''type'')) as_str = Some (lit ''text'')
      then Option.bind (json_get i (lit ''text'')) as_str else None)"

definition mcp_content :: "json \<Rightarrow> json" where
  "mcp_content result =
     (case json_get result (lit ''content'') of
        Some (Array items) \<Rightarrow>
          (let texts = List.map_filter text_of_item items
           in if texts = [] then result else String (join_strs [10] texts))
      | _ \<Rightarrow> result)"

definition invoke_mcp ::
  "http_library \<Rightarrow> host \<Rightarrow> (str \<Rightarrow> json option) \<Rightarrow> expr_context \<Rightarrow> json net" where
  "invoke_mcp lib h args ectx =
     bindN (liftN (require (semantic_error (lit ''mcp call requires a `tool`''))
       (Option.bind (args (lit ''tool'')) as_str))) (\<lambda>tool.
       let arguments = (case args (lit ''arguments'') of Some v \<Rightarrow> v | None \<Rightarrow> Object []);
           params = Object (map_insert (lit ''name'') (String tool) (map_insert (lit ''arguments'') arguments []))
       in bindN (post_json lib h (lit ''mcp'') args ectx (rpc_request (lit ''tools/call'') params)) (\<lambda>p.
          bindN (liftN (rpc_result lib h (lit ''mcp'') p)) (\<lambda>result.
            if output_mode args = lit ''response'' then okN (shape_post lib p (lit ''response''))
            else okN (mcp_content result))))"

definition invoke_a2a ::
  "http_library \<Rightarrow> host \<Rightarrow> (str \<Rightarrow> json option) \<Rightarrow> expr_context \<Rightarrow> json net" where
  "invoke_a2a lib h args ectx =
     (let verb = (case Option.bind (args (lit ''method'')) as_str of Some s \<Rightarrow> s | None \<Rightarrow> lit ''message/send'');
          params = (case args (lit ''params'') of
                      Some v \<Rightarrow> v
                    | None \<Rightarrow> (case args (lit ''message'') of Some v \<Rightarrow> v | None \<Rightarrow> Object []))
      in bindN (post_json lib h (lit ''a2a'') args ectx (rpc_request verb params)) (\<lambda>p.
         bindN (liftN (rpc_result lib h (lit ''a2a'') p)) (\<lambda>result.
           if output_mode args = lit ''response'' then okN (shape_post lib p (lit ''response''))
           else okN result)))"

definition invoke_grpc ::
  "http_library \<Rightarrow> host \<Rightarrow> (str \<Rightarrow> json option) \<Rightarrow> expr_context \<Rightarrow> json net" where
  "invoke_grpc lib h args ectx =
     bindN (post_json lib h (lit ''grpc'') args ectx (or_null (args (lit ''message'')))) (\<lambda>p.
       okN (shape_post lib p (output_mode args)))"

section \<open>AsyncAPI\<close>

record asyncapi_target =
  at_channel :: str
  at_path :: str
  at_kind :: str

definition target_of :: "str \<Rightarrow> str \<Rightarrow> json \<Rightarrow> str \<Rightarrow> asyncapi_target option" where
  "target_of operation_id name chan kind =
     (case json_get chan kind of
        None \<Rightarrow> None
      | Some op \<Rightarrow>
          (let op_id = (case Option.bind (json_get op (lit ''operationId'')) as_str of Some s \<Rightarrow> s | None \<Rightarrow> []);
               path = Option.bind (Option.bind (Option.bind (json_get chan (lit ''bindings''))
                 (\<lambda>b. json_get b (lit ''http''))) (\<lambda>b. json_get b (lit ''path''))) as_str
           in if operation_id \<noteq> [] \<and> op_id \<noteq> operation_id then None
              else Some \<lparr>at_channel = name, at_path = (case path of Some p \<Rightarrow> p | None \<Rightarrow> []), at_kind = kind\<rparr>))"

fun resolve_asyncapi_operation :: "vmap \<Rightarrow> str \<Rightarrow> str \<Rightarrow> failure + asyncapi_target" where
  "resolve_asyncapi_operation [] operation_id channel_name =
     Inl (Failed (semantic_error (lit ''asyncapi operation not found in document'')))"
| "resolve_asyncapi_operation ((name, chan) # channels) operation_id channel_name =
     (if channel_name \<noteq> [] \<and> name \<noteq> channel_name
      then resolve_asyncapi_operation channels operation_id channel_name
      else
        (case List.map_filter (target_of operation_id name chan) [lit ''publish'', lit ''subscribe''] of
           t # _ \<Rightarrow> Inr t
         | [] \<Rightarrow> resolve_asyncapi_operation channels operation_id channel_name))"

definition asyncapi_document :: "http_library \<Rightarrow> host \<Rightarrow> json \<Rightarrow> json net" where
  "asyncapi_document lib h endpoint =
     (case endpoint of
        String uri \<Rightarrow>
          bindN (liftN (enforce_network_policy lib h uri)) (\<lambda>_. fetch_document lib (lit ''asyncapi'') uri)
      | other \<Rightarrow> okN other)"

text \<open>The subscription's filter: an error is no match.\<close>

definition filter_accepts ::
  "host \<Rightarrow> compiled_expression option \<Rightarrow> vmap \<Rightarrow> event_message \<Rightarrow> failure + bool" where
  "filter_accepts h compiled vars e =
     (case compiled of
        None \<Rightarrow> Inr True
      | Some c \<Rightarrow>
          (case engine_evaluate (h_platform h) c (or_null (em_data e)) vars of
             Inr v \<Rightarrow> Inr (v \<noteq> Bool False \<and> v \<noteq> Null)
           | Inl (EngineError e) \<Rightarrow> Inr False
           | Inl (EnginePanic m) \<Rightarrow> Inl (Panicked m)))"

definition matching_events ::
  "host \<Rightarrow> compiled_expression option \<Rightarrow> vmap \<Rightarrow> event_message list \<Rightarrow> failure + event_message list" where
  "matching_events h compiled vars es =
     flat_mapR (\<lambda>e. bindR (filter_accepts h compiled vars e) (\<lambda>b. Inr (if b then [e] else []))) es"

text \<open>Receiving: a subscription that has ended gives what there is, one that stays silent never returns.\<close>

definition receive :: "nat \<Rightarrow> event_message list \<Rightarrow> feed_end \<Rightarrow> failure + event_message list" where
  "receive count es fin =
     (if count \<le> length es then Inr (take count es)
      else
        (case fin of
           FeedClosed \<Rightarrow> Inr es
         | FeedExpires k \<Rightarrow> Inl (Elapsed k)
         | FeedAbandoned \<Rightarrow> Inl Abandoned
         | _ \<Rightarrow> Inl Hung))"

definition consume_count :: "(str \<Rightarrow> json option) \<Rightarrow> nat" where
  "consume_count args =
     (let nested = Option.bind (Option.bind (Option.bind (args (lit ''subscription''))
            (\<lambda>s. json_get s (lit ''consume''))) (\<lambda>c. json_get c (lit ''count''))) value_as_u64;
          plain = Option.bind (args (lit ''count'')) value_as_u64
      in max 1 (case nested of Some n \<Rightarrow> unat n
                | None \<Rightarrow> (case plain of Some n \<Rightarrow> unat n | None \<Rightarrow> 1)))"

definition consumed_value :: "nat \<Rightarrow> str \<Rightarrow> event_message list \<Rightarrow> json" where
  "consumed_value count read es =
     (let vs = map (\<lambda>e. read_event e read) es
      in if count = 1 then (case vs of v # _ \<Rightarrow> v | [] \<Rightarrow> Null) else Array vs)"

definition publish_message :: "http_library \<Rightarrow> event_message \<Rightarrow> unit net" where
  "publish_message lib e = (\<lambda>s.
     case hl_publish lib e of
       Inl err \<Rightarrow> (Inl (Failed err), s)
     | Inr u \<Rightarrow> (Inr (), s\<lparr>ns_published := ns_published s @ [e]\<rparr>))"

definition fresh_event_id :: "host \<Rightarrow> str net" where
  "fresh_event_id h = (\<lambda>s. (Inr (h_uuid h (length (ns_published s))), s))"

definition invoke_broker ::
  "http_library \<Rightarrow> host \<Rightarrow> asyncapi_target \<Rightarrow> (str \<Rightarrow> json option) \<Rightarrow> expr_context \<Rightarrow> json net" where
  "invoke_broker lib h target args ectx =
     (if at_kind target = lit ''publish''
      then
        (let type_name = (case Option.bind (args (lit ''type'')) as_str of Some t \<Rightarrow> t | None \<Rightarrow> at_channel target);
             message = (case args (lit ''message'') of Some v \<Rightarrow> v | None \<Rightarrow> Object [])
         in bindN (fresh_event_id h) (\<lambda>i.
            bindN (publish_message lib ((event_message_new i (at_channel target) type_name)\<lparr>em_data := Some message\<rparr>)) (\<lambda>_.
              okN (Object (map_insert (lit ''channel'') (String (at_channel target))
                          (map_insert (lit ''type'') (String type_name)
                          (map_insert (lit ''published'') (Bool True) [])))))))
      else
        (let source = Option.bind (Option.bind (args (lit ''subscription'')) (\<lambda>s. json_get s (lit ''filter''))) as_str;
             read = (case Option.bind (args (lit ''read'')) as_str of Some r \<Rightarrow> r | None \<Rightarrow> lit ''data'')
         in bindN (liftN (case source of
                    None \<Rightarrow> Inr None
                  | Some src \<Rightarrow> bindR (engine_result None (engine_compile (h_platform h) src)) (\<lambda>c. Inr (Some c)))) (\<lambda>compiled.
            bindN (liftN (case hl_subscribe lib of Inl e \<Rightarrow> Inl (Failed e) | Inr feed \<Rightarrow> Inr feed)) (\<lambda>(delivered, fin).
            bindN (liftN (matching_events h compiled (as_variable_map ectx) delivered)) (\<lambda>es.
            bindN (liftN (receive (consume_count args) es fin)) (\<lambda>received.
              okN (consumed_value (consume_count args) read received)))))))"

definition http_server :: "json \<Rightarrow> str option" where
  "http_server v =
     (case Option.bind (json_get v (lit ''url'')) as_str of
        Some u \<Rightarrow> if starts_with u (lit ''http'') then Some u else None
      | None \<Rightarrow> None)"

definition channel_uri :: "(str \<Rightarrow> json option) \<Rightarrow> json \<Rightarrow> asyncapi_target \<Rightarrow> str" where
  "channel_uri args document target =
     (let override = (case args (lit ''endpoint'') of
            Some (Object m) \<Rightarrow>
              (case map_of m (lit ''uri'') of
                 Some u \<Rightarrow> (case as_str u of Some t \<Rightarrow> t | None \<Rightarrow> [])
               | None \<Rightarrow> [])
          | Some (String s) \<Rightarrow> s
          | _ \<Rightarrow> []);
          from_server = (case json_get document (lit ''servers'') of
            Some (Object m) \<Rightarrow>
              (case List.map_filter (\<lambda>(k, v). http_server v) m of
                 u # _ \<Rightarrow> trim_slashes u @ at_path target
               | [] \<Rightarrow> [])
          | _ \<Rightarrow> []);
          uri = (if override = [] then from_server else override)
      in if uri = [] then dropWhile (\<lambda>c. c = 47) (at_channel target) @ lit ''/'' else uri)"

definition invoke_asyncapi ::
  "http_library \<Rightarrow> host \<Rightarrow> (str \<Rightarrow> json option) \<Rightarrow> expr_context \<Rightarrow> json net" where
  "invoke_asyncapi lib h args ectx =
     bindN (liftN (require (semantic_error (lit ''asyncapi call requires a `document`''))
       (case args (lit ''document'') of Some v \<Rightarrow> Some v | None \<Rightarrow> args (lit ''spec'')))) (\<lambda>doc.
     bindN (asyncapi_document lib h (case json_get doc (lit ''endpoint'') of Some e \<Rightarrow> e | None \<Rightarrow> doc)) (\<lambda>document.
     bindN (liftN (require (semantic_error (lit ''asyncapi document has no channels''))
       (case json_get document (lit ''channels'') of Some (Object m) \<Rightarrow> Some m | _ \<Rightarrow> None))) (\<lambda>channels.
     bindN (liftN (resolve_asyncapi_operation channels
       (case Option.bind (args (lit ''operationId'')) as_str of Some s \<Rightarrow> s | None \<Rightarrow> [])
       (case Option.bind (args (lit ''channel'')) as_str of Some s \<Rightarrow> s | None \<Rightarrow> []))) (\<lambda>target.
       if Option.bind (args (lit ''transport'')) (\<lambda>t. json_get t (lit ''broker'')) \<noteq> None
          \<or> args (lit ''broker'') \<noteq> None
       then invoke_broker lib h target args ectx
       else
         (let uri = channel_uri args document target;
              message = (case args (lit ''message'') of Some v \<Rightarrow> v | None \<Rightarrow> Object [])
          in bindN (liftN (enforce_network_policy lib h uri)) (\<lambda>_.
             bindN (liftN (resolve_headers h (args (lit ''headers'')) ectx)) (\<lambda>headers.
             bindN (post_checked lib (lit ''asyncapi publish'') uri
               (map_insert (lit ''content-type'') (lit ''application/json'') headers) message) (\<lambda>p.
               okN (shape_post lib p (output_mode args))))))))))"

section \<open>The built-in functions\<close>

type_synonym builtin = "http_library \<Rightarrow> host \<Rightarrow> (str \<Rightarrow> json option) \<Rightarrow> expr_context \<Rightarrow> json net"

text \<open>A function that the embedder registered under the name takes precedence.\<close>

definition builtin_functions :: "(str \<times> builtin) list" where
  "builtin_functions =
     [(lit ''http'', invoke_http), (lit ''openapi'', invoke_openapi), (lit ''mcp'', invoke_mcp),
      (lit ''a2a'', invoke_a2a), (lit ''asyncapi'', invoke_asyncapi), (lit ''grpc'', invoke_grpc)]"

definition installed_functions :: "(str \<Rightarrow> builtin option) \<Rightarrow> str \<Rightarrow> builtin option" where
  "installed_functions registered name =
     (case registered name of Some f \<Rightarrow> Some f | None \<Rightarrow> map_of builtin_functions name)"

end
