(* ===== verification/ServiceLaws.thy ===== *)
theory ServiceLaws
  imports Service
begin

text \<open>
  What the built-in functions send: the network policy covers every request of every function
  but OpenAPI's second one, and nothing is sent where the network is off.
\<close>

section \<open>Sequencing\<close>

named_theorems net_simps \<open>evaluation rules of invocations\<close>

lemma bindN_liftN [net_simps]:
  "bindN (liftN (Inr x)) f s = f x s" "bindN (liftN (Inl e)) f s = (Inl e, s)"
  by (simp_all add: bindN_def liftN_def)

lemma liftN_apply [net_simps]: "liftN r s = (r, s)"
  by (simp add: liftN_def)

lemma failN_apply [net_simps]: "failN e s = (Inl (Failed e), s)"
  by (simp add: failN_def liftN_def)

section \<open>Requests within a bound\<close>

text \<open>Every request that a run adds satisfies the predicate.\<close>

definition sends_only :: "(http_request \<Rightarrow> bool) \<Rightarrow> 'a net \<Rightarrow> bool" where
  "sends_only P m \<longleftrightarrow> (\<forall>s. \<exists>qs. ns_sent (snd (m s)) = ns_sent s @ qs \<and> list_all P qs)"

lemma sends_onlyD: "sends_only P m \<Longrightarrow> m s = (r, t) \<Longrightarrow> \<exists>qs. ns_sent t = ns_sent s @ qs \<and> list_all P qs"
  by (metis sends_only_def snd_conv)

lemma sends_only_liftN [simp]: "sends_only P (liftN r)"
  by (simp add: sends_only_def liftN_def)

lemma sends_only_failN [simp]: "sends_only P (failN e)"
  by (simp add: failN_def)

lemma sends_only_send: "P r \<Longrightarrow> sends_only P (send lib failed r)"
  by (simp add: sends_only_def send_def)

lemma sends_only_bindN:
  assumes "sends_only P m" "\<And>s x t. m s = (Inr x, t) \<Longrightarrow> sends_only P (f x)"
  shows "sends_only P (bindN m f)"
  unfolding sends_only_def
proof
  fix s
  obtain r t where m: "m s = (r, t)" by (cases "m s")
  from sends_onlyD [OF assms(1) m] obtain qs where qs: "ns_sent t = ns_sent s @ qs" "list_all P qs" by blast
  show "\<exists>qs. ns_sent (snd (bindN m f s)) = ns_sent s @ qs \<and> list_all P qs"
  proof (cases r)
    case (Inl e)
    with m qs show ?thesis by (simp add: bindN_def)
  next
    case (Inr x)
    obtain r' u where f: "f x t = (r', u)" by (cases "f x t")
    from sends_onlyD [OF assms(2) [OF m [unfolded Inr]] f] obtain qs' where
      "ns_sent u = ns_sent t @ qs'" "list_all P qs'" by blast
    with qs m f Inr show ?thesis by (auto simp: bindN_def)
  qed
qed

lemma sends_only_bind_liftN:
  "(\<And>x. r = Inr x \<Longrightarrow> sends_only P (f x)) \<Longrightarrow> sends_only P (bindN (liftN r) f)"
  by (rule sends_only_bindN, simp, simp add: liftN_def)

lemma sends_only_prod: "(\<And>a b. p = (a, b) \<Longrightarrow> sends_only P (f a b)) \<Longrightarrow> sends_only P (case p of (a, b) \<Rightarrow> f a b)"
  by (cases p) simp

lemma sends_only_if: "(b \<Longrightarrow> sends_only P m) \<Longrightarrow> (\<not> b \<Longrightarrow> sends_only P m') \<Longrightarrow> sends_only P (if b then m else m')"
  by simp

lemmas sends_only_intros = sends_only_liftN sends_only_failN sends_only_bind_liftN sends_only_prod sends_only_if

section \<open>The network policy\<close>

text \<open>What the code of the policy admits; empty lists restrict nothing.\<close>

definition permitted :: "http_library \<Rightarrow> host \<Rightarrow> http_request \<Rightarrow> bool" where
  "permitted lib h r \<longleftrightarrow>
     (case hl_url lib (hr_uri r) of
        Inr (scheme, host) \<Rightarrow> scheme_allowed (h_policy h) scheme
          \<and> host_allowed (h_policy h) (case host of Some t \<Rightarrow> t | None \<Rightarrow> [])
      | Inl e \<Rightarrow> False)"

lemma enforced_permitted:
  "enforce_network_policy lib h uri = Inr u \<Longrightarrow> hr_uri r = uri \<Longrightarrow> permitted lib h r"
  by (auto simp: enforce_network_policy_def permitted_def network_denied_def Let_def
      split: sum.splits option.splits if_splits)

lemma send_after_check:
  "enforce_network_policy lib h uri = Inr u \<Longrightarrow> hr_uri r = uri \<Longrightarrow> sends_only (permitted lib h) (send lib failed r)"
  by (rule sends_only_send) (rule enforced_permitted)

lemma http_permitted: "sends_only (permitted lib h) (invoke_http lib h args ectx)"
  unfolding invoke_http_def Let_def
  by (intro sends_only_intros sends_only_bindN [OF send_after_check]) simp_all

lemma fetch_permitted:
  "enforce_network_policy lib h uri = Inr u \<Longrightarrow> sends_only (permitted lib h) (fetch_document lib kind uri)"
  unfolding fetch_document_def
  by (intro sends_only_intros sends_only_bindN [OF send_after_check]) (simp_all add: get_request_def)

lemma post_checked_permitted:
  "enforce_network_policy lib h uri = Inr u \<Longrightarrow> sends_only (permitted lib h) (post_checked lib text uri headers body)"
  unfolding post_checked_def send_json_request_def
  by (intro sends_only_intros sends_only_bindN [OF send_after_check] sends_only_bindN) simp_all

lemma post_json_permitted: "sends_only (permitted lib h) (post_json lib h kind args ectx body)"
  unfolding post_json_def by (intro sends_only_intros post_checked_permitted)

lemma mcp_permitted: "sends_only (permitted lib h) (invoke_mcp lib h args ectx)"
  unfolding invoke_mcp_def Let_def
  by (intro sends_only_intros sends_only_bindN [OF post_json_permitted])

lemma a2a_permitted: "sends_only (permitted lib h) (invoke_a2a lib h args ectx)"
  unfolding invoke_a2a_def Let_def
  by (intro sends_only_intros sends_only_bindN [OF post_json_permitted])

lemma grpc_permitted: "sends_only (permitted lib h) (invoke_grpc lib h args ectx)"
  unfolding invoke_grpc_def by (intro sends_only_intros sends_only_bindN [OF post_json_permitted])

lemma broker_sends_nothing: "sends_only P (invoke_broker lib h target args ectx)"
proof -
  have "sends_only P (fresh_event_id h)" "sends_only P (publish_message lib e)" for e
    by (simp_all add: sends_only_def fresh_event_id_def publish_message_def split: sum.split)
  then show ?thesis
    unfolding invoke_broker_def Let_def by (intro sends_only_intros sends_only_bindN)
qed

lemma asyncapi_permitted: "sends_only (permitted lib h) (invoke_asyncapi lib h args ectx)"
proof -
  have "sends_only (permitted lib h) (asyncapi_document lib h v)" for v
    unfolding asyncapi_document_def
    by (cases v) (auto intro!: sends_only_bind_liftN fetch_permitted)
  then show ?thesis
    unfolding invoke_asyncapi_def Let_def
    by (intro sends_only_intros sends_only_bindN broker_sends_nothing post_checked_permitted)
qed

lemma builtins_permitted:
  assumes "map_of builtin_functions name = Some f" "name \<noteq> lit ''openapi''"
  shows "sends_only (permitted lib h) (f lib h args ectx)"
  using assms http_permitted mcp_permitted a2a_permitted grpc_permitted asyncapi_permitted
  by (auto simp: builtin_functions_def split: if_splits)

lemma denied_network: "\<not> allow_network (h_policy h) \<Longrightarrow> enforce_network_policy lib h uri \<noteq> Inr u"
  by (auto simp: enforce_network_policy_def network_denied_def scheme_allowed_def Let_def
      split: sum.split prod.split)

lemma openapi_offline: "\<not> allow_network (h_policy h) \<Longrightarrow> sends_only P (invoke_openapi lib h args ectx)"
  unfolding invoke_openapi_def
  by (intro sends_only_bind_liftN) (simp add: denied_network)

lemma builtins_offline:
  assumes "\<not> allow_network (h_policy h)" "map_of builtin_functions name = Some f"
  shows "sends_only (\<lambda>r. False) (f lib h args ectx)"
proof (cases "name = lit ''openapi''")
  case True
  with assms openapi_offline show ?thesis by (auto simp: builtin_functions_def)
next
  case False
  have "permitted lib h = (\<lambda>r. False)"
    using assms(1) by (auto simp: fun_eq_iff permitted_def scheme_allowed_def split: sum.split)
  with builtins_permitted [OF assms(2) False, of lib h] show ?thesis by simp
qed

text \<open>The operation of an OpenAPI document is called at the server the document names.\<close>

lemma openapi_second_request:
  assumes "document_uri args = Inr uri" "Option.bind (args (lit ''operationId'')) as_str = Some op"
    and "enforce_network_policy lib h uri = Inr ()" "args (lit ''parameters'') = None"
    and "hl_send lib (length (ns_sent s)) (get_request uri) = Inr r" "hl_response_json lib r = Inr spec"
    and "find_operation spec op = Some (verb, path)"
  shows "ns_sent (snd (invoke_openapi lib h args ectx s)) =
    ns_sent s @ [get_request uri, operation_request lib h (server_url spec uri) verb path []]"
  using assms
  by (simp add: invoke_openapi_def net_simps require_def fetch_document_def send_def bindN_def liftN_def
      object_or_empty_def interpolate_params_def Let_def split: sum.split prod.split)

lemma operation_request_plain:
  assumes "hl_visit lib [] = []"
  shows "hr_uri (operation_request lib h server verb path []) = trim_slashes server @ path"
  using assms by (simp add: operation_request_def visited_def operation_url_def Let_def List.map_filter_simps)

section \<open>Statuses\<close>

lemma post_checked_status:
  assumes "hl_send lib (length (ns_sent s))
      \<lparr>hr_method = lit ''POST'', hr_uri = uri, hr_headers = headers, hr_query = None, hr_body = Some (JsonBody body)\<rparr>
      = Inr r"
    and "hs_body r = Inr bytes" "\<not> success_status (hs_status r)"
  shows "fst (post_checked lib text uri headers body s) = Inl (Failed (communication_error (hs_status r)
    (text @ lit '' returned status '' @ nat_str (unat (hs_status r)))))"
  using assms
  by (simp add: post_checked_def send_json_request_def send_def bindN_def liftN_def read_body_def failN_def)

section \<open>Templates\<close>

lemma template_names_plain: "123 \<notin> set uri \<Longrightarrow> template_names uri = []"
  by (induction uri) auto

lemma expand_plain: "123 \<notin> set uri \<Longrightarrow> expand_uri_template h uri workflow = uri"
  by (simp add: expand_uri_template_def template_names_plain)

end
