(* ===== verification/Catalog.thy ===== *)
theory Catalog
  imports Compile Service
begin

text \<open>
  Catalogs: the resolvers of catalog.rs and the imports of \<open>Runtime::resolve_definition\<close>.  The
  parsers of the libraries and the file system are a parameter.
\<close>

section \<open>Resolvers\<close>

record catalog_library =
  ck_yaml :: "str \<Rightarrow> str + json"
  ck_json :: "str \<Rightarrow> str + json"
  ck_components :: "json \<Rightarrow> str + sdk_components"
  ck_file :: "str \<Rightarrow> str + str"
  ck_get :: "str \<Rightarrow> str + (u16 \<times> (str + str))"

definition catalog_error :: "str \<Rightarrow> workflow_error" where
  "catalog_error d = werr_new KCommunication ((problem_standard SCommunication)\<lparr>pd_detail := Some d\<rparr>)"

definition schema_error :: "str \<Rightarrow> workflow_error" where
  "schema_error d = werr_new KSchema ((problem_standard SValidation)\<lparr>pd_detail := Some d\<rparr>)"

definition unwrap_catalog :: "json \<Rightarrow> json" where
  "unwrap_catalog v =
     (case json_get v (lit ''use'') of
        Some u \<Rightarrow> u
      | None \<Rightarrow> (case json_get v (lit ''components'') of Some c \<Rightarrow> c | None \<Rightarrow> v))"

definition parse_catalog_document :: "catalog_library \<Rightarrow> str \<Rightarrow> workflow_error + sdk_components" where
  "parse_catalog_document ck text =
     (case (case ck_yaml ck text of Inr v \<Rightarrow> Inr v | Inl e \<Rightarrow> ck_json ck text) of
        Inl e \<Rightarrow> Inl (schema_error (lit ''invalid catalog document: '' @ e))
      | Inr v \<Rightarrow>
          (case ck_components ck (unwrap_catalog v) of
             Inl e \<Rightarrow> Inl (schema_error (lit ''invalid catalog components: '' @ e))
           | Inr c \<Rightarrow> Inr c))"

datatype catalog_resolver =
    StaticCatalog "str \<Rightarrow> sdk_components option"
  | FileCatalog
  | HttpCatalog

fun requires_network :: "catalog_resolver \<Rightarrow> bool" where
  "requires_network (StaticCatalog m) = False"
| "requires_network FileCatalog = False"
| "requires_network HttpCatalog = True"

definition file_path :: "str \<Rightarrow> str" where
  "file_path endpoint = strip_prefix endpoint (lit ''file://'')"

fun catalog_resolve :: "catalog_library \<Rightarrow> catalog_resolver \<Rightarrow> str \<Rightarrow> workflow_error + sdk_components" where
  "catalog_resolve ck (StaticCatalog m) endpoint =
     (case m endpoint of
        Some c \<Rightarrow> Inr c
      | None \<Rightarrow> Inl (catalog_error (lit ''no static catalog registered for `'' @ endpoint @ lit ''`'')))"
| "catalog_resolve ck FileCatalog endpoint =
     (case ck_file ck (file_path endpoint) of
        Inl e \<Rightarrow> Inl (catalog_error (lit ''failed to read catalog `'' @ endpoint @ lit ''`: '' @ e))
      | Inr text \<Rightarrow> parse_catalog_document ck text)"
| "catalog_resolve ck HttpCatalog endpoint =
     (case ck_get ck endpoint of
        Inl e \<Rightarrow> Inl (catalog_error (lit ''failed to fetch catalog `'' @ endpoint @ lit ''`: '' @ e))
      | Inr (st, body) \<Rightarrow>
          if \<not> success_status st
          then Inl (catalog_error (lit ''catalog `'' @ endpoint @ lit ''` returned status '' @ nat_str (unat st)))
          else
            (case body of
               Inl e \<Rightarrow> Inl (catalog_error (lit ''failed to read catalog `'' @ endpoint @ lit ''`: '' @ e))
             | Inr text \<Rightarrow> parse_catalog_document ck text))"

section \<open>Merging\<close>

definition extend_map :: "(str \<Rightarrow> 'a option) option \<Rightarrow> (str \<Rightarrow> 'a option) option \<Rightarrow> (str \<Rightarrow> 'a option) option" where
  "extend_map dst src =
     (case src of
        None \<Rightarrow> dst
      | Some m \<Rightarrow> Some ((case dst of Some d \<Rightarrow> d | None \<Rightarrow> (\<lambda>k. None)) ++ m))"

definition extend_list :: "'a list option \<Rightarrow> 'a list option \<Rightarrow> 'a list option" where
  "extend_list dst src =
     (case src of None \<Rightarrow> dst | Some v \<Rightarrow> Some (or_empty dst @ v))"

definition extend_catalogs ::
  "(str \<times> sdk_endpoint) list option \<Rightarrow> (str \<times> sdk_endpoint) list option \<Rightarrow> (str \<times> sdk_endpoint) list option" where
  "extend_catalogs dst src =
     (case src of
        None \<Rightarrow> dst
      | Some m \<Rightarrow> Some (filter (\<lambda>(k, e). k \<notin> fst ` set m) (or_empty dst) @ m))"

definition merge_components :: "sdk_components \<Rightarrow> sdk_components \<Rightarrow> sdk_components" where
  "merge_components dst src =
     dst\<lparr>skm_authentications := extend_map (skm_authentications dst) (skm_authentications src),
         skm_errors := extend_map (skm_errors dst) (skm_errors src),
         skm_functions := extend_map (skm_functions dst) (skm_functions src),
         skm_retries := extend_map (skm_retries dst) (skm_retries src),
         skm_timeouts := extend_map (skm_timeouts dst) (skm_timeouts src),
         skm_catalogs := extend_catalogs (skm_catalogs dst) (skm_catalogs src),
         skm_secrets := extend_list (skm_secrets dst) (skm_secrets src),
         skm_extensions := extend_list (skm_extensions dst) (skm_extensions src)\<rparr>"

section \<open>Imports\<close>

definition catalog_endpoint_uri :: "sdk_endpoint \<Rightarrow> str" where
  "catalog_endpoint_uri e = (case e of EndpointUri u \<Rightarrow> u | EndpointDefinition u \<Rightarrow> u)"

definition catalog_check :: "http_library \<Rightarrow> host \<Rightarrow> catalog_resolver \<Rightarrow> str \<Rightarrow> failure + unit" where
  "catalog_check lib h cr uri =
     (if requires_network cr \<and> (starts_with uri (lit ''http://'') \<or> starts_with uri (lit ''https://''))
      then enforce_network_policy lib h uri else Inr ())"

text \<open>
  The work list has its top in front.  Beside the merged components the loop returns what it
  visited, last first.  A chain of ever new catalogs has no end, which is \<open>None\<close>.
\<close>

partial_function (option) import_loop ::
  "(str \<Rightarrow> failure + unit) \<Rightarrow> (str \<Rightarrow> workflow_error + sdk_components) \<Rightarrow> str list \<Rightarrow> sdk_endpoint list
    \<Rightarrow> sdk_components \<Rightarrow> (failure + sdk_components \<times> str list) option" where
  "import_loop check fetch seen queue merged =
     (case queue of
        [] \<Rightarrow> Some (Inr (merged, seen))
      | endpoint # rest \<Rightarrow>
          (let uri = catalog_endpoint_uri endpoint in
           if uri \<in> set seen then import_loop check fetch seen rest merged
           else
             (case check uri of
                Inl e \<Rightarrow> Some (Inl e)
              | Inr u \<Rightarrow>
                  (case fetch uri of
                     Inl e \<Rightarrow> Some (Inl (Failed e))
                   | Inr c \<Rightarrow> import_loop check fetch (uri # seen)
                       (rev (map snd (or_empty (skm_catalogs c))) @ rest) (merge_components merged c)))))"

definition resolve_definition ::
  "http_library \<Rightarrow> catalog_library \<Rightarrow> host \<Rightarrow> catalog_resolver option \<Rightarrow> sdk_workflow
    \<Rightarrow> (failure + sdk_workflow) option" where
  "resolve_definition lib ck h resolver d =
     (case skw_use d of
        None \<Rightarrow> Some (Inr d)
      | Some used \<Rightarrow>
          if or_empty (skm_catalogs used) = [] then Some (Inr d)
          else
            (case resolver of
               None \<Rightarrow> Some (Inr d)
             | Some cr \<Rightarrow>
                 map_option (\<lambda>r. bindR r (\<lambda>(merged, seen). Inr (d\<lparr>skw_use := Some merged\<rparr>)))
                   (import_loop (catalog_check lib h cr) (catalog_resolve ck cr) []
                     (rev (map snd (or_empty (skm_catalogs used)))) used)))"

definition register_definition_resolved ::
  "serializer \<Rightarrow> http_library \<Rightarrow> catalog_library \<Rightarrow> host \<Rightarrow> catalog_resolver option \<Rightarrow> sdk_workflow \<Rightarrow> registry
    \<Rightarrow> (failure + registry) option" where
  "register_definition_resolved sz lib ck h resolver d reg =
     map_option (\<lambda>r. bindR r (\<lambda>d'. register_definition (h_platform h) sz d' reg))
       (resolve_definition lib ck h resolver d)"

section \<open>Laws\<close>

definition catalog_uris :: "sdk_endpoint list \<Rightarrow> str set" where
  "catalog_uris es = catalog_endpoint_uri ` set es"

lemma catalog_uris_work: "catalog_uris (rev xs @ ys) = catalog_uris xs \<union> catalog_uris ys"
  by (auto simp: catalog_uris_def)

text \<open>The catalogs that a list of endpoints leads to, through the catalogs that they name in turn.\<close>

definition nested_uris :: "(str \<Rightarrow> workflow_error + sdk_components) \<Rightarrow> str \<Rightarrow> str set" where
  "nested_uris fetch u =
     (case fetch u of Inl e \<Rightarrow> {} | Inr c \<Rightarrow> catalog_uris (map snd (or_empty (skm_catalogs c))))"

inductive catalog_reached :: "(str \<Rightarrow> workflow_error + sdk_components) \<Rightarrow> str set \<Rightarrow> str \<Rightarrow> bool" for fetch roots where
  reached_root: "u \<in> roots \<Longrightarrow> catalog_reached fetch roots u"
| reached_nested: "catalog_reached fetch roots v \<Longrightarrow> u \<in> nested_uris fetch v \<Longrightarrow> catalog_reached fetch roots u"

lemma catalog_reached_via:
  assumes "catalog_reached fetch roots' u" "\<And>v. v \<in> roots' \<Longrightarrow> catalog_reached fetch roots v"
  shows "catalog_reached fetch roots u"
  using assms by (induction) (auto intro: catalog_reached.intros)

definition merge_fetched ::
  "(str \<Rightarrow> workflow_error + sdk_components) \<Rightarrow> str list \<Rightarrow> sdk_components \<Rightarrow> sdk_components" where
  "merge_fetched fetch us merged =
     fold (\<lambda>u m. (case fetch u of Inl e \<Rightarrow> m | Inr c \<Rightarrow> merge_components m c)) us merged"

text \<open>What the loop adds to the visited catalogs: each new one is checked, fetched and reached from
  the queue, the result is closed under references, and the merge follows the order of the visits.
  A failure is that of a catalog that is reached.\<close>

definition visit_ok ::
  "(str \<Rightarrow> failure + unit) \<Rightarrow> (str \<Rightarrow> workflow_error + sdk_components) \<Rightarrow> str list \<Rightarrow> str set \<Rightarrow> sdk_components
    \<Rightarrow> sdk_components \<Rightarrow> str list \<Rightarrow> bool" where
  "visit_ok check fetch seen roots merged m vs \<longleftrightarrow>
     (\<exists>new. vs = new @ seen \<and> distinct new \<and> set new \<inter> set seen = {} \<and> roots \<subseteq> set vs
        \<and> (\<forall>u \<in> set new. check u = Inr () \<and> (\<exists>c. fetch u = Inr c) \<and> nested_uris fetch u \<subseteq> set vs
              \<and> catalog_reached fetch roots u)
        \<and> m = merge_fetched fetch (rev new) merged)"

definition import_ok ::
  "(str \<Rightarrow> failure + unit) \<Rightarrow> (str \<Rightarrow> workflow_error + sdk_components) \<Rightarrow> str list \<Rightarrow> str set \<Rightarrow> sdk_components
    \<Rightarrow> failure + sdk_components \<times> str list \<Rightarrow> bool" where
  "import_ok check fetch seen roots merged r \<longleftrightarrow>
     (case r of
        Inr (m, vs) \<Rightarrow> visit_ok check fetch seen roots merged m vs
      | Inl e \<Rightarrow> \<exists>u. catalog_reached fetch roots u
          \<and> (check u = Inl e \<or> check u = Inr () \<and> (\<exists>f. fetch u = Inl f \<and> e = Failed f)))"

lemma import_ok_empty: "import_ok check fetch seen {} merged (Inr (merged, seen))"
  by (simp add: import_ok_def visit_ok_def merge_fetched_def)

lemma import_ok_seen:
  assumes "import_ok check fetch seen roots merged r" "u \<in> set seen"
  shows "import_ok check fetch seen (insert u roots) merged r"
proof -
  have "catalog_reached fetch (insert u roots) v" if "catalog_reached fetch roots v" for v
    using that by (rule catalog_reached_via) (simp add: reached_root)
  with assms show ?thesis
    unfolding import_ok_def visit_ok_def by (fastforce split: sum.splits prod.splits)
qed

lemma import_ok_fetched:
  assumes "import_ok check fetch (u # seen) (nested_uris fetch u \<union> roots) (merge_components merged c) r"
    "u \<notin> set seen" "check u = Inr ()" "fetch u = Inr c"
  shows "import_ok check fetch seen (insert u roots) merged r"
proof -
  have here: "catalog_reached fetch (insert u roots) u" by (simp add: reached_root)
  have reached: "catalog_reached fetch (insert u roots) v"
    if "catalog_reached fetch (nested_uris fetch u \<union> roots) v" for v
    using that by (rule catalog_reached_via) (auto intro: reached_root reached_nested [OF here])
  show ?thesis
  proof (cases r)
    case (Inl e)
    with assms(1) reached show ?thesis by (auto simp: import_ok_def)
  next
    case (Inr b)
    obtain m vs where b: "b = (m, vs)" by (cases b)
    with Inr assms(1) obtain new where new: "vs = new @ u # seen" "distinct new" "set new \<inter> set (u # seen) = {}"
        "nested_uris fetch u \<union> roots \<subseteq> set vs"
        "\<forall>v \<in> set new. check v = Inr () \<and> (\<exists>c. fetch v = Inr c) \<and> nested_uris fetch v \<subseteq> set vs
           \<and> catalog_reached fetch (nested_uris fetch u \<union> roots) v"
        "m = merge_fetched fetch (rev new) (merge_components merged c)"
      by (auto simp: import_ok_def visit_ok_def)
    have "visit_ok check fetch seen (insert u roots) merged m vs"
      unfolding visit_ok_def using new assms(2-4) here reached
      by (intro exI [of _ "new @ [u]"]) (auto simp: merge_fetched_def)
    with Inr b show ?thesis by (simp add: import_ok_def)
  qed
qed

lemma catalog_uris_Cons: "catalog_uris (e # es) = insert (catalog_endpoint_uri e) (catalog_uris es)"
  by (simp add: catalog_uris_def)

lemma import_loop_ok:
  "import_loop check fetch seen queue merged = Some r
    \<Longrightarrow> import_ok check fetch seen (catalog_uris queue) merged r"
proof (rule import_loop.raw_induct
    [where P = "\<lambda>check fetch seen queue merged r. import_ok check fetch seen (catalog_uris queue) merged r"])
  fix loop check fetch seen queue merged r
  assume IH: "\<And>check fetch seen queue merged r. loop check fetch seen queue merged = Some r
      \<Longrightarrow> import_ok check fetch seen (catalog_uris queue) merged r"
    and body: "(case queue of
        [] \<Rightarrow> Some (Inr (merged, seen))
      | endpoint # rest \<Rightarrow>
          (let uri = catalog_endpoint_uri endpoint in
           if uri \<in> set seen then loop check fetch seen rest merged
           else
             (case check uri of
                Inl e \<Rightarrow> Some (Inl e)
              | Inr u \<Rightarrow>
                  (case fetch uri of
                     Inl e \<Rightarrow> Some (Inl (Failed e))
                   | Inr c \<Rightarrow> loop check fetch (uri # seen)
                       (rev (map snd (or_empty (skm_catalogs c))) @ rest) (merge_components merged c))))) = Some r"
  show "import_ok check fetch seen (catalog_uris queue) merged r"
  proof (cases queue)
    case Nil
    with body show ?thesis by (auto simp: catalog_uris_def import_ok_empty)
  next
    case (Cons endpoint rest)
    let ?uri = "catalog_endpoint_uri endpoint"
    have reached: "catalog_reached fetch (insert ?uri (catalog_uris rest)) ?uri" by (simp add: reached_root)
    show ?thesis
    proof (cases "?uri \<in> set seen")
      case True
      with body Cons have "loop check fetch seen rest merged = Some r" by simp
      from import_ok_seen [OF IH [OF this] True] Cons show ?thesis by (simp add: catalog_uris_Cons)
    next
      case False
      show ?thesis
      proof (cases "check ?uri")
        case (Inl e)
        with body Cons False reached show ?thesis by (auto simp: import_ok_def catalog_uris_Cons)
      next
        case checked: (Inr u)
        show ?thesis
        proof (cases "fetch ?uri")
          case (Inl e)
          with body Cons False reached checked show ?thesis by (auto simp: import_ok_def catalog_uris_Cons)
        next
          case fetched: (Inr c)
          with body Cons False checked have "loop check fetch (?uri # seen)
              (rev (map snd (or_empty (skm_catalogs c))) @ rest) (merge_components merged c) = Some r" by simp
          from IH [OF this] fetched
          have "import_ok check fetch (?uri # seen) (nested_uris fetch ?uri \<union> catalog_uris rest)
              (merge_components merged c) r" by (simp add: catalog_uris_work nested_uris_def)
          from import_ok_fetched [OF this False _ fetched] checked Cons show ?thesis by (simp add: catalog_uris_Cons)
        qed
      qed
    qed
  qed
qed

lemma import_loop_result:
  assumes "import_loop check fetch [] queue merged = Some r"
  shows "r = Inr (m, vs) \<Longrightarrow> distinct vs"
    "r = Inr (m, vs) \<Longrightarrow> set vs = {u. catalog_reached fetch (catalog_uris queue) u}"
    "r = Inr (m, vs) \<Longrightarrow> \<forall>u \<in> set vs. check u = Inr ()"
    "r = Inr (m, vs) \<Longrightarrow> m = merge_fetched fetch (rev vs) merged"
    "r = Inl e \<Longrightarrow> \<exists>u. catalog_reached fetch (catalog_uris queue) u
        \<and> (check u = Inl e \<or> check u = Inr () \<and> (\<exists>f. fetch u = Inl f \<and> e = Failed f))"
proof -
  note loop = import_loop_ok [OF assms]
  have visited: "visit_ok check fetch [] (catalog_uris queue) merged m vs" if "r = Inr (m, vs)"
    using loop that by (simp add: import_ok_def)
  have closed: "u \<in> set vs" if "r = Inr (m, vs)" "catalog_reached fetch (catalog_uris queue) u" for u
    using that(2) visited [OF that(1)] by (induction) (auto simp: visit_ok_def)
  show "distinct vs" if "r = Inr (m, vs)" using visited [OF that] by (auto simp: visit_ok_def)
  show "set vs = {u. catalog_reached fetch (catalog_uris queue) u}" if "r = Inr (m, vs)"
    using visited [OF that] closed [OF that] by (auto simp: visit_ok_def)
  show "\<forall>u \<in> set vs. check u = Inr ()" if "r = Inr (m, vs)" using visited [OF that] by (auto simp: visit_ok_def)
  show "m = merge_fetched fetch (rev vs) merged" if "r = Inr (m, vs)"
    using visited [OF that] by (auto simp: visit_ok_def)
  show "\<exists>u. catalog_reached fetch (catalog_uris queue) u
        \<and> (check u = Inl e \<or> check u = Inr () \<and> (\<exists>f. fetch u = Inl f \<and> e = Failed f))" if "r = Inl e"
    using loop that by (simp add: import_ok_def)
qed

text \<open>Where finitely many catalogs refer to each other, the loop ends.\<close>

definition imports_closed :: "(str \<Rightarrow> workflow_error + sdk_components) \<Rightarrow> str set \<Rightarrow> bool" where
  "imports_closed fetch U \<longleftrightarrow>
     (\<forall>u \<in> U. \<forall>c. fetch u = Inr c \<longrightarrow> catalog_uris (map snd (or_empty (skm_catalogs c))) \<subseteq> U)"

lemma import_loop_ends:
  assumes "finite U" "imports_closed fetch U" "catalog_uris queue \<subseteq> U"
  shows "\<exists>r. import_loop check fetch seen queue merged = Some r"
  using assms(3)
proof (induction "card (U - set seen)" arbitrary: seen queue merged rule: less_induct)
  case less
  note outer = less.hyps
  from less.prems show ?case
  proof (induction queue)
    case Nil
    show ?case by (subst import_loop.simps) simp
  next
    case (Cons endpoint rest)
    let ?uri = "catalog_endpoint_uri endpoint"
    have rest: "catalog_uris rest \<subseteq> U" and uri: "?uri \<in> U"
      using Cons.prems by (auto simp: catalog_uris_def)
    show ?case
    proof (cases "?uri \<in> set seen")
      case True
      with Cons.IH [OF rest] show ?thesis by (subst import_loop.simps) (simp add: Let_def)
    next
      case False
      have fewer: "card (U - set (?uri # seen)) < card (U - set seen)"
        using False uri assms(1) by (intro psubset_card_mono) auto
      have "\<exists>r. import_loop check fetch (?uri # seen) (rev (map snd (or_empty (skm_catalogs c))) @ rest)
          (merge_components merged c) = Some r" if "fetch ?uri = Inr c" for c
        using that rest uri assms(2)
        by (intro outer [OF fewer]) (simp add: catalog_uris_work imports_closed_def)
      with False show ?thesis
        by (subst import_loop.simps) (auto simp: Let_def split: sum.split)
    qed
  qed
qed

lemma components_get_merge:
  "components_get skm_retries (Some (merge_components dst src)) n =
     (case components_get skm_retries (Some src) n of
        Some p \<Rightarrow> Some p | None \<Rightarrow> components_get skm_retries (Some dst) n)"
  "components_get skm_timeouts (Some (merge_components dst src)) n =
     (case components_get skm_timeouts (Some src) n of
        Some p \<Rightarrow> Some p | None \<Rightarrow> components_get skm_timeouts (Some dst) n)"
  by (auto simp: components_get_def merge_components_def extend_map_def map_add_def split: option.split)

end
