(* ===== verification/Stores.thy ===== *)
theory Stores
  imports Core ExprSyntax "HOL-Library.Product_Lexorder"
begin

text \<open>
  The durable execution stores of the crate \<open>ows-runtime-stores\<close>: two on SQL tables (sqlite.rs,
  postgres.rs) and one on the keys of Redis (redis_store.rs).  The databases are modelled by the
  statements the code sends: rows and keys as lists and maps.  A call may be refused by the database;
  the refusal is an argument.  Each store is shown to answer as the in-memory store does.
\<close>

section \<open>The contract of a durable store\<close>

text \<open>
  The operations return results and may be refused.  \<open>holds\<close> is the invariant of the tables,
  \<open>storable\<close> and \<open>loggable\<close> say which values the encoding of the store reads back.
\<close>

datatype store_op = CreateOp execution_record | UpdateOp execution_record | AppendOp stored_event

fun memory_step :: "store_op \<Rightarrow> memory_store \<Rightarrow> memory_store" where
  "memory_step (CreateOp r) m = store_create r m"
| "memory_step (UpdateOp r) m = store_update r m"
| "memory_step (AppendOp e) m = store_append_event e m"

fun op_ok :: "(execution_record \<Rightarrow> bool) \<Rightarrow> (stored_event \<Rightarrow> bool) \<Rightarrow> store_op \<Rightarrow> bool" where
  "op_ok storable loggable (CreateOp r) = storable r"
| "op_ok storable loggable (UpdateOp r) = storable r"
| "op_ok storable loggable (AppendOp e) = loggable e"

locale durable_store =
  fixes fresh :: 's
    and step :: "store_op \<Rightarrow> 's \<Rightarrow> 'e + 's"
    and load :: "'s \<Rightarrow> str \<Rightarrow> 'e + execution_record option"
    and events :: "'s \<Rightarrow> str \<Rightarrow> 'e + stored_event list"
    and holds :: "nat \<Rightarrow> 's \<Rightarrow> bool"
    and room :: nat
    and storable :: "execution_record \<Rightarrow> bool"
    and loggable :: "stored_event \<Rightarrow> bool"
  assumes fresh_holds: "holds 0 fresh"
    and load_fresh: "load fresh i = Inr None"
    and events_fresh: "events fresh i = Inr []"
    and step_create: "holds n s \<Longrightarrow> storable r \<Longrightarrow> p = CreateOp r \<or> p = UpdateOp r \<Longrightarrow>
      \<exists>t. step p s = Inr t \<and> holds n t
        \<and> (\<forall>i. load t i = (if i = er_execution_id r then Inr (Some r) else load s i))
        \<and> (\<forall>i. events t i = events s i)"
    and step_append: "holds n s \<Longrightarrow> n < room \<Longrightarrow> loggable e \<Longrightarrow>
      \<exists>t. step (AppendOp e) s = Inr t \<and> holds (Suc n) t
        \<and> (\<forall>i. load t i = load s i)
        \<and> (\<forall>i. events t i =
             bindR (events s i) (\<lambda>es. Inr (if sv_execution_id e = i then es @ [e] else es)))"
begin

definition agrees :: "'s \<Rightarrow> memory_store \<Rightarrow> bool" where
  "agrees s m \<longleftrightarrow> (\<forall>i. load s i = Inr (store_load m i) \<and> events s i = Inr (store_events m i))"

lemma fresh_agrees: "agrees fresh store_new"
  by (simp add: agrees_def load_fresh events_fresh mem.load_empty mem.events_empty)

lemma step_agrees:
  assumes "holds n s" "agrees s m" "n < room" "op_ok storable loggable p"
  shows "\<exists>t n'. step p s = Inr t \<and> holds n' t \<and> n' \<le> Suc n \<and> agrees t (memory_step p m)"
proof (cases p)
  case (AppendOp e)
  with assms step_append [of n s e] show ?thesis
    by (force simp: agrees_def mem.load_append mem.events_append)
next
  case (CreateOp r)
  with assms step_create [of n s r p] obtain t where "step p s = Inr t" "holds n t"
    "\<forall>i. load t i = (if i = er_execution_id r then Inr (Some r) else load s i)"
    "\<forall>i. events t i = events s i" by auto
  with assms(2) CreateOp show ?thesis
    by (intro exI [of _ t] exI [of _ n]) (simp add: agrees_def mem.load_create mem.events_create)
next
  case (UpdateOp r)
  with assms step_create [of n s r p] obtain t where "step p s = Inr t" "holds n t"
    "\<forall>i. load t i = (if i = er_execution_id r then Inr (Some r) else load s i)"
    "\<forall>i. events t i = events s i" by auto
  with assms(2) UpdateOp show ?thesis
    by (intro exI [of _ t] exI [of _ n]) (simp add: agrees_def mem.load_update mem.events_update)
qed

lemma runs_agree:
  assumes "holds n s" "agrees s m" "n + length ps \<le> room" "list_all (op_ok storable loggable) ps"
  shows "\<exists>t n'. run_steps step ps s = Inr t \<and> holds n' t \<and> agrees t (fold memory_step ps m)"
  using assms
proof (induction ps arbitrary: n s m)
  case Nil
  then show ?case by auto
next
  case (Cons p ps)
  then obtain t n' where t: "step p s = Inr t" "holds n' t" "n' \<le> Suc n" "agrees t (memory_step p m)"
    using step_agrees [of n s m p] by auto
  with Cons.IH [of n' t "memory_step p m"] Cons.prems show ?case by auto
qed

lemma behaves_as_memory:
  assumes "length ps \<le> room" "list_all (op_ok storable loggable) ps"
  shows "\<exists>t. run_steps step ps fresh = Inr t
    \<and> (\<forall>i. load t i = Inr (store_load (fold memory_step ps store_new) i)
         \<and> events t i = Inr (store_events (fold memory_step ps store_new) i))"
  using runs_agree [OF fresh_holds fresh_agrees, of ps] assms by (auto simp: agrees_def)

end

section \<open>Encodings\<close>

text \<open>
  The library turns values into text and reads text back; what serde derives for whole records and
  events, which only the Redis store uses, is part of it.
\<close>

record codec =
  cx_text :: "json \<Rightarrow> str"
  cx_parse :: "str \<Rightarrow> str + json"
  cx_record :: "execution_record \<Rightarrow> str"
  cx_read_record :: "str \<Rightarrow> str + execution_record"
  cx_event :: "stored_event \<Rightarrow> str"
  cx_read_event :: "str \<Rightarrow> str + stored_event"

type_synonym store_error = "str \<Rightarrow> str \<Rightarrow> workflow_error"

definition sqlite_error :: store_error where
  "sqlite_error ctx err = (let e = werr_standard KRuntime SRuntime in
     e\<lparr>we_problem := (we_problem e)\<lparr>pd_detail := Some (lit ''sqlite store '' @ ctx @ lit '': '' @ err)\<rparr>\<rparr>)"

definition postgres_error :: store_error where
  "postgres_error ctx err = (let e = werr_standard KRuntime SRuntime in
     e\<lparr>we_problem := (we_problem e)\<lparr>pd_detail := Some (lit ''postgres store '' @ ctx @ lit '': '' @ err)\<rparr>\<rparr>)"

definition redis_error :: store_error where
  "redis_error ctx err = (let e = werr_standard KRuntime SRuntime in
     e\<lparr>we_problem := (we_problem e)\<lparr>pd_detail := Some (lit ''redis store '' @ ctx @ lit '': '' @ err)\<rparr>\<rparr>)"

definition encode_json :: "codec \<Rightarrow> json \<Rightarrow> workflow_error + str" where
  "encode_json cx v = Inr (cx_text cx v)"

definition decode_json :: "store_error \<Rightarrow> codec \<Rightarrow> str \<Rightarrow> workflow_error + json" where
  "decode_json err cx s =
     (case cx_parse cx s of Inl e \<Rightarrow> Inl (err (lit ''decoding value'') e) | Inr v \<Rightarrow> Inr v)"

definition reads_back :: "codec \<Rightarrow> json \<Rightarrow> bool" where
  "reads_back cx v \<longleftrightarrow> cx_parse cx (cx_text cx v) = Inr v"

lemma decode_text [simp]: "reads_back cx v \<Longrightarrow> decode_json err cx (cx_text cx v) = Inr v"
  by (simp add: decode_json_def reads_back_def)

fun opt_resultR :: "('a \<Rightarrow> 'e + 'b) \<Rightarrow> 'a option \<Rightarrow> 'e + 'b option" where
  "opt_resultR f None = Inr None"
| "opt_resultR f (Some x) = bindR (f x) (\<lambda>y. Inr (Some y))"

text \<open>A call of the database that is refused with a message.\<close>

definition refused :: "store_error \<Rightarrow> str \<Rightarrow> str option \<Rightarrow> workflow_error + unit" where
  "refused err ctx answer = (case answer of Some e \<Rightarrow> Inl (err ctx e) | None \<Rightarrow> Inr ())"

lemma refused_None [simp]: "refused err ctx None = Inr ()"
  by (simp add: refused_def)

lemma refused_Some [simp]: "refused err ctx (Some e) = Inl (err ctx e)"
  by (simp add: refused_def)

section \<open>Tables\<close>

text \<open>
  The tables \<open>executions\<close>, whose primary key is the execution id, and \<open>events\<close>, whose key the
  database counts up from one; the counter ends at the largest 64-bit integer.
\<close>

record execution_row =
  xr_execution_id :: str
  xr_workflow :: str
  xr_namespace :: str
  xr_name :: str
  xr_version :: str
  xr_phase :: str
  xr_context :: str
  xr_pointer :: str
  xr_error :: "str option"
  xr_started_at :: int

record event_row =
  vr_seq :: int
  vr_execution_id :: str
  vr_sequence :: int
  vr_event_type :: str
  vr_payload :: str
  vr_timestamp :: int

record tables =
  tb_executions :: "execution_row list"
  tb_events :: "event_row list"
  tb_last_seq :: int

definition tables_new :: tables where
  "tables_new = \<lparr>tb_executions = [], tb_events = [], tb_last_seq = 0\<rparr>"

text \<open>\<open>INSERT ... ON CONFLICT(execution_id) DO UPDATE\<close>, \<open>SELECT ... WHERE execution_id = ?\<close>,
  \<open>INSERT INTO events\<close> and \<open>SELECT ... ORDER BY seq\<close>.\<close>

fun upsert_row :: "execution_row \<Rightarrow> execution_row list \<Rightarrow> execution_row list" where
  "upsert_row r [] = [r]"
| "upsert_row r (q # qs) = (if xr_execution_id q = xr_execution_id r then r # qs else q # upsert_row r qs)"

definition select_row :: "execution_row list \<Rightarrow> str \<Rightarrow> execution_row option" where
  "select_row rows i = find (\<lambda>q. xr_execution_id q = i) rows"

definition insert_event :: "str \<Rightarrow> event_row \<Rightarrow> tables \<Rightarrow> str + tables" where
  "insert_event full v t =
     (let n = tb_last_seq t + 1 in
      if i64_max < n then Inl full
      else Inr (t\<lparr>tb_events := tb_events t @ [v\<lparr>vr_seq := n\<rparr>], tb_last_seq := n\<rparr>))"

definition select_events :: "tables \<Rightarrow> str \<Rightarrow> event_row list" where
  "select_events t i = sort_key vr_seq (filter (\<lambda>v. vr_execution_id v = i) (tb_events t))"

definition encode_record :: "codec \<Rightarrow> execution_record \<Rightarrow> workflow_error + execution_row" where
  "encode_record cx r =
     bindR (encode_json cx (er_context r)) (\<lambda>c.
     bindR (encode_json cx (er_pointer r)) (\<lambda>p.
     bindR (opt_resultR (encode_json cx) (er_error r)) (\<lambda>e.
     Inr \<lparr>xr_execution_id = er_execution_id r, xr_workflow = er_workflow r, xr_namespace = er_namespace r,
          xr_name = er_name r, xr_version = er_version r, xr_phase = phase_str (er_phase r),
          xr_context = c, xr_pointer = p, xr_error = e, xr_started_at = er_started_at r\<rparr>)))"

definition parse_phase :: "store_error \<Rightarrow> str \<Rightarrow> workflow_error + phase" where
  "parse_phase err s =
     (if s = lit ''pending'' then Inr Pending
      else if s = lit ''running'' then Inr Running
      else if s = lit ''waiting'' then Inr Waiting
      else if s = lit ''suspended'' then Inr Suspended
      else if s = lit ''cancelled'' then Inr Cancelled
      else if s = lit ''faulted'' then Inr Faulted
      else if s = lit ''completed'' then Inr Completed
      else Inl (err (lit ''load'') (lit ''unknown phase `'' @ s @ lit ''`'')))"

definition record_from_row :: "store_error \<Rightarrow> codec \<Rightarrow> execution_row \<Rightarrow> workflow_error + execution_record" where
  "record_from_row err cx q =
     bindR (parse_phase err (xr_phase q)) (\<lambda>p.
     bindR (decode_json err cx (xr_context q)) (\<lambda>c.
     bindR (decode_json err cx (xr_pointer q)) (\<lambda>n.
     bindR (opt_resultR (decode_json err cx) (xr_error q)) (\<lambda>e.
     Inr \<lparr>er_execution_id = xr_execution_id q, er_workflow = xr_workflow q, er_namespace = xr_namespace q,
          er_name = xr_name q, er_version = xr_version q, er_phase = p, er_context = c, er_pointer = n,
          er_error = e, er_started_at = xr_started_at q\<rparr>))))"

section \<open>The operations on tables\<close>

text \<open>
  What the two SQL stores have in common; they differ in their error messages.  \<open>answer\<close> is the
  refusal of the statement, if it is refused.
\<close>

definition sql_create ::
  "store_error \<Rightarrow> codec \<Rightarrow> str option \<Rightarrow> execution_record \<Rightarrow> tables \<Rightarrow> workflow_error + tables" where
  "sql_create err cx answer r t =
     bindR (encode_record cx r) (\<lambda>row.
     bindR (refused err (lit ''create'') answer) (\<lambda>_.
     Inr (t\<lparr>tb_executions := upsert_row row (tb_executions t)\<rparr>)))"

definition sql_load ::
  "store_error \<Rightarrow> codec \<Rightarrow> str option \<Rightarrow> tables \<Rightarrow> str \<Rightarrow> workflow_error + execution_record option" where
  "sql_load err cx answer t i =
     bindR (refused err (lit ''load'') answer) (\<lambda>_.
     opt_resultR (record_from_row err cx) (select_row (tb_executions t) i))"

definition event_row_of :: "codec \<Rightarrow> stored_event \<Rightarrow> workflow_error + event_row" where
  "event_row_of cx e =
     bindR (encode_json cx (sv_payload e)) (\<lambda>p.
     Inr \<lparr>vr_seq = 0, vr_execution_id = sv_execution_id e, vr_sequence = sint (sv_sequence e),
          vr_event_type = sv_event_type e, vr_payload = p, vr_timestamp = sv_timestamp e\<rparr>)"

definition event_from_row :: "store_error \<Rightarrow> codec \<Rightarrow> event_row \<Rightarrow> workflow_error + stored_event" where
  "event_from_row err cx v =
     bindR (decode_json err cx (vr_payload v)) (\<lambda>p.
     Inr \<lparr>sv_execution_id = vr_execution_id v, sv_sequence = word_of_int (vr_sequence v),
          sv_event_type = vr_event_type v, sv_payload = p, sv_timestamp = vr_timestamp v\<rparr>)"

definition sql_append_event ::
  "store_error \<Rightarrow> str \<Rightarrow> codec \<Rightarrow> str option \<Rightarrow> stored_event \<Rightarrow> tables \<Rightarrow> workflow_error + tables" where
  "sql_append_event err full cx answer e t =
     bindR (event_row_of cx e) (\<lambda>v.
     bindR (refused err (lit ''append_event'') answer) (\<lambda>_.
     case insert_event full v t of Inl m \<Rightarrow> Inl (err (lit ''append_event'') m) | Inr t' \<Rightarrow> Inr t'))"

definition sql_events ::
  "store_error \<Rightarrow> codec \<Rightarrow> str option \<Rightarrow> tables \<Rightarrow> str \<Rightarrow> workflow_error + stored_event list" where
  "sql_events err cx answer t i =
     bindR (refused err (lit ''events'') answer) (\<lambda>_.
     mapR (event_from_row err cx) (select_events t i))"

section \<open>SQLite\<close>

abbreviation sqlite_full :: str where
  "sqlite_full \<equiv> lit ''database or disk is full''"

definition sqlite_create :: "codec \<Rightarrow> str option \<Rightarrow> execution_record \<Rightarrow> tables \<Rightarrow> workflow_error + tables" where
  "sqlite_create = sql_create sqlite_error"

definition sqlite_load :: "codec \<Rightarrow> str option \<Rightarrow> tables \<Rightarrow> str \<Rightarrow> workflow_error + execution_record option" where
  "sqlite_load = sql_load sqlite_error"

definition sqlite_update :: "codec \<Rightarrow> str option \<Rightarrow> execution_record \<Rightarrow> tables \<Rightarrow> workflow_error + tables" where
  "sqlite_update cx answer r t = sqlite_create cx answer r t"

definition sqlite_append_event :: "codec \<Rightarrow> str option \<Rightarrow> stored_event \<Rightarrow> tables \<Rightarrow> workflow_error + tables" where
  "sqlite_append_event = sql_append_event sqlite_error sqlite_full"

definition sqlite_events :: "codec \<Rightarrow> str option \<Rightarrow> tables \<Rightarrow> str \<Rightarrow> workflow_error + stored_event list" where
  "sqlite_events = sql_events sqlite_error"

text \<open>\<open>SELECT ... ORDER BY started_at, execution_id\<close>; texts compare by their bytes.\<close>

definition all_records :: "codec \<Rightarrow> str option \<Rightarrow> tables \<Rightarrow> workflow_error + execution_record list" where
  "all_records cx answer t =
     bindR (refused sqlite_error (lit ''all_records'') answer) (\<lambda>_.
     mapR (record_from_row sqlite_error cx)
       (sort_key (\<lambda>q. (xr_started_at q, xr_execution_id q)) (tb_executions t)))"

section \<open>PostgreSQL\<close>

abbreviation postgres_full :: str where
  "postgres_full \<equiv> lit ''nextval: reached maximum value of sequence''"

definition postgres_create :: "codec \<Rightarrow> str option \<Rightarrow> execution_record \<Rightarrow> tables \<Rightarrow> workflow_error + tables" where
  "postgres_create = sql_create postgres_error"

definition postgres_load :: "codec \<Rightarrow> str option \<Rightarrow> tables \<Rightarrow> str \<Rightarrow> workflow_error + execution_record option" where
  "postgres_load = sql_load postgres_error"

definition postgres_update :: "codec \<Rightarrow> str option \<Rightarrow> execution_record \<Rightarrow> tables \<Rightarrow> workflow_error + tables" where
  "postgres_update cx answer r t = postgres_create cx answer r t"

definition postgres_append_event :: "codec \<Rightarrow> str option \<Rightarrow> stored_event \<Rightarrow> tables \<Rightarrow> workflow_error + tables" where
  "postgres_append_event = sql_append_event postgres_error postgres_full"

definition postgres_events :: "codec \<Rightarrow> str option \<Rightarrow> tables \<Rightarrow> str \<Rightarrow> workflow_error + stored_event list" where
  "postgres_events = sql_events postgres_error"

section \<open>Redis\<close>

text \<open>
  A key holds a string or a list; a command for the other kind is refused.  The record of an
  execution is under one key, its events are a list under another.
\<close>

datatype redis_value = RedisString str | RedisList "str list"

type_synonym redis = "str \<rightharpoonup> redis_value"

definition record_key :: "str \<Rightarrow> str" where
  "record_key i = lit ''ows:exec:'' @ i"

definition events_key :: "str \<Rightarrow> str" where
  "events_key i = lit ''ows:exec_events:'' @ i"

abbreviation wrong_type :: str where
  "wrong_type \<equiv> lit ''WRONGTYPE Operation against a key holding the wrong kind of value''"

definition redis_set :: "str \<Rightarrow> str \<Rightarrow> redis \<Rightarrow> redis" where
  "redis_set k v db = db(k \<mapsto> RedisString v)"

definition redis_get :: "redis \<Rightarrow> str \<Rightarrow> str + str option" where
  "redis_get db k = (case db k of None \<Rightarrow> Inr None | Some (RedisString v) \<Rightarrow> Inr (Some v)
     | Some (RedisList vs) \<Rightarrow> Inl wrong_type)"

definition redis_rpush :: "str \<Rightarrow> str \<Rightarrow> redis \<Rightarrow> str + redis" where
  "redis_rpush k v db = (case db k of None \<Rightarrow> Inr (db(k \<mapsto> RedisList [v]))
     | Some (RedisList vs) \<Rightarrow> Inr (db(k \<mapsto> RedisList (vs @ [v])))
     | Some (RedisString w) \<Rightarrow> Inl wrong_type)"

definition redis_lrange_all :: "redis \<Rightarrow> str \<Rightarrow> str + str list" where
  "redis_lrange_all db k = (case db k of None \<Rightarrow> Inr [] | Some (RedisList vs) \<Rightarrow> Inr vs
     | Some (RedisString w) \<Rightarrow> Inl wrong_type)"

definition redis_command :: "str \<Rightarrow> str option \<Rightarrow> str + 'a \<Rightarrow> workflow_error + 'a" where
  "redis_command ctx answer outcome =
     bindR (refused redis_error ctx answer) (\<lambda>_.
     case outcome of Inl m \<Rightarrow> Inl (redis_error ctx m) | Inr x \<Rightarrow> Inr x)"

definition redis_create :: "codec \<Rightarrow> str option \<Rightarrow> execution_record \<Rightarrow> redis \<Rightarrow> workflow_error + redis" where
  "redis_create cx answer r db =
     redis_command (lit ''create'') answer (Inr (redis_set (record_key (er_execution_id r)) (cx_record cx r) db))"

definition redis_load :: "codec \<Rightarrow> str option \<Rightarrow> redis \<Rightarrow> str \<Rightarrow> workflow_error + execution_record option" where
  "redis_load cx answer db i =
     bindR (redis_command (lit ''load'') answer (redis_get db (record_key i))) (\<lambda>found.
     case found of
       Some v \<Rightarrow> (case cx_read_record cx v of Inl e \<Rightarrow> Inl (redis_error (lit ''decoding'') e) | Inr r \<Rightarrow> Inr (Some r))
     | None \<Rightarrow> Inr None)"

definition redis_update :: "codec \<Rightarrow> str option \<Rightarrow> execution_record \<Rightarrow> redis \<Rightarrow> workflow_error + redis" where
  "redis_update cx answer r db = redis_create cx answer r db"

definition redis_append_event :: "codec \<Rightarrow> str option \<Rightarrow> stored_event \<Rightarrow> redis \<Rightarrow> workflow_error + redis" where
  "redis_append_event cx answer e db =
     redis_command (lit ''append_event'') answer (redis_rpush (events_key (sv_execution_id e)) (cx_event cx e) db)"

definition redis_events :: "codec \<Rightarrow> str option \<Rightarrow> redis \<Rightarrow> str \<Rightarrow> workflow_error + stored_event list" where
  "redis_events cx answer db i =
     bindR (redis_command (lit ''events'') answer (redis_lrange_all db (events_key i)))
       (mapR (\<lambda>v. case cx_read_event cx v of Inl e \<Rightarrow> Inl (redis_error (lit ''decoding event'') e) | Inr e \<Rightarrow> Inr e))"

section \<open>What the tables hold\<close>

definition storable :: "codec \<Rightarrow> execution_record \<Rightarrow> bool" where
  "storable cx r \<longleftrightarrow> reads_back cx (er_context r) \<and> reads_back cx (er_pointer r)
     \<and> (case er_error r of None \<Rightarrow> True | Some e \<Rightarrow> reads_back cx e)"

definition loggable :: "codec \<Rightarrow> stored_event \<Rightarrow> bool" where
  "loggable cx e \<longleftrightarrow> reads_back cx (sv_payload e)"

definition tables_hold :: "nat \<Rightarrow> tables \<Rightarrow> bool" where
  "tables_hold n t \<longleftrightarrow> distinct (map xr_execution_id (tb_executions t))
     \<and> sorted (map vr_seq (tb_events t)) \<and> (\<forall>v \<in> set (tb_events t). vr_seq v \<le> tb_last_seq t)
     \<and> tb_last_seq t = int n"

definition event_room :: nat where
  "event_room = nat i64_max"

lemma parse_phase_str [simp]: "parse_phase err (phase_str p) = Inr p"
  by (cases p) (simp_all add: parse_phase_def)

lemma record_row_roundtrip:
  "storable cx r \<Longrightarrow> \<exists>row. encode_record cx r = Inr row \<and> xr_execution_id row = er_execution_id r
    \<and> record_from_row err cx row = Inr r"
  by (cases "er_error r") (auto simp: encode_record_def encode_json_def record_from_row_def storable_def)

lemma event_row_roundtrip:
  "loggable cx e \<Longrightarrow> \<exists>v. event_row_of cx e = Inr v \<and> vr_execution_id v = sv_execution_id e
    \<and> event_from_row err cx (v\<lparr>vr_seq := n\<rparr>) = Inr e"
  by (auto simp: event_row_of_def encode_json_def event_from_row_def loggable_def)

lemma select_upsert:
  "select_row (upsert_row r rows) i =
    (if i = xr_execution_id r then Some r else select_row rows i)"
  by (induction rows) (auto simp: select_row_def)

lemma set_upsert_ids: "xr_execution_id ` set (upsert_row r rows) = insert (xr_execution_id r) (xr_execution_id ` set rows)"
  by (induction rows) auto

lemma distinct_upsert:
  "distinct (map xr_execution_id rows) \<Longrightarrow> distinct (map xr_execution_id (upsert_row r rows))"
proof (induction rows)
  case (Cons q qs)
  then show ?case using set_upsert_ids [of r qs] by (auto simp: image_iff)
qed simp

lemma sorted_filter_rows:
  "sorted (map vr_seq vs) \<Longrightarrow> sort_key vr_seq (filter P vs) = filter P vs"
  by (intro sort_key_id_if_sorted sorted_filter)

lemma insert_event_appends:
  assumes "tables_hold n t" "n < event_room"
  shows "\<exists>u w. insert_event full v t = Inr u \<and> tb_executions u = tb_executions t
    \<and> tb_events u = tb_events t @ [v\<lparr>vr_seq := w\<rparr>] \<and> tables_hold (Suc n) u"
  using assms by (force simp: insert_event_def tables_hold_def event_room_def sorted_append Let_def i64_max_def)

lemma select_events_in_order:
  "tables_hold n t \<Longrightarrow> select_events t i = filter (\<lambda>v. vr_execution_id v = i) (tb_events t)"
  by (simp add: select_events_def tables_hold_def sorted_filter_rows)

lemma mapR_append:
  "mapR f (xs @ ys) = bindR (mapR f xs) (\<lambda>us. bindR (mapR f ys) (\<lambda>vs. Inr (us @ vs)))"
  by (induction xs) (auto simp: bindR_def split: sum.splits)

lemma sql_create_law:
  assumes "tables_hold n t" "storable cx r"
  shows "\<exists>u. sql_create err cx None r t = Inr u \<and> tables_hold n u
    \<and> (\<forall>i. sql_load err cx None u i = (if i = er_execution_id r then Inr (Some r) else sql_load err cx None t i))
    \<and> (\<forall>i. sql_events err cx None u i = sql_events err cx None t i)"
proof -
  obtain row where row: "encode_record cx r = Inr row" "xr_execution_id row = er_execution_id r"
    "record_from_row err cx row = Inr r"
    using record_row_roundtrip [OF assms(2)] by blast
  with assms(1) show ?thesis
    by (auto simp: sql_create_def sql_load_def sql_events_def select_events_def select_upsert tables_hold_def
        distinct_upsert)
qed

lemma sql_append_law:
  assumes "tables_hold n t" "n < event_room" "loggable cx e"
  shows "\<exists>u. sql_append_event err full cx None e t = Inr u \<and> tables_hold (Suc n) u
    \<and> (\<forall>i. sql_load err cx None u i = sql_load err cx None t i)
    \<and> (\<forall>i. sql_events err cx None u i =
         bindR (sql_events err cx None t i) (\<lambda>es. Inr (if sv_execution_id e = i then es @ [e] else es)))"
proof -
  obtain v where v: "event_row_of cx e = Inr v" "vr_execution_id v = sv_execution_id e"
    "\<And>w. event_from_row err cx (v\<lparr>vr_seq := w\<rparr>) = Inr e"
    using assms(3) by (auto simp: event_row_of_def encode_json_def event_from_row_def loggable_def)
  obtain u w where u: "insert_event full v t = Inr u" "tb_executions u = tb_executions t"
    "tb_events u = tb_events t @ [v\<lparr>vr_seq := w\<rparr>]" "tables_hold (Suc n) u"
    using insert_event_appends [OF assms(1,2)] by blast
  have "sql_events err cx None u i =
      bindR (sql_events err cx None t i) (\<lambda>es. Inr (if sv_execution_id e = i then es @ [e] else es))" for i
    using v u by (auto simp: sql_events_def select_events_in_order [OF assms(1)]
        select_events_in_order [OF u(4)] mapR_append bindR_def split: sum.splits)
  with v u show ?thesis by (simp add: sql_append_event_def sql_load_def)
qed

fun sqlite_step :: "codec \<Rightarrow> store_op \<Rightarrow> tables \<Rightarrow> workflow_error + tables" where
  "sqlite_step cx (CreateOp r) t = sqlite_create cx None r t"
| "sqlite_step cx (UpdateOp r) t = sqlite_update cx None r t"
| "sqlite_step cx (AppendOp e) t = sqlite_append_event cx None e t"

fun postgres_step :: "codec \<Rightarrow> store_op \<Rightarrow> tables \<Rightarrow> workflow_error + tables" where
  "postgres_step cx (CreateOp r) t = postgres_create cx None r t"
| "postgres_step cx (UpdateOp r) t = postgres_update cx None r t"
| "postgres_step cx (AppendOp e) t = postgres_append_event cx None e t"

fun redis_step :: "codec \<Rightarrow> store_op \<Rightarrow> redis \<Rightarrow> workflow_error + redis" where
  "redis_step cx (CreateOp r) db = redis_create cx None r db"
| "redis_step cx (UpdateOp r) db = redis_update cx None r db"
| "redis_step cx (AppendOp e) db = redis_append_event cx None e db"

lemma tables_new_holds: "tables_hold 0 tables_new"
  by (simp add: tables_hold_def tables_new_def)

lemma tables_new_empty:
  "sql_load err cx None tables_new i = Inr None" "sql_events err cx None tables_new i = Inr []"
  by (simp_all add: tables_new_def sql_load_def sql_events_def select_row_def select_events_def)

fun sql_step :: "store_error \<Rightarrow> str \<Rightarrow> codec \<Rightarrow> store_op \<Rightarrow> tables \<Rightarrow> workflow_error + tables" where
  "sql_step err full cx (AppendOp e) t = sql_append_event err full cx None e t"
| "sql_step err full cx (CreateOp r) t = sql_create err cx None r t"
| "sql_step err full cx (UpdateOp r) t = sql_create err cx None r t"

interpretation sql: durable_store tables_new "sql_step err full cx" "sql_load err cx None" "sql_events err cx None"
  tables_hold event_room "storable cx" "loggable cx" for err full cx
proof unfold_locales
  show "\<exists>u. sql_step err full cx p t = Inr u \<and> tables_hold n u
      \<and> (\<forall>i. sql_load err cx None u i = (if i = er_execution_id r then Inr (Some r) else sql_load err cx None t i))
      \<and> (\<forall>i. sql_events err cx None u i = sql_events err cx None t i)"
    if "tables_hold n t" "storable cx r" "p = CreateOp r \<or> p = UpdateOp r" for n t r p
    using sql_create_law [OF that(1,2), of err] that(3) by auto
qed (simp_all add: tables_new_holds tables_new_empty sql_append_law)

lemma sqlite_step_sql: "sqlite_step cx = sql_step sqlite_error sqlite_full cx"
proof (intro ext)
  show "sqlite_step cx p t = sql_step sqlite_error sqlite_full cx p t" for p t
    by (cases p) (simp_all add: sqlite_create_def sqlite_update_def sqlite_append_event_def)
qed

lemma postgres_step_sql: "postgres_step cx = sql_step postgres_error postgres_full cx"
proof (intro ext)
  show "postgres_step cx p t = sql_step postgres_error postgres_full cx p t" for p t
    by (cases p) (simp_all add: postgres_create_def postgres_update_def postgres_append_event_def)
qed

section \<open>What the keys hold\<close>

definition redis_storable :: "codec \<Rightarrow> execution_record \<Rightarrow> bool" where
  "redis_storable cx r \<longleftrightarrow> cx_read_record cx (cx_record cx r) = Inr r"

definition redis_loggable :: "codec \<Rightarrow> stored_event \<Rightarrow> bool" where
  "redis_loggable cx e \<longleftrightarrow> cx_read_event cx (cx_event cx e) = Inr e"

definition keys_hold :: "redis \<Rightarrow> bool" where
  "keys_hold db \<longleftrightarrow> (\<forall>i vs. db (record_key i) \<noteq> Some (RedisList vs)) \<and> (\<forall>i v. db (events_key i) \<noteq> Some (RedisString v))"

text \<open>The two prefixes never give the same key, so the commands of one kind leave the other alone.\<close>

lemma keys_apart [simp]: "record_key i \<noteq> events_key j" "events_key j \<noteq> record_key i"
  by (simp_all add: record_key_def events_key_def lit_def)

lemma keys_inject [simp]: "record_key i = record_key j \<longleftrightarrow> i = j" "events_key i = events_key j \<longleftrightarrow> i = j"
  by (simp_all add: record_key_def events_key_def)

lemma redis_command_None [simp]: "redis_command ctx None (Inr x) = Inr x"
  by (simp add: redis_command_def)

lemma redis_create_law:
  assumes "keys_hold db" "redis_storable cx r"
  shows "\<exists>u. redis_create cx None r db = Inr u \<and> keys_hold u
    \<and> (\<forall>i. redis_load cx None u i = (if i = er_execution_id r then Inr (Some r) else redis_load cx None db i))
    \<and> (\<forall>i. redis_events cx None u i = redis_events cx None db i)"
  using assms by (auto simp: redis_create_def redis_load_def redis_events_def redis_set_def redis_get_def
      redis_lrange_all_def keys_hold_def redis_storable_def)

lemma redis_append_law:
  assumes "keys_hold db" "redis_loggable cx e"
  shows "\<exists>u. redis_append_event cx None e db = Inr u \<and> keys_hold u
    \<and> (\<forall>i. redis_load cx None u i = redis_load cx None db i)
    \<and> (\<forall>i. redis_events cx None u i =
         bindR (redis_events cx None db i) (\<lambda>es. Inr (if sv_execution_id e = i then es @ [e] else es)))"
proof -
  let ?k = "events_key (sv_execution_id e)"
  obtain vs where vs: "redis_lrange_all db ?k = Inr vs"
    "redis_rpush ?k (cx_event cx e) db = Inr (db(?k \<mapsto> RedisList (vs @ [cx_event cx e])))"
    using assms(1) by (force simp: keys_hold_def redis_lrange_all_def redis_rpush_def
        split: option.splits redis_value.splits)
  let ?u = "db(?k \<mapsto> RedisList (vs @ [cx_event cx e]))"
  have "keys_hold ?u"
    using assms(1) by (auto simp: keys_hold_def)
  moreover have "redis_load cx None ?u i = redis_load cx None db i" for i
    by (simp add: redis_load_def redis_get_def)
  moreover have "redis_events cx None ?u i =
      bindR (redis_events cx None db i) (\<lambda>es. Inr (if sv_execution_id e = i then es @ [e] else es))" for i
    using vs(1) assms(2) by (cases "sv_execution_id e = i")
      (auto simp: redis_events_def redis_lrange_all_def redis_loggable_def mapR_append bindR_def
        split: sum.splits)
  ultimately show ?thesis using vs(2) by (simp add: redis_append_event_def)
qed

interpretation redis: durable_store Map.empty "redis_step cx" "redis_load cx None" "redis_events cx None"
  "\<lambda>n. keys_hold" room "redis_storable cx" "redis_loggable cx" for cx room
proof unfold_locales
  show "\<exists>u. redis_step cx p db = Inr u \<and> keys_hold u
      \<and> (\<forall>i. redis_load cx None u i = (if i = er_execution_id r then Inr (Some r) else redis_load cx None db i))
      \<and> (\<forall>i. redis_events cx None u i = redis_events cx None db i)"
    if "keys_hold db" "redis_storable cx r" "p = CreateOp r \<or> p = UpdateOp r" for db r p
    using redis_create_law [OF that(1,2)] that(3) by (auto simp: redis_update_def)
  show "\<exists>u. redis_step cx (AppendOp e) db = Inr u \<and> keys_hold u
      \<and> (\<forall>i. redis_load cx None u i = redis_load cx None db i)
      \<and> (\<forall>i. redis_events cx None u i =
           bindR (redis_events cx None db i) (\<lambda>es. Inr (if sv_execution_id e = i then es @ [e] else es)))"
    if "keys_hold db" "redis_loggable cx e" for db e
    using redis_append_law [OF that] by simp
qed (simp_all add: keys_hold_def redis_load_def redis_events_def redis_get_def redis_lrange_all_def)

section \<open>All records\<close>

lemma record_from_row_keys:
  "record_from_row err cx q = Inr r \<Longrightarrow>
    er_execution_id r = xr_execution_id q \<and> er_started_at r = xr_started_at q"
  by (auto simp: record_from_row_def bindR_eq_Inr)

lemma mapR_map: "mapR f xs = Inr ys \<Longrightarrow> (\<And>x y. f x = Inr y \<Longrightarrow> g y = h x) \<Longrightarrow> map g ys = map h xs"
  by (induction xs arbitrary: ys) (auto simp: bindR_eq_Inr)

lemma mapR_set_iff: "mapR f xs = Inr ys \<Longrightarrow> y \<in> set ys \<longleftrightarrow> (\<exists>x \<in> set xs. f x = Inr y)"
  by (induction xs arbitrary: ys) (auto simp: bindR_eq_Inr)

lemma select_row_Some:
  "distinct (map xr_execution_id rows) \<Longrightarrow>
    select_row rows i = Some q \<longleftrightarrow> q \<in> set rows \<and> xr_execution_id q = i"
  by (induction rows) (auto simp: select_row_def)

lemma all_records_lists:
  assumes "tables_hold n t" "all_records cx None t = Inr rs"
  shows "sorted (map (\<lambda>r. (er_started_at r, er_execution_id r)) rs)"
    and "distinct (map er_execution_id rs)"
    and "r \<in> set rs \<longleftrightarrow> sqlite_load cx None t (er_execution_id r) = Inr (Some r)"
proof -
  let ?key = "\<lambda>q. (xr_started_at q, xr_execution_id q)"
  let ?rows = "sort_key ?key (tb_executions t)"
  have distinct: "distinct (map xr_execution_id (tb_executions t))"
    using assms(1) by (simp add: tables_hold_def)
  have rs: "mapR (record_from_row sqlite_error cx) ?rows = Inr rs"
    using assms(2) by (simp add: all_records_def)
  have "map (\<lambda>r. (er_started_at r, er_execution_id r)) rs = map ?key ?rows"
    by (rule mapR_map [OF rs]) (simp add: record_from_row_keys)
  then show "sorted (map (\<lambda>r. (er_started_at r, er_execution_id r)) rs)" by simp
  have "map er_execution_id rs = map xr_execution_id ?rows"
    by (rule mapR_map [OF rs]) (simp add: record_from_row_keys)
  moreover have "distinct (map xr_execution_id ?rows)"
    using distinct by (simp add: distinct_map)
  ultimately show "distinct (map er_execution_id rs)" by simp
  have "r \<in> set rs \<longleftrightarrow> (\<exists>q \<in> set (tb_executions t). record_from_row sqlite_error cx q = Inr r)"
    using mapR_set_iff [OF rs] by simp
  also have "\<dots> \<longleftrightarrow> (\<exists>q. select_row (tb_executions t) (er_execution_id r) = Some q
      \<and> record_from_row sqlite_error cx q = Inr r)"
    using record_from_row_keys by (fastforce simp: select_row_Some [OF distinct])
  also have "\<dots> \<longleftrightarrow> sqlite_load cx None t (er_execution_id r) = Inr (Some r)"
    by (cases "select_row (tb_executions t) (er_execution_id r)")
       (auto simp: sqlite_load_def sql_load_def bindR_eq_Inr)
  finally show "r \<in> set rs \<longleftrightarrow> sqlite_load cx None t (er_execution_id r) = Inr (Some r)" .
qed

end
