(* ===== verification/Telemetry.thy ===== *)
theory Telemetry
  imports Engine
begin

text \<open>
  Observability: the lifecycle events that the crate \<open>ows-runtime-observability\<close> can emit beside the
  two the engine uses, and the exporters of \<open>ows-runtime-observability-otel\<close>, which turn lifecycle
  events into logs, spans and metrics, as JSON over HTTP (lib.rs) and as messages over gRPC (grpc.rs).
  The collector, the hash function of the standard library and the reading of timestamps are
  parameters.
\<close>

section \<open>Lifecycle events\<close>

type_synonym publisher = "event_message \<Rightarrow> failure + unit"

definition obj :: "(str \<times> json) list \<Rightarrow> json" where
  "obj entries = Object (map_extend entries [])"

definition emit :: "publisher \<Rightarrow> str \<Rightarrow> workflow_id \<Rightarrow> str \<Rightarrow> str \<Rightarrow> json \<Rightarrow> failure + unit" where
  "emit publisher i w ty time data =
     publisher (to_message ((cloud_event_new i (event_source w) ty)\<lparr>cev_time := Some time, cev_data := Some data\<rparr>))"

definition task_data :: "workflow_id \<Rightarrow> str \<Rightarrow> str \<Rightarrow> str \<Rightarrow> (str \<times> json) list \<Rightarrow> json" where
  "task_data w execution task name rest =
     obj ([(lit ''name'', String (qualified_name w)), (lit ''executionId'', String execution),
       (lit ''task'', obj [(lit ''id'', String task), (lit ''name'', String name)])] @ rest)"

definition emit_workflow_faulted :: "publisher \<Rightarrow> workflow_id \<Rightarrow> str \<Rightarrow> str \<Rightarrow> json \<Rightarrow> failure + unit" where
  "emit_workflow_faulted publisher w execution faulted_at error =
     emit publisher (execution @ lit ''.faulted'') w (lit ''io.serverlessworkflow.workflow.faulted.v1'') faulted_at
       (obj [(lit ''name'', String (qualified_name w)), (lit ''faultedAt'', String faulted_at), (lit ''error'', error)])"

definition emit_workflow_cancelled :: "publisher \<Rightarrow> workflow_id \<Rightarrow> str \<Rightarrow> str \<Rightarrow> failure + unit" where
  "emit_workflow_cancelled publisher w execution cancelled_at =
     emit publisher (execution @ lit ''.cancelled'') w (lit ''io.serverlessworkflow.workflow.cancelled.v1'')
       cancelled_at
       (obj [(lit ''name'', String (qualified_name w)), (lit ''cancelledAt'', String cancelled_at)])"

definition emit_status_changed :: "publisher \<Rightarrow> workflow_id \<Rightarrow> str \<Rightarrow> str \<Rightarrow> str \<Rightarrow> str \<Rightarrow> failure + unit" where
  "emit_status_changed publisher w execution old new time =
     emit publisher (execution @ lit ''.status.'' @ new) w
       (lit ''io.serverlessworkflow.workflow.status-changed.v1'') time
       (obj [(lit ''name'', String (qualified_name w)), (lit ''from'', String old), (lit ''to'', String new)])"

definition emit_task_started :: "publisher \<Rightarrow> workflow_id \<Rightarrow> str \<Rightarrow> str \<Rightarrow> str \<Rightarrow> str \<Rightarrow> failure + unit" where
  "emit_task_started publisher w execution task name started_at =
     emit publisher (execution @ lit ''.'' @ task @ lit ''.started'') w
       (lit ''io.serverlessworkflow.task.started.v1'') started_at
       (task_data w execution task name [(lit ''startedAt'', String started_at)])"

definition emit_task_completed :: "publisher \<Rightarrow> workflow_id \<Rightarrow> str \<Rightarrow> str \<Rightarrow> str \<Rightarrow> str \<Rightarrow> failure + unit" where
  "emit_task_completed publisher w execution task name completed_at =
     emit publisher (execution @ lit ''.'' @ task @ lit ''.completed'') w
       (lit ''io.serverlessworkflow.task.completed.v1'') completed_at
       (task_data w execution task name [(lit ''completedAt'', String completed_at)])"

definition emit_task_faulted ::
  "publisher \<Rightarrow> workflow_id \<Rightarrow> str \<Rightarrow> str \<Rightarrow> str \<Rightarrow> str \<Rightarrow> json \<Rightarrow> failure + unit" where
  "emit_task_faulted publisher w execution task name faulted_at error =
     emit publisher (execution @ lit ''.'' @ task @ lit ''.faulted'') w
       (lit ''io.serverlessworkflow.task.faulted.v1'') faulted_at
       (task_data w execution task name [(lit ''faultedAt'', String faulted_at), (lit ''error'', error)])"

definition emit_task_retried ::
  "publisher \<Rightarrow> workflow_id \<Rightarrow> str \<Rightarrow> str \<Rightarrow> str \<Rightarrow> u32 \<Rightarrow> str \<Rightarrow> failure + unit" where
  "emit_task_retried publisher w execution task name attempt retried_at =
     emit publisher (execution @ lit ''.'' @ task @ lit ''.retried'') w
       (lit ''io.serverlessworkflow.task.retried.v1'') retried_at
       (task_data w execution task name
         [(lit ''attempt'', json_of_nat (unat attempt)), (lit ''retriedAt'', String retried_at)])"

section \<open>Identifiers and times\<close>

record collector =
  co_post :: "str \<Rightarrow> json \<Rightarrow> str + u16"
  co_hash :: "u64 \<Rightarrow> str \<Rightarrow> u64"
  co_nanos :: "str \<Rightarrow> int option"
  co_text :: "json \<Rightarrow> str option"

definition int_str :: "int \<Rightarrow> str" where
  "int_str i = (if i < 0 then lit ''-'' @ nat_str (nat (- i)) else nat_str (nat i))"

definition hex_char :: "nat \<Rightarrow> nat" where
  "hex_char d = (if d < 10 then 48 + d else 87 + d)"

text \<open>\<open>format!("{:016x}", n)\<close>.\<close>

definition hex16 :: "u64 \<Rightarrow> str" where
  "hex16 n = map (\<lambda>i. hex_char (unat n div 16 ^ (15 - i) mod 16)) [0..<16]"

function hash_loop :: "(u64 \<Rightarrow> str \<Rightarrow> u64) \<Rightarrow> str \<Rightarrow> nat \<Rightarrow> u64 \<Rightarrow> str \<Rightarrow> str" where
  "hash_loop hash seed n counter out =
     (if length out < n then hash_loop hash seed n (counter + 1) (out @ hex16 (hash counter seed)) else out)"
  by pat_completeness auto
termination by (relation "measure (\<lambda>(hash, seed, n, counter, out). n - length out)") (auto simp: hex16_def)

declare hash_loop.simps [simp del]

text \<open>An identifier of zeros only has its first digit replaced, which panics where there is none.\<close>

definition hash_hex :: "(u64 \<Rightarrow> str \<Rightarrow> u64) \<Rightarrow> str \<Rightarrow> nat \<Rightarrow> failure + str" where
  "hash_hex hash seed bytes =
     (let out = take (bytes * 2) (hash_loop hash seed (bytes * 2) 0 []) in
      if list_all (\<lambda>c. c = 48) out
      then (case out of [] \<Rightarrow> Inl (Panicked (lit ''range end index 1 out of range'')) | c # cs \<Rightarrow> Inr (49 # cs))
      else Inr out)"

definition event_time_nanos :: "collector \<Rightarrow> event_message \<Rightarrow> nat" where
  "event_time_nanos co e =
     (case em_time e of
        None \<Rightarrow> 0
      | Some t \<Rightarrow> (case co_nanos co t of None \<Rightarrow> 0 | Some n \<Rightarrow> nat (max n 0)))"

section \<open>JSON over HTTP\<close>

definition attribute :: "string \<Rightarrow> str \<Rightarrow> json" where
  "attribute key v = obj [(lit ''key'', String (lit key)), (lit ''value'', obj [(lit ''stringValue'', String v)])]"

definition opt_attribute :: "string \<Rightarrow> str option \<Rightarrow> json list" where
  "opt_attribute key v = (case v of None \<Rightarrow> [] | Some s \<Rightarrow> [attribute key s])"

definition data_text :: "collector \<Rightarrow> event_message \<Rightarrow> str option" where
  "data_text co e = map_option (\<lambda>v. case co_text co v of Some t \<Rightarrow> t | None \<Rightarrow> []) (em_data e)"

definition service_resource :: "str \<Rightarrow> json" where
  "service_resource service = obj [(lit ''attributes'', Array [attribute ''service.name'' service])]"

definition otlp_scope :: json where
  "otlp_scope = obj [(lit ''name'', String (lit ''ows-runtime''))]"

definition log_time :: "collector \<Rightarrow> event_message \<Rightarrow> int" where
  "log_time co e =
     (case em_time e of None \<Rightarrow> 0 | Some t \<Rightarrow> (case co_nanos co t of None \<Rightarrow> 0 | Some n \<Rightarrow> n))"

definition encode_log_request :: "collector \<Rightarrow> event_message \<Rightarrow> str \<Rightarrow> json" where
  "encode_log_request co e service =
     (let attributes =
            [attribute ''event.id'' (em_id e), attribute ''event.source'' (em_source e),
             attribute ''event.type'' (em_type e), attribute ''service.name'' service]
            @ opt_attribute ''event.subject'' (em_subject e) @ opt_attribute ''event.data'' (data_text co e)
      in obj [(lit ''resourceLogs'', Array [obj
           [(lit ''resource'', service_resource service),
            (lit ''scopeLogs'', Array [obj
              [(lit ''scope'', otlp_scope),
               (lit ''logRecords'', Array [obj
                 [(lit ''timeUnixNano'', String (int_str (log_time co e))),
                  (lit ''severityText'', String (lit ''INFO'')),
                  (lit ''body'', obj [(lit ''stringValue'', String (em_type e))]),
                  (lit ''attributes'', Array attributes)]])]])]])])"

definition parent_seed :: "event_message \<Rightarrow> str" where
  "parent_seed e = em_source e @ lit ''/'' @ (case em_subject e of None \<Rightarrow> [] | Some s \<Rightarrow> s)"

definition errored :: "event_message \<Rightarrow> bool" where
  "errored e \<longleftrightarrow> str_contains (em_type e) (lit ''faulted'') \<or> str_contains (em_type e) (lit ''cancelled'')
     \<or> str_contains (em_type e) (lit ''failed'')"

definition encode_trace_request :: "collector \<Rightarrow> event_message \<Rightarrow> str \<Rightarrow> failure + json" where
  "encode_trace_request co e service =
     (let time = nat_str (event_time_nanos co e) in
      bindR (hash_hex (co_hash co) (parent_seed e) 16) (\<lambda>trace.
      bindR (hash_hex (co_hash co) (em_id e) 8) (\<lambda>span.
      let attributes =
            [attribute ''event.id'' (em_id e), attribute ''event.source'' (em_source e),
             attribute ''event.type'' (em_type e)]
            @ opt_attribute ''event.subject'' (em_subject e) @ opt_attribute ''event.data'' (data_text co e)
      in Inr (obj [(lit ''resourceSpans'', Array [obj
           [(lit ''resource'', service_resource service),
            (lit ''scopeSpans'', Array [obj
              [(lit ''scope'', otlp_scope),
               (lit ''spans'', Array [obj
                 [(lit ''traceId'', String trace), (lit ''spanId'', String span),
                  (lit ''name'', String (em_type e)), (lit ''kind'', json_of_nat 1),
                  (lit ''startTimeUnixNano'', String time), (lit ''endTimeUnixNano'', String time),
                  (lit ''attributes'', Array attributes),
                  (lit ''status'', obj [(lit ''code'', json_of_nat (if errored e then 2 else 1))])]])]])]])]))))"

definition comm_error :: "str \<Rightarrow> failure" where
  "comm_error d = (let e = werr_standard KCommunication SCommunication in
     Failed (e\<lparr>we_problem := (we_problem e)\<lparr>pd_detail := Some d\<rparr>\<rparr>))"

text \<open>What the three HTTP exporters do with a payload; they differ in a word of their messages.\<close>

definition export_http :: "collector \<Rightarrow> str \<Rightarrow> str \<Rightarrow> json \<Rightarrow> failure + unit" where
  "export_http co what endpoint payload =
     (case co_post co endpoint payload of
        Inl e \<Rightarrow> Inl (comm_error (what @ lit '' export to `'' @ endpoint @ lit ''` failed: '' @ e))
      | Inr status \<Rightarrow>
          if 200 \<le> status \<and> status < 300 then Inr ()
          else Inl (comm_error
            (what @ lit '' export to `'' @ endpoint @ lit ''` returned status '' @ nat_str (unat status))))"

definition publish_log :: "collector \<Rightarrow> str \<Rightarrow> str \<Rightarrow> event_message \<Rightarrow> failure + unit" where
  "publish_log co endpoint service e = export_http co (lit ''otlp'') endpoint (encode_log_request co e service)"

definition publish_span :: "collector \<Rightarrow> str \<Rightarrow> str \<Rightarrow> event_message \<Rightarrow> failure + unit" where
  "publish_span co endpoint service e =
     bindR (encode_trace_request co e service) (export_http co (lit ''otlp trace'') endpoint)"

section \<open>Metrics\<close>

record metrics =
  me_counters :: "(str, i64) amap"
  me_durations :: "(str, f64 list) amap"

definition metrics_new :: metrics where
  "metrics_new = \<lparr>me_counters = [], me_durations = []\<rparr>"

definition counter :: "metrics \<Rightarrow> str \<Rightarrow> i64" where
  "counter m name = (case map_of (me_counters m) name of Some v \<Rightarrow> v | None \<Rightarrow> 0)"

definition samples_of :: "metrics \<Rightarrow> str \<Rightarrow> f64 list" where
  "samples_of m name = (case map_of (me_durations m) name of Some xs \<Rightarrow> xs | None \<Rightarrow> [])"

text \<open>An addition beyond the range of \<open>i64\<close> wraps, or panics where overflow checks are on.\<close>

definition inc_counter :: "platform \<Rightarrow> str \<Rightarrow> i64 \<Rightarrow> metrics \<Rightarrow> failure + metrics" where
  "inc_counter pf name delta m =
     (let old = counter m name; new = old + delta in
      if overflow_checks pf \<and> sint old + sint delta \<noteq> sint new
      then Inl (Panicked (lit ''attempt to add with overflow''))
      else Inr (m\<lparr>me_counters := map_insert name new (me_counters m)\<rparr>))"

definition observe_duration :: "str \<Rightarrow> f64 \<Rightarrow> metrics \<Rightarrow> metrics" where
  "observe_duration name millis m =
     m\<lparr>me_durations := map_insert name (samples_of m name @ [millis]) (me_durations m)\<rparr>"

definition record_event :: "platform \<Rightarrow> event_message \<Rightarrow> metrics \<Rightarrow> failure + metrics" where
  "record_event pf e m =
     bindR (inc_counter pf (lit ''ows.events.'' @ em_type e) 1 m) (\<lambda>m.
     if str_contains (em_type e) (lit ''workflow.completed'') then inc_counter pf (lit ''ows.workflow.completed'') 1 m
     else if str_contains (em_type e) (lit ''workflow.faulted'') then inc_counter pf (lit ''ows.workflow.faulted'') 1 m
     else Inr m)"

definition bucket_bounds :: "f64 list" where
  "bucket_bounds = map f64_of_int [1, 5, 10, 50, 100, 500, 1000, 5000]"

definition f64_le :: "f64 \<Rightarrow> f64 \<Rightarrow> bool" where
  "f64_le x y \<longleftrightarrow> f64_lt x y \<or> f64_eq x y"

definition place_sample :: "f64 \<Rightarrow> nat list \<Rightarrow> nat list" where
  "place_sample x counts =
     (let i = (case position (\<lambda>b. f64_le x b) bucket_bounds of Some i \<Rightarrow> i | None \<Rightarrow> length counts - 1)
      in counts[i := counts ! i + 1])"

definition bucket_counts :: "f64 list \<Rightarrow> nat list" where
  "bucket_counts samples = fold place_sample samples (replicate (length bucket_bounds + 1) 0)"

text \<open>The sum of an iterator of floats starts from negative zero.\<close>

definition f64_sum :: "f64 list \<Rightarrow> f64" where
  "f64_sum xs = foldl f64_add (f64_zero True) xs"

definition json_of_f64 :: "f64 \<Rightarrow> json" where
  "json_of_f64 x = (case number_of_f64 x of Some n \<Rightarrow> Number n | None \<Rightarrow> Null)"

definition counter_metric :: "nat \<Rightarrow> str \<times> i64 \<Rightarrow> json" where
  "counter_metric time = (\<lambda>(name, v). obj
     [(lit ''name'', String name), (lit ''unit'', String (lit ''1'')),
      (lit ''sum'', obj
        [(lit ''aggregationTemporality'', json_of_nat 2), (lit ''isMonotonic'', Bool True),
         (lit ''dataPoints'', Array [obj
           [(lit ''asInt'', String (int_str (sint v))), (lit ''timeUnixNano'', String (nat_str time))]])])])"

definition duration_metric :: "nat \<Rightarrow> str \<times> f64 list \<Rightarrow> json" where
  "duration_metric time = (\<lambda>(name, samples). obj
     [(lit ''name'', String name), (lit ''unit'', String (lit ''ms'')),
      (lit ''histogram'', obj
        [(lit ''aggregationTemporality'', json_of_nat 2),
         (lit ''dataPoints'', Array [obj
           [(lit ''count'', String (nat_str (length samples))), (lit ''sum'', json_of_f64 (f64_sum samples)),
            (lit ''bucketCounts'', Array (map (\<lambda>c. String (nat_str c)) (bucket_counts samples))),
            (lit ''explicitBounds'', Array (map json_of_f64 bucket_bounds)),
            (lit ''timeUnixNano'', String (nat_str time))]])])])"

definition encode_metrics_request :: "metrics \<Rightarrow> str \<Rightarrow> nat \<Rightarrow> json" where
  "encode_metrics_request m service time =
     obj [(lit ''resourceMetrics'', Array [obj
       [(lit ''resource'', service_resource service),
        (lit ''scopeMetrics'', Array [obj
          [(lit ''scope'', otlp_scope),
           (lit ''metrics'', Array (map (counter_metric time) (me_counters m)
             @ map (duration_metric time) (filter (\<lambda>(name, samples). samples \<noteq> []) (me_durations m))))]])]])]"

definition export_metrics :: "collector \<Rightarrow> str \<Rightarrow> str \<Rightarrow> nat \<Rightarrow> metrics \<Rightarrow> failure + unit" where
  "export_metrics co endpoint service time m =
     export_http co (lit ''otlp metric'') endpoint (encode_metrics_request m service time)"

section \<open>Messages over gRPC\<close>

text \<open>The fields of the generated messages that the code sets; the others keep their defaults.\<close>

type_synonym key_value = "str \<times> str"

record log_record =
  lg_time :: nat
  lg_observed :: nat
  lg_severity :: str
  lg_body :: str
  lg_attributes :: "key_value list"

record span_message =
  sn_trace_id :: "u8 list"
  sn_span_id :: "u8 list"
  sn_name :: str
  sn_kind :: nat
  sn_start :: nat
  sn_end :: nat
  sn_attributes :: "key_value list"
  sn_status_message :: str
  sn_status_code :: nat

text \<open>Values with their temporality, which is cumulative throughout; sums also say that they are monotonic.\<close>

definition cumulative :: nat where
  "cumulative = 2"

datatype metric_data =
    SumData i64 nat bool
  | HistogramData nat f64 "nat list" "f64 list" nat

record metric_message =
  mm_name :: str
  mm_unit :: str
  mm_time :: nat
  mm_data :: metric_data

text \<open>An export request holds one resource with one scope.\<close>

record 'a export_request =
  rq_resource :: "key_value list"
  rq_scope :: str
  rq_items :: "'a list"

definition request_of :: "str \<Rightarrow> 'a list \<Rightarrow> 'a export_request" where
  "request_of service items =
     \<lparr>rq_resource = [(lit ''service.name'', service)], rq_scope = lit ''ows-runtime'', rq_items = items\<rparr>"

definition hex_pair :: "str \<Rightarrow> nat \<Rightarrow> u8" where
  "hex_pair hex i =
     (case from_str_radix16 (take 2 (drop (2 * i) hex)) of Some n \<Rightarrow> word_of_nat n | None \<Rightarrow> 0)"

definition hex_bytes :: "(u64 \<Rightarrow> str \<Rightarrow> u64) \<Rightarrow> str \<Rightarrow> nat \<Rightarrow> failure + u8 list" where
  "hex_bytes hash seed bytes = bindR (hash_hex hash seed bytes) (\<lambda>hex. Inr (map (hex_pair hex) [0..<bytes]))"

definition opt_key_value :: "string \<Rightarrow> str option \<Rightarrow> key_value list" where
  "opt_key_value key v = (case v of None \<Rightarrow> [] | Some s \<Rightarrow> [(lit key, s)])"

definition event_key_values :: "event_message \<Rightarrow> key_value list" where
  "event_key_values e =
     [(lit ''event.id'', em_id e), (lit ''event.source'', em_source e), (lit ''event.type'', em_type e)]"

definition log_record_from_event :: "collector \<Rightarrow> event_message \<Rightarrow> log_record" where
  "log_record_from_event co e =
     \<lparr>lg_time = event_time_nanos co e, lg_observed = event_time_nanos co e, lg_severity = lit ''INFO'',
      lg_body = em_type e,
      lg_attributes = event_key_values e @ opt_key_value ''event.subject'' (em_subject e)
        @ opt_key_value ''event.data'' (data_text co e)\<rparr>"

definition logs_request :: "collector \<Rightarrow> event_message \<Rightarrow> str \<Rightarrow> log_record export_request" where
  "logs_request co e service = request_of service [log_record_from_event co e]"

definition span_from_event :: "collector \<Rightarrow> event_message \<Rightarrow> failure + span_message" where
  "span_from_event co e =
     (let time = event_time_nanos co e in
      bindR (hex_bytes (co_hash co) (parent_seed e) 16) (\<lambda>trace.
      bindR (hex_bytes (co_hash co) (em_id e) 8) (\<lambda>span.
      Inr \<lparr>sn_trace_id = trace, sn_span_id = span, sn_name = em_type e, sn_kind = 1, sn_start = time, sn_end = time,
           sn_attributes = event_key_values e @ opt_key_value ''event.data'' (data_text co e),
           sn_status_message = [], sn_status_code = (if errored e then 2 else 1)\<rparr>)))"

definition traces_request :: "collector \<Rightarrow> event_message \<Rightarrow> str \<Rightarrow> failure + span_message export_request" where
  "traces_request co e service = bindR (span_from_event co e) (\<lambda>s. Inr (request_of service [s]))"

definition counter_message :: "nat \<Rightarrow> str \<times> i64 \<Rightarrow> metric_message" where
  "counter_message time = (\<lambda>(name, v).
     \<lparr>mm_name = name, mm_unit = lit ''1'', mm_time = time, mm_data = SumData v cumulative True\<rparr>)"

definition duration_message :: "nat \<Rightarrow> str \<times> f64 list \<Rightarrow> metric_message" where
  "duration_message time = (\<lambda>(name, samples).
     \<lparr>mm_name = name, mm_unit = lit ''ms'', mm_time = time,
      mm_data = HistogramData (length samples) (f64_sum samples) (bucket_counts samples) bucket_bounds cumulative\<rparr>)"

definition metrics_request :: "metrics \<Rightarrow> str \<Rightarrow> nat \<Rightarrow> metric_message export_request" where
  "metrics_request m service time =
     request_of service (map (counter_message time) (me_counters m)
       @ map (duration_message time) (filter (\<lambda>(name, samples). samples \<noteq> []) (me_durations m)))"

text \<open>A publisher over gRPC: the call is answered or fails with a status text.\<close>

definition grpc_export :: "('r \<Rightarrow> str option) \<Rightarrow> str \<Rightarrow> 'r \<Rightarrow> failure + unit" where
  "grpc_export call what request =
     (case call request of
        None \<Rightarrow> Inr ()
      | Some e \<Rightarrow> Inl (comm_error (lit ''OTLP/gRPC '' @ what @ lit '' export failed: '' @ e)))"

definition grpc_connect :: "(str \<Rightarrow> str option) \<Rightarrow> str \<Rightarrow> failure + unit" where
  "grpc_connect connect endpoint =
     (case connect endpoint of
        None \<Rightarrow> Inr ()
      | Some e \<Rightarrow> Inl (comm_error (lit ''failed to connect to `'' @ endpoint @ lit ''`: '' @ e)))"

definition grpc_publish_log ::
  "collector \<Rightarrow> (log_record export_request \<Rightarrow> str option) \<Rightarrow> str \<Rightarrow> event_message \<Rightarrow> failure + unit" where
  "grpc_publish_log co call service e = grpc_export call (lit ''log'') (logs_request co e service)"

definition grpc_publish_span ::
  "collector \<Rightarrow> (span_message export_request \<Rightarrow> str option) \<Rightarrow> str \<Rightarrow> event_message \<Rightarrow> failure + unit" where
  "grpc_publish_span co call service e =
     bindR (traces_request co e service) (grpc_export call (lit ''trace''))"

definition grpc_export_metrics ::
  "(metric_message export_request \<Rightarrow> str option) \<Rightarrow> str \<Rightarrow> nat \<Rightarrow> metrics \<Rightarrow> failure + unit" where
  "grpc_export_metrics call service time m = grpc_export call (lit ''metric'') (metrics_request m service time)"

end
