(* ===== verification/TelemetryLaws.thy ===== *)
theory TelemetryLaws
  imports Telemetry ExprOps
begin

text \<open>
  What the exporters promise: well-formed identifiers, histograms that place every sample once,
  counters that count, and agreement of the two transports.
\<close>

section \<open>Identifiers\<close>

text \<open>The lower-case hexadecimal digits, by value, and the text of bytes in them.\<close>

definition hex_digits :: str where
  "hex_digits = lit ''0123456789abcdef''"

definition is_hex :: "nat \<Rightarrow> bool" where
  "is_hex c \<longleftrightarrow> c \<in> set hex_digits"

definition hex_text :: "u8 list \<Rightarrow> str" where
  "hex_text bs = concat (map (\<lambda>b. [hex_digits ! (unat b div 16), hex_digits ! (unat b mod 16)]) bs)"

lemma hex_digits_list:
  "hex_digits = [48, 49, 50, 51, 52, 53, 54, 55, 56, 57, 97, 98, 99, 100, 101, 102]"
  by (simp add: hex_digits_def lit_def)

lemma is_hex_char: "d < 16 \<Longrightarrow> is_hex (hex_char d)"
  by (auto simp: is_hex_def hex_digits_list hex_char_def)

lemma is_hex_value: "is_hex c \<Longrightarrow> \<exists>d < 16. hex_digit c = Some d \<and> hex_digits ! d = c"
  by (auto simp: is_hex_def hex_digits_list hex_digit_def)

lemma hex16_digits: "length (hex16 n) = 16" "list_all is_hex (hex16 n)"
  by (simp_all add: hex16_def list_all_iff is_hex_char)

lemma hash_loop_digits:
  "list_all is_hex out \<Longrightarrow>
    n \<le> length (hash_loop hash seed n k out) \<and> list_all is_hex (hash_loop hash seed n k out)"
proof (induction hash seed n k out rule: hash_loop.induct)
  case (1 hash seed n k out)
  show ?case
    by (subst (1 2) hash_loop.simps) (use 1 hex16_digits(2) in \<open>simp add: list_all_append\<close>)
qed

definition trace_identifier :: "nat \<Rightarrow> str \<Rightarrow> bool" where
  "trace_identifier bytes s \<longleftrightarrow> length s = bytes * 2 \<and> list_all is_hex s \<and> \<not> list_all (\<lambda>c. c = 48) s"

lemma hash_hex_trace_identifier:
  assumes "0 < bytes"
  shows "\<exists>s. hash_hex hash seed bytes = Inr s \<and> trace_identifier bytes s"
proof -
  define loop where "loop = hash_loop hash seed (bytes * 2) 0 []"
  define out where "out = take (bytes * 2) loop"
  have loop: "bytes * 2 \<le> length loop" "list_all is_hex loop"
    using hash_loop_digits [of "[]" "bytes * 2" hash seed 0] by (simp_all add: loop_def)
  then have out: "length out = bytes * 2" "list_all is_hex out"
    by (auto simp: out_def list_all_iff dest: in_set_takeD)
  obtain c cs where cs: "out = c # cs"
    using out(1) assms by (cases out) auto
  have "is_hex 49" by (simp add: is_hex_def hex_digits_list)
  with out cs show ?thesis
    by (auto simp: hash_hex_def Let_def trace_identifier_def loop_def [symmetric] out_def [symmetric])
qed

text \<open>The bytes of an identifier, the way the messages over gRPC carry it.\<close>

lemma take_drop_pair: "2 * i + 1 < length s \<Longrightarrow> take 2 (drop (2 * i) s) = [s ! (2 * i), s ! (2 * i + 1)]"
  by (simp add: take_Suc_conv_app_nth numeral_2_eq_2 take_Suc hd_drop_conv_nth Cons_nth_drop_Suc [symmetric])

lemma hex_pair_value:
  assumes "trace_identifier bytes s" "i < bytes"
  shows "hex_digits ! (unat (hex_pair s i) div 16) = s ! (2 * i)"
    "hex_digits ! (unat (hex_pair s i) mod 16) = s ! (2 * i + 1)"
proof -
  have len: "2 * i + 1 < length s" using assms by (simp add: trace_identifier_def)
  then have "is_hex (s ! (2 * i))" "is_hex (s ! (2 * i + 1))"
    using assms(1) by (simp_all add: trace_identifier_def list_all_length)
  then obtain a b where a: "a < 16" "hex_digit (s ! (2 * i)) = Some a" "hex_digits ! a = s ! (2 * i)"
    and b: "b < 16" "hex_digit (s ! (2 * i + 1)) = Some b" "hex_digits ! b = s ! (2 * i + 1)"
    using is_hex_value by metis
  from a(2) have "s ! (2 * i) \<noteq> 43" by (auto simp: hex_digit_def)
  with a b len have "hex_pair s i = word_of_nat (16 * a + b)"
    by (simp add: hex_pair_def take_drop_pair from_str_radix16_def)
  moreover have "unat (word_of_nat (16 * a + b) :: u8) = 16 * a + b"
    by (subst unat_of_nat) (use a(1) b(1) in simp)
  ultimately show "hex_digits ! (unat (hex_pair s i) div 16) = s ! (2 * i)"
    "hex_digits ! (unat (hex_pair s i) mod 16) = s ! (2 * i + 1)"
    using a b by simp_all
qed

lemma concat_pairs: "2 * n \<le> length s \<Longrightarrow> concat (map (\<lambda>i. [s ! (2 * i), s ! (2 * i + 1)]) [0..<n]) = take (2 * n) s"
  by (induction n) (simp_all add: take_Suc_conv_app_nth)

lemma hex_text_pairs:
  assumes "trace_identifier bytes s"
  shows "hex_text (map (hex_pair s) [0..<bytes]) = s"
proof -
  have "hex_text (map (hex_pair s) [0..<bytes]) = concat (map (\<lambda>i. [s ! (2 * i), s ! (2 * i + 1)]) [0..<bytes])"
    unfolding hex_text_def map_map comp_def
    using hex_pair_value [OF assms] by (intro arg_cong [where f = concat] map_cong) auto
  with concat_pairs [of bytes s] assms show ?thesis by (simp add: trace_identifier_def)
qed

lemma hex_text_zeros: "\<forall>b \<in> set bs. b = 0 \<Longrightarrow> list_all (\<lambda>c. c = 48) (hex_text bs)"
  by (auto simp: hex_text_def list_all_iff hex_digits_list)

lemma identifier_bytes:
  assumes "trace_identifier bytes s"
  shows "\<exists>b \<in> set (map (hex_pair s) [0..<bytes]). b \<noteq> 0"
proof (rule ccontr)
  assume "\<not> (\<exists>b \<in> set (map (hex_pair s) [0..<bytes]). b \<noteq> 0)"
  then have "list_all (\<lambda>c. c = 48) (hex_text (map (hex_pair s) [0..<bytes]))" by (intro hex_text_zeros) blast
  with assms show False by (simp add: hex_text_pairs trace_identifier_def)
qed

section \<open>Histograms\<close>

definition bucket_of :: "f64 \<Rightarrow> nat" where
  "bucket_of x = (case position (\<lambda>b. f64_le x b) bucket_bounds of Some i \<Rightarrow> i | None \<Rightarrow> length bucket_bounds)"

lemma length_bucket_bounds [simp]: "length bucket_bounds = 8"
  by (simp add: bucket_bounds_def)

lemma bucket_of_le: "bucket_of x \<le> 8"
  by (auto simp: bucket_of_def dest: position_SomeD split: option.split)

lemma place_sample_bucket:
  "length counts = 9 \<Longrightarrow> place_sample x counts = counts[bucket_of x := counts ! bucket_of x + 1]"
  by (simp add: place_sample_def bucket_of_def split: option.split)

lemma place_samples:
  "length counts = 9 \<Longrightarrow> i < 9 \<Longrightarrow>
    length (fold place_sample xs counts) = 9
    \<and> fold place_sample xs counts ! i = counts ! i + length (filter (\<lambda>x. bucket_of x = i) xs)"
proof (induction xs arbitrary: counts)
  case (Cons x xs)
  then show ?case
    using bucket_of_le [of x] by (auto simp: place_sample_bucket nth_list_update)
qed simp

lemma bucket_counts_nth: "i < 9 \<Longrightarrow> bucket_counts xs ! i = length (filter (\<lambda>x. bucket_of x = i) xs)"
  and length_bucket_counts: "length (bucket_counts xs) = 9"
  using place_samples [of "replicate 9 0" i xs] place_samples [of "replicate 9 0" 0 xs]
  by (simp_all add: bucket_counts_def)

lemma sum_by_key:
  "(\<And>x. x \<in> set xs \<Longrightarrow> f x < n) \<Longrightarrow> (\<Sum>i < n. length (filter (\<lambda>x. f x = i) xs)) = length xs" for n :: nat
proof (induction xs)
  case (Cons x xs)
  have "(\<Sum>i < n. length (filter (\<lambda>y. f y = i) (x # xs)))
      = (\<Sum>i < n. (if i = f x then 1 else 0) + length (filter (\<lambda>y. f y = i) xs))"
    by (intro sum.cong) auto
  also have "\<dots> = 1 + length xs"
    using Cons by (simp add: sum.distrib)
  finally show ?case by simp
qed simp

lemma sum_bucket_counts: "sum_list (bucket_counts xs) = length xs"
proof -
  have "sum_list (bucket_counts xs) = (\<Sum>i < 9. length (filter (\<lambda>x. bucket_of x = i) xs))"
    by (simp add: sum_list_sum_nth length_bucket_counts bucket_counts_nth atLeast0LessThan)
  also have "\<dots> = length xs"
    by (rule sum_by_key) (metis bucket_of_le le_imp_less_Suc eval_nat_numeral(3))
  finally show ?thesis .
qed

text \<open>The bucket of a sample in terms of the bounds.\<close>

lemma bucket_of_iff:
  assumes "i < 8"
  shows "bucket_of x = i \<longleftrightarrow> f64_le x (bucket_bounds ! i) \<and> (\<forall>j < i. \<not> f64_le x (bucket_bounds ! j))"
proof (cases "position (\<lambda>b. f64_le x b) bucket_bounds")
  case None
  then have "\<not> f64_le x b" if "b \<in> set bucket_bounds" for b
    using that by (meson position_None)
  with None assms show ?thesis by (auto simp: bucket_of_def)
next
  case (Some k)
  with position_SomeD [OF this] show ?thesis
    by (auto simp: bucket_of_def) (meson linorder_neqE_nat)+
qed

section \<open>Counters\<close>

text \<open>The counters that an event increments, in their order.\<close>

definition counted :: "event_message \<Rightarrow> str list" where
  "counted e = (lit ''ows.events.'' @ em_type e) #
     (if str_contains (em_type e) (lit ''workflow.completed'') then [lit ''ows.workflow.completed'']
      else if str_contains (em_type e) (lit ''workflow.faulted'') then [lit ''ows.workflow.faulted'']
      else [])"

lemma record_event_counted: "record_event pf e m = run_steps (\<lambda>name. inc_counter pf name 1) (counted e) m"
  by (auto simp: record_event_def counted_def bindR_def split: sum.split)

lemma counter_inc [simp]:
  "counter (m\<lparr>me_counters := map_insert name v (me_counters m)\<rparr>) k = (if k = name then v else counter m k)"
  by (simp add: counter_def)

lemma inc_counter_exact:
  assumes "counter m name = word_of_int (int n)" "n < 2 ^ 63 - 1"
  shows "\<exists>m'. inc_counter pf name 1 m = Inr m' \<and> counter m' name = word_of_int (int (Suc n))
    \<and> (\<forall>k. k \<noteq> name \<longrightarrow> counter m' k = counter m k)"
proof -
  have sint: "sint (word_of_int (int j) :: i64) = int j" if "j < 2 ^ 63" for j
    using that by (intro sint_word_of_int_fits) (simp add: fits_i64_def i64_min_def i64_max_def)
  have "word_of_int (int n) + 1 = (word_of_int (int (Suc n)) :: i64)"
    by (simp add: wi_hom_syms)
  then show ?thesis
    using assms sint [of n] sint [of "Suc n"] by (simp add: inc_counter_def Let_def add.commute)
qed

definition hits :: "str \<Rightarrow> event_message list \<Rightarrow> nat" where
  "hits name es = length (filter (\<lambda>e. name \<in> set (counted e)) es)"

lemma counted_distinct: "distinct (counted e)"
  by (simp add: counted_def lit_def)

lemma inc_all_exact:
  assumes "\<And>k. k \<in> set names \<Longrightarrow> counter m k = word_of_int (int (n k))" "\<And>k. n k < 2 ^ 63 - 1" "distinct names"
  shows "\<exists>m'. run_steps (\<lambda>name. inc_counter pf name 1) names m = Inr m'
    \<and> (\<forall>k. counter m' k = (if k \<in> set names then word_of_int (int (Suc (n k))) else counter m k))"
  using assms
proof (induction names arbitrary: m)
  case Nil
  then show ?case by simp
next
  case (Cons k ks)
  from inc_counter_exact [of m k "n k" pf] Cons.prems obtain m' where m':
    "inc_counter pf k 1 m = Inr m'" "counter m' k = word_of_int (int (Suc (n k)))"
    "\<forall>j. j \<noteq> k \<longrightarrow> counter m' j = counter m j" by auto
  moreover have "counter m' j = word_of_int (int (n j))" if "j \<in> set ks" for j
    using that Cons.prems(1,3) m'(3) by (metis distinct.simps(2) list.set_intros(2))
  ultimately obtain m'' where "run_steps (\<lambda>name. inc_counter pf name 1) ks m' = Inr m''"
    "\<forall>j. counter m'' j = (if j \<in> set ks then word_of_int (int (Suc (n j))) else counter m' j)"
    using Cons.IH [of m'] Cons.prems(2,3) by auto
  with m' Cons.prems(3) show ?case by auto
qed

lemma record_events_count:
  assumes "length es < 2 ^ 63 - 1"
  shows "\<exists>m. run_steps (record_event pf) es metrics_new = Inr m \<and> (\<forall>k. counter m k = word_of_int (int (hits k es)))"
  using assms
proof (induction es rule: rev_induct)
  case Nil
  then show ?case by (simp add: metrics_new_def counter_def hits_def)
next
  case (snoc e es)
  then obtain m where m: "run_steps (record_event pf) es metrics_new = Inr m"
    "\<And>k. counter m k = word_of_int (int (hits k es))" by auto
  have "hits k es < 2 ^ 63 - 1" for k
    using snoc.prems le_less_trans [OF length_filter_le [of "\<lambda>e. k \<in> set (counted e)" es]] by (simp add: hits_def)
  from inc_all_exact [of "counted e" m "\<lambda>k. hits k es", OF m(2) this counted_distinct, of pf]
  obtain m' where "record_event pf e m = Inr m'"
    "\<forall>k. counter m' k = (if k \<in> set (counted e) then word_of_int (int (Suc (hits k es))) else counter m k)"
    by (auto simp: record_event_counted)
  with m show ?case by (simp add: run_steps_append hits_def)
qed

section \<open>The two transports\<close>

text \<open>The span over gRPC has the bytes of the identifiers of the span over HTTP; of the attributes it
  leaves out the subject.\<close>

lemma spans_agree:
  "\<exists>trace span.
     hash_hex (co_hash co) (parent_seed e) 16 = Inr trace \<and> trace_identifier 16 trace
   \<and> hash_hex (co_hash co) (em_id e) 8 = Inr span \<and> trace_identifier 8 span
   \<and> span_from_event co e = Inr
       \<lparr>sn_trace_id = map (hex_pair trace) [0..<16], sn_span_id = map (hex_pair span) [0..<8],
        sn_name = em_type e, sn_kind = 1, sn_start = event_time_nanos co e, sn_end = event_time_nanos co e,
        sn_attributes = event_key_values e @ opt_key_value ''event.data'' (data_text co e),
        sn_status_message = [], sn_status_code = (if errored e then 2 else 1)\<rparr>"
  using hash_hex_trace_identifier [of 16 "co_hash co" "parent_seed e"]
    hash_hex_trace_identifier [of 8 "co_hash co" "em_id e"]
  by (auto simp: span_from_event_def hex_bytes_def Let_def)

lemma trace_request_total: "\<exists>v. encode_trace_request co e service = Inr v"
  using spans_agree [of co e] by (auto simp: encode_trace_request_def Let_def)

lemma export_http_success:
  "export_http co what endpoint payload = Inr () \<longleftrightarrow>
    (\<exists>status. co_post co endpoint payload = Inr status \<and> 200 \<le> status \<and> status < 300)"
  by (auto simp: export_http_def split: sum.split)

lemma obj_get: "json_get (obj kvs) k = map_of (rev kvs) k"
  by (cases "map_of (rev kvs) k") (simp_all add: obj_def map_of_map_extend)

text \<open>The span in the payload of a trace request.\<close>

definition first_item :: "json option \<Rightarrow> json option" where
  "first_item v = (case v of Some (Array (x # xs)) \<Rightarrow> Some x | _ \<Rightarrow> None)"

definition request_span :: "json \<Rightarrow> json option" where
  "request_span v =
     Option.bind (first_item (json_get v (lit ''resourceSpans''))) (\<lambda>r.
     Option.bind (first_item (json_get r (lit ''scopeSpans''))) (\<lambda>s. first_item (json_get s (lit ''spans''))))"

lemma transports_agree:
  "\<exists>v j s. encode_trace_request co e service = Inr v \<and> request_span v = Some j
    \<and> span_from_event co e = Inr s
    \<and> length (sn_trace_id s) = 16 \<and> (\<exists>b \<in> set (sn_trace_id s). b \<noteq> 0)
    \<and> json_get j (lit ''traceId'') = Some (String (hex_text (sn_trace_id s)))
    \<and> length (sn_span_id s) = 8 \<and> (\<exists>b \<in> set (sn_span_id s). b \<noteq> 0)
    \<and> json_get j (lit ''spanId'') = Some (String (hex_text (sn_span_id s)))
    \<and> json_get j (lit ''name'') = Some (String (sn_name s))
    \<and> json_get j (lit ''startTimeUnixNano'') = Some (String (nat_str (sn_start s)))
    \<and> json_get j (lit ''endTimeUnixNano'') = Some (String (nat_str (sn_end s)))
    \<and> json_get j (lit ''status'') = Some (obj [(lit ''code'', json_of_nat (sn_status_code s))])"
proof -
  from spans_agree [of co e] obtain trace span where h:
    "hash_hex (co_hash co) (parent_seed e) 16 = Inr trace" "trace_identifier 16 trace"
    "hash_hex (co_hash co) (em_id e) 8 = Inr span" "trace_identifier 8 span" by blast
  obtain v j s where v: "encode_trace_request co e service = Inr v" "request_span v = Some j"
      "span_from_event co e = Inr s"
    and ids: "json_get j (lit ''traceId'') = Some (String trace)" "json_get j (lit ''spanId'') = Some (String span)"
      "sn_trace_id s = map (hex_pair trace) [0..<16]" "sn_span_id s = map (hex_pair span) [0..<8]"
    and rest: "json_get j (lit ''name'') = Some (String (sn_name s))"
      "json_get j (lit ''startTimeUnixNano'') = Some (String (nat_str (sn_start s)))"
      "json_get j (lit ''endTimeUnixNano'') = Some (String (nat_str (sn_end s)))"
      "json_get j (lit ''status'') = Some (obj [(lit ''code'', json_of_nat (sn_status_code s))])"
    using h(1,3)
    by (simp add: encode_trace_request_def span_from_event_def hex_bytes_def Let_def request_span_def
        first_item_def obj_get lit_def)
  from identifier_bytes [OF h(2)] identifier_bytes [OF h(4)]
  have "\<exists>b \<in> set (sn_trace_id s). b \<noteq> 0" "\<exists>b \<in> set (sn_span_id s). b \<noteq> 0" by (simp_all only: ids)
  moreover have "length (sn_trace_id s) = 16" "length (sn_span_id s) = 8"
      "hex_text (sn_trace_id s) = trace" "hex_text (sn_span_id s) = span"
    using hex_text_pairs [OF h(2)] hex_text_pairs [OF h(4)] by (simp_all add: ids)
  ultimately show ?thesis using v ids(1,2) rest by blast
qed

end
