(* ===== verification/Grpc.thy ===== *)
theory Grpc
  imports Service
begin

text \<open>
  The native gRPC transport of grpc.rs: descriptors from a proto argument, the method they resolve
  to, the checks before a call and the call itself.  The compiler of proto files, the encoding of
  messages and the channel are parameters; an invocation keeps what it asked of the network.
\<close>

section \<open>Descriptors\<close>

text \<open>A descriptor pool as the code reads it: services with their methods, in the order of the pool.\<close>

record method_descriptor =
  md_name :: str
  md_full_name :: str
  md_service :: str
  md_input :: str
  md_output :: str

record service_descriptor =
  sd_full_name :: str
  sd_methods :: "method_descriptor list"

type_synonym descriptor_pool = "service_descriptor list"

text \<open>
  \<open>gl_connect\<close> tells an address that is no URI from one that does not answer; messages are their
  bytes.
\<close>

datatype connect_outcome = Connected | InvalidUri str | Unreachable str

record grpc_library =
  gl_parse :: "str \<Rightarrow> str \<Rightarrow> str + u8 list"
  gl_exists :: "str \<Rightarrow> bool"
  gl_parent :: "str \<Rightarrow> str option"
  gl_compile :: "str \<Rightarrow> str \<Rightarrow> str + u8 list"
  gl_pool :: "u8 list \<Rightarrow> str + descriptor_pool"
  gl_encode :: "str \<Rightarrow> json \<Rightarrow> str + u8 list"
  gl_reply_value :: "str \<Rightarrow> u8 list \<Rightarrow> str + json"
  gl_path :: "str \<Rightarrow> str option"
  gl_connect :: "str \<Rightarrow> connect_outcome"
  gl_ready :: "str \<Rightarrow> str option"
  gl_unary :: "str \<Rightarrow> str \<Rightarrow> u8 list \<Rightarrow> str + u8 list"

definition fail_with :: "('e \<Rightarrow> workflow_error) \<Rightarrow> 'e + 'a \<Rightarrow> failure + 'a" where
  "fail_with f r = (case r of Inl e \<Rightarrow> Inl (Failed (f e)) | Inr x \<Rightarrow> Inr x)"

definition proto_text :: "json \<Rightarrow> string \<Rightarrow> str option" where
  "proto_text proto key = Option.bind (json_get proto (lit key)) as_str"

text \<open>The descriptor set of an inline source or of a file.\<close>

definition descriptor_bytes :: "grpc_library \<Rightarrow> json \<Rightarrow> failure + u8 list" where
  "descriptor_bytes g proto =
     (case proto_text proto ''content'' of
        Some content \<Rightarrow>
          let name = (case proto_text proto ''name'' of Some n \<Rightarrow> n | None \<Rightarrow> lit ''service.proto'') in
          fail_with (\<lambda>e. semantic_error (lit ''failed to parse inline proto `'' @ name @ lit ''`: '' @ e))
            (gl_parse g name content)
      | None \<Rightarrow>
          bindR (require (semantic_error (lit ''grpc call requires proto.endpoint or proto.content''))
            (proto_text proto ''endpoint'')) (\<lambda>endpoint.
          let path = strip_prefix endpoint (lit ''file://'') in
          if \<not> gl_exists g path
          then Inl (Failed (semantic_error (lit ''proto file `'' @ path @ lit ''` does not exist'')))
          else fail_with (\<lambda>e. semantic_error (lit ''failed to compile proto `'' @ path @ lit ''`: '' @ e))
            (gl_compile g path (case gl_parent g path of Some d \<Rightarrow> d | None \<Rightarrow> lit ''.''))))"

definition build_pool :: "grpc_library \<Rightarrow> json \<Rightarrow> failure + descriptor_pool" where
  "build_pool g proto =
     bindR (descriptor_bytes g proto) (\<lambda>bytes.
     fail_with (\<lambda>e. semantic_error (lit ''invalid proto descriptor set: '' @ e)) (gl_pool g bytes))"

definition find_service :: "descriptor_pool \<Rightarrow> str \<Rightarrow> service_descriptor option" where
  "find_service pool name =
     (case find (\<lambda>s. sd_full_name s = name) pool of
        Some s \<Rightarrow> Some s
      | None \<Rightarrow> find (\<lambda>s. sd_full_name s = name \<or> ends_with (sd_full_name s) (lit ''.'' @ name)) pool)"

definition resolve_method :: "descriptor_pool \<Rightarrow> str \<Rightarrow> str \<Rightarrow> failure + method_descriptor" where
  "resolve_method pool service_name method_name =
     bindR (require (semantic_error (lit ''gRPC service `'' @ service_name @ lit ''` not found in proto''))
       (find_service pool service_name)) (\<lambda>service.
     require (semantic_error
         (lit ''gRPC method `'' @ method_name @ lit ''` not found on service `'' @ service_name @ lit ''`''))
       (find (\<lambda>m. md_name m = method_name \<or> md_full_name m = method_name) (sd_methods service)))"

definition encode_request :: "grpc_library \<Rightarrow> method_descriptor \<Rightarrow> json \<Rightarrow> failure + u8 list" where
  "encode_request g method arguments =
     fail_with (\<lambda>e. semantic_error (lit ''gRPC arguments do not match `'' @ md_input method @ lit ''`: '' @ e))
       (gl_encode g (md_input method) arguments)"

section \<open>The call\<close>

text \<open>What an invocation asks of the network: a connection, and a call on it.\<close>

datatype grpc_action = Connect str | Call str str "u8 list"

record grpc_call =
  gc_method :: method_descriptor
  gc_service_name :: str
  gc_method_name :: str
  gc_uri :: str
  gc_arguments :: json

definition service_uri :: "json \<Rightarrow> str" where
  "service_uri service =
     (let host = (case Option.bind (json_get service (lit ''host'')) as_str of Some t \<Rightarrow> t | None \<Rightarrow> lit ''localhost'');
          port = (case Option.bind (json_get service (lit ''port'')) value_as_u64 of Some p \<Rightarrow> unat p | None \<Rightarrow> 80)
      in lit ''http://'' @ host @ lit '':'' @ nat_str port)"

text \<open>Everything before the connection, the policy last.\<close>

definition prepare_call ::
  "http_library \<Rightarrow> grpc_library \<Rightarrow> host \<Rightarrow> (str \<Rightarrow> json option) \<Rightarrow> failure + grpc_call" where
  "prepare_call lib g h args =
     bindR (build_pool g (or_null (args (lit ''proto'')))) (\<lambda>pool.
     let service = or_null (args (lit ''service'')) in
     bindR (require (semantic_error (lit ''grpc call requires service.name''))
       (Option.bind (json_get service (lit ''name'')) as_str)) (\<lambda>service_name.
     bindR (require (semantic_error (lit ''grpc call requires method''))
       (Option.bind (args (lit ''method'')) as_str)) (\<lambda>method_name.
     bindR (resolve_method pool service_name method_name) (\<lambda>method.
     let arguments = (case args (lit ''arguments'') of Some v \<Rightarrow> v | None \<Rightarrow> Object []);
         uri = service_uri service
     in bindR (enforce_network_policy lib h uri) (\<lambda>_.
        Inr \<lparr>gc_method = method, gc_service_name = service_name, gc_method_name = method_name,
             gc_uri = uri, gc_arguments = arguments\<rparr>)))))"

definition connect_result :: "grpc_library \<Rightarrow> str \<Rightarrow> failure + unit" where
  "connect_result g uri =
     (case gl_connect g uri of
        Connected \<Rightarrow> Inr ()
      | InvalidUri e \<Rightarrow> Inl (Failed (semantic_error (lit ''invalid gRPC endpoint `'' @ uri @ lit ''`: '' @ e)))
      | Unreachable e \<Rightarrow> Inl (Failed (communication_error 500
          (lit ''failed to connect to gRPC endpoint `'' @ uri @ lit ''`: '' @ e))))"

definition is_uri :: "grpc_library \<Rightarrow> str \<Rightarrow> bool" where
  "is_uri g uri = (case gl_connect g uri of InvalidUri e \<Rightarrow> False | _ \<Rightarrow> True)"

definition method_path :: "method_descriptor \<Rightarrow> str" where
  "method_path m = lit ''/'' @ md_service m @ lit ''/'' @ md_name m"

text \<open>The message and the path of the call on an open connection.\<close>

definition call_message :: "grpc_library \<Rightarrow> grpc_call \<Rightarrow> failure + str \<times> u8 list" where
  "call_message g c =
     bindR (encode_request g (gc_method c) (gc_arguments c)) (\<lambda>message.
     bindR (case gl_ready g (gc_uri c) of
              Some e \<Rightarrow> Inl (Failed (communication_error 500 (lit ''gRPC not ready: '' @ e)))
            | None \<Rightarrow> Inr ()) (\<lambda>_.
     let path = method_path (gc_method c) in
     case gl_path g path of
       Some e \<Rightarrow> Inl (Failed (runtime_error (lit ''invalid gRPC method path: '' @ e)))
     | None \<Rightarrow> Inr (path, message)))"

definition call_result :: "grpc_library \<Rightarrow> grpc_call \<Rightarrow> str \<Rightarrow> u8 list \<Rightarrow> failure + json" where
  "call_result g c path message =
     bindR (fail_with (\<lambda>e. communication_error 500
         (lit ''gRPC call `'' @ gc_service_name c @ lit ''/'' @ gc_method_name c @ lit ''` failed: '' @ e))
       (gl_unary g (gc_uri c) path message)) (\<lambda>reply.
     fail_with (\<lambda>e. runtime_error (lit ''failed to encode gRPC response: '' @ e))
       (gl_reply_value g (md_output (gc_method c)) reply))"

definition invoke_native_grpc ::
  "http_library \<Rightarrow> grpc_library \<Rightarrow> host \<Rightarrow> (str \<Rightarrow> json option) \<Rightarrow> (failure + json) \<times> grpc_action list" where
  "invoke_native_grpc lib g h args =
     (case prepare_call lib g h args of
        Inl e \<Rightarrow> (Inl e, [])
      | Inr c \<Rightarrow>
          (case connect_result g (gc_uri c) of
             Inl e \<Rightarrow> (Inl e, if is_uri g (gc_uri c) then [Connect (gc_uri c)] else [])
           | Inr _ \<Rightarrow>
               (case call_message g c of
                  Inl e \<Rightarrow> (Inl e, [Connect (gc_uri c)])
                | Inr (path, message) \<Rightarrow>
                    (call_result g c path message, [Connect (gc_uri c), Call (gc_uri c) path message]))))"

text \<open>With a \<open>proto\<close> argument the call is native, otherwise it goes to the gateway.\<close>

definition invoke_grpc_dispatch ::
  "http_library \<Rightarrow> grpc_library \<Rightarrow> host \<Rightarrow> (str \<Rightarrow> json option) \<Rightarrow> expr_context
    \<Rightarrow> net_state \<times> grpc_action list \<Rightarrow> (failure + json) \<times> net_state \<times> grpc_action list" where
  "invoke_grpc_dispatch lib g h args ectx = (\<lambda>(s, actions).
     if args (lit ''proto'') \<noteq> None
     then (case invoke_native_grpc lib g h args of (r, new) \<Rightarrow> (r, s, actions @ new))
     else (case invoke_grpc lib h args ectx s of (r, t) \<Rightarrow> (r, t, actions)))"

text \<open>
  With the feature \<open>grpc-native\<close> the builder installs the dispatcher last, whatever was registered
  under the name.
\<close>

datatype installed = Function builtin | GrpcDispatch

definition installed_with_native :: "(str \<Rightarrow> builtin option) \<Rightarrow> str \<Rightarrow> installed option" where
  "installed_with_native registered =
     (\<lambda>name. map_option Function (installed_functions registered name))(lit ''grpc'' \<mapsto> GrpcDispatch)"

section \<open>Laws\<close>

lemma fail_with_Inr [simp]: "fail_with f r = Inr x \<longleftrightarrow> r = Inr x"
  by (simp add: fail_with_def split: sum.split)

lemma require_Inr [simp]: "require e v = Inr x \<longleftrightarrow> v = Some x"
  by (simp add: require_def split: option.split)

lemma prepare_call_permitted:
  "prepare_call lib g h args = Inr c \<Longrightarrow> enforce_network_policy lib h (gc_uri c) = Inr ()"
  by (auto simp: prepare_call_def Let_def bindR_eq_Inr)

fun action_uri :: "grpc_action \<Rightarrow> str" where
  "action_uri (Connect uri) = uri"
| "action_uri (Call uri path message) = uri"

lemma native_actions_permitted:
  assumes "a \<in> set (snd (invoke_native_grpc lib g h args))"
  shows "enforce_network_policy lib h (action_uri a) = Inr ()"
proof (cases "prepare_call lib g h args")
  case (Inl e)
  with assms show ?thesis by (simp add: invoke_native_grpc_def)
next
  case (Inr c)
  with assms have "action_uri a = gc_uri c"
    by (auto simp: invoke_native_grpc_def split: sum.splits if_splits)
  with prepare_call_permitted [OF Inr] show ?thesis by simp
qed

lemma find_service_spec:
  "find_service pool name = Some s \<Longrightarrow> s \<in> set pool \<and>
    (sd_full_name s = name \<or>
     (\<forall>t \<in> set pool. sd_full_name t \<noteq> name) \<and> ends_with (sd_full_name s) (lit ''.'' @ name))"
  by (auto simp: find_service_def find_None_iff find_Some_iff split: option.splits)

lemma find_service_None:
  "find_service pool name = None \<longleftrightarrow>
    (\<forall>s \<in> set pool. sd_full_name s \<noteq> name \<and> \<not> ends_with (sd_full_name s) (lit ''.'' @ name))"
  by (auto simp: find_service_def find_None_iff find_Some_iff split: option.splits)

end
