(* ===== verification/Wiring.thy ===== *)
theory Wiring
  imports EngineJumps EngineRecords ServiceLaws Grpc
begin

text \<open>
  The engine with the functions that the builder of the runtime installs (\<open>RuntimeBuilder::build\<close> of
  runtime.rs): the invokers of service.rs and grpc.rs as the call functions of the host.  What the
  network answers is given anew for every call.
\<close>

section \<open>Invokers as functions of the host\<close>

fun answer_of :: "failure + 'a \<Rightarrow> 'a answer" where
  "answer_of (Inr x) = Answer x"
| "answer_of (Inl (Failed e)) = Refused e"
| "answer_of (Inl (Panicked m)) = Panics m"
| "answer_of (Inl (Elapsed k)) = Expires k"
| "answer_of (Inl Abandoned) = Abandons"
| "answer_of (Inl Hung) = Hangs"
| "answer_of (Inl OutOfFuel) = Hangs"

definition net_new :: net_state where
  "net_new = \<lparr>ns_sent = [], ns_published = []\<rparr>"

fun installed_result ::
  "http_library \<Rightarrow> grpc_library option \<Rightarrow> host \<Rightarrow> installed \<Rightarrow> (str \<Rightarrow> json option) \<Rightarrow> expr_context \<Rightarrow> failure + json"
where
  "installed_result lib native h (Function f) args ectx = fst (f lib h args ectx net_new)"
| "installed_result lib native h GrpcDispatch args ectx =
     (case native of
        Some g \<Rightarrow> fst (invoke_grpc_dispatch lib g h args ectx (net_new, []))
      | None \<Rightarrow> fst (invoke_grpc lib h args ectx net_new))"

definition installed_names ::
  "grpc_library option \<Rightarrow> (str \<Rightarrow> builtin option) \<Rightarrow> str \<Rightarrow> installed option" where
  "installed_names native registered =
     (if native = None then (\<lambda>name. map_option Function (installed_functions registered name))
      else installed_with_native registered)"

definition wired_host ::
  "(nat \<Rightarrow> http_library) \<Rightarrow> grpc_library option \<Rightarrow> (str \<Rightarrow> builtin option) \<Rightarrow> host \<Rightarrow> host" where
  "wired_host libs native registered h =
     h\<lparr>h_function := (\<lambda>name. map_option
          (\<lambda>i n f args ectx. answer_of (installed_result (libs n) native h i args ectx))
          (installed_names native registered name))\<rparr>"

section \<open>Computations without a value\<close>

definition fruitless :: "'a exec \<Rightarrow> bool" where
  "fruitless m \<longleftrightarrow> (\<forall>s x. fst (m s) \<noteq> Inr x)"

lemma fruitlessD: "fruitless m \<Longrightarrow> m s \<noteq> (Inr x, t)"
  by (metis fruitless_def fst_conv)

lemma fruitless_bind_left: "fruitless m \<Longrightarrow> fruitless (bindE m f)"
  by (auto simp: fruitless_def bindE_def split: prod.split sum.split) (metis fst_conv)

lemma fruitless_bind_right:
  assumes "\<And>x t. m s = (Inr x, t) \<Longrightarrow> fst (f x t) \<noteq> Inr y"
  shows "fst (bindE m f s) \<noteq> Inr y"
  using assms by (auto simp: bindE_def split: prod.split sum.split)

lemma fruitless_bind: "(\<And>x. fruitless (f x)) \<Longrightarrow> fruitless (bindE m f)"
  by (simp add: fruitless_def fruitless_bind_right)

lemma fruitless_gives: "gives m P \<Longrightarrow> (\<And>x. P x \<Longrightarrow> fruitless (f x)) \<Longrightarrow> fruitless (bindE m f)"
  unfolding gives_def fruitless_def by (metis fruitless_bind_right)

lemma fruitless_post: "(\<And>r x. g r = Inr x \<Longrightarrow> \<exists>y. r = Inr y) \<Longrightarrow> fruitless m \<Longrightarrow> fruitless (post g m)"
  by (simp add: fruitless_def post_def) metis

lemma fruitless_tried: "fruitless m \<Longrightarrow> tryE m s = (Inr r, t) \<Longrightarrow> \<exists>e. r = Inl e"
  by (cases "m s") (auto simp: tryE_def post_def fruitless_def elim!: tried.elims, metis fst_conv)

definition barren :: "'a net \<Rightarrow> bool" where
  "barren m \<longleftrightarrow> (\<forall>s x. fst (m s) \<noteq> Inr x)"

lemma barren_bind_liftN: "(\<And>x. r = Inr x \<Longrightarrow> barren (f x)) \<Longrightarrow> barren (bindN (liftN r) f)"
  by (cases r) (simp_all add: barren_def net_simps)

lemma barren_bindN: "barren m \<Longrightarrow> barren (bindN m f)"
  by (auto simp: barren_def bindN_def split: prod.split sum.split) (metis fst_conv)

lemma barren_prod: "(\<And>a b. p = (a, b) \<Longrightarrow> barren (f a b)) \<Longrightarrow> barren (case p of (a, b) \<Rightarrow> f a b)"
  by (cases p) simp

section \<open>With the network off\<close>


lemma post_json_offline: "\<not> allow_network (h_policy h) \<Longrightarrow> barren (post_json lib h kind args ectx body)"
  unfolding post_json_def by (intro barren_bind_liftN barren_prod) (simp add: denied_network)

definition network_calls :: "str list" where
  "network_calls = map lit [''http'', ''openapi'', ''mcp'', ''a2a'', ''grpc'']"

lemma builtins_barren:
  assumes "\<not> allow_network (h_policy h)" "name \<in> set network_calls" "map_of builtin_functions name = Some f"
  shows "barren (f lib h args ectx)"
proof -
  have "barren (invoke_http lib h args ectx)" "barren (invoke_openapi lib h args ectx)"
    unfolding invoke_http_def invoke_openapi_def
    by (intro barren_bind_liftN barren_prod; simp add: denied_network [OF assms(1)])+
  moreover have "barren (invoke_mcp lib h args ectx)" "barren (invoke_a2a lib h args ectx)"
    "barren (invoke_grpc lib h args ectx)"
    unfolding invoke_mcp_def invoke_a2a_def invoke_grpc_def Let_def
    by (intro barren_bind_liftN barren_prod barren_bindN [OF post_json_offline [OF assms(1)]])+
  ultimately show ?thesis
    using assms(2,3) by (auto simp: builtin_functions_def network_calls_def lit_def split: if_splits)
qed

lemma native_offline: "\<not> allow_network (h_policy h) \<Longrightarrow> fst (invoke_native_grpc lib g h args) \<noteq> Inr v"
  by (auto simp: invoke_native_grpc_def denied_network dest!: prepare_call_permitted split: sum.split)

lemma map_of_builtin_names: "name \<in> set network_calls \<Longrightarrow> \<exists>f. map_of builtin_functions name = Some f"
  by (auto simp: builtin_functions_def network_calls_def lit_def)

lemma answer_of_Answer [simp]: "answer_of r = Answer x \<longleftrightarrow> r = Inr x"
  by (cases r rule: answer_of.cases) auto

lemma wired_never_answers:
  assumes "\<not> allow_network (h_policy h)" "name \<in> set network_calls"
    and "h_function (wired_host libs native (\<lambda>_. None) h) name = Some invoke"
  shows "invoke n name args ectx \<noteq> Answer v"
proof -
  obtain f where f: "map_of builtin_functions name = Some f"
    using map_of_builtin_names [OF assms(2)] by blast
  with assms builtins_barren [OF assms(1,2) f] have "barren (f lib h args ectx)" for lib args ectx by simp
  moreover have "barren (invoke_grpc lib h args ectx)" for lib args ectx
    using builtins_barren [of h "lit ''grpc''" invoke_grpc] assms(1)
    by (simp add: network_calls_def builtin_functions_def)
  moreover have "fst (invoke_grpc_dispatch lib g h args ectx (net_new, [])) \<noteq> Inr v" for lib g
    using native_offline [OF assms(1)] calculation(2) [of lib args ectx]
    by (auto simp: invoke_grpc_dispatch_def barren_def split: prod.split) (metis fst_conv)+
  ultimately show ?thesis
    using assms(3) f
    by (auto simp: wired_host_def installed_names_def installed_with_native_def installed_functions_def barren_def
        split: if_splits option.splits)
qed

section \<open>Tasks and executions\<close>

lemma external_fruitless: "(\<And>n x. call n \<noteq> Answer x) \<Longrightarrow> fruitless (external call)"
  unfolding external_def
  by (intro fruitless_bind) (auto simp: fruitless_def exec_simps split: answer.split)

text \<open>A call of one of the functions, without a guard.\<close>

definition network_task :: "compiled_task \<Rightarrow> bool" where
  "network_task t \<longleftrightarrow> ct_if t = None
     \<and> (\<exists>d. ct_kind t = TaskCall d \<and> cd_call d \<in> set network_calls)"

lemma network_task_call: "network_task (call_task n f) \<longleftrightarrow> f \<in> set network_calls"
  by (simp add: network_task_def call_task_def)

lemma network_call_fruitless:
  assumes "\<not> allow_network (h_policy h)" "cd_call d \<in> set network_calls"
  shows "fruitless (task_call (wired_host libs native (\<lambda>_. None) h) env d ectx)"
proof -
  obtain invoke where invoke: "h_function (wired_host libs native (\<lambda>_. None) h) (cd_call d) = Some invoke"
    using map_of_builtin_names [OF assms(2)]
    by (cases "native = None"; cases "cd_call d = lit ''grpc''")
       (auto simp: wired_host_def installed_names_def installed_with_native_def installed_functions_def)
  show ?thesis
    unfolding task_call_def
    by (intro fruitless_bind)
       (simp add: invoke external_fruitless wired_never_answers [OF assms invoke])
qed

lemma exec_network_task_fruitless:
  assumes "\<not> allow_network (h_policy h)" "network_task t" "cw_extensions (xe_workflow env) = []"
  shows "fruitless (exec_task (wired_host libs native (\<lambda>_. None) h) nx env t v)"
proof -
  let ?h = "wired_host libs native (\<lambda>_. None) h"
  from assms(2) obtain d where d: "ct_if t = None" "ct_kind t = TaskCall d" "cd_call d \<in> set network_calls"
    by (auto simp: network_task_def)
  have "fruitless (dispatch nx ?h env t w ectx)" for w ectx
    using network_call_fruitless [OF assms(1) d(3)] by (simp add: dispatch_def d(2) plain_def fruitless_bind_left)
  then have body: "fruitless (bindE (dispatch nx ?h env t w ectx) k)" for w ectx k
    by (rule fruitless_bind_left)
  have rest: "fruitless (bindE (gets g) (\<lambda>ectx. bindE (dispatch nx ?h env t w ectx) (k ectx)))" for g w k
    by (rule fruitless_bind) (rule body)
  show ?thesis
    unfolding exec_task_def guard_holds_def d(1)
    by (simp add: exec_simps, rule fruitless_bind, rule fruitless_gives [OF no_extensions [OF assms(3)]])
       (use rest in \<open>auto simp: bindE_simps(1)\<close>)
qed

lemma run_timed_fruitless: "fruitless (eg_task eg env t v) \<Longrightarrow> fruitless (run_timed eg env t v)"
  by (auto simp: run_timed_def intro: fruitless_post deadline_Inr split: option.split)

definition doomed :: "'a exec \<Rightarrow> bool" where
  "doomed m \<longleftrightarrow> (\<forall>s x. \<not> xs_ended s \<longrightarrow> fst (m s) \<noteq> Inr x)"

lemma doomed_fruitless: "fruitless m \<Longrightarrow> doomed m"
  by (simp add: doomed_def fruitless_def)

lemma doomed_gives:
  assumes "live.keeps m" "gives m P" "\<And>x. P x \<Longrightarrow> doomed (f x)"
  shows "doomed (bindE m f)"
  unfolding doomed_def
proof (intro allI impI, rule fruitless_bind_right)
  fix s x y t
  assume "\<not> xs_ended s" and m: "m s = (Inr y, t)"
  then have "\<not> xs_ended t" using live.keepsD_eq [OF assms(1) m] by simp
  moreover have "P y" using assms(2) m by (auto simp: gives_def)
  ultimately show "fst (f y t) \<noteq> Inr x" using assms(3) by (simp add: doomed_def)
qed

lemma doomed_bind: "live.keeps m \<Longrightarrow> (\<And>x. doomed (f x)) \<Longrightarrow> doomed (bindE m f)"
  by (rule doomed_gives [OF _ gives_any])

lemma doomed_bind_left: "doomed m \<Longrightarrow> doomed (bindE m f)"
  unfolding doomed_def by (intro allI impI fruitless_bind_right) (metis fst_conv)

lemma live_started: "live.keeps (workflow_started h env time)"
  unfolding workflow_started_def emit_lifecycle_def Let_def
  by (intro live.keeps_intros live_steps)

lemma live_entered: "live.keeps (enter_execution h env None v started)"
  unfolding enter_execution_def apply_workflow_input_def persist_started_def persist_event_def transform_or_def Let_def
  by (auto intro!: live.keeps_intros live_started live_steps split: option.split)

lemma turn_doomed:
  assumes "\<not> allow_network (h_policy h)" "network_task t" "cw_extensions (xe_workflow env) = []"
  shows "doomed (eg_turn (engine_at (wired_host libs native (\<lambda>_. None) h) n) env c (t # ts) 0 v)"
proof (cases n)
  case 0
  then show ?thesis by (simp add: doomed_def exec_simps)
next
  case (Suc m)
  let ?eg = "engine_at (wired_host libs native (\<lambda>_. None) h) m"
  have "fruitless (eg_task ?eg env t v)"
    by (cases m) (simp_all add: exec_network_task_fruitless assms(1-3), simp add: fruitless_def exec_simps)
  from run_timed_fruitless [OF this] have run: "fruitless (bindE (run_timed ?eg env t v) k)" for k
    by (rule fruitless_bind_left)
  have "doomed (bindE (gets xs_ended) (\<lambda>ended. if ended \<or> length (t # ts) \<le> 0 then ok v
      else bindE (run_timed ?eg env t v) k))" for k
    unfolding doomed_def bindE_simps(2)
  proof (intro allI impI)
    show "fst ((if xs_ended s \<or> length (t # ts) \<le> 0 then ok v else bindE (run_timed ?eg env t v) k) s) \<noteq> Inr x"
      if "\<not> xs_ended s" for s x
      using that run [of k] by (simp add: fruitless_def)
  qed
  with Suc show ?thesis
    by (simp add: scope_turn_def Let_def doomed_bind live_steps cong: if_cong)
qed

lemma doomed_tried:
  assumes "doomed m" "\<And>e. fruitless (f (Inl e))"
  shows "doomed (bindE (tryE m) f)"
  unfolding doomed_def
proof (intro allI impI, rule fruitless_bind_right)
  fix s x r t
  assume "\<not> xs_ended s" and r: "tryE m s = (Inr r, t)"
  then have "fst (m s) \<noteq> Inr y" for y using assms(1) by (simp add: doomed_def)
  with r obtain e where "r = Inl e"
    by (cases "fst (m s)" rule: tried.cases) (auto simp: tryE_def post_def)
  then show "fst (f r t) \<noteq> Inr x" using assms(2) by (simp add: fruitless_def)
qed

lemma finish_error_fruitless: "fruitless (finish_execution h env started (Inl err))"
  unfolding finish_execution_def sum.case by (intro fruitless_bind) (simp add: fruitless_def exec_simps)

lemma offline_execution:
  assumes "\<not> allow_network (h_policy h)" "cw_tasks flow = t # ts" "network_task t" "cw_extensions flow = []"
  shows "fst (execute (wired_host libs native (\<lambda>_. None) h) n flow v default_options w) \<noteq> Inr x"
proof (cases n)
  case 0
  then show ?thesis by (simp add: execute_def exec_simps Let_def)
next
  case (Suc m)
  let ?h = "wired_host libs native (\<lambda>_. None) h"
  have turn: "doomed (bindE (eg_turn (engine_at ?h m) (execution_env ?h flow i v started) c (t # ts) 0 u) k)"
    for i started c u k
    by (rule doomed_bind_left, rule turn_doomed) (simp_all add: assms execution_env_def)
  have start: "gives (enter_execution ?h env None v started) (\<lambda>(u, start). start = 0)" for env started
    unfolding enter_execution_def option.case
    by (rule gives_bind [OF gives_any])+ (simp add: gives_ok)
  have "doomed (execute_with ?h (engine_at ?h m) flow v default_options)"
    unfolding execute_with_def Let_def default_options_def epoch_seconds_def
    by (auto simp: assms(2) intro!: doomed_bind doomed_gives [OF live_entered start] doomed_tried turn
          finish_error_fruitless live_steps live.keeps_intros)
  with Suc show ?thesis
    by (simp add: execute_def Let_def doomed_def fresh_state_def)
qed

text \<open>What the caller of \<open>Runtime::execute\<close> gets.\<close>

lemma no_value_outcome:
  "(\<And>x. r \<noteq> Inr x) \<Longrightarrow> wait_outcome (run_outcome flow r) \<noteq> Inr y"
  by (cases "(flow, r)" rule: run_outcome.cases) auto

lemma offline_run:
  assumes "\<not> allow_network (h_policy h)" "cw_tasks flow = t # ts" "network_task t" "cw_extensions flow = []"
  shows "fst (snd (runtime_execute (wired_host libs native (\<lambda>_. None) h) n flow v w)) \<noteq> Inr x"
  using offline_execution [OF assms]
  by (auto simp: runtime_execute_def no_value_outcome split: prod.split) (metis fst_conv no_value_outcome)

end
