(* ===== verification/Process.thy ===== *)
theory Process
  imports Exec
begin

text \<open>
  The process runner of process.rs: which processes it accepts and the commands it makes of them.
  Running a command is a parameter; its output is given as text.
\<close>

record process_runner =
  pn_allow_scripts :: bool
  pn_allow_containers :: bool
  pn_docker :: str

definition runner_new :: process_runner where
  "runner_new = \<lparr>pn_allow_scripts = False, pn_allow_containers = False, pn_docker = lit ''docker''\<rparr>"

definition runner_allow_scripts :: "process_runner \<Rightarrow> process_runner" where
  "runner_allow_scripts r = r\<lparr>pn_allow_scripts := True\<rparr>"

definition runner_allow_containers :: "process_runner \<Rightarrow> process_runner" where
  "runner_allow_containers r = r\<lparr>pn_allow_containers := True\<rparr>"

definition runner_with_docker :: "str \<Rightarrow> process_runner \<Rightarrow> process_runner" where
  "runner_with_docker docker r = r\<lparr>pn_docker := docker\<rparr>"

record command =
  cmd_program :: str
  cmd_args :: "str list"
  cmd_env :: "(str \<times> str) list"
  cmd_stdin :: "str option"

datatype command_outcome =
    SpawnFailed str
  | AwaitFailed str
  | Exited "32 word option" str str

definition script_interpreter :: "str \<Rightarrow> (str \<times> str list) option" where
  "script_interpreter language =
     (if language \<in> {lit ''python'', lit ''python3''} then Some (lit ''python3'', [lit ''-c''])
      else if language \<in> {lit ''node'', lit ''javascript'', lit ''js''} then Some (lit ''node'', [lit ''-e''])
      else if language = lit ''bash'' then Some (lit ''bash'', [lit ''-c''])
      else if language \<in> {lit ''sh'', lit ''shell''} then Some (lit ''sh'', [lit ''-c''])
      else if language = lit ''ruby'' then Some (lit ''ruby'', [lit ''-e''])
      else if language = lit ''php'' then Some (lit ''php'', [lit ''-r''])
      else if language = lit ''perl'' then Some (lit ''perl'', [lit ''-e''])
      else None)"

definition docker_args :: "str \<Rightarrow> str list \<Rightarrow> (str \<times> str) list \<Rightarrow> str list" where
  "docker_args img args env =
     [lit ''run'', lit ''--rm'', lit ''-i'']
     @ concat (map (\<lambda>(k, v). [lit ''-e'', k @ lit ''='' @ v]) env) @ [img] @ args"

text \<open>The command for a process, or why there is none.\<close>

fun command_for :: "process_runner \<Rightarrow> process_request \<Rightarrow> workflow_error + command" where
  "command_for r (ShellProcess program args env stdin) =
     (if \<not> pn_allow_scripts r
      then Inl (policy_error (lit ''shell execution is disabled; configure TokioProcessRunner::allow_scripts''))
      else Inr \<lparr>cmd_program = program, cmd_args = args, cmd_env = env, cmd_stdin = stdin\<rparr>)"
| "command_for r (ScriptProcess language code args env stdin) =
     (if \<not> pn_allow_scripts r
      then Inl (policy_error (lit ''script execution is disabled; configure TokioProcessRunner::allow_scripts''))
      else
        (case script_interpreter language of
           None \<Rightarrow> Inl (semantic_error (lit ''unsupported script language `'' @ language @ lit ''`''))
         | Some (program, flags) \<Rightarrow>
             Inr \<lparr>cmd_program = program, cmd_args = flags @ [code] @ args, cmd_env = env, cmd_stdin = stdin\<rparr>))"
| "command_for r (ContainerProcess img args env stdin) =
     (if \<not> pn_allow_containers r
      then Inl (policy_error (lit ''container execution is disabled; configure TokioProcessRunner::allow_containers''))
      else Inr \<lparr>cmd_program = pn_docker r, cmd_args = docker_args img args env, cmd_env = [], cmd_stdin = stdin\<rparr>)"

definition run_command :: "(command \<Rightarrow> command_outcome) \<Rightarrow> command \<Rightarrow> workflow_error + process_result" where
  "run_command os c =
     (case os c of
        SpawnFailed e \<Rightarrow> Inl (communication_error 500 (lit ''failed to spawn `'' @ cmd_program c @ lit ''`: '' @ e))
      | AwaitFailed e \<Rightarrow> Inl (communication_error 500 (lit ''failed to await `'' @ cmd_program c @ lit ''`: '' @ e))
      | Exited code out err \<Rightarrow> Inr \<lparr>pr_code = code, pr_stdout = Some out, pr_stderr = Some err\<rparr>)"

definition run_process ::
  "(command \<Rightarrow> command_outcome) \<Rightarrow> process_runner \<Rightarrow> process_request \<Rightarrow> workflow_error + process_result" where
  "run_process os r request = bindR (command_for r request) (run_command os)"

section \<open>Laws\<close>

fun is_container :: "process_request \<Rightarrow> bool" where
  "is_container (ContainerProcess img args env stdin) = True"
| "is_container _ = False"

text \<open>Each capability has a switch of its own: without it the operating system is not asked.\<close>

lemma command_needs_switch:
  "command_for r request = Inr c \<Longrightarrow> if is_container request then pn_allow_containers r else pn_allow_scripts r"
  by (cases request) (auto split: if_splits)

lemma new_runner_denies:
  "\<exists>e. run_process os runner_new request = Inl e \<and> we_kind e = KPolicy"
  by (cases request) (simp_all add: run_process_def runner_new_def policy_error_def werr_new_def)

text \<open>The variables of a container are arguments; the client itself runs with none of them.\<close>

lemma container_command:
  assumes "command_for r (ContainerProcess img args env stdin) = Inr c"
  shows "cmd_env c = []" "\<exists>flags. cmd_args c = flags @ img # args"
  using assms by (auto simp: docker_args_def split: if_splits)

end
