(* ===== verification/Builder.thy ===== *)
theory Builder
  imports Wiring Catalog Process
begin

text \<open>
  The builder of the runtime (\<open>RuntimeBuilder\<close> of runtime.rs): what is chosen, what an absent choice
  defaults to, and the services of the runtime that is built.  What comes from outside the process
  is a record of its own.  The expression engine is the jq engine of the model; the scheduler only
  observes registrations and is left out.  The service invoker is kept by the runtime, and read by
  nothing.
\<close>

section \<open>Outside the process\<close>

record surroundings =
  su_platform :: platform
  su_version :: str
  su_environment :: "str \<Rightarrow> str option"
  su_uuid :: "nat \<Rightarrow> str"
  su_random :: "nat \<Rightarrow> f64"
  su_clock :: det_clock
  su_schema :: "json \<Rightarrow> json \<Rightarrow> str list option"
  su_network :: "nat \<Rightarrow> http_library"
  su_native_grpc :: "grpc_library option"
  su_iso_time :: "int \<Rightarrow> str"
  su_join_error :: "str \<Rightarrow> str"
  su_completion :: "nat \<Rightarrow> nat list"

section \<open>Runtime information and services that do nothing\<close>

record runtime_info =
  ri_name :: str
  ri_version :: str
  ri_metadata :: "vmap option"

definition runtime_info_default :: "str \<Rightarrow> runtime_info" where
  "runtime_info_default version = \<lparr>ri_name = lit ''ows-runtime'', ri_version = version, ri_metadata = None\<rparr>"

definition runtime_info_value :: "runtime_info \<Rightarrow> json" where
  "runtime_info_value i =
     Object (insert_opt (lit ''metadata'') (map_option Object (ri_metadata i))
       (map_insert (lit ''version'') (String (ri_version i))
       (map_insert (lit ''name'') (String (ri_name i)) [])))"

definition null_publish :: "nat \<Rightarrow> event_message \<Rightarrow> unit answer" where
  "null_publish n e = Answer ()"

definition noop_subscribe :: "nat \<Rightarrow> (event_message list \<times> feed_end) answer" where
  "noop_subscribe n = Answer ([], FeedSilent)"

fun noop_process :: "nat \<Rightarrow> process_request \<Rightarrow> process_result answer" where
  "noop_process n (ShellProcess c a v i) = Refused (policy_error (lit ''script execution is disabled by policy''))"
| "noop_process n (ScriptProcess l c a v i) = Refused (policy_error (lit ''script execution is disabled by policy''))"
| "noop_process n (ContainerProcess c a v i) = Refused (policy_error (lit ''container execution is disabled by policy''))"

text \<open>The generic service invoker of the core crate.\<close>

record service_request =
  sq_service :: str
  sq_operation :: str
  sq_uri :: "str option"
  sq_headers :: "(str, str) amap"
  sq_body :: "json option"
  sq_query :: vmap
  sq_timeout :: "duration option"

record service_response =
  sp_status :: u16
  sp_headers :: "(str, str) amap"
  sp_body :: "json option"
  sp_raw :: "u8 list option"
  sp_content_type :: "str option"

type_synonym service_invoker = "nat \<Rightarrow> service_request \<Rightarrow> service_response answer"

definition noop_service :: service_invoker where
  "noop_service n r = Refused (runtime_error (lit ''no service invoker configured''))"

section \<open>The builder\<close>

record runtime_builder =
  rb_clock :: "det_clock option"
  rb_uuid :: "(nat \<Rightarrow> str) option"
  rb_random :: "(nat \<Rightarrow> f64) option"
  rb_runtime_info :: runtime_info
  rb_policy :: runtime_policy
  rb_publisher :: "(nat \<Rightarrow> event_message \<Rightarrow> unit answer) option"
  rb_service :: "service_invoker option"
  rb_functions :: "str \<Rightarrow> builtin option"
  rb_process :: "(nat \<Rightarrow> process_request \<Rightarrow> process_result answer) option"
  rb_consumer :: "(nat \<Rightarrow> (event_message list \<times> feed_end) answer) option"
  rb_store :: "memory_store option"
  rb_secrets :: secret_resolver
  rb_catalog :: "catalog_resolver option"
  rb_schema_validation :: bool

definition builder_new :: "surroundings \<Rightarrow> runtime_builder" where
  "builder_new su =
     \<lparr>rb_clock = None, rb_uuid = None, rb_random = None, rb_runtime_info = runtime_info_default (su_version su),
      rb_policy = default_policy, rb_publisher = None, rb_service = None, rb_functions = Map.empty, rb_process = None,
      rb_consumer = None, rb_store = None, rb_secrets = EmptySecretResolver, rb_catalog = None,
      rb_schema_validation = True\<rparr>"

definition with_clock :: "det_clock \<Rightarrow> runtime_builder \<Rightarrow> runtime_builder" where
  "with_clock c b = b\<lparr>rb_clock := Some c\<rparr>"

definition with_uuid :: "(nat \<Rightarrow> str) \<Rightarrow> runtime_builder \<Rightarrow> runtime_builder" where
  "with_uuid u b = b\<lparr>rb_uuid := Some u\<rparr>"

definition with_random :: "(nat \<Rightarrow> f64) \<Rightarrow> runtime_builder \<Rightarrow> runtime_builder" where
  "with_random r b = b\<lparr>rb_random := Some r\<rparr>"

definition with_runtime_info :: "runtime_info \<Rightarrow> runtime_builder \<Rightarrow> runtime_builder" where
  "with_runtime_info i b = b\<lparr>rb_runtime_info := i\<rparr>"

definition with_policy :: "runtime_policy \<Rightarrow> runtime_builder \<Rightarrow> runtime_builder" where
  "with_policy p b = b\<lparr>rb_policy := p\<rparr>"

definition with_event_publisher ::
  "(nat \<Rightarrow> event_message \<Rightarrow> unit answer) \<Rightarrow> runtime_builder \<Rightarrow> runtime_builder" where
  "with_event_publisher p b = b\<lparr>rb_publisher := Some p\<rparr>"

definition with_service :: "service_invoker \<Rightarrow> runtime_builder \<Rightarrow> runtime_builder" where
  "with_service s b = b\<lparr>rb_service := Some s\<rparr>"

definition register_function :: "str \<Rightarrow> builtin \<Rightarrow> runtime_builder \<Rightarrow> runtime_builder" where
  "register_function name f b = b\<lparr>rb_functions := (rb_functions b)(name \<mapsto> f)\<rparr>"

definition with_process ::
  "(nat \<Rightarrow> process_request \<Rightarrow> process_result answer) \<Rightarrow> runtime_builder \<Rightarrow> runtime_builder" where
  "with_process p b = b\<lparr>rb_process := Some p\<rparr>"

definition with_event_consumer ::
  "(nat \<Rightarrow> (event_message list \<times> feed_end) answer) \<Rightarrow> runtime_builder \<Rightarrow> runtime_builder" where
  "with_event_consumer c b = b\<lparr>rb_consumer := Some c\<rparr>"

definition with_store :: "memory_store \<Rightarrow> runtime_builder \<Rightarrow> runtime_builder" where
  "with_store s b = b\<lparr>rb_store := Some s\<rparr>"

definition with_secret_resolver :: "secret_resolver \<Rightarrow> runtime_builder \<Rightarrow> runtime_builder" where
  "with_secret_resolver r b = b\<lparr>rb_secrets := r\<rparr>"

definition with_secrets :: "(str, str) amap \<Rightarrow> runtime_builder \<Rightarrow> runtime_builder" where
  "with_secrets pairs b = b\<lparr>rb_secrets := MapSecretResolver (rev pairs)\<rparr>"

definition with_catalog_resolver :: "catalog_resolver \<Rightarrow> runtime_builder \<Rightarrow> runtime_builder" where
  "with_catalog_resolver r b = b\<lparr>rb_catalog := Some r\<rparr>"

text \<open>The services of the runtime, before its functions are installed.\<close>

definition base_host :: "surroundings \<Rightarrow> runtime_builder \<Rightarrow> host" where
  "base_host su b =
     \<lparr>h_platform = su_platform su, h_policy = rb_policy b,
      h_runtime_info = runtime_info_value (rb_runtime_info b),
      h_secret = resolve_secret (su_environment su) (rb_secrets b),
      h_validate = (if rb_schema_validation b then su_schema su else (\<lambda>d v. None)),
      h_function = Map.empty,
      h_process = (case rb_process b of Some p \<Rightarrow> p | None \<Rightarrow> noop_process),
      h_publish = (case rb_publisher b of Some p \<Rightarrow> p | None \<Rightarrow> null_publish),
      h_subscribe = (case rb_consumer b of Some c \<Rightarrow> c | None \<Rightarrow> noop_subscribe),
      h_workflow = Map.empty, h_iso_time = su_iso_time su,
      h_uuid = (case rb_uuid b of Some u \<Rightarrow> u | None \<Rightarrow> su_uuid su),
      h_random = (case rb_random b of Some r \<Rightarrow> r | None \<Rightarrow> su_random su),
      h_join_error = su_join_error su, h_completion = su_completion su\<rparr>"

definition base_world :: "surroundings \<Rightarrow> runtime_builder \<Rightarrow> world" where
  "base_world su b =
     \<lparr>w_store = (case rb_store b of Some s \<Rightarrow> s | None \<Rightarrow> store_new), w_published = [], w_task_order = [],
      w_clock = (case rb_clock b of Some c \<Rightarrow> c | None \<Rightarrow> su_clock su), w_calls = 0, w_uuids = 0,
      w_randoms = 0, w_cancel = None\<rparr>"

text \<open>The service invoker and the catalog resolver are kept beside the services of the engine.\<close>

record runtime_inner =
  in_service :: service_invoker
  in_catalog :: "catalog_resolver option"

definition kept :: "runtime_builder \<Rightarrow> runtime_inner" where
  "kept b = \<lparr>in_service = (case rb_service b of Some s \<Rightarrow> s | None \<Rightarrow> noop_service), in_catalog = rb_catalog b\<rparr>"

text \<open>\<open>build\<close> never fails; the functions call back into the runtime's services.\<close>

definition build :: "surroundings \<Rightarrow> runtime_builder \<Rightarrow> host \<times> world" where
  "build su b =
     (wired_host (su_network su) (su_native_grpc su) (rb_functions b) (base_host su b), base_world su b)"

section \<open>Running a workflow\<close>

text \<open>What \<open>Runtime::run\<close> accepts (the trait \<open>WorkflowInput\<close>), and the log of executed tasks.\<close>

datatype workflow_input = CompiledInput compiled_workflow | DefinitionInput sdk_workflow

fun into_compiled :: "serializer \<Rightarrow> host \<Rightarrow> workflow_input \<Rightarrow> failure + compiled_workflow \<times> host" where
  "into_compiled sz h (CompiledInput flow) = Inr (flow, h)"
| "into_compiled sz h (DefinitionInput d) =
     bindR (runtime_compile (h_platform h) sz d) (\<lambda>flow. Inr (flow, h\<lparr>h_workflow := register flow (h_workflow h)\<rparr>))"

definition runtime_run ::
  "serializer \<Rightarrow> nat \<Rightarrow> workflow_input \<Rightarrow> json \<Rightarrow> host \<times> world \<Rightarrow> (failure + json) \<times> host \<times> world" where
  "runtime_run sz n which input = (\<lambda>(h, w).
     case into_compiled sz h which of
       Inl e \<Rightarrow> (Inl e, h, w)
     | Inr (flow, h') \<Rightarrow> (case runtime_execute h' n flow input w of (handle, r, w') \<Rightarrow> (r, h', w')))"

definition take_task_order :: "world \<Rightarrow> str list \<times> world" where
  "take_task_order w = (w_task_order w, w\<lparr>w_task_order := []\<rparr>)"

section \<open>Laws\<close>

lemma built_function:
  "h_function (fst (build su b)) name =
     h_function (wired_host (su_network su) (su_native_grpc su) (rb_functions b) (base_host su b)) name"
  by (simp add: build_def)

lemma build_keeps [simp]:
  "h_policy (fst (build su b)) = rb_policy b"
  "h_process (fst (build su b)) = (case rb_process b of Some p \<Rightarrow> p | None \<Rightarrow> noop_process)"
  "h_secret (fst (build su b)) = resolve_secret (su_environment su) (rb_secrets b)"
  "h_publish (fst (build su b)) = (case rb_publisher b of Some p \<Rightarrow> p | None \<Rightarrow> null_publish)"
  by (simp_all add: build_def wired_host_def base_host_def)

text \<open>No part of a run depends on the service invoker.\<close>

lemma service_unused: "build su (with_service s b) = build su b"
  by (simp add: build_def base_host_def base_world_def with_service_def)

lemma noop_process_refuses: "\<exists>e. noop_process n request = Refused e \<and> we_kind e = KPolicy"
  by (cases request) (simp_all add: policy_error_def werr_new_def)

text \<open>A function that is registered under a name is the one that is called, but for native gRPC.\<close>

lemma registered_function:
  assumes "rb_functions b name = Some f" "su_native_grpc su = None \<or> name \<noteq> lit ''grpc''"
  shows "h_function (fst (build su b)) name = Some (\<lambda>n g args ectx.
    answer_of (fst (f (su_network su n) (base_host su b) args ectx net_new)))"
  using assms by (auto simp: build_def wired_host_def installed_names_def installed_with_native_def
      installed_functions_def)

lemma native_grpc_overrides:
  assumes "su_native_grpc su = Some g"
  shows "h_function (fst (build su b)) (lit ''grpc'') = Some (\<lambda>n name args ectx.
    answer_of (fst (invoke_grpc_dispatch (su_network su n) g (base_host su b) args ectx (net_new, []))))"
  using assms by (simp add: build_def wired_host_def installed_names_def installed_with_native_def)

lemma built_offline:
  assumes "\<not> allow_network (rb_policy b)" "rb_functions b = Map.empty" "name \<in> set network_calls"
    and "h_function (fst (build su b)) name = Some invoke"
  shows "invoke n name args ectx \<noteq> Answer v"
  using wired_never_answers [of "base_host su b" name "su_network su" "su_native_grpc su" invoke] assms
  by (simp add: build_def base_host_def)

lemma built_offline_execution:
  assumes "\<not> allow_network (rb_policy b)" "rb_functions b = Map.empty"
    and "cw_tasks flow = t # ts" "network_task t" "cw_extensions flow = []"
  shows "fst (execute (fst (build su b)) n flow v default_options w) \<noteq> Inr x"
  using offline_execution [of "base_host su b" flow t ts] assms by (simp add: build_def base_host_def)

end
