(* ===== verification/Testing.thy ===== *)
theory Testing
  imports Builder
begin

text \<open>
  The fakes of the crate \<open>ows-runtime-testing\<close>: a service that answers from stubs and keeps the calls,
  the \<open>http\<close> function over it, a publisher that keeps the events, a clock, and the runtimes built
  from them.  The seeded generator of random numbers is a parameter.
\<close>

section \<open>A service of stubs\<close>

record fake_service =
  fk_responses :: "str \<rightharpoonup> service_response"
  fk_calls :: "service_request list"

definition fake_new :: fake_service where
  "fake_new = \<lparr>fk_responses = Map.empty, fk_calls = []\<rparr>"

definition stub :: "str \<Rightarrow> str \<Rightarrow> service_response \<Rightarrow> fake_service \<Rightarrow> fake_service" where
  "stub verb uri response f = f\<lparr>fk_responses := (fk_responses f)(verb @ lit '' '' @ uri \<mapsto> response)\<rparr>"

definition stub_key :: "service_request \<Rightarrow> str" where
  "stub_key r = sq_operation r @ lit '' '' @ (case sq_uri r of Some u \<Rightarrow> u | None \<Rightarrow> [])"

definition fake_invoke :: "service_request \<Rightarrow> fake_service \<Rightarrow> (workflow_error + service_response) \<times> fake_service" where
  "fake_invoke r f =
     ((case fk_responses f (stub_key r) of
         Some response \<Rightarrow> Inr response
       | None \<Rightarrow> Inl (werr_new KCommunication
           (with_detail (lit ''no stub for `'' @ stub_key r @ lit ''`'') (problem_standard SCommunication)))),
      f\<lparr>fk_calls := fk_calls f @ [r]\<rparr>)"

section \<open>The fake HTTP function\<close>

definition fake_endpoint :: "json option \<Rightarrow> str" where
  "fake_endpoint e =
     (case e of
        Some (String s) \<Rightarrow> s
      | Some (Object m) \<Rightarrow> (case Option.bind (map_of m (lit ''uri'')) as_str of Some u \<Rightarrow> u | None \<Rightarrow> [])
      | _ \<Rightarrow> [])"

text \<open>The method in upper case, the endpoint with its template expanded, and the body.\<close>

definition fake_request :: "http_library \<Rightarrow> host \<Rightarrow> (str \<Rightarrow> json option) \<Rightarrow> expr_context \<Rightarrow> service_request" where
  "fake_request lib h args ectx =
     \<lparr>sq_service = lit ''http'',
      sq_operation = hl_uppercase lib
        (case Option.bind (args (lit ''method'')) as_str of Some m \<Rightarrow> m | None \<Rightarrow> lit ''GET''),
      sq_uri = Some (expand_uri_template h (fake_endpoint (args (lit ''endpoint''))) (or_null (ec_workflow ectx))),
      sq_headers = [], sq_body = args (lit ''body''), sq_query = [], sq_timeout = None\<rparr>"

definition fake_http ::
  "http_library \<Rightarrow> host \<Rightarrow> (str \<Rightarrow> json option) \<Rightarrow> expr_context \<Rightarrow> fake_service
    \<Rightarrow> (workflow_error + json) \<times> fake_service" where
  "fake_http lib h args ectx f =
     (case fake_invoke (fake_request lib h args ectx) f of
        (Inl e, g) \<Rightarrow> (Inl e, g)
      | (Inr response, g) \<Rightarrow> (Inr (or_null (sp_body response)), g))"

section \<open>Events, time, runtimes\<close>

definition recording_publish :: "event_message \<Rightarrow> event_message list \<Rightarrow> (workflow_error + unit) \<times> event_message list" where
  "recording_publish e events = (Inr (), events @ [e])"

definition advance_ms :: "u64 \<Rightarrow> det_clock \<Rightarrow> det_clock" where
  "advance_ms ms c = clock_advance (duration_from_millis ms) c"

definition test_now :: "det_clock \<Rightarrow> int" where
  "test_now c = clock_epoch_seconds c"

definition test_builder :: "surroundings \<Rightarrow> (u64 \<Rightarrow> nat \<Rightarrow> f64) \<Rightarrow> runtime_builder" where
  "test_builder su seeded = with_random (seeded 42) (with_clock clock_new (builder_new su))"

definition test_runtime :: "surroundings \<Rightarrow> (u64 \<Rightarrow> nat \<Rightarrow> f64) \<Rightarrow> host \<times> world" where
  "test_runtime su seeded = build su (test_builder su seeded)"

definition runtime_with_service ::
  "surroundings \<Rightarrow> (u64 \<Rightarrow> nat \<Rightarrow> f64) \<Rightarrow> service_invoker \<Rightarrow> host \<times> world" where
  "runtime_with_service su seeded service = build su (with_service service (test_builder su seeded))"

section \<open>Laws\<close>

lemma stub_answers:
  "fst (fake_invoke r (stub verb uri response f)) =
     (if stub_key r = verb @ lit '' '' @ uri then Inr response else fst (fake_invoke r f))"
  by (simp add: fake_invoke_def stub_def)

lemma calls_kept: "fk_calls (snd (fake_invoke r f)) = fk_calls f @ [r]"
  by (simp add: fake_invoke_def)

text \<open>The service of \<open>runtime_with_service\<close> takes no part in a run.\<close>

lemma service_ignored: "runtime_with_service su seeded service = test_runtime su seeded"
  by (simp add: runtime_with_service_def test_runtime_def service_unused)

text \<open>Without network access, the network functions of both runtimes never answer.\<close>

lemma test_runtime_offline:
  assumes "name \<in> set network_calls" "h_function (fst (runtime_with_service su seeded service)) name = Some invoke"
  shows "invoke n name args ectx \<noteq> Answer v"
  using built_offline [of "test_builder su seeded" name su invoke] assms
  unfolding service_ignored test_runtime_def
  by (simp add: test_builder_def with_random_def with_clock_def builder_new_def default_policy_def)

end
