(* ===== verification/Providers.thy ===== *)
theory Providers
  imports Testing
begin

text \<open>
  The injectable providers of the core crate: generators of random numbers (uuid.rs), the two clocks
  (clock.rs), the constructors of the secret resolvers (secret.rs) and how errors are displayed
  (error.rs).  The pseudo-random generator of the crate \<open>rand\<close> and the clocks of the operating system
  are parameters.  The engine's model reads random numbers from an indexed stream; the laws below
  show that a generator with a state and the stream of its draws are the same thing.
\<close>

section \<open>Random generators (uuid.rs)\<close>

record 's rng_library =
  rl_seeded :: "u64 \<Rightarrow> 's"
  rl_u64 :: "'s \<Rightarrow> u64 \<times> 's"
  rl_f64 :: "'s \<Rightarrow> f64 \<times> 's"

text \<open>Both structs hold one generator behind a lock; the default one starts from the system's entropy.\<close>

record 's random_generator =
  rg_rng :: 's

definition seeded_random_new :: "'s rng_library \<Rightarrow> u64 \<Rightarrow> 's random_generator" where
  "seeded_random_new lib seed = \<lparr>rg_rng = rl_seeded lib seed\<rparr>"

definition default_random_new :: "'s \<Rightarrow> 's random_generator" where
  "default_random_new entropy = \<lparr>rg_rng = entropy\<rparr>"

definition random_clone :: "'s random_generator \<Rightarrow> 's random_generator" where
  "random_clone g = \<lparr>rg_rng = rg_rng g\<rparr>"

definition random_u64 :: "'s rng_library \<Rightarrow> 's random_generator \<Rightarrow> u64 \<times> 's random_generator" where
  "random_u64 lib g = (let (x, r) = rl_u64 lib (rg_rng g) in (x, g\<lparr>rg_rng := r\<rparr>))"

definition random_f64 :: "'s rng_library \<Rightarrow> 's random_generator \<Rightarrow> f64 \<times> 's random_generator" where
  "random_f64 lib g = (let (x, r) = rl_f64 lib (rg_rng g) in (x, g\<lparr>rg_rng := r\<rparr>))"

text \<open>The generator after some draws, and the stream the host of the engine reads.\<close>

primrec after_draws :: "'s rng_library \<Rightarrow> nat \<Rightarrow> 's random_generator \<Rightarrow> 's random_generator" where
  "after_draws lib 0 g = g"
| "after_draws lib (Suc n) g = after_draws lib n (snd (random_f64 lib g))"

definition random_stream :: "'s rng_library \<Rightarrow> 's random_generator \<Rightarrow> nat \<Rightarrow> f64" where
  "random_stream lib g n = fst (random_f64 lib (after_draws lib n g))"

lemma after_draws_Suc: "after_draws lib (Suc n) g = snd (random_f64 lib (after_draws lib n g))"
  by (induction n arbitrary: g) simp_all

lemma after_draws_add: "after_draws lib (m + n) g = after_draws lib n (after_draws lib m g)"
  by (induction m arbitrary: g) simp_all

lemma random_stream_from: "random_stream lib (after_draws lib m g) n = random_stream lib g (m + n)"
  by (simp add: random_stream_def after_draws_add)

text \<open>A clone continues with the draws of the original, and leaves them to it.\<close>

lemma clone_same [simp]: "random_clone g = g"
  by (cases g) (simp add: random_clone_def)

lemma clone_draws: "random_stream lib (random_clone (after_draws lib m g)) n = random_stream lib g (m + n)"
  by (simp add: random_stream_from)

text \<open>
  A draw of the engine is a draw of the generator: the number drawn is the next one, and the number
  of draws so far stands for the generator's state.
\<close>

lemma next_random_draws:
  assumes "h_random h = random_stream lib g"
  shows "\<exists>t. next_random h s = (Inr (fst (random_f64 lib (after_draws lib (w_randoms (xs_world s)) g))), t)
    \<and> after_draws lib (w_randoms (xs_world t)) g
        = snd (random_f64 lib (after_draws lib (w_randoms (xs_world s)) g))"
  using assms
  by (simp add: next_random_def exec_simps on_world_def random_stream_def after_draws_Suc del: after_draws.simps)

text \<open>The generator of the runtimes for tests, whose draws its seed determines.\<close>

definition seeded_test_runtime :: "surroundings \<Rightarrow> 's rng_library \<Rightarrow> host \<times> world" where
  "seeded_test_runtime su lib = test_runtime su (\<lambda>seed. random_stream lib (seeded_random_new lib seed))"

lemma seeded_test_draws:
  "h_random (fst (seeded_test_runtime su lib)) = random_stream lib (seeded_random_new lib 42)"
  by (simp add: seeded_test_runtime_def test_runtime_def test_builder_def build_def wired_host_def base_host_def
      with_random_def)

section \<open>Clocks (clock.rs)\<close>

text \<open>The time of the operating system: nanoseconds since the epoch, and of the monotonic clock.\<close>

record os_time =
  ot_wall :: int
  ot_instant :: nat

record system_clock =
  sk_epoch :: int

definition system_clock_new :: system_clock where
  "system_clock_new = \<lparr>sk_epoch = 0\<rparr>"

text \<open>A time before the epoch is an error, which counts as 0; the seconds are cast to \<open>i64\<close>.\<close>

definition system_epoch_seconds :: "os_time \<Rightarrow> system_clock \<Rightarrow> int" where
  "system_epoch_seconds t c =
     (if ot_wall t < sk_epoch c then 0
      else sint (word_of_int ((ot_wall t - sk_epoch c) div 1000000000) :: i64))"

datatype clock = OsClock system_clock | VirtualClock nat det_clock

fun clock_now :: "os_time \<Rightarrow> clock \<Rightarrow> nat" where
  "clock_now t (OsClock c) = ot_instant t"
| "clock_now t (VirtualClock start c) = start + clock_elapsed c"

fun clock_epoch :: "os_time \<Rightarrow> clock \<Rightarrow> int" where
  "clock_epoch t (OsClock c) = system_epoch_seconds t c"
| "clock_epoch t (VirtualClock start c) = clock_epoch_seconds c"

fun clock_deterministic :: "clock \<Rightarrow> bool" where
  "clock_deterministic (OsClock c) = False"
| "clock_deterministic (VirtualClock start c) = True"

text \<open>
  A sleep on the system's clock lasts at least as long as asked, \<open>late\<close> nanoseconds more; one on the
  virtual clock takes no time and advances the counter.
\<close>

fun sleep_on :: "nat \<Rightarrow> duration \<Rightarrow> os_time \<times> clock \<Rightarrow> os_time \<times> clock" where
  "sleep_on late d (t, OsClock c) =
     (t\<lparr>ot_wall := ot_wall t + int (d + late), ot_instant := ot_instant t + d + late\<rparr>, OsClock c)"
| "sleep_on late d (t, VirtualClock start c) = (t, VirtualClock start (clock_sleep d c))"

text \<open>On either clock \<open>now\<close> moves by at least the time slept, as long as the counter has room.\<close>

fun clock_room :: "duration \<Rightarrow> clock \<Rightarrow> bool" where
  "clock_room d (OsClock c) = True"
| "clock_room d (VirtualClock start c) = (clock_elapsed c + d < 2 ^ 64)"

lemma sleep_moves_now:
  assumes "clock_room d c" "sleep_on late d (t, c) = (t', c')"
  shows "clock_now t c + d \<le> clock_now t' c'"
  using assms by (cases c) (auto simp: clock_sleep_def clock_elapsed_advance)

lemma sleep_exact:
  assumes "clock_room d c" "clock_deterministic c" "sleep_on late d (t, c) = (t', c')"
  shows "clock_now t' c' = clock_now t c + d"
  using assms by (cases c) (auto simp: clock_sleep_def clock_elapsed_advance)

text \<open>The counter wraps after 584 years: one second more then moves the time back.\<close>

lemma now_wraps:
  assumes "clock_elapsed c = 2 ^ 64 - 1" "0 < d" "d < 2 ^ 64"
  shows "clock_now t (VirtualClock start (clock_sleep d c)) < clock_now t (VirtualClock start c)"
proof -
  have "(2 ^ 64 - 1 + d) mod 2 ^ 64 = d - 1"
    using assms(2,3) by (simp add: mod_if)
  with assms show ?thesis by (simp add: clock_sleep_def clock_elapsed_advance)
qed

lemma epoch_of_system:
  assumes "0 \<le> ot_wall t" "ot_wall t < 2 ^ 63 * 1000000000"
  shows "clock_epoch t (OsClock system_clock_new) = ot_wall t div 1000000000"
proof -
  let ?q = "ot_wall t div 1000000000"
  have "0 \<le> ?q" "?q < 2 ^ 63" using assms by (simp_all add: pos_imp_zdiv_nonneg_iff)
  then have "sint (word_of_int ?q :: i64) = ?q"
    by (simp add: sint_uint uint_word_of_int signed_take_bit_int_eq_self take_bit_int_eq_self)
  with assms show ?thesis by (simp add: system_epoch_seconds_def system_clock_new_def)
qed

section \<open>Secret resolvers (secret.rs)\<close>

definition map_secrets_from_pairs :: "(str \<times> str) list \<Rightarrow> secret_resolver" where
  "map_secrets_from_pairs pairs = MapSecretResolver (map_extend pairs [])"

definition env_secrets_new :: secret_resolver where
  "env_secrets_new = EnvSecretResolver (lit ''OWS_SECRET_'')"

text \<open>The last pair of a name counts, as in the builder's \<open>with_secrets\<close>.\<close>

lemma from_pairs_resolves:
  "resolve_secret env (map_secrets_from_pairs pairs) name = map_of (rev pairs) name"
  by (simp add: map_secrets_from_pairs_def map_of_map_extend split: option.split)

lemma with_secrets_from_pairs:
  "resolve_secret env (rb_secrets (with_secrets pairs b)) = resolve_secret env (map_secrets_from_pairs pairs)"
  by (simp add: with_secrets_def from_pairs_resolves fun_eq_iff)

text \<open>
  Names that differ in case or in punctuation only share a variable of the environment, so one
  secret answers for both.
\<close>

definition variable_char :: "nat \<Rightarrow> nat" where
  "variable_char c = (if is_ascii_alphanumeric c then ascii_upper c else 95)"

lemma env_variable_inj:
  "env_variable_for p a = env_variable_for p b \<longleftrightarrow> map variable_char a = map variable_char b"
  by (simp add: env_variable_for_def variable_char_def [abs_def])

lemma env_secret_shared:
  "resolve_secret env (EnvSecretResolver p) (lit ''api-key'') = resolve_secret env (EnvSecretResolver p) (lit ''API_KEY'')"
  by (simp add: env_variable_for_def lit_def is_ascii_alphanumeric_def ascii_upper_def)

lemma variable_chars:
  assumes "c \<in> set (env_variable_for p name)" "c \<notin> set p"
  shows "c = 95 \<or> (48 \<le> c \<and> c \<le> 57) \<or> (65 \<le> c \<and> c \<le> 90)"
  using assms by (auto simp: env_variable_for_def is_ascii_alphanumeric_def ascii_upper_def split: if_splits)

section \<open>Displaying errors (error.rs)\<close>

definition werr_text :: "workflow_error \<Rightarrow> str" where
  "werr_text e =
     kind_str (we_kind e) @ lit '' error (status '' @ nat_str (unat (pd_status (we_problem e)))
       @ lit ''): '' @ pd_type (we_problem e)"

definition with_source :: "str \<Rightarrow> workflow_error \<Rightarrow> workflow_error" where
  "with_source s e = e\<lparr>we_source := Some s\<rparr>"

text \<open>An error of \<open>serde_json\<close>, given by its message, is a parse error with runtime details.\<close>

definition werr_of_json_error :: "str \<Rightarrow> workflow_error" where
  "werr_of_json_error m = with_source m (werr_new KParse (with_detail m (problem_standard SRuntime)))"

text \<open>What is displayed is neither the detail nor the source, so a clone displays as the original.\<close>

lemma clone_text: "werr_text (werr_clone e) = werr_text e"
  by (simp add: werr_text_def werr_clone_def)

lemma json_error_text: "werr_text (werr_of_json_error m) = werr_text (werr_of_json_error m')"
  by (simp add: werr_text_def werr_of_json_error_def with_source_def with_detail_def werr_new_def)

end
