(* ===== verification/Conformance.thy ===== *)
theory Conformance
  imports Compile ExprEval
begin

text \<open>
  The runner of the conformance test kit (conformance.rs of \<open>ows-runtime-cli\<close>): the reader of its
  feature files, the interpretation of scenarios and the report.  YAML, the definition types of the SDK,
  the texts of errors and the file system are parameters.
\<close>

section \<open>Text\<close>

definition trim_end :: "str \<Rightarrow> str" where
  "trim_end s = rev (dropWhile is_whitespace (rev s))"

definition trim_matches :: "nat \<Rightarrow> str \<Rightarrow> str" where
  "trim_matches c s = rev (dropWhile (\<lambda>d. d = c) (rev (dropWhile (\<lambda>d. d = c) s)))"

text \<open>\<open>str::lines\<close>: a carriage return before the line feed belongs to the ending.\<close>

definition drop_cr :: "str \<Rightarrow> str" where
  "drop_cr l = (if l \<noteq> [] \<and> last l = 13 then butlast l else l)"

fun text_lines :: "str \<Rightarrow> str \<Rightarrow> str list" where
  "text_lines line [] = (if line = [] then [] else [line])"
| "text_lines line (c # cs) =
     (if c = 10 then drop_cr line # text_lines [] cs else text_lines (line @ [c]) cs)"

fun split_char :: "nat \<Rightarrow> str \<Rightarrow> str \<Rightarrow> str list" where
  "split_char d part [] = [part]"
| "split_char d part (c # cs) = (if c = d then part # split_char d [] cs else split_char d (part @ [c]) cs)"

fun split_once :: "str \<Rightarrow> str \<Rightarrow> (str \<times> str) option" where
  "split_once p [] = (if p = [] then Some ([], []) else None)"
| "split_once p (c # cs) =
     (if starts_with (c # cs) p then Some ([], drop (length p) (c # cs))
      else map_option (\<lambda>(l, r). (c # l, r)) (split_once p cs))"

definition prefix_rest :: "str \<Rightarrow> string \<Rightarrow> str option" where
  "prefix_rest s p = (if starts_with s (lit p) then Some (drop (length p) s) else None)"

definition suffix_rest :: "str \<Rightarrow> string \<Rightarrow> str option" where
  "suffix_rest s p = (if ends_with s (lit p) then Some (take (length s - length p) s) else None)"

text \<open>\<open>str::parse::<usize>\<close> on 64 bits.\<close>

definition parse_usize :: "str \<Rightarrow> nat option" where
  "parse_usize s =
     (let d = (case s of [] \<Rightarrow> [] | c # r \<Rightarrow> if c = 43 then r else s) in
      if d = [] \<or> \<not> list_all is_ascii_digit d \<or> 2 ^ 64 \<le> digits_value 0 d then None
      else Some (digits_value 0 d))"

definition first_word :: "str \<Rightarrow> str option" where
  "first_word s =
     (let w = takeWhile (\<lambda>c. \<not> is_whitespace c) (dropWhile is_whitespace s) in if w = [] then None else Some w)"

section \<open>Feature files\<close>

record gherkin_step =
  gs_keyword :: str
  gs_text :: str
  gs_doc :: "str option"

record scenario =
  so_name :: str
  so_steps :: "gherkin_step list"

record feature =
  fe_name :: str
  fe_file :: str
  fe_scenarios :: "scenario list"

text \<open>The variables of \<open>parse_feature_str\<close>.\<close>

record reader =
  rd_name :: str
  rd_scenarios :: "scenario list"
  rd_scenario :: "scenario option"
  rd_step :: "gherkin_step option"
  rd_in_doc :: bool
  rd_doc :: str

definition reader_new :: reader where
  "reader_new = \<lparr>rd_name = [], rd_scenarios = [], rd_scenario = None, rd_step = None, rd_in_doc = False, rd_doc = []\<rparr>"

definition step_keywords :: "str list" where
  "step_keywords = map lit [''Given '', ''When '', ''Then '', ''And '', ''But '']"

definition split_step :: "str \<Rightarrow> str \<times> str" where
  "split_step line =
     (case find (\<lambda>kw. starts_with line kw) step_keywords of
        Some kw \<Rightarrow> (trim kw, trim (drop (length kw) line))
      | None \<Rightarrow> (lit ''Step'', line))"

definition flush_step :: "reader \<Rightarrow> reader" where
  "flush_step rd =
     (case rd_step rd of
        None \<Rightarrow> rd
      | Some step \<Rightarrow>
          rd\<lparr>rd_step := None,
             rd_scenario := map_option (\<lambda>sc. sc\<lparr>so_steps := so_steps sc @ [step]\<rparr>) (rd_scenario rd)\<rparr>)"

definition flush_scenario :: "reader \<Rightarrow> reader" where
  "flush_scenario rd =
     (case rd_scenario rd of
        None \<Rightarrow> rd
      | Some sc \<Rightarrow> rd\<lparr>rd_scenario := None, rd_scenarios := rd_scenarios rd @ [sc]\<rparr>)"

definition doc_fence :: str where
  "doc_fence = [34, 34, 34]"

definition read_doc_line :: "str \<Rightarrow> reader \<Rightarrow> reader" where
  "read_doc_line line rd =
     (if starts_with (trim_start line) doc_fence
      then (case rd_step rd of
              None \<Rightarrow> rd\<lparr>rd_in_doc := False\<rparr>
            | Some step \<Rightarrow> rd\<lparr>rd_in_doc := False, rd_step := Some (step\<lparr>gs_doc := Some (rd_doc rd)\<rparr>), rd_doc := []\<rparr>)
      else rd\<lparr>rd_doc := rd_doc rd @ line @ [10]\<rparr>)"

definition read_line :: "str \<Rightarrow> reader \<Rightarrow> reader" where
  "read_line raw rd =
     (let line = trim_end raw in
      if rd_in_doc rd then read_doc_line line rd
      else
        (let trimmed = trim line in
         case prefix_rest trimmed ''Feature:'' of
           Some rest \<Rightarrow> rd\<lparr>rd_name := trim rest\<rparr>
         | None \<Rightarrow>
             (case prefix_rest trimmed ''Scenario:'' of
                Some rest \<Rightarrow>
                  (flush_scenario (flush_step rd))\<lparr>rd_scenario := Some \<lparr>so_name = trim rest, so_steps = []\<rparr>\<rparr>
              | None \<Rightarrow>
                  if starts_with trimmed doc_fence then rd\<lparr>rd_in_doc := True, rd_doc := []\<rparr>
                  else if trimmed = [] \<or> hd trimmed = 35 then rd
                  else (let (keyword, text) = split_step trimmed in
                    (flush_step rd)\<lparr>rd_step := Some \<lparr>gs_keyword = keyword, gs_text = text, gs_doc = None\<rparr>\<rparr>))))"

definition parse_feature_str :: "str \<Rightarrow> str \<Rightarrow> feature" where
  "parse_feature_str text file =
     (let rd = flush_scenario (flush_step (fold read_line (text_lines [] text) reader_new))
      in \<lparr>fe_name = rd_name rd, fe_file = file, fe_scenarios = rd_scenarios rd\<rparr>)"

definition parse_feature :: "(str \<Rightarrow> str + str) \<Rightarrow> str \<Rightarrow> str + feature" where
  "parse_feature read_file path = bindR (read_file path) (\<lambda>text. Inr (parse_feature_str text path))"

section \<open>Values\<close>

fun get_path :: "json \<Rightarrow> str list \<Rightarrow> json option" where
  "get_path v [] = Some v"
| "get_path v (part # parts) = (case json_get v part of None \<Rightarrow> None | Some w \<Rightarrow> get_path w parts)"

definition value_at :: "json \<Rightarrow> str \<Rightarrow> json option" where
  "value_at v path = get_path v (split_char 46 [] path)"

definition output_matches :: "json \<Rightarrow> json \<Rightarrow> bool" where
  "output_matches actual expected = num_equal actual expected"

datatype property_assertion = WithValue | ItemCount nat

definition parse_property_assertion :: "str \<Rightarrow> (str \<times> property_assertion) option" where
  "parse_property_assertion rest =
     Option.bind (prefix_rest (trim rest) [CHR 0x27]) (\<lambda>quoted.
     Option.bind (split_once [39] quoted) (\<lambda>(path, remainder).
     let remainder = trim remainder in
     if starts_with remainder (lit ''property with value:'') then Some (path, WithValue)
     else Option.bind (prefix_rest remainder ''property containing '') (\<lambda>count.
          Option.bind (first_word count) (\<lambda>w.
          map_option (\<lambda>n. (path, ItemCount n)) (parse_usize w)))))"

definition parse_run_before :: "str \<Rightarrow> string \<Rightarrow> (str \<times> str) option" where
  "parse_run_before text keyword =
     map_option (\<lambda>(l, r). (trim_matches 39 (trim l), trim_matches 39 (trim r))) (split_once (lit keyword) text)"

section \<open>Scenarios\<close>

record test_kit =
  tk_yaml :: "str \<Rightarrow> str + json"
  tk_definition :: "json \<Rightarrow> str + sdk_workflow"
  tk_serializer :: serializer
  tk_error :: "workflow_error \<Rightarrow> str"
  tk_debug :: "str list \<Rightarrow> str"
  tk_runtime :: "runtime_policy \<Rightarrow> (host \<times> world) option"

record scenario_state =
  sx_definition :: "json option"
  sx_input :: json
  sx_executed :: bool
  sx_run :: "(workflow_error + json) option"
  sx_order :: "str list"
  sx_failures :: "str list"
  sx_host :: host
  sx_world :: world

definition complain :: "str list \<Rightarrow> scenario_state \<Rightarrow> scenario_state" where
  "complain messages st = st\<lparr>sx_failures := sx_failures st @ messages\<rparr>"

definition yaml_or_null :: "test_kit \<Rightarrow> str option \<Rightarrow> json" where
  "yaml_or_null tk doc =
     (case tk_yaml tk (case doc of Some d \<Rightarrow> d | None \<Rightarrow> []) of Inr v \<Rightarrow> v | Inl e \<Rightarrow> Null)"

definition given_definition :: "test_kit \<Rightarrow> str option \<Rightarrow> scenario_state \<Rightarrow> scenario_state" where
  "given_definition tk doc st =
     (case doc of
        None \<Rightarrow> st
      | Some d \<Rightarrow>
          (case tk_yaml tk d of
             Inr v \<Rightarrow> st\<lparr>sx_definition := Some v\<rparr>
           | Inl e \<Rightarrow> (complain [lit ''failed to parse workflow definition: '' @ e] st)\<lparr>sx_definition := Some Null\<rparr>))"

definition given_input :: "test_kit \<Rightarrow> str option \<Rightarrow> scenario_state \<Rightarrow> scenario_state" where
  "given_input tk doc st =
     (case doc of None \<Rightarrow> st | Some d \<Rightarrow> st\<lparr>sx_input := yaml_or_null tk (Some d)\<rparr>)"

text \<open>The registered workflow runs on the order of tasks taken before; \<open>n\<close> bounds its nested steps.\<close>

definition run_registered ::
  "nat \<Rightarrow> compiled_workflow \<Rightarrow> scenario_state \<Rightarrow> failure + scenario_state" where
  "run_registered n flow st =
     (let h = (sx_host st)\<lparr>h_workflow := register flow (h_workflow (sx_host st))\<rparr>;
          (handle, r, w) = runtime_execute h n flow (sx_input st) ((sx_world st)\<lparr>w_task_order := []\<rparr>);
          finished = (\<lambda>r. Inr (st\<lparr>sx_host := h, sx_world := w\<lparr>w_task_order := []\<rparr>, sx_order := w_task_order w,
                                sx_run := Some r\<rparr>))
      in case r of
           Inr v \<Rightarrow> finished (Inr v)
         | Inl (Failed e) \<Rightarrow> finished (Inl e)
         | Inl f \<Rightarrow> Inl f)"

definition execute_workflow :: "test_kit \<Rightarrow> nat \<Rightarrow> scenario_state \<Rightarrow> failure + scenario_state" where
  "execute_workflow tk n st0 =
     (let st = st0\<lparr>sx_executed := True\<rparr> in
      case sx_definition st of
        None \<Rightarrow> Inr (complain [lit ''no workflow definition''] st)
      | Some v \<Rightarrow>
          (case tk_definition tk v of
             Inl e \<Rightarrow> Inr (complain [lit ''failed to deserialize definition: '' @ e] st)
           | Inr d \<Rightarrow>
               let report = validate (seen_workflow d) in
               if \<not> is_valid report
               then Inr (complain [lit ''definition invalid: '' @ tk_debug tk (map vi_code report)] st)
               else
                 (case runtime_compile (h_platform (sx_host st)) (tk_serializer tk) d of
                    Inl (Failed e) \<Rightarrow> Inr (complain [lit ''compile failed: '' @ tk_error tk e] st)
                  | Inl f \<Rightarrow> Inl f
                  | Inr flow \<Rightarrow> run_registered n flow st)))"

definition shown :: "scenario_state \<Rightarrow> json \<Rightarrow> str" where
  "shown st v = json_text (h_platform (sx_host st)) v"

definition mismatch :: "scenario_state \<Rightarrow> str \<Rightarrow> json \<Rightarrow> json \<Rightarrow> str list" where
  "mismatch st what actual expected =
     (if output_matches actual expected then []
      else [what @ lit '' mismatch: expected '' @ shown st expected @ lit '', got '' @ shown st actual])"

definition check_complete :: "test_kit \<Rightarrow> str \<Rightarrow> str option \<Rightarrow> scenario_state \<Rightarrow> str list" where
  "check_complete tk text doc st =
     (case sx_run st of
        Some run \<Rightarrow>
          (case run of Inr v \<Rightarrow> [] | Inl e \<Rightarrow> [lit ''expected completion, got fault: '' @ tk_error tk e])
          @ (if starts_with text (lit ''the workflow should complete with output:'')
             then mismatch st (lit ''output'') (case run of Inr v \<Rightarrow> v | Inl e \<Rightarrow> Null) (yaml_or_null tk doc)
             else [])
      | None \<Rightarrow> if sx_executed st then [] else [lit ''workflow was not executed''])"

definition check_fault :: "test_kit \<Rightarrow> str \<Rightarrow> str option \<Rightarrow> scenario_state \<Rightarrow> str list" where
  "check_fault tk text doc st =
     (case sx_run st of
        Some run \<Rightarrow>
          (case run of Inl e \<Rightarrow> [] | Inr v \<Rightarrow> [lit ''expected fault, got output '' @ shown st v])
          @ (if starts_with text (lit ''the workflow should fault with error:'')
             then mismatch st (lit ''error'') (case run of Inl e \<Rightarrow> to_problem_json e | Inr v \<Rightarrow> Null)
               (yaml_or_null tk doc)
             else [])
      | None \<Rightarrow> [])"

definition check_cancel_run :: "test_kit \<Rightarrow> scenario_state \<Rightarrow> str list" where
  "check_cancel_run tk st =
     (case sx_run st of
        Some (Inl e) \<Rightarrow>
          if we_kind e = KCancelled then [] else [lit ''expected cancellation, got: '' @ tk_error tk e]
      | Some (Inr v) \<Rightarrow> [lit ''expected cancellation, got completion'']
      | None \<Rightarrow> [])"

definition run_output :: "scenario_state \<Rightarrow> json option" where
  "run_output st = (case sx_run st of Some (Inr v) \<Rightarrow> Some v | _ \<Rightarrow> None)"

definition property_paths :: "str \<Rightarrow> str list" where
  "property_paths props =
     filter (\<lambda>p. p \<noteq> []) (map (\<lambda>p. trim_matches 34 (trim_matches 39 (trim p))) (split_char 44 [] (trim props)))"

definition check_properties :: "str \<Rightarrow> scenario_state \<Rightarrow> str list" where
  "check_properties props st =
     (case run_output st of
        None \<Rightarrow> []
      | Some output \<Rightarrow>
          map (\<lambda>p. lit ''missing property `'' @ p @ lit ''`'')
            (filter (\<lambda>p. value_at output p = None) (property_paths props)))"

definition check_property :: "test_kit \<Rightarrow> str \<Rightarrow> str option \<Rightarrow> scenario_state \<Rightarrow> str list" where
  "check_property tk rest doc st =
     (case (parse_property_assertion rest, run_output st) of
        (Some (path, WithValue), Some output) \<Rightarrow>
          mismatch st (lit ''property `'' @ path @ lit ''`'') (or_null (value_at output path)) (yaml_or_null tk doc)
      | (Some (path, ItemCount n), Some output) \<Rightarrow>
          (case value_at output path of
             Some (Array items) \<Rightarrow>
               if length items = n then []
               else [lit ''property `'' @ path @ lit ''` has '' @ nat_str (length items) @ lit '' items, expected ''
                 @ nat_str n]
           | _ \<Rightarrow> [lit ''property `'' @ path @ lit ''` is not an array''])
      | _ \<Rightarrow> [])"

definition check_run_first :: "test_kit \<Rightarrow> str \<Rightarrow> scenario_state \<Rightarrow> str list" where
  "check_run_first tk task st =
     (if sx_order st \<noteq> [] \<and> hd (sx_order st) = trim task then []
      else [lit ''expected `'' @ task @ lit ''` to run first, order was '' @ tk_debug tk (sx_order st)])"

definition check_run_last :: "test_kit \<Rightarrow> str \<Rightarrow> scenario_state \<Rightarrow> str list" where
  "check_run_last tk task st =
     (if sx_order st \<noteq> [] \<and> last (sx_order st) = trim task then []
      else [lit ''expected `'' @ task @ lit ''` to run last, order was '' @ tk_debug tk (sx_order st)])"

definition check_order :: "bool \<Rightarrow> str \<Rightarrow> str \<Rightarrow> scenario_state \<Rightarrow> str list" where
  "check_order before t1 t2 st =
     (case (position (\<lambda>t. t = t1) (sx_order st), position (\<lambda>t. t = t2) (sx_order st)) of
        (Some a, Some b) \<Rightarrow>
          if (if before then a < b else b < a) then []
          else [lit ''expected `'' @ t1 @ lit ''` to run '' @ lit (if before then ''before'' else ''after'') @ lit '' `''
            @ t2 @ lit ''`, but '' @ nat_str a @ lit (if before then '' >= '' else '' <= '') @ nat_str b]
      | (None, _) \<Rightarrow> [lit ''task `'' @ t1 @ lit ''` did not run'']
      | (_, None) \<Rightarrow> [lit ''task `'' @ t2 @ lit ''` did not run''])"

definition check_ran :: "string \<Rightarrow> str \<Rightarrow> scenario_state \<Rightarrow> str list" where
  "check_ran complaint task st =
     (if trim task \<in> set (sx_order st) then [] else [lit ''task `'' @ task @ lit ''` '' @ lit complaint])"

definition check_task_faulted :: "str \<Rightarrow> scenario_state \<Rightarrow> str list" where
  "check_task_faulted task st =
     (if sx_order st \<noteq> [] \<and> last (sx_order st) = trim task then []
      else [lit ''expected task `'' @ task @ lit ''` to be the faulting task''])"

text \<open>The assertions, in the order in which the text of a step is tried; other texts are comments.\<close>

definition check_step :: "test_kit \<Rightarrow> str \<Rightarrow> str option \<Rightarrow> scenario_state \<Rightarrow> str list" where
  "check_step tk text doc st =
     (if starts_with text (lit ''the workflow should complete'') then check_complete tk text doc st
      else if starts_with text (lit ''the workflow should fault'') then check_fault tk text doc st
      else if text = lit ''the workflow should cancel'' then check_cancel_run tk st
      else case prefix_rest text ''the workflow output should have properties'' of
        Some props \<Rightarrow> check_properties props st
      | None \<Rightarrow> (case prefix_rest text ''the workflow output should have a '' of
        Some rest \<Rightarrow> check_property tk rest doc st
      | None \<Rightarrow> (case suffix_rest text '' should run first'' of
        Some task \<Rightarrow> check_run_first tk task st
      | None \<Rightarrow> (case suffix_rest text '' should run last'' of
        Some task \<Rightarrow> check_run_last tk task st
      | None \<Rightarrow> (case parse_run_before text ''should run before'' of
        Some (t1, t2) \<Rightarrow> check_order True t1 t2 st
      | None \<Rightarrow> (case parse_run_before text ''should run after'' of
        Some (t1, t2) \<Rightarrow> check_order False t1 t2 st
      | None \<Rightarrow> (case suffix_rest text '' should complete'' of
        Some task \<Rightarrow> check_ran ''did not complete'' task st
      | None \<Rightarrow> (case suffix_rest text '' should fault'' of
        Some task \<Rightarrow> check_task_faulted task st
      | None \<Rightarrow> (case suffix_rest text '' should cancel'' of
        Some task \<Rightarrow> check_ran ''did not run'' task st
      | None \<Rightarrow> [])))))))))"

definition scenario_step ::
  "test_kit \<Rightarrow> nat \<Rightarrow> gherkin_step \<Rightarrow> scenario_state \<Rightarrow> failure + scenario_state" where
  "scenario_step tk n step st =
     (let text = trim (gs_text step); doc = gs_doc step in
      if text = lit ''a workflow with definition:'' then Inr (given_definition tk doc st)
      else if text = lit ''given the workflow input is:'' then Inr (given_input tk doc st)
      else if text = lit ''the workflow is executed'' then execute_workflow tk n st
      else Inr (complain (check_step tk text doc st) st))"

section \<open>The report\<close>

datatype scenario_status = Pass | Fail | Skip

record scenario_result =
  rs_feature :: str
  rs_name :: str
  rs_status :: scenario_status
  rs_message :: "str option"

definition scenario_start :: "host \<times> world \<Rightarrow> scenario_state" where
  "scenario_start = (\<lambda>(h, w).
     \<lparr>sx_definition = None, sx_input = Null, sx_executed = False, sx_run = None, sx_order = [],
      sx_failures = [], sx_host = h, sx_world = w\<rparr>)"

definition verdict :: "scenario \<Rightarrow> str list \<Rightarrow> scenario_result" where
  "verdict sc failures =
     \<lparr>rs_feature = [], rs_name = so_name sc, rs_status = (if failures = [] then Pass else Fail),
      rs_message = (if failures = [] then None else Some (join_strs (lit ''; '') failures))\<rparr>"

definition scenario_policy :: "bool \<Rightarrow> runtime_policy" where
  "scenario_policy include_network =
     (if include_network then default_policy\<lparr>allow_network := True\<rparr> else default_policy)"

definition run_scenario ::
  "test_kit \<Rightarrow> nat \<Rightarrow> feature \<Rightarrow> scenario \<Rightarrow> bool \<Rightarrow> failure + scenario_result" where
  "run_scenario tk n f sc include_network =
     (case tk_runtime tk (scenario_policy include_network) of
        None \<Rightarrow> Inr \<lparr>rs_feature = fe_name f, rs_name = so_name sc, rs_status = Fail,
                     rs_message = Some (lit ''runtime failed to build'')\<rparr>
      | Some start \<Rightarrow>
          bindR (run_steps (scenario_step tk n) (so_steps sc) (scenario_start start)) (\<lambda>st.
          Inr (verdict sc (sx_failures st))))"

record conformance_report =
  cr_scenarios :: "scenario_result list"
  cr_passes :: nat
  cr_failures :: nat
  cr_skips :: nat

definition report_new :: conformance_report where
  "report_new = \<lparr>cr_scenarios = [], cr_passes = 0, cr_failures = 0, cr_skips = 0\<rparr>"

definition count_result :: "scenario_result \<Rightarrow> conformance_report \<Rightarrow> conformance_report" where
  "count_result r rep =
     (case rs_status r of
        Pass \<Rightarrow> rep\<lparr>cr_passes := cr_passes rep + 1, cr_scenarios := cr_scenarios rep @ [r]\<rparr>
      | Fail \<Rightarrow> rep\<lparr>cr_failures := cr_failures rep + 1, cr_scenarios := cr_scenarios rep @ [r]\<rparr>
      | Skip \<Rightarrow> rep\<lparr>cr_skips := cr_skips rep + 1, cr_scenarios := cr_scenarios rep @ [r]\<rparr>)"

definition scenario_uses_network :: "scenario \<Rightarrow> bool" where
  "scenario_uses_network sc \<longleftrightarrow>
     (\<exists>step \<in> set (so_steps sc). case gs_doc step of
        None \<Rightarrow> False
      | Some doc \<Rightarrow> str_contains doc (lit ''call: http'') \<or> str_contains doc (lit ''call: openapi''))"

definition feature_scenario ::
  "test_kit \<Rightarrow> nat \<Rightarrow> bool \<Rightarrow> feature \<Rightarrow> scenario \<Rightarrow> conformance_report \<Rightarrow> failure + conformance_report" where
  "feature_scenario tk n include_network f sc rep =
     (if scenario_uses_network sc \<and> \<not> include_network
      then Inr (count_result \<lparr>rs_feature = fe_name f, rs_name = so_name sc, rs_status = Skip,
             rs_message = Some (lit ''network-dependent scenario skipped'')\<rparr> rep)
      else bindR (run_scenario tk n f sc include_network) (\<lambda>r.
             Inr (count_result (r\<lparr>rs_feature := fe_name f\<rparr>) rep)))"

definition feature_file ::
  "test_kit \<Rightarrow> (str \<Rightarrow> str + str) \<Rightarrow> nat \<Rightarrow> bool \<Rightarrow> str \<Rightarrow> conformance_report \<Rightarrow> failure + conformance_report" where
  "feature_file tk read_file n include_network path rep =
     (case parse_feature read_file path of
        Inl e \<Rightarrow> Inr (count_result \<lparr>rs_feature = path, rs_name = lit ''<parse error>'', rs_status = Fail,
             rs_message = Some e\<rparr> rep)
      | Inr f \<Rightarrow> run_steps (feature_scenario tk n include_network f) (fe_scenarios f) rep)"

text \<open>The paths are those with the extension \<open>feature\<close> in the directory, sorted.\<close>

definition run_ctk_with ::
  "test_kit \<Rightarrow> (str \<Rightarrow> str + str) \<Rightarrow> nat \<Rightarrow> str list \<Rightarrow> bool \<Rightarrow> failure + conformance_report" where
  "run_ctk_with tk read_file n paths include_network =
     run_steps (feature_file tk read_file n include_network) (sort paths) report_new"

definition run_ctk ::
  "test_kit \<Rightarrow> (str \<Rightarrow> str + str) \<Rightarrow> nat \<Rightarrow> str list \<Rightarrow> failure + conformance_report" where
  "run_ctk tk read_file n paths = run_ctk_with tk read_file n paths False"

definition report_total :: "conformance_report \<Rightarrow> nat" where
  "report_total rep = length (cr_scenarios rep)"

definition has_failures :: "conformance_report \<Rightarrow> bool" where
  "has_failures rep \<longleftrightarrow> 0 < cr_failures rep"

end
