(* ===== verification/ConformanceLaws.thy ===== *)
theory ConformanceLaws
  imports Conformance
begin

text \<open>
  The report counts every scenario once; a feature that is written out is read back; what the
  assertions of a scenario establish.
\<close>

section \<open>Reports\<close>

definition with_status :: "scenario_status \<Rightarrow> scenario_result list \<Rightarrow> nat" where
  "with_status st rs = length (filter (\<lambda>r. rs_status r = st) rs)"

definition tallied :: "conformance_report \<Rightarrow> bool" where
  "tallied rep \<longleftrightarrow> cr_passes rep = with_status Pass (cr_scenarios rep)
     \<and> cr_failures rep = with_status Fail (cr_scenarios rep) \<and> cr_skips rep = with_status Skip (cr_scenarios rep)"

lemma count_result_scenarios [simp]: "cr_scenarios (count_result r rep) = cr_scenarios rep @ [r]"
  by (simp add: count_result_def split: scenario_status.split)

lemma count_result_tallied: "tallied rep \<Longrightarrow> tallied (count_result r rep)"
  by (cases "rs_status r") (simp_all add: tallied_def with_status_def count_result_def)

lemma tallied_total: "tallied rep \<Longrightarrow> cr_passes rep + cr_failures rep + cr_skips rep = length (cr_scenarios rep)"
proof -
  have "with_status Pass rs + with_status Fail rs + with_status Skip rs = length rs" for rs
    by (induction rs) (auto simp: with_status_def intro: scenario_status.exhaust)
  then show "tallied rep \<Longrightarrow> ?thesis" by (simp add: tallied_def)
qed

lemma feature_scenario_counts:
  "feature_scenario tk n net f sc rep = Inr rep' \<Longrightarrow> \<exists>r. rep' = count_result r rep
    \<and> rs_name r = so_name sc \<and> rs_feature r = fe_name f"
  by (auto simp: feature_scenario_def run_scenario_def verdict_def bindR_eq_Inr split: if_splits option.splits)

definition file_entries :: "(str \<Rightarrow> str + str) \<Rightarrow> str \<Rightarrow> (str \<times> str) list" where
  "file_entries read_file path =
     (case parse_feature read_file path of
        Inl e \<Rightarrow> [(path, lit ''<parse error>'')]
      | Inr f \<Rightarrow> map (\<lambda>sc. (fe_name f, so_name sc)) (fe_scenarios f))"

definition report_entries :: "conformance_report \<Rightarrow> (str \<times> str) list" where
  "report_entries rep = map (\<lambda>r. (rs_feature r, rs_name r)) (cr_scenarios rep)"

lemma feature_file_tallied:
  assumes "feature_file tk rf n net path rep = Inr rep'" "tallied rep"
  shows "tallied rep'"
proof (cases "parse_feature rf path")
  case (Inl e)
  with assms show ?thesis by (auto simp: feature_file_def count_result_tallied)
next
  case (Inr f)
  with assms(1) have "run_steps (feature_scenario tk n net f) (fe_scenarios f) rep = Inr rep'"
    by (simp add: feature_file_def)
  then show ?thesis
    by (rule run_steps_invariant [where I = tallied])
       (use assms(2) in \<open>auto dest!: feature_scenario_counts simp: count_result_tallied\<close>)
qed

lemma feature_file_entries:
  assumes "feature_file tk rf n net path rep = Inr rep'"
  shows "report_entries rep' = report_entries rep @ file_entries rf path"
proof (cases "parse_feature rf path")
  case (Inl e)
  with assms show ?thesis by (auto simp: feature_file_def report_entries_def file_entries_def)
next
  case (Inr f)
  with assms have "run_steps (feature_scenario tk n net f) (fe_scenarios f) rep = Inr rep'"
    by (simp add: feature_file_def)
  then have "report_entries rep' = report_entries rep @ concat (map (\<lambda>sc. [(fe_name f, so_name sc)]) (fe_scenarios f))"
    by (rule run_steps_collects) (auto dest!: feature_scenario_counts simp: report_entries_def)
  with Inr show ?thesis by (simp add: file_entries_def concat_map_singleton)
qed

lemma run_ctk_report:
  assumes "run_ctk_with tk rf n paths net = Inr rep"
  shows "tallied rep" "report_entries rep = concat (map (file_entries rf) (sort paths))"
proof -
  have run: "run_steps (feature_file tk rf n net) (sort paths) report_new = Inr rep"
    using assms by (simp add: run_ctk_with_def)
  show "tallied rep"
    by (rule run_steps_invariant [where I = tallied, OF run])
       (auto simp: tallied_def report_new_def with_status_def feature_file_tallied [unfolded tallied_def with_status_def])
  have "report_entries rep = report_entries report_new @ concat (map (file_entries rf) (sort paths))"
    by (rule run_steps_collects [OF run]) (rule feature_file_entries)
  then show "report_entries rep = concat (map (file_entries rf) (sort paths))"
    by (simp add: report_entries_def report_new_def)
qed

section \<open>Writing and reading features\<close>

text \<open>
  Features as they are written: lines without line feeds and without white space at their ends;
  the lines of a document do not open with the fence.
\<close>

definition trimmed :: "str \<Rightarrow> bool" where
  "trimmed s \<longleftrightarrow> 10 \<notin> set s \<and> (s = [] \<or> \<not> is_whitespace (hd s) \<and> \<not> is_whitespace (last s))"

definition doc_line_ok :: "str \<Rightarrow> bool" where
  "doc_line_ok l \<longleftrightarrow> 10 \<notin> set l \<and> trim_end l = l \<and> \<not> starts_with (trim_start l) doc_fence"

record written_step =
  ws_keyword :: str
  ws_text :: str
  ws_doc :: "str list option"

definition line_keywords :: "str list" where
  "line_keywords = map lit [''Given'', ''When'', ''Then'', ''And'', ''But'']"

definition step_written :: "written_step \<Rightarrow> bool" where
  "step_written w \<longleftrightarrow> ws_keyword w \<in> set line_keywords
     \<and> trimmed (ws_text w) \<and> ws_text w \<noteq> []
     \<and> (case ws_doc w of None \<Rightarrow> True | Some ls \<Rightarrow> list_all doc_line_ok ls)"

definition doc_text :: "str list \<Rightarrow> str" where
  "doc_text ls = concat (map (\<lambda>l. l @ [10]) ls)"

definition step_of :: "written_step \<Rightarrow> gherkin_step" where
  "step_of w = \<lparr>gs_keyword = ws_keyword w, gs_text = ws_text w, gs_doc = map_option doc_text (ws_doc w)\<rparr>"

definition step_lines :: "written_step \<Rightarrow> str list" where
  "step_lines w = (ws_keyword w @ lit '' '' @ ws_text w) #
     (case ws_doc w of None \<Rightarrow> [] | Some ls \<Rightarrow> [doc_fence] @ ls @ [doc_fence])"

definition scenario_lines :: "str \<times> written_step list \<Rightarrow> str list" where
  "scenario_lines = (\<lambda>(name, ws). (lit ''Scenario: '' @ name) # concat (map step_lines ws))"

definition feature_lines :: "str \<Rightarrow> (str \<times> written_step list) list \<Rightarrow> str list" where
  "feature_lines name scs = (lit ''Feature: '' @ name) # concat (map scenario_lines scs)"

lemma text_lines_line: "10 \<notin> set l \<Longrightarrow> text_lines line (l @ 10 # rest) = drop_cr (line @ l) # text_lines [] rest"
  by (induction l arbitrary: line) auto

lemma text_lines_doc_text: "list_all (\<lambda>l. 10 \<notin> set l) ls \<Longrightarrow> text_lines [] (doc_text ls) = map drop_cr ls"
  by (induction ls) (simp_all add: doc_text_def text_lines_line)

lemma whitespace_cr: "is_whitespace 13"
  by (simp add: is_whitespace_def)

lemma trim_end_drop_cr [simp]: "trim_end (drop_cr l) = trim_end l"
proof (cases "l \<noteq> [] \<and> last l = 13")
  case True
  then obtain k where "l = k @ [13]" by (metis append_butlast_last_id)
  then show ?thesis by (simp add: drop_cr_def trim_end_def whitespace_cr)
qed (auto simp: drop_cr_def)

lemma read_line_drop_cr: "read_line (drop_cr l) rd = read_line l rd"
  by (simp add: read_line_def)

lemma dropWhile_trimmed: "trimmed s \<Longrightarrow> dropWhile is_whitespace s = s"
  by (cases s) (auto simp: trimmed_def)

lemma dropWhile_rev_trimmed: "trimmed s \<Longrightarrow> dropWhile is_whitespace (rev s) = rev s"
  by (cases s rule: rev_cases) (auto simp: trimmed_def)

lemma trim_trimmed: "trimmed s \<Longrightarrow> trim s = s" "trimmed s \<Longrightarrow> trim_end s = s"
  by (simp_all add: trim_def trim_end_def dropWhile_trimmed dropWhile_rev_trimmed)

lemma trimmed_prefix:
  "trimmed s \<Longrightarrow> s \<noteq> [] \<Longrightarrow> p \<noteq> [] \<Longrightarrow> 10 \<notin> set p \<Longrightarrow> \<not> is_whitespace (hd p) \<Longrightarrow> trimmed (p @ s)"
  by (auto simp: trimmed_def hd_append last_append)

lemma trim_space: "trimmed s \<Longrightarrow> trim (32 # s) = s"
proof -
  have "is_whitespace 32" by (simp add: is_whitespace_def)
  then show "trimmed s \<Longrightarrow> ?thesis" by (simp add: trim_def dropWhile_trimmed dropWhile_rev_trimmed)
qed

text \<open>A heading with an empty name loses the space before it.\<close>

lemma trim_heading:
  assumes "trimmed name" "trimmed p" "p \<noteq> []"
  shows "trim (trim_end (p @ lit '' '' @ name)) = (if name = [] then p else p @ lit '' '' @ name)"
proof (cases "name = []")
  case True
  have "is_whitespace 32" by (simp add: is_whitespace_def)
  with True assms(2) show ?thesis
    by (simp add: lit_def trim_end_def trim_trimmed dropWhile_rev_trimmed)
next
  case False
  have "trimmed (p @ lit '' '' @ name)"
    using assms False by (auto simp: trimmed_def lit_def)
  with False show ?thesis by (simp add: trim_trimmed)
qed

section \<open>Reading lines\<close>

definition view :: "reader \<Rightarrow> str \<times> scenario list \<times> scenario option \<times> bool" where
  "view rd = (rd_name rd, rd_scenarios rd, rd_scenario (flush_step rd), rd_in_doc rd)"

lemma flush_step_fields [simp]:
  "rd_name (flush_step rd) = rd_name rd" "rd_scenarios (flush_step rd) = rd_scenarios rd"
  "rd_in_doc (flush_step rd) = rd_in_doc rd" "rd_step (flush_step rd) = None"
  by (simp_all add: flush_step_def split: option.split)

lemma prefix_heading:
  assumes "trimmed name" "t = (if name = [] then lit p else lit p @ lit '' '' @ name)"
  obtains r where "prefix_rest t p = Some r" "trim r = name"
proof (cases "name = []")
  case True
  with assms that [of "[]"] show ?thesis by (simp add: prefix_rest_def starts_with_def trim_def)
next
  case False
  have "trim (lit '' '' @ name) = name" using trim_space [OF assms(1)] by (simp add: lit_def)
  with False assms that [of "lit '' '' @ name"] show ?thesis by (simp add: prefix_rest_def starts_with_def)
qed

lemma read_line_outside:
  assumes "\<not> rd_in_doc rd" and t: "trim (trim_end l) = t"
  shows "read_line l rd =
    (case prefix_rest t ''Feature:'' of
       Some rest \<Rightarrow> rd\<lparr>rd_name := trim rest\<rparr>
     | None \<Rightarrow> (case prefix_rest t ''Scenario:'' of
         Some rest \<Rightarrow> (flush_scenario (flush_step rd))\<lparr>rd_scenario := Some \<lparr>so_name = trim rest, so_steps = []\<rparr>\<rparr>
       | None \<Rightarrow>
           if starts_with t doc_fence then rd\<lparr>rd_in_doc := True, rd_doc := []\<rparr>
           else if t = [] \<or> hd t = 35 then rd
           else (let (keyword, text) = split_step t in
             (flush_step rd)\<lparr>rd_step := Some \<lparr>gs_keyword = keyword, gs_text = text, gs_doc = None\<rparr>\<rparr>)))"
  using assms(1) unfolding t [symmetric] read_line_def Let_def by (simp only: if_False)

lemma read_feature_line:
  assumes "trimmed name" "\<not> rd_in_doc rd"
  shows "read_line (lit ''Feature: '' @ name) rd = rd\<lparr>rd_name := name\<rparr>"
proof -
  let ?t = "if name = [] then lit ''Feature:'' else lit ''Feature:'' @ lit '' '' @ name"
  have t: "trimmed (lit ''Feature:'')" by (simp add: trimmed_def lit_def is_whitespace_def)
  have "trim (trim_end (lit ''Feature: '' @ name)) = ?t"
    using trim_heading [OF assms(1) t] by (simp add: lit_def)
  note read = read_line_outside [OF assms(2) this]
  obtain r where "prefix_rest ?t ''Feature:'' = Some r" "trim r = name"
    by (rule prefix_heading [OF assms(1) refl])
  then show ?thesis unfolding read by simp
qed

lemma read_scenario_line:
  assumes "trimmed name" "\<not> rd_in_doc rd"
  shows "read_line (lit ''Scenario: '' @ name) rd =
    (flush_scenario (flush_step rd))\<lparr>rd_scenario := Some \<lparr>so_name = name, so_steps = []\<rparr>\<rparr>"
proof -
  let ?t = "if name = [] then lit ''Scenario:'' else lit ''Scenario:'' @ lit '' '' @ name"
  have t: "trimmed (lit ''Scenario:'')" by (simp add: trimmed_def lit_def is_whitespace_def)
  have "trim (trim_end (lit ''Scenario: '' @ name)) = ?t"
    using trim_heading [OF assms(1) t] by (simp add: lit_def)
  note read = read_line_outside [OF assms(2) this]
  have none: "prefix_rest ?t ''Feature:'' = None"
    by (simp add: prefix_rest_def starts_with_def lit_def)
  obtain r where "prefix_rest ?t ''Scenario:'' = Some r" "trim r = name"
    by (rule prefix_heading [OF assms(1) refl])
  with none show ?thesis unfolding read by simp
qed

lemma trim_keywords:
  "trim (lit ''Given '') = lit ''Given''" "trim (lit ''When '') = lit ''When''" "trim (lit ''Then '') = lit ''Then''"
  "trim (lit ''And '') = lit ''And''" "trim (lit ''But '') = lit ''But''"
  by (simp_all add: trim_def lit_def is_whitespace_def)

lemma find_keyword:
  "find (\<lambda>kw. starts_with (lit ''Given'' @ lit '' '' @ text) kw) step_keywords = Some (lit ''Given '')"
  "find (\<lambda>kw. starts_with (lit ''When'' @ lit '' '' @ text) kw) step_keywords = Some (lit ''When '')"
  "find (\<lambda>kw. starts_with (lit ''Then'' @ lit '' '' @ text) kw) step_keywords = Some (lit ''Then '')"
  "find (\<lambda>kw. starts_with (lit ''And'' @ lit '' '' @ text) kw) step_keywords = Some (lit ''And '')"
  "find (\<lambda>kw. starts_with (lit ''But'' @ lit '' '' @ text) kw) step_keywords = Some (lit ''But '')"
  by (simp_all add: step_keywords_def starts_with_def lit_def)

lemma split_step_line:
  assumes "kw \<in> set line_keywords" "trimmed text"
  shows "split_step (kw @ lit '' '' @ text) = (kw, text)"
proof -
  consider "kw = lit ''Given''" | "kw = lit ''When''" | "kw = lit ''Then''" | "kw = lit ''And''" | "kw = lit ''But''"
    using assms(1) by (auto simp: line_keywords_def)
  then show ?thesis
    unfolding split_step_def
    by cases (simp_all only: find_keyword option.case trim_keywords, simp_all add: trim_trimmed(1) [OF assms(2)])
qed

lemma read_step_line:
  assumes "kw \<in> set line_keywords" "trimmed text" "text \<noteq> []" "\<not> rd_in_doc rd"
  shows "read_line (kw @ lit '' '' @ text) rd =
    (flush_step rd)\<lparr>rd_step := Some \<lparr>gs_keyword = kw, gs_text = text, gs_doc = None\<rparr>\<rparr>"
proof -
  let ?t = "kw @ lit '' '' @ text"
  have kw: "trimmed kw" "kw \<noteq> []" "hd kw \<in> {71, 87, 84, 65, 66}"
    using assms(1) by (auto simp: line_keywords_def lit_def trimmed_def is_whitespace_def)
  then have "trim (trim_end ?t) = ?t"
    using trim_heading [OF assms(2), of kw] assms(3) by simp
  note read = read_line_outside [OF assms(4) this]
  have hd: "hd ?t \<in> {71, 87, 84, 65, 66}" "?t \<noteq> []" using kw by auto
  then obtain c r where c: "?t = c # r" "c \<in> {71, 87, 84, 65, 66}" by (cases ?t) auto
  have "prefix_rest ?t ''Feature:'' = None" "prefix_rest ?t ''Scenario:'' = None"
    "\<not> starts_with ?t doc_fence" "hd ?t \<noteq> 35"
    using c(2) unfolding c(1) by (auto simp: prefix_rest_def starts_with_def lit_def doc_fence_def)
  then show ?thesis
    unfolding read using hd(2) split_step_line [OF assms(1,2)] by simp
qed

lemma read_doc_lines:
  assumes "list_all doc_line_ok ls" "rd_in_doc rd"
  shows "fold read_line ls rd = rd\<lparr>rd_doc := rd_doc rd @ doc_text ls\<rparr>"
  using assms
proof (induction ls arbitrary: rd)
  case Nil
  then show ?case by (simp add: doc_text_def)
next
  case (Cons l ls)
  then have "read_line l rd = rd\<lparr>rd_doc := rd_doc rd @ l @ [10]\<rparr>"
    by (simp add: read_line_def read_doc_line_def doc_line_ok_def Let_def)
  with Cons show ?case by (simp add: doc_text_def)
qed

lemma trim_fence: "trim (trim_end doc_fence) = doc_fence" "trim_start (trim_end doc_fence) = doc_fence"
  by (simp_all add: doc_fence_def trim_end_def trim_def trim_start_def is_whitespace_def)

lemma read_fence_open:
  "\<not> rd_in_doc rd \<Longrightarrow> read_line doc_fence rd = rd\<lparr>rd_in_doc := True, rd_doc := []\<rparr>"
  by (simp add: read_line_outside [OF _ trim_fence(1)])
     (simp add: prefix_rest_def starts_with_def lit_def doc_fence_def)

lemma read_fence_close:
  "rd_in_doc rd \<Longrightarrow> rd_step rd = Some step \<Longrightarrow> read_line doc_fence rd =
    rd\<lparr>rd_in_doc := False, rd_step := Some (step\<lparr>gs_doc := Some (rd_doc rd)\<rparr>), rd_doc := []\<rparr>"
  by (simp add: read_line_def read_doc_line_def trim_fence Let_def)
     (simp add: starts_with_def doc_fence_def)

text \<open>Reading the lines of a step adds it to the open scenario, up to the pending document text.\<close>

lemma read_step_lines:
  assumes "step_written w" "\<not> rd_in_doc rd"
  shows "\<exists>buffer. fold read_line (step_lines w) rd = (flush_step rd)\<lparr>rd_step := Some (step_of w), rd_doc := buffer\<rparr>"
proof -
  let ?rd = "(flush_step rd)\<lparr>rd_step := Some \<lparr>gs_keyword = ws_keyword w, gs_text = ws_text w, gs_doc = None\<rparr>\<rparr>"
  have line: "read_line (ws_keyword w @ lit '' '' @ ws_text w) rd = ?rd"
    using assms by (intro read_step_line) (simp_all add: step_written_def)
  show ?thesis
  proof (cases "ws_doc w")
    case None
    have "?rd = (flush_step rd)\<lparr>rd_step := Some (step_of w), rd_doc := rd_doc (flush_step rd)\<rparr>"
      using None by (simp add: step_of_def)
    with None line show ?thesis
      by (intro exI [of _ "rd_doc (flush_step rd)"]) (simp add: step_lines_def)
  next
    case (Some ls)
    then have "list_all doc_line_ok ls" using assms(1) by (simp add: step_written_def)
    with Some line assms(2) show ?thesis
      by (intro exI [of _ "[]"]) (simp add: step_lines_def read_fence_open read_doc_lines read_fence_close step_of_def)
  qed
qed

lemma flush_step_pending:
  "flush_step (rd\<lparr>rd_step := Some step, rd_doc := buffer\<rparr>) =
    rd\<lparr>rd_step := None, rd_doc := buffer,
       rd_scenario := map_option (\<lambda>sc. sc\<lparr>so_steps := so_steps sc @ [step]\<rparr>) (rd_scenario rd)\<rparr>"
  by (simp add: flush_step_def)

lemma view_step:
  assumes "step_written w" "view rd = (name, scs, Some sc, False)"
  shows "view (fold read_line (step_lines w) rd) = (name, scs, Some (sc\<lparr>so_steps := so_steps sc @ [step_of w]\<rparr>), False)"
proof -
  from assms(2) have rd: "\<not> rd_in_doc rd" "rd_name rd = name" "rd_scenarios rd = scs" "rd_scenario (flush_step rd) = Some sc"
    by (simp_all add: view_def)
  with read_step_lines [OF assms(1) rd(1)] show ?thesis
    by (auto simp: view_def flush_step_pending)
qed

lemma view_steps:
  assumes "list_all step_written ws" "view rd = (name, scs, Some sc, False)"
  shows "view (fold read_line (concat (map step_lines ws)) rd)
    = (name, scs, Some (sc\<lparr>so_steps := so_steps sc @ map step_of ws\<rparr>), False)"
  using assms
proof (induction ws arbitrary: rd sc)
  case (Cons w ws)
  then show ?case using view_step [of w rd name scs sc] by simp
qed simp

definition scenario_of :: "str \<times> written_step list \<Rightarrow> scenario" where
  "scenario_of = (\<lambda>(name, ws). \<lparr>so_name = name, so_steps = map step_of ws\<rparr>)"

definition scenario_written :: "str \<times> written_step list \<Rightarrow> bool" where
  "scenario_written = (\<lambda>(name, ws). trimmed name \<and> list_all step_written ws)"

definition closed_scenarios :: "reader \<Rightarrow> scenario list" where
  "closed_scenarios rd = rd_scenarios (flush_scenario (flush_step rd))"

lemma flush_step_flushed: "rd_step rd = None \<Longrightarrow> flush_step rd = rd"
  by (simp add: flush_step_def)

lemma closed_view:
  "view rd = (name, scs, current, False) \<Longrightarrow>
    closed_scenarios rd = scs @ (case current of None \<Rightarrow> [] | Some sc \<Rightarrow> [sc])"
  by (auto simp: view_def closed_scenarios_def flush_scenario_def split: option.split)

lemma view_scenario:
  assumes "scenario_written s" "\<not> rd_in_doc rd"
  shows "view (fold read_line (scenario_lines s) rd)
    = (rd_name rd, closed_scenarios rd, Some (scenario_of s), False)"
proof -
  obtain name ws where s: "s = (name, ws)" by (cases s)
  have named: "trimmed name" "list_all step_written ws" using assms(1) by (simp_all add: s scenario_written_def)
  let ?rd = "read_line (lit ''Scenario: '' @ name) rd"
  have "view ?rd = (rd_name rd, closed_scenarios rd, Some \<lparr>so_name = name, so_steps = []\<rparr>, False)"
    using assms(2) unfolding read_scenario_line [OF named(1) assms(2)]
    by (auto simp: view_def closed_scenarios_def flush_scenario_def flush_step_flushed split: option.split)
  from view_steps [OF named(2) this] show ?thesis
    by (simp add: s scenario_lines_def scenario_of_def)
qed

lemma view_scenarios:
  assumes "list_all scenario_written ss" "\<not> rd_in_doc rd"
  shows "\<not> rd_in_doc (fold read_line (concat (map scenario_lines ss)) rd)
    \<and> rd_name (fold read_line (concat (map scenario_lines ss)) rd) = rd_name rd
    \<and> closed_scenarios (fold read_line (concat (map scenario_lines ss)) rd) = closed_scenarios rd @ map scenario_of ss"
  using assms
proof (induction ss arbitrary: rd)
  case (Cons s ss)
  let ?rd = "fold read_line (scenario_lines s) rd"
  from Cons.prems have view: "view ?rd = (rd_name rd, closed_scenarios rd, Some (scenario_of s), False)"
    using view_scenario [of s rd] by simp
  then have "\<not> rd_in_doc ?rd" "rd_name ?rd = rd_name rd" by (simp_all add: view_def)
  with Cons.IH [of ?rd] Cons.prems closed_view [OF view] show ?case by simp
qed simp

lemma written_lines_no_lf:
  assumes "trimmed name" "list_all scenario_written ss"
  shows "list_all (\<lambda>l. 10 \<notin> set l) (feature_lines name ss)"
proof -
  have kws: "10 \<notin> set kw" if "kw \<in> set line_keywords" for kw
    using that by (auto simp: line_keywords_def lit_def)
  have step: "10 \<notin> set l" if "step_written w" "l \<in> set (step_lines w)" for w l
    using that kws [of "ws_keyword w"]
    by (auto simp: step_lines_def step_written_def trimmed_def doc_fence_def lit_def doc_line_ok_def list_all_iff
        split: option.splits)
  have "10 \<notin> set l" if "scenario_written s" "l \<in> set (scenario_lines s)" for s l
    using that step by (cases s) (auto simp: scenario_lines_def scenario_written_def trimmed_def lit_def list_all_iff)
  with assms show ?thesis
    by (auto simp: feature_lines_def list_all_iff trimmed_def lit_def)
qed

lemma fold_drop_cr: "fold read_line (map drop_cr ls) rd = fold read_line ls rd"
  by (induction ls arbitrary: rd) (simp_all add: read_line_drop_cr)

lemma feature_read_back:
  assumes "trimmed name" "list_all scenario_written ss"
  shows "parse_feature_str (doc_text (feature_lines name ss)) file
    = \<lparr>fe_name = name, fe_file = file, fe_scenarios = map scenario_of ss\<rparr>"
proof -
  let ?rd = "fold read_line (concat (map scenario_lines ss)) (reader_new\<lparr>rd_name := name\<rparr>)"
  have new: "\<not> rd_in_doc reader_new" "closed_scenarios (reader_new\<lparr>rd_name := name\<rparr>) = []"
    by (simp_all add: reader_new_def closed_scenarios_def flush_scenario_def flush_step_def)
  have "fold read_line (text_lines [] (doc_text (feature_lines name ss))) reader_new
      = fold read_line (feature_lines name ss) reader_new"
    by (simp add: text_lines_doc_text [OF written_lines_no_lf [OF assms]] fold_drop_cr)
  also have "\<dots> = ?rd"
    by (simp add: feature_lines_def read_feature_line [OF assms(1) new(1)])
  finally have run: "fold read_line (text_lines [] (doc_text (feature_lines name ss))) reader_new = ?rd" .
  have "rd_name (flush_scenario (flush_step ?rd)) = rd_name ?rd"
    by (simp add: flush_scenario_def split: option.split)
  with run view_scenarios [OF assms(2), of "reader_new\<lparr>rd_name := name\<rparr>"] new show ?thesis
    by (simp add: parse_feature_str_def Let_def closed_scenarios_def)
qed

section \<open>Verdicts\<close>

definition definition_step :: "str \<Rightarrow> gherkin_step" where
  "definition_step doc =
     \<lparr>gs_keyword = lit ''Given'', gs_text = lit ''a workflow with definition:'', gs_doc = Some doc\<rparr>"

definition execute_step :: gherkin_step where
  "execute_step = \<lparr>gs_keyword = lit ''When'', gs_text = lit ''the workflow is executed'', gs_doc = None\<rparr>"

definition output_step :: "str \<Rightarrow> gherkin_step" where
  "output_step doc =
     \<lparr>gs_keyword = lit ''Then'', gs_text = lit ''the workflow should complete with output:'', gs_doc = Some doc\<rparr>"

definition properties_step :: "str \<Rightarrow> gherkin_step" where
  "properties_step props =
     \<lparr>gs_keyword = lit ''Then'', gs_text = lit ''the workflow output should have properties '' @ props, gs_doc = None\<rparr>"

text \<open>The outcome of the definition of a scenario on a fresh runtime, if it is accepted.\<close>

definition scenario_outcome :: "test_kit \<Rightarrow> nat \<Rightarrow> host \<times> world \<Rightarrow> str \<Rightarrow> failure + (failure + json) option" where
  "scenario_outcome tk n start doc =
     (case tk_yaml tk doc of
        Inl e \<Rightarrow> Inr None
      | Inr v \<Rightarrow>
          (case tk_definition tk v of
             Inl e \<Rightarrow> Inr None
           | Inr d \<Rightarrow>
               if \<not> is_valid (validate (seen_workflow d)) then Inr None
               else
                 (case runtime_compile (h_platform (fst start)) (tk_serializer tk) d of
                    Inl (Failed e) \<Rightarrow> Inr None
                  | Inl f \<Rightarrow> Inl f
                  | Inr flow \<Rightarrow>
                      Inr (Some (fst (snd (runtime_execute
                        ((fst start)\<lparr>h_workflow := register flow (h_workflow (fst start))\<rparr>) n flow Null
                        ((snd start)\<lparr>w_task_order := []\<rparr>))))))))"

lemma trim_step_texts:
  "trim (lit ''a workflow with definition:'') = lit ''a workflow with definition:''"
  "trim (lit ''the workflow is executed'') = lit ''the workflow is executed''"
  "trim (lit ''the workflow should complete with output:'') = lit ''the workflow should complete with output:''"
  by (simp_all add: trim_def lit_def is_whitespace_def)

lemma definition_step_runs:
  "scenario_step tk n (definition_step doc) st = Inr (given_definition tk (Some doc) st)"
  by (simp add: scenario_step_def definition_step_def trim_step_texts)

lemma execute_step_runs: "scenario_step tk n execute_step st = execute_workflow tk n st"
  by (simp add: scenario_step_def execute_step_def trim_step_texts)

lemma output_step_runs:
  "scenario_step tk n (output_step doc) st =
    Inr (complain (check_complete tk (lit ''the workflow should complete with output:'') (Some doc) st) st)"
proof -
  have "starts_with (lit ''the workflow should complete with output:'') (lit ''the workflow should complete'')"
    by (simp add: starts_with_def lit_def)
  then show ?thesis by (simp add: scenario_step_def output_step_def trim_step_texts check_step_def Let_def)
qed

text \<open>What the first two steps leave behind.\<close>

lemma executed_state:
  assumes "run_steps (scenario_step tk n) [definition_step doc, execute_step] (scenario_start start) = Inr st"
  shows "(\<exists>out. scenario_outcome tk n start doc = Inr (Some (Inr out)) \<and> sx_failures st = [] \<and> sx_run st = Some (Inr out))
    \<or> (\<exists>e. scenario_outcome tk n start doc = Inr (Some (Inl (Failed e))) \<and> sx_failures st = [] \<and> sx_run st = Some (Inl e))
    \<or> (scenario_outcome tk n start doc = Inr None \<and> sx_failures st \<noteq> [])"
proof -
  obtain h w where start: "start = (h, w)" by (cases start)
  show ?thesis
  proof (cases "tk_yaml tk doc")
    case (Inl e)
    with assms show ?thesis
      by (auto simp: definition_step_runs execute_step_runs given_definition_def execute_workflow_def run_registered_def
          complain_def scenario_start_def start scenario_outcome_def Let_def case_prod_beta
          split: sum.splits failure.splits if_splits)
  next
    case (Inr v)
    with assms show ?thesis
      by (auto simp: definition_step_runs execute_step_runs given_definition_def execute_workflow_def run_registered_def
          complain_def scenario_start_def start scenario_outcome_def Let_def case_prod_beta
          split: sum.splits failure.splits if_splits)
  qed
qed

lemma run_scenario_three:
  assumes "tk_runtime tk (scenario_policy net) = Some start" "so_steps sc = [definition_step doc, execute_step, last_step]"
    and "run_scenario tk n f sc net = Inr r"
  obtains st u where "run_steps (scenario_step tk n) [definition_step doc, execute_step] (scenario_start start) = Inr st"
    "scenario_step tk n last_step st = Inr u" "rs_status r = Pass \<longleftrightarrow> sx_failures u = []"
proof -
  have "run_steps (scenario_step tk n) ([definition_step doc, execute_step] @ [last_step]) (scenario_start start)
      = bindR (run_steps (scenario_step tk n) [definition_step doc, execute_step] (scenario_start start))
          (run_steps (scenario_step tk n) [last_step])"
    by (rule run_steps_append)
  with assms that show thesis
    by (auto simp: run_scenario_def bindR_eq_Inr verdict_def)
qed

lemma output_scenario_passes:
  assumes "tk_runtime tk (scenario_policy net) = Some start"
    and "so_steps sc = [definition_step doc, execute_step, output_step expected]"
    and "run_scenario tk n f sc net = Inr r"
  shows "rs_status r = Pass \<longleftrightarrow> (\<exists>out. scenario_outcome tk n start doc = Inr (Some (Inr out))
    \<and> num_equal out (yaml_or_null tk (Some expected)))"
proof -
  have prefix: "starts_with (lit ''the workflow should complete with output:'')
      (lit ''the workflow should complete with output:'')" by (simp add: starts_with_def)
  from run_scenario_three [OF assms] obtain st u where
    st: "run_steps (scenario_step tk n) [definition_step doc, execute_step] (scenario_start start) = Inr st"
    and u: "scenario_step tk n (output_step expected) st = Inr u" "rs_status r = Pass \<longleftrightarrow> sx_failures u = []" .
  show ?thesis
    using executed_state [OF st] u prefix
    by (auto simp: output_step_runs complain_def check_complete_def mismatch_def output_matches_def split: if_splits)
qed

text \<open>Such a scenario is run to its end whenever its workflow completes.\<close>

lemma run_scenario_returns:
  assumes "tk_runtime tk (scenario_policy net) = Some start"
    and "so_steps sc = [definition_step doc, execute_step, output_step expected]"
    and "scenario_outcome tk n start doc = Inr (Some (Inr out))"
  shows "\<exists>r. run_scenario tk n f sc net = Inr r"
proof -
  obtain h w where start: "start = (h, w)" by (cases start)
  from assms show ?thesis
    by (auto simp: run_scenario_def bindR_def definition_step_runs execute_step_runs output_step_runs given_definition_def
        execute_workflow_def run_registered_def complain_def scenario_start_def start scenario_outcome_def Let_def
        case_prod_beta split: sum.splits failure.splits if_splits)
qed

text \<open>The assertions on the output are void where the workflow faulted.\<close>

lemma properties_scenario_after_fault:
  assumes "tk_runtime tk (scenario_policy net) = Some start"
    and "so_steps sc = [definition_step doc, execute_step, properties_step props]" "trimmed props" "props \<noteq> []"
    and "run_scenario tk n f sc net = Inr r"
    and "scenario_outcome tk n start doc = Inr (Some (Inl (Failed e)))"
  shows "rs_status r = Pass"
proof -
  let ?text = "lit ''the workflow output should have properties '' @ props"
  have "trimmed ?text"
    using assms(3,4) by (intro trimmed_prefix) (simp_all add: lit_def is_whitespace_def)
  then have trim_text: "trim ?text = ?text" by (rule trim_trimmed)
  have tests: "prefix_rest ?text ''the workflow output should have properties'' = Some (lit '' '' @ props)"
    "\<not> starts_with ?text (lit ''the workflow should complete'')"
    "\<not> starts_with ?text (lit ''the workflow should fault'')"
    "?text \<noteq> lit ''the workflow should cancel''" "?text \<noteq> lit ''a workflow with definition:''"
    "?text \<noteq> lit ''given the workflow input is:''" "?text \<noteq> lit ''the workflow is executed''"
    by (simp_all add: prefix_rest_def starts_with_def lit_def)
  from run_scenario_three [OF assms(1,2,5)] obtain st u where
    st: "run_steps (scenario_step tk n) [definition_step doc, execute_step] (scenario_start start) = Inr st"
    and u: "scenario_step tk n (properties_step props) st = Inr u" "rs_status r = Pass \<longleftrightarrow> sx_failures u = []" .
  from executed_state [OF st] assms(6) have "sx_failures st = []" "run_output st = None"
    by (auto simp: run_output_def)
  then show ?thesis
    using u by (auto simp: scenario_step_def properties_step_def trim_text tests check_step_def check_properties_def complain_def)
qed

end
