(* ===== verification/Definitions.thy ===== *)
theory Definitions
  imports Compile
begin

text \<open>
  Reading and writing of definitions (lib.rs of \<open>ows-runtime-dsl\<close>): the parsers of YAML and JSON, the
  types of the SDK and the file system are parameters; what is done between them is written out.
\<close>

record definition_library =
  dl_yaml :: "str \<Rightarrow> str + json"
  dl_json :: "str \<Rightarrow> str + json"
  dl_definition :: "json \<Rightarrow> str + sdk_workflow"
  dl_to_yaml :: "sdk_workflow \<Rightarrow> str + str"
  dl_to_json :: "sdk_workflow \<Rightarrow> str + str"
  dl_utf8 :: "u8 list \<Rightarrow> str + str"
  dl_read :: "str \<Rightarrow> str + u8 list"
  dl_extension :: "str \<Rightarrow> str option"

datatype definition_error = ParseError str | SchemaError str | SemanticError str | IoError str

fun is_parse :: "definition_error \<Rightarrow> bool" where
  "is_parse (ParseError m) = True"
| "is_parse _ = False"

fun is_schema :: "definition_error \<Rightarrow> bool" where
  "is_schema (SchemaError m) = True"
| "is_schema _ = False"

fun is_semantic :: "definition_error \<Rightarrow> bool" where
  "is_semantic (SemanticError m) = True"
| "is_semantic _ = False"

fun definition_error_text :: "definition_error \<Rightarrow> str" where
  "definition_error_text (ParseError m) = lit ''parse error: '' @ m"
| "definition_error_text (SchemaError m) = lit ''schema error: '' @ m"
| "definition_error_text (SemanticError m) = lit ''semantic error: '' @ m"
| "definition_error_text (IoError m) = lit ''io error: '' @ m"

definition parse_result :: "str + 'a \<Rightarrow> definition_error + 'a" where
  "parse_result r = (case r of Inl e \<Rightarrow> Inl (ParseError e) | Inr x \<Rightarrow> Inr x)"

definition normalize_definition :: "platform \<Rightarrow> json \<Rightarrow> json" where
  "normalize_definition pf v = normalize_scope pf v"

definition from_yaml :: "definition_library \<Rightarrow> platform \<Rightarrow> str \<Rightarrow> definition_error + sdk_workflow" where
  "from_yaml dl pf yaml =
     bindR (parse_result (dl_yaml dl yaml)) (\<lambda>v. parse_result (dl_definition dl (normalize_definition pf v)))"

definition from_json :: "definition_library \<Rightarrow> platform \<Rightarrow> str \<Rightarrow> definition_error + sdk_workflow" where
  "from_json dl pf json =
     bindR (parse_result (dl_json dl json)) (\<lambda>v. parse_result (dl_definition dl (normalize_definition pf v)))"

definition utf8_text :: "definition_library \<Rightarrow> u8 list \<Rightarrow> definition_error + str" where
  "utf8_text dl bytes =
     (case dl_utf8 dl bytes of Inl e \<Rightarrow> Inl (ParseError (lit ''invalid UTF-8: '' @ e)) | Inr t \<Rightarrow> Inr t)"

definition from_bytes :: "definition_library \<Rightarrow> platform \<Rightarrow> u8 list \<Rightarrow> definition_error + sdk_workflow" where
  "from_bytes dl pf bytes = bindR (utf8_text dl bytes) (from_yaml dl pf)"

definition from_file :: "definition_library \<Rightarrow> platform \<Rightarrow> str \<Rightarrow> definition_error + sdk_workflow" where
  "from_file dl pf path =
     bindR (case dl_read dl path of Inl e \<Rightarrow> Inl (IoError e) | Inr bytes \<Rightarrow> Inr bytes) (\<lambda>bytes.
     bindR (utf8_text dl bytes) (\<lambda>text.
     if dl_extension dl path = Some (lit ''json'') then from_json dl pf text else from_yaml dl pf text))"

definition to_yaml :: "definition_library \<Rightarrow> sdk_workflow \<Rightarrow> definition_error + str" where
  "to_yaml dl d = parse_result (dl_to_yaml dl d)"

definition to_json :: "definition_library \<Rightarrow> sdk_workflow \<Rightarrow> definition_error + str" where
  "to_json dl d = parse_result (dl_to_json dl d)"

text \<open>The conversion of the runtime crate (error.rs).\<close>

fun from_definition_error :: "definition_error \<Rightarrow> workflow_error" where
  "from_definition_error (ParseError m) = werr_new KParse (with_detail m (problem_standard SRuntime))"
| "from_definition_error (SchemaError m) = werr_new KSchema (with_detail m (problem_standard SRuntime))"
| "from_definition_error (SemanticError m) = werr_new KSemantic (with_detail m (problem_standard SRuntime))"
| "from_definition_error (IoError m) = werr_new KRuntime (with_detail m (problem_standard SRuntime))"

section \<open>Laws\<close>

lemma parse_result_Inr [simp]: "parse_result r = Inr x \<longleftrightarrow> r = Inr x"
  by (simp add: parse_result_def split: sum.split)

lemma parse_result_Inl: "parse_result r = Inl e \<Longrightarrow> is_parse e"
  by (auto simp: parse_result_def split: sum.splits)

text \<open>Whatever is wrong with a text, the error is a parse error; schema and semantic errors are never made.\<close>

lemma from_text_errors:
  "from_yaml dl pf text = Inl e \<Longrightarrow> is_parse e" "from_json dl pf text = Inl e \<Longrightarrow> is_parse e"
  by (auto simp: from_yaml_def from_json_def bindR_eq_Inl dest: parse_result_Inl)

lemma from_file_errors: "from_file dl pf path = Inl e \<Longrightarrow> is_parse e \<or> (\<exists>m. e = IoError m)"
  by (auto simp: from_file_def bindR_eq_Inl utf8_text_def split: sum.splits if_splits dest: from_text_errors)

end
