(* ===== verification/Cli.thy ===== *)
theory Cli
  imports Definitions Catalog Process Conformance
begin

text \<open>
  The command line (main.rs of \<open>ows-runtime-cli\<close>): what a command reads, in which order it checks, what
  it prints and how the process ends.  The parser of the arguments, the file system, the texts of
  errors and the runtime that a configuration builds are parameters.
\<close>

section \<open>A process\<close>

datatype line = Out str | Err str

text \<open>An exit status, a panic, or an execution that does not come back.\<close>

datatype ending = Exit nat | PanicEnd str | NoReturn

type_synonym 'a cli = "line list \<times> (ending + 'a)"

definition bindC :: "'a cli \<Rightarrow> ('a \<Rightarrow> 'b cli) \<Rightarrow> 'b cli" where
  "bindC m f = (case m of (ls, Inl e) \<Rightarrow> (ls, Inl e) | (ls, Inr x) \<Rightarrow> (case f x of (ms, r) \<Rightarrow> (ls @ ms, r)))"

definition okC :: "'a \<Rightarrow> 'a cli" where
  "okC x = ([], Inr x)"

definition sayC :: "line list \<Rightarrow> unit cli" where
  "sayC ls = (ls, Inr ())"

definition exit_with :: "line list \<Rightarrow> 'a cli" where
  "exit_with ls = (ls, Inl (Exit 1))"

definition expectC :: "string \<Rightarrow> 'e + 'a \<Rightarrow> 'a cli" where
  "expectC message r = (case r of Inr x \<Rightarrow> okC x | Inl e \<Rightarrow> ([], Inl (PanicEnd (lit message))))"

definition orexit :: "('e \<Rightarrow> str) \<Rightarrow> 'e + 'a \<Rightarrow> 'a cli" where
  "orexit message r = (case r of Inr x \<Rightarrow> okC x | Inl e \<Rightarrow> exit_with [Err (lit ''error: '' @ message e)])"

text \<open>The failures of an execution: an error is a value for the caller, a panic ends the process.\<close>

definition settle :: "failure + 'a \<Rightarrow> (workflow_error + 'a) cli" where
  "settle r =
     (case r of
        Inr x \<Rightarrow> okC (Inr x)
      | Inl (Failed e) \<Rightarrow> okC (Inl e)
      | Inl (Panicked m) \<Rightarrow> ([], Inl (PanicEnd m))
      | Inl f \<Rightarrow> ([], Inl NoReturn))"

section \<open>Configuration\<close>

record run_options =
  ro_file :: str
  ro_input :: "str option"
  ro_url :: "str option"
  ro_from :: "u64 option"
  ro_to :: "u64 option"
  ro_output :: "str option"
  ro_allow_network :: bool
  ro_allow_scripts :: bool
  ro_allow_containers :: bool
  ro_secrets :: "str list"
  ro_catalogs :: "str list"
  ro_catalog_files :: bool

text \<open>What the command hands to the builder; an absent part keeps the default of the builder.\<close>

record configuration =
  cf_policy :: runtime_policy
  cf_process :: "process_runner option"
  cf_secrets :: "(str \<rightharpoonup> str) option"
  cf_catalog :: "catalog_resolver option"

definition default_configuration :: configuration where
  "default_configuration = \<lparr>cf_policy = default_policy, cf_process = None, cf_secrets = None, cf_catalog = None\<rparr>"

record cli_env =
  ci_definitions :: definition_library
  ci_platform :: platform
  ci_serializer :: serializer
  ci_catalogs :: catalog_library
  ci_http :: http_library
  ci_read_text :: "str \<Rightarrow> str + str"
  ci_write :: "str \<Rightarrow> str \<Rightarrow> str option"
  ci_stdin :: "str + str"
  ci_result_yaml :: "json \<Rightarrow> str + str"
  ci_schema_text :: "sdk_workflow \<Rightarrow> str option"
  ci_issue :: "validation_issue \<Rightarrow> str"
  ci_pretty :: "json \<Rightarrow> str"
  ci_problem :: "problem_details \<Rightarrow> str"
  ci_error :: "workflow_error \<Rightarrow> str"
  ci_host :: "configuration \<Rightarrow> host"
  ci_world :: world

fun split_at :: "nat \<Rightarrow> str \<Rightarrow> (str \<times> str) option" where
  "split_at d [] = None"
| "split_at d (c # cs) = (if c = d then Some ([], cs) else map_option (\<lambda>(l, r). (c # l, r)) (split_at d cs))"

definition load_definition :: "cli_env \<Rightarrow> str \<Rightarrow> sdk_workflow cli" where
  "load_definition env file = orexit definition_error_text (from_file (ci_definitions env) (ci_platform env) file)"

definition require_valid :: "cli_env \<Rightarrow> sdk_workflow \<Rightarrow> unit cli" where
  "require_valid env d =
     (let report = validate (seen_workflow d) in
      if is_valid report then okC ()
      else exit_with (map (\<lambda>i. Err (lit ''validation issue: '' @ ci_issue env i)) report))"

section \<open>Validate and compile\<close>

definition validate_command :: "cli_env \<Rightarrow> str \<Rightarrow> unit cli" where
  "validate_command env file =
     bindC (load_definition env file) (\<lambda>d.
     let report = validate (seen_workflow d) in
     if is_valid report then sayC [Out (lit ''valid'')]
     else exit_with (map (\<lambda>i. Out (ci_issue env i)) report))"

definition summary_timeout :: "compiled_workflow \<Rightarrow> json cli" where
  "summary_timeout flow =
     (case cw_timeout flow of
        None \<Rightarrow> okC Null
      | Some d \<Rightarrow>
          if duration_as_millis d < 2 ^ 64 then okC (json_of_nat (duration_as_millis d))
          else ([], Inl (PanicEnd (lit ''number out of range''))))"

definition summary :: "compiled_workflow \<Rightarrow> json \<Rightarrow> json" where
  "summary flow timeout =
     Object (map_extend
       [(lit ''workflow'', Object (map_extend
           [(lit ''namespace'', String (wi_namespace (cw_id flow))), (lit ''name'', String (wi_name (cw_id flow))),
            (lit ''version'', String (wi_version (cw_id flow)))] [])),
        (lit ''tasks'', json_of_nat (length (cw_tasks flow))),
        (lit ''task_types'', Array (map (\<lambda>t. String (task_type_name t)) (cw_tasks flow))),
        (lit ''timeout_ms'', timeout),
        (lit ''schedule'', Bool (cw_schedule flow \<noteq> None))] [])"

definition compile_command :: "cli_env \<Rightarrow> str \<Rightarrow> unit cli" where
  "compile_command env file =
     bindC (load_definition env file) (\<lambda>d.
     bindC (require_valid env d) (\<lambda>_.
     bindC (settle (runtime_compile (ci_platform env) (ci_serializer env) d)) (\<lambda>compiled.
     bindC (orexit (ci_error env) compiled) (\<lambda>flow.
     bindC (summary_timeout flow) (\<lambda>timeout.
     sayC [Out (ci_pretty env (summary flow timeout))])))))"

section \<open>Run\<close>

definition process_of :: "run_options \<Rightarrow> process_runner option" where
  "process_of ro =
     (if ro_allow_scripts ro \<or> ro_allow_containers ro
      then let runner = (if ro_allow_scripts ro then runner_allow_scripts runner_new else runner_new)
           in Some (if ro_allow_containers ro then runner_allow_containers runner else runner)
      else None)"

fun read_secrets :: "str list \<Rightarrow> (str \<rightharpoonup> str) \<Rightarrow> (str \<rightharpoonup> str) cli" where
  "read_secrets [] m = okC m"
| "read_secrets (spec # specs) m =
     (case split_at 61 spec of
        Some (name, secret) \<Rightarrow> read_secrets specs (m(name \<mapsto> secret))
      | None \<Rightarrow> exit_with [Err (lit ''error: --secret must be NAME=VALUE, got `'' @ spec @ lit ''`'')])"

fun read_catalogs ::
  "cli_env \<Rightarrow> str list \<Rightarrow> (str \<rightharpoonup> sdk_components) \<Rightarrow> (str \<rightharpoonup> sdk_components) cli" where
  "read_catalogs env [] m = okC m"
| "read_catalogs env (spec # specs) m =
     (case split_at 61 spec of
        None \<Rightarrow> exit_with [Err (lit ''error: --catalog must be ENDPOINT=PATH, got `'' @ spec @ lit ''`'')]
      | Some (endpoint, path) \<Rightarrow>
          bindC (orexit (\<lambda>e. lit ''read catalog `'' @ path @ lit ''`: '' @ e) (ci_read_text env path)) (\<lambda>text.
          bindC (orexit (\<lambda>e. lit ''parse catalog `'' @ path @ lit ''`: '' @ ci_error env e)
              (parse_catalog_document (ci_catalogs env) text)) (\<lambda>components.
          read_catalogs env specs (m(endpoint \<mapsto> components)))))"

definition catalog_of :: "cli_env \<Rightarrow> run_options \<Rightarrow> catalog_resolver option cli" where
  "catalog_of env ro =
     (if ro_catalog_files ro \<and> ro_catalogs ro = [] then okC (Some FileCatalog)
      else if ro_catalogs ro \<noteq> []
      then bindC (read_catalogs env (ro_catalogs ro) Map.empty) (\<lambda>m. okC (Some (StaticCatalog m)))
      else okC None)"

definition configure :: "cli_env \<Rightarrow> run_options \<Rightarrow> configuration cli" where
  "configure env ro =
     bindC (read_secrets (ro_secrets ro) Map.empty) (\<lambda>secrets.
     bindC (catalog_of env ro) (\<lambda>catalog.
     okC \<lparr>cf_policy = default_policy\<lparr>allow_network := ro_allow_network ro\<rparr>, cf_process = process_of ro,
          cf_secrets = (if secrets = Map.empty then None else Some secrets), cf_catalog = catalog\<rparr>))"

definition register_expected ::
  "cli_env \<Rightarrow> configuration \<Rightarrow> sdk_workflow \<Rightarrow> (host \<times> compiled_workflow) cli" where
  "register_expected env cf d =
     (let h = ci_host env cf in
      case resolve_definition (ci_http env) (ci_catalogs env) h (cf_catalog cf) d of
        None \<Rightarrow> ([], Inl NoReturn)
      | Some resolved \<Rightarrow>
          bindC (settle (bindR resolved (runtime_compile (h_platform h) (ci_serializer env)))) (\<lambda>compiled.
          bindC (expectC ''compile'' compiled) (\<lambda>flow.
          okC (h\<lparr>h_workflow := register flow (h_workflow h)\<rparr>, flow))))"

definition cli_input :: "run_options \<Rightarrow> json option" where
  "cli_input ro =
     map_option (\<lambda>url. Object (insert_opt (lit ''chapter_to'') (map_option (\<lambda>n. Number (PosInt n)) (ro_to ro))
       (insert_opt (lit ''chapter_from'') (map_option (\<lambda>n. Number (PosInt n)) (ro_from ro))
       (map_insert (lit ''novel_url'') (String url) [])))) (ro_url ro)"

definition prompt_for_input :: "cli_env \<Rightarrow> sdk_workflow \<Rightarrow> json cli" where
  "prompt_for_input env d =
     bindC (sayC ([Err (lit ''This workflow declares input.'')]
       @ (case ci_schema_text env d of Some t \<Rightarrow> [Err (lit ''Input schema:'' @ [10] @ t)] | None \<Rightarrow> [])
       @ [Err (lit ''Enter workflow input as JSON or YAML, then press Ctrl-D:'')])) (\<lambda>_.
     bindC (orexit (\<lambda>e. lit ''read workflow input: '' @ e) (ci_stdin env)) (\<lambda>text.
     if trim text = [] then exit_with [Err (lit ''error: workflow input cannot be empty'')]
     else orexit (\<lambda>e. lit ''parse workflow input as JSON/YAML: '' @ e) (dl_yaml (ci_definitions env) text)))"

definition choose_input :: "cli_env \<Rightarrow> run_options \<Rightarrow> sdk_workflow \<Rightarrow> json cli" where
  "choose_input env ro d =
     (case (ro_input ro, cli_input ro) of
        (Some path, Some v) \<Rightarrow>
          exit_with [Err (lit ''error: --input cannot be combined with --url, --from, or --to'')]
      | (Some path, None) \<Rightarrow>
          bindC (expectC ''read input'' (ci_read_text env path)) (\<lambda>text.
          expectC ''parse input as YAML'' (dl_yaml (ci_definitions env) text))
      | (None, Some v) \<Rightarrow> okC v
      | (None, None) \<Rightarrow> if skw_input d \<noteq> None then prompt_for_input env d else okC Null)"

definition report_result :: "cli_env \<Rightarrow> run_options \<Rightarrow> workflow_error + json \<Rightarrow> unit cli" where
  "report_result env ro result =
     (case result of
        Inl e \<Rightarrow> exit_with [Err (lit ''workflow faulted: '' @ ci_problem env (we_problem e))]
      | Inr v \<Rightarrow>
          bindC (orexit (\<lambda>e. lit ''serialize workflow output: '' @ e) (ci_result_yaml env v)) (\<lambda>text.
          case ro_output ro of
            None \<Rightarrow> sayC [Out text]
          | Some path \<Rightarrow>
              (case ci_write env path text of
                 Some e \<Rightarrow> exit_with [Err (lit ''error: write workflow output `'' @ path @ lit ''`: '' @ e)]
               | None \<Rightarrow> sayC [Err (lit ''workflow output written to '' @ path)])))"

text \<open>\<open>n\<close> bounds the nested steps of the execution.\<close>

definition run_command_line :: "cli_env \<Rightarrow> nat \<Rightarrow> run_options \<Rightarrow> unit cli" where
  "run_command_line env n ro =
     bindC (load_definition env (ro_file ro)) (\<lambda>d.
     bindC (require_valid env d) (\<lambda>_.
     bindC (configure env ro) (\<lambda>cf.
     bindC (register_expected env cf d) (\<lambda>(h, flow).
     bindC (if (ro_from ro \<noteq> None \<or> ro_to ro \<noteq> None) \<and> ro_url ro = None
            then exit_with [Err (lit ''error: --from and --to require --url'')] else okC ()) (\<lambda>_.
     bindC (choose_input env ro d) (\<lambda>input.
     bindC (settle (fst (snd (runtime_execute h n flow input (ci_world env))))) (\<lambda>result.
     report_result env ro result)))))))"

section \<open>Conformance\<close>

definition status_word :: "scenario_status \<Rightarrow> str" where
  "status_word st = (case st of Pass \<Rightarrow> lit ''PASS'' | Fail \<Rightarrow> lit ''FAIL'' | Skip \<Rightarrow> lit ''SKIP'')"

definition print_human :: "conformance_report \<Rightarrow> line list" where
  "print_human rep =
     [Out (lit ''OWS Conformance Report''), Out (lit ''======================'')]
     @ map (\<lambda>r. Out (status_word (rs_status r) @ lit ''  '' @ rs_feature r @ lit ''.'' @ rs_name r)) (cr_scenarios rep)
     @ [Out (lit ''----------------------''),
        Out (lit ''Total: '' @ nat_str (report_total rep) @ lit ''  Pass: '' @ nat_str (cr_passes rep)
          @ lit ''  Fail: '' @ nat_str (cr_failures rep) @ lit ''  Skip: '' @ nat_str (cr_skips rep))]"

definition conformance_command ::
  "test_kit \<Rightarrow> (str \<Rightarrow> str + str) \<Rightarrow> (conformance_report \<Rightarrow> str option) option \<Rightarrow> nat \<Rightarrow> str list \<Rightarrow> bool \<Rightarrow> unit cli" where
  "conformance_command tk read_file write_report n paths include_network =
     bindC (settle (run_ctk_with tk read_file n paths include_network)) (\<lambda>result.
     case result of
       Inl e \<Rightarrow> ([], Inl NoReturn)
     | Inr rep \<Rightarrow>
         bindC (case write_report of
                  None \<Rightarrow> okC ()
                | Some write \<Rightarrow> expectC ''write report'' (case write rep of Some e \<Rightarrow> Inl e | None \<Rightarrow> Inr ())) (\<lambda>_.
         if has_failures rep then exit_with (print_human rep) else sayC (print_human rep)))"

section \<open>Laws\<close>

definition exit_code :: "'a cli \<Rightarrow> nat option" where
  "exit_code m = (case snd m of Inr x \<Rightarrow> Some 0 | Inl (Exit k) \<Rightarrow> Some k | Inl (PanicEnd t) \<Rightarrow> Some 101 | Inl NoReturn \<Rightarrow> None)"

named_theorems cli_simps \<open>evaluation rules of commands\<close>

lemma bindC_okC [cli_simps]: "bindC (okC x) f = f x"
  by (simp add: bindC_def okC_def)

lemma bindC_exit [cli_simps]: "bindC (exit_with ls) f = exit_with ls"
  by (simp add: bindC_def exit_with_def)

lemma bindC_say [cli_simps]: "bindC (sayC ls) f = (ls @ fst (f ()), snd (f ()))"
  by (simp add: bindC_def sayC_def split: prod.split)

lemma bindC_stop [cli_simps]: "bindC (ls, Inl e) f = (ls, Inl e)"
  by (simp add: bindC_def)

lemma orexit_simps [cli_simps]:
  "orexit f (Inr x) = okC x" "orexit f (Inl e) = exit_with [Err (lit ''error: '' @ f e)]"
  by (simp_all add: orexit_def)

lemma expectC_simps [cli_simps]: "expectC m (Inr x) = okC x" "expectC m (Inl e) = ([], Inl (PanicEnd (lit m)))"
  by (simp_all add: expectC_def)

lemma settle_simps [cli_simps]:
  "settle (Inr x) = okC (Inr x)" "settle (Inl (Failed e)) = okC (Inl e)"
  "settle (Inl (Panicked m)) = ([], Inl (PanicEnd m))"
  by (simp_all add: settle_def)

lemma exit_code_simps [simp]:
  "exit_code (okC x) = Some 0" "exit_code (sayC ls) = Some 0" "exit_code (exit_with ls) = Some 1"
  "exit_code (ls, Inl (PanicEnd m)) = Some 101"
  by (simp_all add: exit_code_def okC_def sayC_def exit_with_def)

lemma validate_exit:
  "exit_code (validate_command env file) = Some
    (case from_file (ci_definitions env) (ci_platform env) file of
       Inl e \<Rightarrow> 1
     | Inr d \<Rightarrow> if is_valid (validate (seen_workflow d)) then 0 else 1)"
  by (simp add: validate_command_def load_definition_def cli_simps Let_def split: sum.split)

text \<open>Where the workflow is refused by the compiler, \<open>compile\<close> reports an error and \<open>run\<close> panics.\<close>

lemma load_valid [cli_simps]:
  "from_file (ci_definitions env) (ci_platform env) file = Inr d \<Longrightarrow> load_definition env file = okC d"
  "is_valid (validate (seen_workflow d)) \<Longrightarrow> require_valid env d = okC ()"
  by (simp_all add: load_definition_def require_valid_def cli_simps)

lemma compile_refused:
  assumes "from_file (ci_definitions env) (ci_platform env) file = Inr d" "is_valid (validate (seen_workflow d))"
    and "runtime_compile (ci_platform env) (ci_serializer env) d = Inl (Failed e)"
  shows "compile_command env file = exit_with [Err (lit ''error: '' @ ci_error env e)]"
  using assms by (simp add: compile_command_def cli_simps)

lemma run_refused:
  assumes "from_file (ci_definitions env) (ci_platform env) (ro_file ro) = Inr d" "is_valid (validate (seen_workflow d))"
    and "configure env ro = okC cf" "h_platform (ci_host env cf) = ci_platform env" "skw_use d = None"
    and "runtime_compile (ci_platform env) (ci_serializer env) d = Inl (Failed e)"
  shows "run_command_line env n ro = ([], Inl (PanicEnd (lit ''compile'')))"
  using assms by (simp add: run_command_line_def register_expected_def resolve_definition_def cli_simps)

text \<open>Nothing beyond the flags is granted.\<close>

lemma bindC_Inr: "bindC m f = (ls, Inr y) \<longleftrightarrow> (\<exists>l1 x l2. m = (l1, Inr x) \<and> f x = (l2, Inr y) \<and> ls = l1 @ l2)"
  by (cases m; cases "snd m") (auto simp: bindC_def split: prod.splits)

lemma configure_grants:
  assumes "configure env ro = (ls, Inr cf)"
  shows "cf_policy cf = default_policy\<lparr>allow_network := ro_allow_network ro\<rparr>"
    and "(\<exists>r. cf_process cf = Some r \<and> pn_allow_scripts r) \<longleftrightarrow> ro_allow_scripts ro"
    and "(\<exists>r. cf_process cf = Some r \<and> pn_allow_containers r) \<longleftrightarrow> ro_allow_containers ro"
proof -
  from assms have "cf_policy cf = default_policy\<lparr>allow_network := ro_allow_network ro\<rparr> \<and> cf_process cf = process_of ro"
    by (auto simp: configure_def bindC_Inr okC_def)
  then show "cf_policy cf = default_policy\<lparr>allow_network := ro_allow_network ro\<rparr>"
    and "(\<exists>r. cf_process cf = Some r \<and> pn_allow_scripts r) \<longleftrightarrow> ro_allow_scripts ro"
    and "(\<exists>r. cf_process cf = Some r \<and> pn_allow_containers r) \<longleftrightarrow> ro_allow_containers ro"
    by (auto simp: process_of_def runner_new_def runner_allow_scripts_def runner_allow_containers_def Let_def split: if_splits)
qed

end
