(* ===== verification/Spec2Isabelle.thy ===== *)
theory Spec2Isabelle
  imports ExprEngine Events DslLaws EngineSteps EngineEnds EngineRuns EngineJumps EngineRecords Durations TaskLaws
    CompileLaws ScheduleSet ServiceLaws Catalog Stores TelemetryLaws Providers ConformanceLaws Cli
begin

text \<open>
  A model of the Rust workspace \<open>ows-runtime-rust\<close>, a runtime for Open Workflow Specification (OWS)
  definitions, and of what makes it correct.  Paths are relative to \<open>src/crates\<close>.

  The program.  A definition is parsed and validated (\<open>ows-runtime-dsl\<close>), compiled to the data of
  \<open>ows-runtime/src/ir.rs\<close>, and run by the engine (\<open>engine.rs\<close>, \<open>tasks.rs\<close>) over the services of
  \<open>runtime.rs\<close>: the expression engine (\<open>ows-runtime-expressions\<close>, a jq-like language), the clock, the
  store and the errors of \<open>ows-runtime-core\<close>, and the events of \<open>ows-runtime-events\<close>.  Around it
  stand durable stores (\<open>ows-runtime-stores\<close>), the export of telemetry
  (\<open>ows-runtime-observability-otel\<close>), the command line with its conformance runner
  (\<open>ows-runtime-cli\<close>) and fakes for tests (\<open>ows-runtime-testing\<close>).

  Theories, in the order of their imports:
    \<^item> Prelude: strings as lists of code points, results as sums with \<open>bindR\<close> and \<open>mapR\<close>, maps sorted
      by key (\<open>serde_json::Map\<close>), the interface of such maps as a locale.
    \<^item> Float64, Json: IEEE doubles with exact rounding; \<open>serde_json::Value\<close> and its numbers.
    \<^item> Core: \<open>ows-runtime-core\<close>: problem details and errors, phases, durations and the deterministic
      clock, policy, secrets, the expression context, the in-memory store (a locale for the
      contract of \<open>ExecutionStore\<close>, interpreted on it).
    \<^item> ExprSyntax, ExprLexer, ExprParser, ExprEval, ExprLaws, ExprOps, ExprEngine:
      \<open>ows-runtime-expressions\<close>: tokens, every production of the parser, the evaluator with its
      built-in functions, interpolation, and the engine behind the trait of the core.
    \<^item> Events: CloudEvents, event filters and the in-memory broker of \<open>ows-runtime-events\<close>.
    \<^item> Dsl, DslLaws: \<open>validate.rs\<close> and the normalisation of \<open>lib.rs\<close> in \<open>ows-runtime-dsl\<close>.
    \<^item> Ir, Durations: the compiled workflow and its durations (\<open>ir.rs\<close>).
    \<^item> Exec: the services, the state of an execution (\<open>ExecContext\<close>) and computations over it.
    \<^item> Tasks, TaskIO, TaskLaws: \<open>tasks.rs\<close>, one group of definitions per kind of task, and what the
      composite tasks compute.
    \<^item> Engine: \<open>engine.rs\<close> and the lifecycle events of \<open>ows-runtime-observability\<close>.
    \<^item> EngineSteps, EngineLogs, EngineEnds, EngineRuns, EngineJumps, EngineRecords: properties of whole
      executions; what the services promise is a locale in EngineEnds, what they keep one in
      EngineLogs.
    \<^item> Runtime: \<open>runtime.rs\<close>: the checks before compilation, handles, resumption.
    \<^item> Compile, CompileLaws: \<open>compile.rs\<close>: the lowering of definitions to compiled workflows, and
      what the validator's verdict means for the compiled scopes.
    \<^item> Schedule: the loops of \<open>schedule.rs\<close> and the crate \<open>ows-runtime-scheduler\<close>.
    \<^item> ScheduleSet: the set of these loops as a state machine: each loop is a task, they take turns
      in any order from one await to the next, and a cancellation notifies those that wait.
    \<^item> Service, ServiceLaws: the call functions of \<open>service.rs\<close> (HTTP, OpenAPI, MCP, A2A, AsyncAPI,
      gRPC gateway) over a client that is a parameter, and what they may send.
    \<^item> Catalog: \<open>catalog.rs\<close> and the imports of \<open>Runtime::resolve_definition\<close>.
    \<^item> Process: \<open>process.rs\<close>: the commands made of shell, script and container processes.
    \<^item> Grpc: the native gRPC transport of \<open>grpc.rs\<close>: descriptors, the resolution of methods, the
      checks and the call, over a compiler of proto files and a channel that are parameters.
    \<^item> Wiring, Builder: \<open>RuntimeBuilder\<close> of \<open>runtime.rs\<close>: its choices and defaults, the call
      functions as the functions of the engine's host, \<open>Runtime::run\<close>; executions that cannot
      succeed where the network is off.
    \<^item> Stores: the crate \<open>ows-runtime-stores\<close>: operations on tables (SQLite, PostgreSQL) and keys
      (Redis); a locale states the contract of a durable store and is interpreted on both.
    \<^item> Telemetry, TelemetryLaws: the emitters of \<open>ows-runtime-observability\<close> that the engine does
      not call, and the crate \<open>ows-runtime-observability-otel\<close>: logs, spans and metrics as JSON over
      HTTP and as messages over gRPC.
    \<^item> Definitions: reading and writing of definitions (\<open>lib.rs\<close> of \<open>ows-runtime-dsl\<close>).
    \<^item> Conformance, ConformanceLaws: \<open>conformance.rs\<close> of \<open>ows-runtime-cli\<close>: feature files, the steps
      of a scenario run on the model of the runtime, the report.
    \<^item> Cli: \<open>main.rs\<close>: the four commands with their checks, messages and exit statuses.
    \<^item> Testing: the fakes of \<open>ows-runtime-testing\<close> and the runtimes built from them.
    \<^item> Providers: \<open>uuid.rs\<close>, \<open>clock.rs\<close>, \<open>secret.rs\<close> and \<open>error.rs\<close> of \<open>ows-runtime-core\<close>: random
      generators and the stream of their draws that the engine reads, both clocks, the constructors
      of the secret resolvers, how errors are displayed.

  How code becomes definitions.  A function of the code is a function of the same name.  A
  \<open>Result\<close> is a sum with the error on the left; a panic is an error of its own kind.  Integers keep
  their width (\<open>64 word\<close>), indices and lengths are naturals.  A computation of the engine takes the
  state of the execution to a failure or a value and a new state; awaiting is sequencing.  What
  differs between hosts is a parameter: \<open>platform\<close> (overflow checks, Unicode tables, the texts that
  the float printer and \<open>serde_json\<close> produce) and \<open>host\<close> (policy, secrets, invokers, processes,
  publisher, subscriptions, the registry, identifiers, random numbers, timestamps, the order in
  which the branches of a fork complete).  The host may answer every call anew, also with an
  error, with the elapsing of an enclosing time limit, with the cancellation of the handle, or
  never.

  Bounds.  The grammar runs at a number of levels that the length of the source determines and
  that is proved never to run out (\<open>parse_total\<close>).  The functions \<open>exec_scope\<close>, \<open>exec_task\<close> and
  \<open>execute_with\<close> call each other without a bound, because directives may jump backwards;
  \<open>engine_at h n\<close> runs them to \<open>n\<close> nested steps.  More steps never change an outcome
  (\<open>engine_result_stable\<close>), a number that the definition determines is enough where directives lead
  forward (\<open>bounded_workflows_return\<close>, for services that come to an end), and where they do not, no
  number need be (\<open>self_loop_ends_by_cancellation\<close>, \<open>jumping_scope_no_result\<close>).  The import of catalogs is a partial function that is proved to
  end where finitely many catalogs refer to each other (\<open>imports_end\<close>).  A schedule run alone is
  run along the ends of its waits, which are given; a set of schedules is a step relation.

  Properties, by the section they stand in.  The expression language: totality of the parser,
  well-formed values, arithmetic at and beyond its bounds, comparison, indexing, construction of
  objects.  The core crate, events and validation: the variable map, the store, subscriptions,
  validation against declarative rules, normalisation.  Executions: the bound, termination,
  scopes that jump within themselves, cancellation, logs that only grow, the record that an execution leaves, checkpoints, handles.
  Tasks: loops, retries, delays, durations, forks, listeners, guards, and the check of expressions.
  Compilation and schedules: jumps of an accepted workflow reach a task, references resolve,
  secrets are declared, what a schedule starts.  Sets of schedules: what a cancellation stops and
  what it misses, the order of executions in any interleaving, and that a loop alone is a run of
  the set.  Call functions and catalogs: what is sent is what
  the policy admits as the code reads it (an empty list of hosts or schemes admits everything, where
  its comments say nothing: \<open>empty_lists_admit_all\<close>), imports visit what can be reached and end.  Stores, telemetry, the built runtime, conformance: the durable stores
  answer as the in-memory one, the metrics count events, both transports export the same span, a
  runtime without network fails calls, features are read back as written, reports add up, what a
  verdict establishes.  Theorems without a number record single facts of the code.

  Not modelled.  Libraries and services outside the repository are parameters: the types of the
  workflow SDK (the fields that the code reads are written down as data), serialisation, the HTTP
  client, channels and protobuf, databases (their statements and commands act on tables and keys,
  and may be refused), collectors, the terminal and the file system.  The branches of a fork
  interleave in the code; here each runs as a whole, in the order of completion, and the losers of
  a competition do not run.  An execution that a schedule has started acts on the services as a
  whole, at its end.  The engine's clock is the deterministic one, on which a sleep returns at once, and its store the in-memory
  one, which the durable stores refine.  A hash map that is iterated is a list in the order of the
  visit.  A redirect that the HTTP client follows is part of its answer.  The pseudo-random
  generator and the making of identifiers belong to libraries and are inputs; the set-up of
  logging and the constructors that only store an address are left out.
\<close>

section \<open>Sample inputs\<close>

definition sample_platform :: platform where
  "sample_platform =
     \<lparr>overflow_checks = False, uc_alphabetic = \<lambda>c. False, uc_numeric = \<lambda>c. False,
      f64_text = \<lambda>x. lit ''1'', str_debug = id, json_text = \<lambda>v. lit ''v'',
      json_parse = \<lambda>s. Inl (lit ''no JSON'')\<rparr>"

definition num :: "int \<Rightarrow> json" where
  "num i = json_int (word_of_int i)"

section \<open>The expression language\<close>

text \<open>C10: The parser is total on source texts: it returns an expression whose literals are
  well-formed values, or a lex or parse error; the level given to the grammar never runs out.\<close>

theorem parse_total: "case parse pf src of Inl e \<Rightarrow> syntax_error e | Inr e \<Rightarrow> literals_ok e"
  by (auto split: sum.split intro: parse_failure parse_literals_ok)

text \<open>C11: Evaluation of an expression with well-formed literals on well-formed values yields
  well-formed values, or fails with an evaluation error or one of the documented panics: integer
  overflow in checked builds, remainder overflow, capacity overflow.  In particular the
  \<open>unreachable!\<close> of the operators is not reached.\<close>

theorem eval_well_formed:
  assumes "\<forall>s v. json_parse pf s = Inr v \<longrightarrow> json_ok v"
    and "vmap_ok env" "literals_ok e" "json_ok input"
  shows "stream_result pf (eval pf env e input)"
  by (rule eval_result(1) [OF assms(2,1,3,4)])

theorem eval_well_formed_witness:
  "stream_result sample_platform
     (eval sample_platform [(lit ''x'', num 2)]
        (EBinary BMod (EVariable (lit ''x'')) (ELiteral (num 0))) Null)"
  by (rule eval_well_formed)
     (simp_all add: sample_platform_def vmap_ok_def map_ok_Cons num_def)

text \<open>Addition, subtraction and multiplication of two integers are exact whenever the
  mathematical result fits \<open>i64\<close>.\<close>

theorem int_arithmetic_exact:
  assumes "int_op opr = Some g" "int_value l = Some x" "int_value r = Some y" "fits_i64 (g x y)"
  shows "\<exists>v. apply_binop pf opr l r = Inr v \<and> int_value v = Some (g x y)"
  by (rule int_arithmetic_exact_aux [OF assms])

theorem int_arithmetic_exact_witness:
  "\<exists>v. apply_binop sample_platform BMul (num 6) (num (- 7)) = Inr v \<and> int_value v = Some (6 * - 7)"
  by (rule int_arithmetic_exact)
     (simp_all add: num_def sint_word_of_int_fits fits_i64_def i64_min_def i64_max_def)

text \<open>C36: When the result does not fit, a build with overflow checks panics, and a build without
  returns a different integer, congruent to the result modulo \<open>2 ^ 64\<close>.\<close>

theorem int_arithmetic_overflow:
  assumes "int_op opr = Some g" "int_value l = Some x" "int_value r = Some y"
    and "\<not> fits_i64 (g x y)"
  shows "if overflow_checks pf
         then apply_binop pf opr l r = Inl (XPanic (overflow_panic (op_verb opr)))
         else \<exists>v z. apply_binop pf opr l r = Inr v \<and> int_value v = Some z
              \<and> z \<noteq> g x y \<and> (z - g x y) mod 2 ^ 64 = 0"
proof -
  have "sint (word_of_int (g x y) :: i64) \<noteq> g x y"
    using assms(4) by (metis fits_sint)
  with assms show ?thesis
    using sint_word_of_int_mod [of "g x y"]
    by (auto simp: apply_binop_int checked_def overflow_panic_def)
qed

theorem int_arithmetic_overflow_witness:
  "\<exists>v z. apply_binop sample_platform BAdd (num i64_max) (num 1) = Inr v \<and> int_value v = Some z
      \<and> z \<noteq> i64_max + 1 \<and> (z - (i64_max + 1)) mod 2 ^ 64 = 0"
proof -
  have "int_value (num i64_max) = Some i64_max" "int_value (num 1) = Some 1"
    by (simp_all add: num_def sint_word_of_int_fits fits_i64_def i64_min_def i64_max_def)
  moreover have "\<not> fits_i64 (i64_max + 1)" by (simp add: fits_i64_def)
  ultimately show ?thesis
    using int_arithmetic_overflow [of BAdd "(+)" "num i64_max" i64_max "num 1" 1 sample_platform]
    by (simp add: sample_platform_def)
qed

text \<open>The remainder of two integers is the truncated one: it is congruent to the dividend,
  smaller than the divisor and has the dividend's sign; \<open>i64::MIN % -1\<close> panics in every build and
  a zero divisor is an evaluation error.\<close>

theorem int_remainder:
  assumes "int_value l = Some x" "int_value r = Some y"
  shows "if y = 0 then \<exists>m. apply_binop pf BMod l r = Inl (XErr (Eval m))
         else if x = i64_min \<and> y = - 1 then \<exists>m. apply_binop pf BMod l r = Inl (XPanic m)
         else \<exists>v z. apply_binop pf BMod l r = Inr v \<and> int_value v = Some z
              \<and> y dvd (x - z) \<and> \<bar>z\<bar> < \<bar>y\<bar> \<and> (z \<noteq> 0 \<longrightarrow> (z < 0 \<longleftrightarrow> x < 0))"
proof -
  consider "y = 0" | "y \<noteq> 0" "x = i64_min \<and> y = - 1" | "y \<noteq> 0" "\<not> (x = i64_min \<and> y = - 1)"
    by blast
  then show ?thesis
  proof cases
    case 1
    have zero: "sint w = 0 \<Longrightarrow> w = 0" for w :: i64 by (metis signed_word_eqI sint_0)
    from 1 assms show ?thesis
      by (auto simp: apply_binop_def eval_error_def elim!: int_value_SomeE dest!: zero)
  next
    case 2
    with assms show ?thesis
      by (auto simp: apply_binop_def elim!: int_value_SomeE)
  next
    case 3
    from mod_json_int [OF assms 3, of pf] obtain v where
        "apply_binop pf BMod l r = Inr v" "int_value v = Some (rem_i64 x y)"
      by (auto simp: apply_binop_def)
    with rem_i64_props [OF 3(1), of x] 3 show ?thesis
      by (simp only: if_False) blast
  qed
qed

theorem int_remainder_witness:
  "\<exists>v z. apply_binop sample_platform BMod (num (- 7)) (num 2) = Inr v \<and> int_value v = Some z
      \<and> 2 dvd (- 7 - z) \<and> \<bar>z\<bar> < \<bar>2\<bar> \<and> (z \<noteq> 0 \<longrightarrow> (z < 0 \<longleftrightarrow> - 7 < (0 :: int)))"
proof -
  have "int_value (num (- 7)) = Some (- 7)" "int_value (num 2) = Some 2"
    by (simp_all add: num_def sint_word_of_int_fits fits_i64_def i64_min_def i64_max_def)
  from int_remainder [OF this, of sample_platform] show ?thesis
    by (simp only: i64_min_def) simp
qed

text \<open>C37: The order of the language is coherent: swapping the operands reverses the result, and two
  comparable values compare as equal exactly when \<open>==\<close> holds of them.\<close>

theorem comparison_coherent:
  assumes "json_ok l" "json_ok r" "cmp_json pf l r = Inr c"
  shows "cmp_json pf r l = Inr (flip_ordering c) \<and> (c = Equal \<longleftrightarrow> num_equal l r)"
  using cmp_flip(1) [OF assms(3)] cmp_equal_iff(1) [OF assms(3,1,2)] by blast

theorem comparison_coherent_witness:
  "cmp_json sample_platform (Array [Null]) (Array []) = Inr (flip_ordering Less)
   \<and> (Less = Equal \<longleftrightarrow> num_equal (Array []) (Array [Null]))"
  by (rule comparison_coherent) (simp_all add: nat_cmp_def)

text \<open>Numeric equality of values, which the evaluator and the \<open>catch\<close> and correlation filters of the
  engine use, is an equivalence on well-formed values.\<close>

theorem numeric_equality_equivalence:
  assumes "json_ok a" "json_ok b" "json_ok c"
  shows "num_equal a a \<and> (num_equal a b \<longleftrightarrow> num_equal b a)
    \<and> (num_equal a b \<and> num_equal b c \<longrightarrow> num_equal a c)"
  using assms num_equal_refl num_equal_sym num_equal_trans by blast

theorem numeric_equality_equivalence_witness:
  "num_equal (Array [num 1]) (Array [num 1])"
  using numeric_equality_equivalence [of "Array [num 1]" Null Null] by (simp add: num_def)

text \<open>Indexing an array with an integer below \<open>2 ^ 53\<close> in magnitude: from the front for
  non-negative indices, from the back for negative ones, \<open>null\<close> outside.\<close>

theorem array_index:
  assumes "\<bar>i\<bar> < 2 ^ 53"
  shows "index_access pf (Array xs) (num i) =
    Inr (if 0 \<le> i \<and> i < int (length xs) then xs ! nat i
         else if i < 0 \<and> - int (length xs) \<le> i then xs ! nat (int (length xs) + i)
         else Null)"
  using real_index_int [OF assms, of "length xs"]
  by (auto simp: num_def json_int_def)

theorem array_index_witness:
  "index_access sample_platform (Array [num 7, num 8]) (num (- 1)) = Inr (num 8)"
  using array_index [of "- 1" sample_platform "[num 7, num 8]"] by simp

text \<open>\<open>split\<close> followed by \<open>join\<close> with the same separator, empty or not, gives the string back.\<close>

theorem split_join_roundtrip:
  "\<exists>v. call_split pf [\<lambda>inp. Inr [String p]] (String s) = Inr [v]
       \<and> call_join pf [\<lambda>inp. Inr [String p]] v = Inr [String s]"
proof -
  have "map (to_string pf \<circ> String) xs = xs" for xs by (induction xs) simp_all
  then show ?thesis
    by (simp add: call_split_def call_join_def arg_str_def arg_first_def opt_str_def join_split)
qed

text \<open>C35: An object constructor yields one object per choice of one output for each entry (an empty
  output counts as one \<open>null\<close>), the outputs of the first entry varying slowest; the object of a
  choice is sorted by key and maps each evaluated key to the chosen output, the last one where a key
  occurs twice, and no other key to anything.\<close>

theorem object_construction:
  assumes "mapR (\<lambda>(key, e). bindR (eval_key pf env key input)
             (\<lambda>k. bindR (eval pf env e input) (\<lambda>vs. Inr (k, vs)))) entries = Inr kvs"
  shows "\<exists>ms. eval pf env (EObject entries) input = Inr (map Object ms)
    \<and> list_all2 (\<lambda>choice m. map_ok m \<and> (\<forall>k. map_of m k = map_of (rev (zip (map fst kvs) choice)) k))
        (product_lists (map (\<lambda>(k, vs). if vs = [] then [Null] else vs) kvs)) ms"
proof (intro exI conjI)
  show "eval pf env (EObject entries) input = Inr (map Object (fold extend_objects kvs [[]]))"
    using assms by simp
  have choices: "map (\<lambda>(k, vs). if vs = [] then [Null] else vs) kvs = map (entry_outputs \<circ> snd) kvs"
    by (auto simp: entry_outputs_def)
  show "list_all2 (\<lambda>choice m. map_ok m \<and> (\<forall>k. map_of m k = map_of (rev (zip (map fst kvs) choice)) k))
      (product_lists (map (\<lambda>(k, vs). if vs = [] then [Null] else vs) kvs)) (fold extend_objects kvs [[]])"
    unfolding choices by (rule objects_of_choices)
qed

theorem object_construction_witness:
  "\<exists>ms. eval sample_platform []
      (EObject [(OIdent (lit ''a''), EStream [ELiteral Null, EIdentity]), (OIdent (lit ''b''), ELiteral Null)])
      (Bool True) = Inr (map Object ms)
    \<and> list_all2 (\<lambda>choice m. map_ok m
          \<and> (\<forall>k. map_of m k = map_of (rev (zip [lit ''a'', lit ''b''] choice)) k))
        [[Null, Null], [Bool True, Null]] ms"
  using object_construction [of sample_platform "[]" "Bool True"
      "[(OIdent (lit ''a''), EStream [ELiteral Null, EIdentity]), (OIdent (lit ''b''), ELiteral Null)]"
      "[(lit ''a'', [Null, Bool True]), (lit ''b'', [Null])]"]
  by simp

text \<open>After a leading dot the chain of fields takes any identifier without a dot, operators
  included: \<open>.a and .b\<close> is read as the field chain \<open>.a.and.b\<close>.\<close>

theorem dot_chain_takes_keywords:
  "parse pf (lit ''.a and .b'') =
     Inr (EField (EField (EField EIdentity (lit ''a'')) (lit ''and'')) (lit ''b''))"
proof -
  have "tokenize pf (lit ''.a and .b'') =
      Inr [TDot, TIdent (lit ''a''), TIdent (lit ''and''), TDot, TIdent (lit ''b''), TEof]"
    by (simp add: lit_def lex_eval)
  then show ?thesis unfolding parse_def by (simp add: parse_eval)
qed

text \<open>A conditional with two \<open>elif\<close> branches is rejected: the second one is read as a call.\<close>

theorem second_elif_rejected:
  "\<exists>pos m. parse pf (lit ''if a then b elif c then d elif e then f end'') = Inl (XErr (Parse pos m))"
proof -
  have "tokenize pf (lit ''if a then b elif c then d elif e then f end'') =
      Inr (map TIdent [lit ''if'', lit ''a'', lit ''then'', lit ''b'', lit ''elif'', lit ''c'',
        lit ''then'', lit ''d'', lit ''elif'', lit ''e'', lit ''then'', lit ''f'', lit ''end'']
        @ [TEof])"
    by (simp add: lit_def lex_eval)
  then show ?thesis unfolding parse_def by (simp add: parse_eval parse_error_def)
qed

text \<open>The end of a \<open>${ ... }\<close> block is found by counting braces alone: the scan over string
  literals has no effect, and a brace inside a string closes the block.\<close>

theorem block_end_counts_braces:
  "find_block_close chars opn = brace_close 0 opn (drop opn chars)
   \<and> find_block_close (lit ''${ \"}\" }'') 1 = Some 4"
  by (simp add: find_block_close_def block_close_counts) (simp add: lit_def)

section \<open>The core crate\<close>

text \<open>The variable map of an expression is a well-formed map in which an extra (loop or error)
  variable hides every standard argument of the same name, and every standard argument not
  hidden has its context's value.\<close>

theorem variable_map_precedence:
  "map_ok (as_variable_map c)
   \<and> (\<forall>k. map_of (as_variable_map c) k =
       (case map_of (rev (ec_extra_vars c)) k of
          Some v \<Rightarrow> Some v
        | None \<Rightarrow>
            if k = lit ''runtime'' then ec_runtime c
            else if k = lit ''workflow'' then ec_workflow c
            else if k = lit ''task'' then ec_task c
            else if k = lit ''authorization'' then ec_authorization c
            else if k = lit ''secrets'' then Some (Object (secrets_object (ec_secrets c)))
            else if k = lit ''output'' then Some (ec_output c)
            else if k = lit ''input'' then Some (ec_input c)
            else if k = lit ''context'' then Some (ec_context c)
            else None))"
proof (intro conjI allI)
  show "map_ok (as_variable_map c)" by (rule map_ok_as_variable_map)
  fix k
  show "map_of (as_variable_map c) k =
       (case map_of (rev (ec_extra_vars c)) k of
          Some v \<Rightarrow> Some v
        | None \<Rightarrow>
            if k = lit ''runtime'' then ec_runtime c
            else if k = lit ''workflow'' then ec_workflow c
            else if k = lit ''task'' then ec_task c
            else if k = lit ''authorization'' then ec_authorization c
            else if k = lit ''secrets'' then Some (Object (secrets_object (ec_secrets c)))
            else if k = lit ''output'' then Some (ec_output c)
            else if k = lit ''input'' then Some (ec_input c)
            else if k = lit ''context'' then Some (ec_context c)
            else None)"
    by (cases "map_of (rev (ec_extra_vars c)) k")
       (simp_all add: as_variable_map_def map_of_map_extend split: option.splits)
qed

text \<open>The execution store: events of an execution are the appended ones in order, whatever
  happens to records in between, and a record is the last one written for its id.\<close>

theorem store_history:
  "store_events (fold store_append_event es s) i =
     store_events s i @ filter (\<lambda>e. sv_execution_id e = i) es
   \<and> store_load (fold store_update rs s) i =
     (case filter (\<lambda>r. er_execution_id r = i) rs of [] \<Rightarrow> store_load s i | _ \<Rightarrow>
        Some (last (filter (\<lambda>r. er_execution_id r = i) rs)))"
  by (intro conjI mem.events_append_all mem.load_updates)

section \<open>Events\<close>

text \<open>A CloudEvent survives the conversion to a message and back, except for its specification
  version, which becomes the runtime's; a message survives the conversion to a CloudEvent and back.\<close>

theorem cloud_event_roundtrip:
  assumes "map_ok (cev_extensions e)" "map_ok (em_extensions m)"
  shows "from_message (to_message e) = e\<lparr>cev_specversion := spec_version\<rparr>
    \<and> to_message (from_message m) = m"
  using from_to_message [OF assms(1)] to_from_message [OF assms(2)] by simp

theorem cloud_event_roundtrip_witness:
  "from_message (to_message (cloud_event_new (lit ''1'') (lit ''s'') (lit ''t''))) =
     (cloud_event_new (lit ''1'') (lit ''s'') (lit ''t''))\<lparr>cev_specversion := spec_version\<rparr>
   \<and> to_message (from_message (event_message_new [] [] [])) = event_message_new [] [] []"
  by (rule cloud_event_roundtrip) (simp_all add: cloud_event_new_def event_message_new_def)

text \<open>C16: A subscription of the in-memory broker receives exactly the matching events published
  after it, in publication order.\<close>

theorem subscription_receives:
  assumes "broker_subscribe f b = (i, b')"
  shows "broker_pending (fold broker_publish es b') i = filter f es"
  by (rule bus.subscription_sees [OF assms])

theorem subscription_receives_witness:
  "broker_pending (fold broker_publish [event_message_new [] [] (lit ''t'')]
     [\<lparr>sub_filter = \<lambda>m. em_type m = lit ''t'', sub_queue = []\<rparr>]) 0 =
   filter (\<lambda>m. em_type m = lit ''t'') [event_message_new [] [] (lit ''t'')]"
  by (rule subscription_receives [where b = "[]"]) (simp add: broker_subscribe_def)

text \<open>The attributes \<open>dataschema\<close>, \<open>datacontenttype\<close> and \<open>time\<close> of a filter are not compared with
  the event's own attributes: an event without extensions and data never satisfies a string
  constraint on them, even when its attribute is that very string.\<close>

theorem context_attributes_not_matched:
  assumes "key \<in> {lit ''dataschema'', lit ''datacontenttype'', lit ''time''}"
    and "(key, Equals (String s)) \<in> set (mt_attributes m)"
    and "cev_extensions e = []" "cev_data e = None"
  shows "\<not> event_matches m e"
proof -
  have "event_attribute e key = Null"
    using assms(1,3,4) by (auto simp: event_attribute_def or_null_def)
  then have "\<not> constraint_holds e (event_attribute e key) (Equals (String s))" by simp
  with assms(2) show ?thesis unfolding event_matches_def list_all_iff by blast
qed

theorem context_attributes_not_matched_witness:
  "\<not> event_matches (matcher_new\<lparr>mt_attributes := [(lit ''dataschema'', Equals (String (lit ''s'')))]\<rparr>)
       ((cloud_event_new [] [] [])\<lparr>cev_data_schema := Some (lit ''s'')\<rparr>)"
  by (rule context_attributes_not_matched [where key = "lit ''dataschema''" and s = "lit ''s''"])
     (simp_all add: cloud_event_new_def matcher_new_def)

section \<open>Validation of definitions\<close>

definition looping_definition :: workflow_def where
  "looping_definition = \<lparr>wd_document = \<lparr>doc_dsl = lit ''1.0.0'', doc_namespace = lit ''n'',
      doc_name = lit ''w'', doc_version = lit ''1''\<rparr>,
      wd_do = [Some (lit ''a'', DSet \<lparr>cm_if = None, cm_then = Some (lit ''a'')\<rparr>)]\<rparr>"

lemma looping_ok:
  "document_ok (wd_document looping_definition) \<and> wd_do looping_definition \<noteq> []
   \<and> (\<forall>s. subscope s (wd_do looping_definition) \<longrightarrow> scope_ok s)"
proof -
  let ?s = "[Some (lit ''a'', DSet \<lparr>cm_if = None, cm_then = Some (lit ''a'')\<rparr>)]"
  have "flow_reachable ?s 0" by (rule entry) simp
  then have "scope_ok ?s"
    by (auto simp: scope_ok_def target_ok_def common_then_def is_identifier_def lit_def
        ident_start_def)
  moreover have "subscope s ?s \<Longrightarrow> s = ?s" for s
    by (erule subscope.cases) auto
  ultimately show ?thesis
    by (auto simp: looping_definition_def document_ok_def is_identifier_def lit_def ident_start_def
        starts_with_def)
qed

lemma looping_valid: "validate looping_definition = []"
  by (rule iffD2 [OF validate_nil looping_ok])

text \<open>C6: The validator reports nothing exactly for the definitions whose document is complete,
  that have a task, and in which every nested scope obeys the rules: identifiers, distinct
  names, known \<open>then\<close> targets, well-shaped loops and switches, and every task reachable in the
  flow graph unless a task of the scope recovers from errors.\<close>

theorem validate_valid_iff:
  "is_valid (validate d) \<longleftrightarrow>
     document_ok (wd_document d) \<and> wd_do d \<noteq> []
     \<and> (\<forall>s. subscope s (wd_do d) \<longrightarrow> scope_ok s)"
  by (simp only: is_valid_def validate_nil)

theorem validate_valid_iff_witness: "is_valid (validate looping_definition)"
  unfolding validate_valid_iff by (rule looping_ok)

text \<open>C33: The work list of the reachability check computes exactly the tasks reachable from the
  first one in the flow graph of the scope.\<close>

theorem worklist_computes_reachability:
  assumes "scope_names tasks \<noteq> []"
  shows "i \<in> set (reach_loop tasks [] [0]) \<longleftrightarrow> flow_reachable tasks i"
  by (rule reach_loop_iff [OF assms])

theorem worklist_computes_reachability_witness:
  "0 \<in> set (reach_loop [Some (lit ''a'', DSet no_common)] [] [0])
   \<longleftrightarrow> flow_reachable [Some (lit ''a'', DSet no_common)] 0"
  by (rule worklist_computes_reachability) (simp add: scope_names_def List.map_filter_simps)

text \<open>The \<open>then\<close> targets of switch cases are not checked: a definition whose only switch case
  jumps to a task that does not exist is valid.\<close>

theorem switch_target_unchecked:
  "is_valid (validate \<lparr>wd_document = \<lparr>doc_dsl = lit ''1.0.0'', doc_namespace = lit ''n'',
      doc_name = lit ''w'', doc_version = lit ''1''\<rparr>,
      wd_do = [Some (lit ''a'', DSwitch no_common
        [Some \<lparr>scd_name = lit ''c'', scd_when = None, scd_then = Some (lit ''nowhere'')\<rparr>])]\<rparr>)"
proof -
  let ?s = "[Some (lit ''a'', DSwitch no_common
        [Some \<lparr>scd_name = lit ''c'', scd_when = None, scd_then = Some (lit ''nowhere'')\<rparr>])]"
  have "flow_reachable ?s 0" by (rule entry) simp
  then have "scope_ok ?s"
    by (auto simp: scope_ok_def target_ok_def common_then_def no_common_def switch_ok_def
        case_list_def List.map_filter_simps is_identifier_def lit_def ident_start_def)
  moreover have "subscope s ?s \<Longrightarrow> s = ?s" for s
    by (erule subscope.cases) auto
  ultimately have "\<forall>s. subscope s ?s \<longrightarrow> scope_ok s" by blast
  then show ?thesis
    unfolding is_valid_def validate_nil
    by (simp add: document_ok_def is_identifier_def lit_def ident_start_def starts_with_def)
qed

text \<open>Normalisation of a definition is idempotent.\<close>

theorem normalize_idempotent:
  "normalize_scope pf (normalize_scope pf v) = normalize_scope pf v"
  using normalize_idem by blast

section \<open>Executions\<close>

definition sample_host :: host where
  "sample_host =
     \<lparr>h_platform = sample_platform, h_policy = default_policy, h_runtime_info = Null,
      h_secret = \<lambda>n. None, h_validate = \<lambda>d v. None, h_function = \<lambda>f. None,
      h_process = \<lambda>n r. Hangs, h_publish = \<lambda>n m. Answer (),
      h_subscribe = \<lambda>n. Answer ([event_message_new [] [] (lit ''a''), event_message_new [] [] (lit ''b'')], FeedClosed),
      h_workflow = \<lambda>k. None, h_iso_time = \<lambda>t. lit ''now'', h_uuid = nat_str,
      h_random = \<lambda>n. f64_zero False, h_join_error = id, h_completion = \<lambda>n. rev [0..<n]\<rparr>"

definition sample_world :: world where
  "sample_world =
     \<lparr>w_store = store_new, w_published = [], w_task_order = [], w_clock = clock_new, w_calls = 0,
      w_uuids = 0, w_randoms = 0, w_cancel = None\<rparr>"

definition sample_flow :: compiled_workflow where
  "sample_flow =
     \<lparr>cw_id = \<lparr>wi_namespace = lit ''n'', wi_name = lit ''w'', wi_version = lit ''1''\<rparr>,
      cw_definition = Null, cw_tasks = [], cw_input = no_data, cw_output = no_data,
      cw_timeout = None, cw_evaluate = default_eval_config, cw_secrets = [], cw_errors = \<lambda>n. None, cw_functions = \<lambda>n. None,
      cw_extensions = [], cw_schedule = None\<rparr>"

definition sample_env :: exec_env where
  "sample_env = execution_env sample_host sample_flow (lit ''e'') Null 0"

lemma sample_env_sel [simp]:
  "xe_workflow sample_env = sample_flow" "xe_timeout sample_env = None" "cw_extensions sample_flow = []"
  "cw_tasks sample_flow = []"
  by (simp_all add: sample_env_def execution_env_def sample_flow_def)

lemma sample_run: "fst (execute sample_host 2 sample_flow Null default_options sample_world) = Inr Null"
  using execute_empty [of sample_host sample_world sample_flow 0 Null]
  by (simp add: publishes_def sample_host_def sample_world_def sample_flow_def numeral_2_eq_2)

lemma sample_runs:
  obtains w where "execute sample_host 2 sample_flow Null default_options sample_world = (Inr Null, w)"
  using sample_run by (cases "execute sample_host 2 sample_flow Null default_options sample_world") simp

text \<open>The bound on nested steps is only a device of the model: a run that ends within a bound has
  the same outcome, and leaves the same services, under every larger one.\<close>

theorem engine_result_stable:
  assumes "fst (execute h n flow v opts w) \<noteq> Inl OutOfFuel" "n \<le> m"
  shows "execute h m flow v opts w = execute h n flow v opts w"
  using execute_stable [of h n flow v opts w _ _ "m - n"] assms
  by (cases "execute h n flow v opts w") simp

theorem engine_result_stable_witness:
  "execute sample_host 9 sample_flow Null default_options sample_world =
   execute sample_host 2 sample_flow Null default_options sample_world"
  by (rule engine_result_stable) (simp_all add: sample_run)

text \<open>C9: The handle of a workflow without extensions and sub-workflows whose directives lead forward always
  gets a result or an error, on services that each come to an end: call functions, processes,
  publishers and subscriptions answer, refuse, panic or notice the cancellation of the handle, no
  subscription stays silent, and a time limit elapses during a wait only where the workflow sets
  one.  The number of nested steps that the definition determines suffices.\<close>

theorem bounded_workflows_return:
  assumes "responsive (cw_timeout flow \<noteq> None) h" "cw_extensions flow = []"
    and "scope_bounded (cw_tasks flow)" "scope_need (cw_tasks flow) < n"
  shows "(\<exists>out. fst (snd (runtime_execute h n flow v w)) = Inr out)
    \<or> (\<exists>e. fst (snd (runtime_execute h n flow v w)) = Inl (Failed e))"
  by (rule runtime_ends [OF assms])

text \<open>A call that outlasts the limit of the workflow, between a listener and a wait.\<close>

definition limited_flow :: compiled_workflow where
  "limited_flow = sample_flow\<lparr>cw_timeout := Some 9, cw_tasks :=
     [plain_task (lit ''a'') (Some (lit ''b'')) (TaskListen (ListenAny []) None None None),
      call_task (lit ''b'') (lit ''http''), plain_task (lit ''c'') None (TaskWait 5)]\<rparr>"

definition slow_host :: host where
  "slow_host = sample_host\<lparr>h_function := \<lambda>f. Some (\<lambda>k g a c. Expires 0), h_process := \<lambda>n r. Abandons\<rparr>"

theorem bounded_workflows_return_witness:
  "(\<exists>out. fst (snd (runtime_execute slow_host 9 limited_flow Null sample_world)) = Inr out)
    \<or> (\<exists>e. fst (snd (runtime_execute slow_host 9 limited_flow Null sample_world)) = Inl (Failed e))"
proof (rule bounded_workflows_return)
  show "responsive (cw_timeout limited_flow \<noteq> None) slow_host"
    by (auto simp: responsive_def limited_flow_def slow_host_def sample_host_def)
qed (simp_all add: limited_flow_def sample_flow_def scope_bounded_def directives_forward_def own_directives_def
    goes_forward_def plain_task_def call_task_def parse_directive_def lit_def scope_need_def upt_rec)


text \<open>Two tasks that send the scope to each other.\<close>

definition ping_pong :: "compiled_task list" where
  "ping_pong = [plain_task (lit ''a'') (Some (lit ''b'')) (TaskSet (SetMap [(lit ''k'', Bool True)])),
     plain_task (lit ''b'') (Some (lit ''a'')) (TaskWait 5)]"

lemma ping_pong_sent_on: "\<forall>t \<in> set ping_pong. sent_on ping_pong t"
  by (simp add: ping_pong_def sent_on_def parse_directive_def lit_def)



text \<open>C8: A scope whose tasks are no composite tasks and no switches (sets, calls, emits, listeners without a
  body, raises, runs and waits, with any guard, data definition and time limit) and each have a \<open>then\<close>
  that names a task of the scope never returns a value, whatever the services do, in a workflow
  without extensions: an error, a cancellation, an elapsed limit or a panic are the only ways out.\<close>

theorem jumping_scope_no_result:
  assumes "cw_extensions (xe_workflow env) = []" "jumps_within ts" "i < length ts" "\<not> xs_ended s"
  shows "fst (eg_turn (engine_at h m) env cp ts i v s) \<noteq> Inr out"
  by (rule jumping_scope_never_returns [OF assms])

theorem jumping_scope_no_result_witness:
  "fst (eg_turn (engine_at sample_host 9) sample_env None ping_pong 0 Null (fresh_state sample_world)) \<noteq> Inr Null"
proof (rule jumping_scope_no_result)
  have "\<forall>t \<in> set ping_pong. leaf_kind (ct_kind t)" by (simp add: ping_pong_def leaf_kind_def)
  with ping_pong_sent_on show "jumps_within ping_pong" by (simp add: jumps_within_def)
qed (simp_all add: fresh_state_def ping_pong_def)

text \<open>C12: An execution, whatever its outcome, only appends: to the published events, to the task log and
  to the history in the store; no record disappears and no counter runs backwards.\<close>

theorem logs_only_grow: "logs_grow w (snd (execute h n flow v opts w))"
  by (rule logs.execute_keeps)

text \<open>C1: When an execution returns or fails, the store holds its record with the matching phase and
  error, and its history closes with the matching event, unless the execution failed while its
  input was read: then the store is as it was.\<close>

theorem outcome_is_recorded:
  assumes "execute h n flow v opts w = (r, w')" "r = Inr out \<or> r = Inl (Failed e)"
  shows "outcome_recorded (w_store w') (execution_id_of h opts w) r
    \<or> (r = Inl (Failed e) \<and> eo_resume opts = None \<and> w_store w' = w_store w)"
  by (rule execute_records [OF assms])

theorem outcome_is_recorded_witness:
  "\<exists>w' :: world. outcome_recorded (w_store w') (lit ''0'') (Inr Null)"
proof -
  obtain w' where "execute sample_host 2 sample_flow Null default_options sample_world = (Inr Null, w')"
    by (rule sample_runs)
  from outcome_is_recorded [OF this, of Null] show ?thesis
    by (auto simp: execution_id_of_def default_options_def sample_host_def sample_world_def
        nat_str.simps [of 0] lit_def)
qed

text \<open>A completed execution cannot be resumed: the attempt is a runtime error and changes nothing.\<close>

theorem completed_not_resumed:
  assumes "execute h n flow v opts w = (Inr out, w')"
  shows "\<exists>e. resume h m (execution_id_of h opts w) w' = (Inl (Failed e), w') \<and> we_kind e = KRuntime"
  using execute_records [OF assms] by (auto intro!: resume_recorded)

theorem completed_not_resumed_witness:
  "\<exists>(w' :: world) e. resume sample_host 7 (lit ''0'') w' = (Inl (Failed e), w') \<and> we_kind e = KRuntime"
proof -
  obtain w' where "execute sample_host 2 sample_flow Null default_options sample_world = (Inr Null, w')"
    by (rule sample_runs)
  from completed_not_resumed [OF this, of 7] show ?thesis
    by (auto simp: execution_id_of_def default_options_def sample_host_def sample_world_def
        nat_str.simps [of 0] lit_def)
qed

text \<open>C18: A checkpoint is read back as it was written: the index of the next task, the input of the
  scope and the context.\<close>

theorem checkpoint_roundtrip:
  assumes "i < 2 ^ 64" "persist_checkpoint env t i v s = (r, s')"
  shows "\<exists>rec. store_load (w_store (xs_world s')) (xe_execution_id env) = Some rec
    \<and> er_phase rec = Running
    \<and> resume_state_of rec = \<lparr>re_next_index = i, re_input = v, re_context = xs_context s\<rparr>"
  by (rule checkpoint_resumes [OF assms])

theorem checkpoint_roundtrip_witness:
  "\<exists>rec (s' :: exec_state). store_load (w_store (xs_world s')) (lit ''e'') = Some rec
    \<and> resume_state_of rec = \<lparr>re_next_index = 3, re_input = num 4, re_context = Null\<rparr>"
proof -
  obtain r s' where "persist_checkpoint sample_env 0 3 (num 4) (fresh_state sample_world) = (r, s')"
    by force
  from checkpoint_roundtrip [OF _ this] show ?thesis
    by (auto simp: sample_env_def execution_env_def fresh_state_def)
qed

text \<open>The handle of an execution does not carry the identifier under which the execution is recorded:
  the runtime draws one identifier for the handle and the engine draws the next one.\<close>

theorem handle_id_is_not_recorded:
  assumes "runtime_execute h n flow v w = (i, Inr out, w')"
  shows "i = h_uuid h (w_uuids w) \<and> recorded (w_store w') (h_uuid h (w_uuids w + 1)) Completed None"
proof -
  obtain r w2 where run: "execute h n flow v default_options (snd (next_uuid h w)) = (r, w2)" by force
  with assms have i: "i = h_uuid h (w_uuids w)" "w' = w2" "wait_outcome (run_outcome flow r) = Inr out"
    by (simp_all add: runtime_execute_def next_uuid_def)
  then have "r = Inr out"
    by (cases "(flow, r)" rule: run_outcome.cases)
       (auto split: if_splits elim: wait_outcome.elims)
  with execute_records [OF run] i show ?thesis
    by (simp add: execution_id_of_def default_options_def next_uuid_def)
qed

theorem handle_id_is_not_recorded_witness:
  "\<exists>w' :: world. recorded (w_store w') (lit ''1'') Completed None"
proof -
  have "fst (execute sample_host (Suc (Suc 0)) sample_flow Null default_options (snd (next_uuid sample_host sample_world))) = Inr Null"
    by (rule execute_empty)
       (simp_all add: publishes_def sample_host_def sample_world_def sample_flow_def next_uuid_def)
  then obtain i w' where "runtime_execute sample_host (Suc (Suc 0)) sample_flow Null sample_world = (i, Inr Null, w')"
    by (cases "execute sample_host (Suc (Suc 0)) sample_flow Null default_options (snd (next_uuid sample_host sample_world))")
       (simp add: runtime_execute_def case_prod_beta Let_def)
  from handle_id_is_not_recorded [OF this] show ?thesis
    by (auto simp: sample_host_def sample_world_def nat_str.simps [of "Suc 0"] lit_def)
qed



section \<open>Tasks\<close>

text \<open>C21: A \<open>for\<close> task without \<open>while\<close> folds its body over the items in order, each run seeing its item
  and its index, counted from zero, and the output of the one before, where nobody cancels and the
  body returns in every state that is at rest (no cancellation, no \<open>end\<close>), with an output that only
  depends on the item, the index and its input; what else the body does is up to it, the names of
  the tasks that it logs are logged once per item.  When the loop ends it takes its two variables out
  of scope, also when an enclosing loop had bound them.\<close>

theorem for_folds_body:
  assumes "for_items h d v ectx = Inr items"
    and "fo_while d = None" "fo_each d \<noteq> loop_index_name (fo_at d)"
    and "\<And>i item v s. at_rest s \<Longrightarrow> map_of (xs_loop_vars s) (fo_each d) = Some item
      \<Longrightarrow> map_of (xs_loop_vars s) (loop_index_name (fo_at d)) = Some (json_of_nat i)
      \<Longrightarrow> \<exists>t. nx_scope (nested_of (engine_at h m) env) (fo_body d) v s = (Inr (g item i v), t) \<and> at_rest t
        \<and> w_task_order (xs_world t) = w_task_order (xs_world s) @ ns"
    and "at_rest s"
  shows "\<exists>t. task_for (nested_of (engine_at h m) env) h env d v ectx s =
      (Inr (if items = [] then Null else fold (\<lambda>(k, item). g item k) (enumerate 0 items) v), t)
    \<and> at_rest t \<and> w_task_order (xs_world t) = w_task_order (xs_world s) @ concat (replicate (length items) ns)
    \<and> map_of (xs_loop_vars t) (fo_each d) = None
    \<and> map_of (xs_loop_vars t) (loop_index_name (fo_at d)) = None"
proof -
  have "\<exists>t. task_for (nested_of (engine_at h m) env) h env d v ectx s =
      (Inr (if items = [] then Null else fold (\<lambda>(k, item). g item k) (enumerate 0 items) v), t)
    \<and> at_rest t \<and> w_task_order (xs_world t) = w_task_order (xs_world s) @ concat (replicate (length items) ns)"
    by (rule task_for_folds [OF assms(1-3)]) (erule (2) assms(4), rule assms(5))
  then show ?thesis using task_for_unbinds by blast
qed

definition sample_nested :: "(vmap \<Rightarrow> json \<Rightarrow> failure + json) \<Rightarrow> nested" where
  "sample_nested f =
     \<lparr>nx_scope = (\<lambda>tasks v s. (f (xs_loop_vars s) v, s)),
      nx_task = (\<lambda>t v s. (Inr \<lparr>te_output = String (ct_name t), te_directive = None\<rparr>, s)),
      nx_workflow = (\<lambda>flow v. ok v)\<rparr>"

definition sample_context :: expr_context where
  "sample_context =
     \<lparr>ec_context = Null, ec_input = Null, ec_output = Null, ec_secrets = [], ec_authorization = None,
      ec_task = None, ec_workflow = None, ec_runtime = None, ec_extra_vars = []\<rparr>"

lemma sample_prepare:
  "parse sample_platform (lit ''.'') = Inr EIdentity"
  "prepare sample_platform (lit ''.'') = Inr (PreparedPlain (lit ''.''))"
proof -
  have "tokenize sample_platform (lit ''.'') = Inr [TDot, TEof]" by (simp add: lit_def lex_eval)
  then show "parse sample_platform (lit ''.'') = Inr EIdentity"
    unfolding parse_def by (simp add: parse_eval)
  show "prepare sample_platform (lit ''.'') = Inr (PreparedPlain (lit ''.''))"
    by (simp add: prepare_def lit_def trim_def is_whitespace_def single_block_def first_non_ws_def
        char_at_def starts_with_def Let_def)
qed

lemma sample_identity: "eval_expr sample_host (lit ''.'') v vars task = Inr v"
  by (simp add: eval_expr_def engine_compile_def engine_evaluate_def map_err_def eval_single_def
      sample_host_def bindR_def sample_prepare)

lemma sample_items:
  "for_items sample_host (ForDef (lit ''x'') (lit ''.'') None None b) (Array [num 1, num 2]) sample_context =
    Inr [num 1, num 2]"
  by (simp add: for_items_def sample_identity) (simp add: sample_host_def default_policy_def)

text \<open>A body of the engine: one task, which sets the item.\<close>

definition item_task :: compiled_task where
  "item_task = plain_task (lit ''p'') None (TaskSet (SetExpression (lit ''${$x}'')))"

lemma item_source: "prepare sample_platform (lit ''${$x}'') = Inr (PreparedExpr (EVariable (lit ''x'')))"
proof -
  have "single_block (trim (lit ''${$x}'')) = Some (lit ''$x'')" by code_simp
  moreover have "tokenize sample_platform (lit ''$x'') = Inr [TVariable (lit ''x''), TEof]"
    by (simp add: lit_def lex_eval)
  then have "parse sample_platform (lit ''$x'') = Inr (EVariable (lit ''x''))"
    unfolding parse_def by (simp add: parse_eval)
  ultimately show ?thesis by (simp add: prepare_def)
qed

lemma item_value:
  assumes "at_rest s" "map_of (xs_loop_vars s) (lit ''x'') = Some item"
  shows "task_set sample_host (SetExpression (lit ''${$x}'')) (execution_context env s v Null (Some Null)) = Inr item"
proof -
  have "distinct (map fst (xs_loop_vars s))" using assms(1) by (simp add: at_rest_def map_ok_def strict_sorted_iff)
  then have "map_of (rev (xs_loop_vars s)) = map_of (xs_loop_vars s)" by (simp add: map_of_inject_set rev_map [symmetric])
  with assms(2) have "map_of (rev (xs_loop_vars s)) (lit ''x'') = Some item" by simp
  then have "map_of (as_variable_map (execution_context env s v Null (Some Null))) (lit ''x'') = Some item"
    by (simp add: as_variable_map_def execution_context_def map_of_map_extend)
  then show ?thesis
    by (simp add: eval_interpolation_def engine_evaluate_interpolation_def engine_compile_def bindR_def
        map_err_def eval_single_def sample_host_def item_source)
qed

lemma item_body:
  assumes "at_rest s" "map_of (xs_loop_vars s) (lit ''x'') = Some item"
  shows "\<exists>t. nx_scope (nested_of (engine_at sample_host (Suc (Suc m))) sample_env) [item_task] v s = (Inr item, t)
    \<and> at_rest t \<and> w_task_order (xs_world t) = w_task_order (xs_world s) @ [lit ''p'']"
proof -
  let ?s = "on_world (\<lambda>w. w\<lparr>w_task_order := w_task_order w @ [lit ''p'']\<rparr>) s"
  have rest: "at_rest ?s" "map_of (xs_loop_vars ?s) (lit ''x'') = Some item"
    using assms by simp (simp add: on_world_def assms(2))
  have "dispatch nx sample_host sample_env item_task v (execution_context sample_env ?s v Null (Some Null)) ?s
      = (Inr \<lparr>te_output = item, te_directive = None\<rparr>, ?s)" for nx
    using item_value [OF rest, of sample_env v]
    by (simp add: dispatch_def item_task_def plain_def exec_simps del: task_set.simps)
  from plain_scope(1) [OF _ _ _ refl this [unfolded item_task_def] refl, of m] assms(1) rest(1)
  show ?thesis
    by (intro exI [of _ ?s]) (simp add: nested_of_def item_task_def at_rest_def del: engine_at.simps, simp add: on_world_def)
qed

theorem for_folds_body_witness:
  "\<exists>t. task_for (nested_of (engine_at sample_host 2) sample_env) sample_host sample_env
      (ForDef (lit ''x'') (lit ''.'') None None [item_task]) (Array [num 1, num 2]) sample_context
      (fresh_state sample_world) = (Inr (num 2), t)
    \<and> w_task_order (xs_world t) = [lit ''p'', lit ''p'']"
proof -
  let ?d = "ForDef (lit ''x'') (lit ''.'') None None [item_task]"
  have "\<exists>t. task_for (nested_of (engine_at sample_host (Suc (Suc 0))) sample_env) sample_host sample_env ?d
      (Array [num 1, num 2]) sample_context (fresh_state sample_world) =
      (Inr (if [num 1, num 2] = [] then Null
            else fold (\<lambda>(k, item). (\<lambda>item i v. item) item k) (enumerate 0 [num 1, num 2]) (Array [num 1, num 2])), t)
    \<and> at_rest t \<and> w_task_order (xs_world t) = w_task_order (xs_world (fresh_state sample_world))
        @ concat (replicate (length [num 1, num 2]) [lit ''p''])
    \<and> map_of (xs_loop_vars t) (fo_each ?d) = None
    \<and> map_of (xs_loop_vars t) (loop_index_name (fo_at ?d)) = None"
    by (rule for_folds_body [OF sample_items])
       (use item_body in \<open>simp_all add: loop_index_name_def lit_def fresh_state_def sample_world_def at_rest_def
          idle_def del: engine_at.simps\<close>)
  note ran = this [folded numeral_2_eq_2]
  then show ?thesis by (elim exE conjE, intro exI conjI) (simp_all add: fresh_state_def sample_world_def numeral_2_eq_2 del: engine_at.simps)
qed

text \<open>C20: A \<open>try\<close> task whose \<open>catch\<close> has no filter and no guard and whose retry policy has a limit, no guard
  and no jitter runs a body that fails with the same error in every state without cancellation and
  \<open>end\<close>, and takes no time of its own, once more than the limit says, sleeping the delays of the policy
  in between; what the body logs is logged once per run.  Then the handler runs, with the error
  bound, or without one the task returns its input.\<close>

theorem retries_run_body:
  assumes "catches_all c" "ca_retry c = Some p" "retries_always p" "rp_attempt_count p = Some k"
    and "\<And>s. idle s \<Longrightarrow> \<exists>t. nx_scope (nested_of (engine_at h m) env) body v s = (Inl (Failed err), t) \<and> idle t
      \<and> w_clock (xs_world t) = w_clock (xs_world s)
      \<and> w_task_order (xs_world t) = w_task_order (xs_world s) @ ns"
    and "idle s"
  shows "\<exists>t. task_try (nested_of (engine_at h m) env) h env body c v ectx s =
      (case ca_do c of Some hs \<Rightarrow> nx_scope (nested_of (engine_at h m) env) hs v t | None \<Rightarrow> (Inr v, t))
    \<and> w_task_order (xs_world t) = w_task_order (xs_world s) @ concat (replicate (k + 1) ns)
    \<and> clock_elapsed (w_clock (xs_world t)) =
        (clock_elapsed (w_clock (xs_world s)) + (\<Sum>i = 1..k. backoff_delay p i)) mod 2 ^ 64
    \<and> map_of (xs_loop_vars t) (case ca_as c of Some a \<Rightarrow> a | None \<Rightarrow> lit ''error'') = Some (to_problem_json err)"
proof -
  let ?nx = "nested_of (engine_at h m) env"
  have "\<exists>t. try_loop ?nx h env body c v ectx 0 k s = (case ca_do c of Some hs \<Rightarrow> nx_scope ?nx hs v | None \<Rightarrow> ok v) t
    \<and> idle t \<and> w_task_order (xs_world t) = w_task_order (xs_world s) @ concat (replicate (Suc k) ns)
    \<and> clock_elapsed (w_clock (xs_world t)) =
        (clock_elapsed (w_clock (xs_world s)) + (\<Sum>i = 0 + 1..0 + k. backoff_delay p i)) mod 2 ^ 64
    \<and> map_of (xs_loop_vars t) (case ca_as c of Some a \<Rightarrow> a | None \<Rightarrow> lit ''error'') = Some (to_problem_json err)"
    by (rule try_loop_attempts [OF assms(1-3)]) (erule assms(5), rule assms(6))
  then obtain t where t: "try_loop ?nx h env body c v ectx 0 k s = (case ca_do c of Some hs \<Rightarrow> nx_scope ?nx hs v | None \<Rightarrow> ok v) t"
      "w_task_order (xs_world t) = w_task_order (xs_world s) @ concat (replicate (k + 1) ns)"
      "clock_elapsed (w_clock (xs_world t)) =
        (clock_elapsed (w_clock (xs_world s)) + (\<Sum>i = 1..k. backoff_delay p i)) mod 2 ^ 64"
      "map_of (xs_loop_vars t) (case ca_as c of Some a \<Rightarrow> a | None \<Rightarrow> lit ''error'') = Some (to_problem_json err)"
    by auto
  have "retry_limit c = k" using assms(2,4) by (simp add: retry_limit_def)
  then have "task_try ?nx h env body c v ectx s = (case ca_do c of Some hs \<Rightarrow> nx_scope ?nx hs v t | None \<Rightarrow> (Inr v, t))"
    by (simp add: task_try_def t(1) ok_apply split: option.split)
  with t(2-4) show ?thesis by blast
qed

definition sample_policy :: retry_policy_def where
  "sample_policy =
     \<lparr>rp_when = None, rp_except_when = None, rp_delay = Some 1000, rp_backoff = Exponential,
      rp_jitter = None, rp_attempt_count = Some 3, rp_attempt_duration = None,
      rp_retry_duration = None\<rparr>"

text \<open>A body of the engine: one task, which raises an error that the workflow does not define.\<close>

definition raising_task :: compiled_task where
  "raising_task = plain_task (lit ''a'') None (TaskRaise (ErrorReference (lit ''e'')))"

lemma raising_body:
  assumes "idle s"
  shows "\<exists>t. nx_scope (nested_of (engine_at sample_host (Suc (Suc m))) sample_env) [raising_task] v s
      = (Inl (Failed (task_raise sample_env raising_task (ErrorReference (lit ''e'')))), t) \<and> idle t
    \<and> w_clock (xs_world t) = w_clock (xs_world s)
    \<and> w_task_order (xs_world t) = w_task_order (xs_world s) @ [lit ''a'']"
proof -
  let ?s = "on_world (\<lambda>w. w\<lparr>w_task_order := w_task_order w @ [lit ''a'']\<rparr>) s"
  have "dispatch nx sample_host sample_env raising_task v (execution_context sample_env ?s v Null (Some Null)) ?s
      = (Inl (Failed (task_raise sample_env raising_task (ErrorReference (lit ''e'')))), ?s)" for nx
    by (simp add: dispatch_def raising_task_def exec_simps)
  from plain_scope(2) [OF _ _ assms refl this [unfolded raising_task_def] refl, of m] assms
  show ?thesis
    by (intro exI [of _ ?s]) (simp add: nested_of_def raising_task_def del: engine_at.simps, simp add: on_world_def)
qed

theorem retries_run_body_witness:
  "\<exists>t. task_try (nested_of (engine_at sample_host 2) sample_env) sample_host sample_env [raising_task]
      (CatchDef None None None None (Some sample_policy) None None) Null sample_context (fresh_state sample_world)
      = (Inr Null, t)
    \<and> w_task_order (xs_world t) = replicate 4 (lit ''a'')"
proof -
  let ?c = "CatchDef None None None None (Some sample_policy) None None"
  have "\<exists>t. task_try (nested_of (engine_at sample_host (Suc (Suc 0))) sample_env) sample_host sample_env [raising_task]
      ?c Null sample_context (fresh_state sample_world)
      = (case ca_do ?c of Some hs \<Rightarrow> nx_scope (nested_of (engine_at sample_host (Suc (Suc 0))) sample_env) hs Null t
         | None \<Rightarrow> (Inr Null, t))
    \<and> w_task_order (xs_world t) = w_task_order (xs_world (fresh_state sample_world)) @ concat (replicate (3 + 1) [lit ''a''])
    \<and> clock_elapsed (w_clock (xs_world t)) =
        (clock_elapsed (w_clock (xs_world (fresh_state sample_world)))
          + (\<Sum>i = 1..3. backoff_delay sample_policy i)) mod 2 ^ 64
    \<and> map_of (xs_loop_vars t) (case ca_as ?c of Some a \<Rightarrow> a | None \<Rightarrow> lit ''error'')
        = Some (to_problem_json (task_raise sample_env raising_task (ErrorReference (lit ''e''))))"
    by (rule retries_run_body [OF _ _ _ _ raising_body])
       (simp_all add: catches_all_def retries_always_def sample_policy_def fresh_state_def sample_world_def idle_def)
  note ran = this [folded numeral_2_eq_2]
  have "w_task_order (xs_world (fresh_state sample_world)) @ concat (replicate (3 + 1) [lit ''a'']) = replicate 4 (lit ''a'')"
    by (simp add: fresh_state_def sample_world_def numeral_eq_Suc)
  with ran show ?thesis by (elim exE conjE, intro exI conjI) (simp_all only: catch_def.sel option.case)
qed

text \<open>C39: The delay before attempt \<open>n\<close>: constant, linear, or doubling from the second attempt on; the
  factor of the last one stays at \<open>2 ^ 32 - 1\<close> from attempt 33 on, and no product exceeds the
  largest duration.\<close>

theorem backoff_grows:
  assumes "attempt < 2 ^ 32"
  shows "backoff_delay r attempt =
    (let base = (case rp_delay r of Some d \<Rightarrow> d | None \<Rightarrow> 0) in
     case rp_backoff r of
       Constant \<Rightarrow> base
     | Linear \<Rightarrow> min (base * attempt) duration_max
     | Exponential \<Rightarrow> min (base * (if attempt \<le> 32 then 2 ^ (attempt - 1) else 2 ^ 32 - 1)) duration_max)"
  by (rule backoff_delay_cases [OF assms])

theorem backoff_grows_witness: "backoff_delay sample_policy 4 = 8000"
  using backoff_grows [of 4 sample_policy] by (simp add: sample_policy_def duration_max_def)

text \<open>C38: A time of hours, minutes and seconds in ISO 8601 is read exactly, as nanoseconds, as long as it
  stays below \<open>2 ^ 53\<close> of them (about 104 days).\<close>

theorem iso_time_roundtrip:
  assumes "hms_nanos h m s < 2 ^ 53"
  shows "parse_iso8601_duration pf (hms_text h m s) = Inr (hms_nanos h m s)"
  by (rule parse_hms [OF assms])

theorem iso_time_roundtrip_witness:
  "parse_iso8601_duration sample_platform (hms_text 1 30 5) = Inr 5405000000000"
  using iso_time_roundtrip [of 1 30 5 sample_platform] by (simp add: hms_nanos_def)

text \<open>C22: A fork whose branches all return gives their outputs in the order of the definition, whatever
  the order in which they complete; a competing fork gives the output of the branch that
  completes first.\<close>

theorem fork_results:
  assumes "\<And>i s. i < length branches \<Longrightarrow> fst (nx_task nx (branches ! i) v s) = Inr (r i)"
  shows "fst (task_fork nx h branches compete v s) =
    Inr (if branches = [] then Array []
         else if compete then te_output (r (hd (completion_order h (length branches))))
         else Array (map (te_output \<circ> r) [0..<length branches]))"
  by (rule task_fork_results [OF assms])

theorem fork_results_witness:
  "fst (task_fork (sample_nested (\<lambda>vars v. Inr v)) sample_host
      [plain_task (lit ''a'') None (TaskWait 0), plain_task (lit ''b'') None (TaskWait 0)] False Null
      (fresh_state sample_world)) = Inr (Array [String (lit ''a''), String (lit ''b'')])"
proof -
  let ?bs = "[plain_task (lit ''a'') None (TaskWait 0), plain_task (lit ''b'') None (TaskWait 0)]"
  have "fst (task_fork (sample_nested (\<lambda>vars v. Inr v)) sample_host ?bs False Null (fresh_state sample_world)) =
    Inr (if ?bs = [] then Array []
         else if False then te_output ((\<lambda>i. \<lparr>te_output = String (ct_name (?bs ! i)), te_directive = None\<rparr>)
           (hd (completion_order sample_host (length ?bs))))
         else Array (map (te_output \<circ> (\<lambda>i. \<lparr>te_output = String (ct_name (?bs ! i)), te_directive = None\<rparr>)) [0..<length ?bs]))"
    by (rule fork_results) (simp add: sample_nested_def)
  then show ?thesis by simp
qed

text \<open>C23: A listener for one event, or for any of several, without correlation and \<open>until\<close> returns the
  first delivered event that a filter matches; what came before is skipped, what comes after is
  not waited for.\<close>

theorem listen_takes_first_match:
  assumes "to = ListenAny fs \<or> (\<exists>f. to = ListenOne f \<and> fs = [f])"
    and "fs \<noteq> []" "\<forall>f \<in> set fs. ef_correlate f = []"
    and "h_subscribe h (w_calls (xs_world s)) = Answer (es, fin)"
    and "dropWhile (\<lambda>e. \<not> wanted fs e) es = e # rest"
  shows "fst (task_listen nx h env to read None None ectx s) =
    Inr (Array [read_event e (case read of Some r \<Rightarrow> r | None \<Rightarrow> lit ''data'')])"
  by (rule task_listen_first [OF assms])

theorem listen_takes_first_match_witness:
  "fst (task_listen (sample_nested (\<lambda>vars v. Inr v)) sample_host sample_env
      (ListenOne \<lparr>ef_with = [(lit ''type'', String (lit ''b''))], ef_correlate = []\<rparr>) None None None
      sample_context (fresh_state sample_world)) = Inr (Array [Null])"
proof -
  let ?f = "\<lparr>ef_with = [(lit ''type'', String (lit ''b''))], ef_correlate = []\<rparr>"
  have "dropWhile (\<lambda>e. \<not> wanted [?f] e)
      [event_message_new [] [] (lit ''a''), event_message_new [] [] (lit ''b'')] =
    event_message_new [] [] (lit ''b'') # []"
    by (simp add: wanted_def build_matcher_def event_matches_def matcher_new_def from_message_def
        event_message_new_def Let_def lit_def)
  from listen_takes_first_match [where read = None, OF _ _ _ _ this] show ?thesis
    by (simp add: sample_host_def read_event_def event_message_new_def or_null_def)
qed

text \<open>A task that its guard skips still decides where its scope goes on: an \<open>end\<close> in its \<open>then\<close>
  ends the workflow.\<close>

theorem skipped_task_ends_workflow:
  assumes "w_cancel (xs_world s) = None" "\<not> xs_ended s" "task_timeout env t = None"
    and "guard_holds h env t v (on_world (\<lambda>w. w\<lparr>w_task_order := w_task_order w @ [ct_name t]\<rparr>) s)
      = (Inr False, u)"
    and "ct_then t = Some (lit ''end'')"
  shows "eg_turn (engine_at h (Suc (Suc n))) env cp (t # ts) 0 v s = (Inr v, u\<lparr>xs_ended := True\<rparr>)"
  using skipped_turn [OF assms(1-4)] assms(5) by (simp add: parse_directive_def lit_def)

theorem skipped_task_ends_workflow_witness:
  "eg_turn (engine_at sample_host 2) sample_env None
     [CompiledTask (lit ''a'') (lit ''/a'') (Some (lit ''.'')) no_data no_data no_data None
        (Some (lit ''end'')) Null (TaskWait 0), plain_task (lit ''b'') None (TaskWait 0)] 0 (Bool False)
     (fresh_state sample_world) =
   (Inr (Bool False),
    (on_world (\<lambda>w. w\<lparr>w_task_order := w_task_order w @ [lit ''a'']\<rparr>) (fresh_state sample_world))
      \<lparr>xs_ended := True\<rparr>)"
  unfolding numeral_2_eq_2
  by (rule skipped_task_ends_workflow)
     (simp_all add: fresh_state_def sample_world_def task_timeout_def guard_holds_def eval_in_def
       sample_identity is_truthy_def bindE_def ok_def)

text \<open>C34: The check of a definition's expressions accepts it exactly when every string of it that counts as
  an expression, by its key or because it contains a block, compiles.\<close>

theorem expressions_checked:
  "validate_expressions pf v = Inr () \<longleftrightarrow> (\<forall>ks \<in> set (keyed_strings None v). compiles pf ks)"
  by (simp add: validate_expressions_def validate_expression_value_ok)

theorem expressions_checked_witness:
  "validate_expressions sample_platform (Object [(lit ''if'', String (lit ''.''))]) = Inr ()"
  by (simp add: expressions_checked compiles_def engine_compile_def map_err_def sample_prepare bindR_def)

section \<open>Compilation and schedules\<close>

definition no_fields :: sdk_fields where
  "no_fields = \<lparr>skf_if = None, skf_input = None, skf_output = None, skf_export = None, skf_timeout = None,
     skf_then = None\<rparr>"

definition sample_definition :: sdk_workflow where
  "sample_definition =
     \<lparr>skw_document = \<lparr>doc_dsl = lit ''1.0.0'', doc_namespace = lit ''n'', doc_name = lit ''w'',
        doc_version = lit ''1''\<rparr>,
      skw_do = [Some (lit ''a'', SdkSet (no_fields\<lparr>skf_then := Some (lit ''a'')\<rparr>) (SetMap []))],
      skw_input = None, skw_output = None, skw_timeout = None,
      skw_schedule = Some \<lparr>skq_every = None, skq_after = None, skq_cron = None,
        skq_on = Some (SdkStrategy None (Some []) None None)\<rparr>,
      skw_use = Some \<lparr>skm_authentications = None, skm_catalogs = None, skm_timeouts = None, skm_retries = None, skm_errors = None, skm_functions = None,
        skm_extensions = None, skm_secrets = Some [lit ''key'']\<rparr>,
      skw_evaluate = None\<rparr>"

definition sample_serializer :: serializer where
  "sample_serializer =
     \<lparr>sz_task = \<lambda>t. Inr Null, sz_workflow = \<lambda>d. Inr (String (lit ''a $secrets.key b''))\<rparr>"

definition sample_compiled :: compiled_task where
  "sample_compiled = CompiledTask (lit ''a'') (lit ''/do/0/a'') None no_data no_data no_data None
     (Some (lit ''a'')) Null (TaskSet (SetMap []))"

lemma sample_valid: "validate (seen_workflow sample_definition) = []"
proof -
  have "seen_workflow sample_definition = looping_definition"
    by (simp add: seen_workflow_def sample_definition_def seen_fields_def no_fields_def
        looping_definition_def)
  then show ?thesis by (simp only: looping_valid)
qed

lemma sample_secret_refs: "collect_secret_refs (String (lit ''a $secrets.key b'')) = [lit ''key'']"
  by code_simp

lemma sample_definition_sel:
  "sz_workflow sample_serializer sample_definition = Inr (String (lit ''a $secrets.key b''))"
  "definition_value sample_serializer sample_definition = String (lit ''a $secrets.key b'')"
  "declared_secrets sample_definition = [lit ''key'']" "skw_evaluate sample_definition = None"
  "compile_extensions pf sz (skw_use sample_definition) = Inr []"
  "resolve_timeout pf (skw_use sample_definition) (skw_timeout sample_definition) = Inr None"
  "compile_scope pf sample_serializer (skw_use sample_definition) (lit ''/do'') 0 (skw_do sample_definition)
    = Inr [sample_compiled]"
  by (simp_all add: sample_serializer_def sample_definition_def definition_value_def declared_secrets_def
      or_empty_def compile_extensions_def sample_compiled_def compile_task.simps lower_task_def
      no_fields_def compile_data_def no_data_def nat_str.simps [of 0] lit_def)

lemma sample_compiles:
  obtains flow where "runtime_compile sample_platform sample_serializer sample_definition = Inr flow"
    "cw_tasks flow = [sample_compiled]" "cw_definition flow = String (lit ''a $secrets.key b'')"
    "cw_secrets flow = [lit ''key'']"
proof -
  have "enforce_declared_secrets (String (lit ''a $secrets.key b'')) [lit ''key''] = Inr ()"
    unfolding enforce_declared_ok sample_secret_refs by simp
  then obtain flow where c: "compile sample_platform sample_serializer sample_definition = Inr flow"
    by (simp add: compile_def sample_valid is_valid_def sample_definition_sel Let_def)
  have "compile_checks sample_platform (seen_workflow sample_definition) None
      (String (lit ''a $secrets.key b'')) = Inr ()"
    by (simp add: compile_checks_def sample_valid is_valid_def language_error_def validate_expressions_def
        is_expression_source_def starts_with_def lit_def)
  with c compile_parts [OF c] show thesis
    by (intro that [of flow]) (simp_all add: runtime_compile_def sample_definition_sel)
qed

text \<open>C2: In a workflow that compiled, where a task of a scope has no directive of its own and its
  \<open>then\<close> is a jump, exactly one task of that scope has the name.  The scopes are that of the workflow
  and those nested in it through the bodies of do, for, fork and try tasks and the handlers of catch;
  the bodies of listen tasks and the scopes of extensions are not among them, since the validator
  does not look there (\<open>foreach_unchecked\<close>), and jumps of switch cases are not checked at all
  (\<open>switch_target_unchecked\<close>).\<close>

theorem accepted_targets:
  assumes "runtime_compile pf sz d = Inr flow" "compiled_subscope ts (cw_tasks flow)" "t \<in> set ts"
    and "te_directive r = None" "final_directive t r = Goto n"
  shows "\<exists>p < length ts. position (\<lambda>t. ct_name t = n) ts = Some p
    \<and> (\<forall>q < length ts. ct_name (ts ! q) = n \<longleftrightarrow> q = p)"
  by (rule compiled_goto [OF runtime_compile_parts(1) [OF assms(1)] assms(2-5)])

theorem accepted_targets_witness:
  "\<exists>p < length [sample_compiled]. position (\<lambda>t. ct_name t = lit ''a'') [sample_compiled] = Some p
    \<and> (\<forall>q < length [sample_compiled]. ct_name ([sample_compiled] ! q) = lit ''a'' \<longleftrightarrow> q = p)"
proof (rule sample_compiles)
  fix flow
  assume flow: "runtime_compile sample_platform sample_serializer sample_definition = Inr flow"
    "cw_tasks flow = [sample_compiled]"
  have "compiled_subscope [sample_compiled] (cw_tasks flow)" by (simp add: flow compiled_subscope.self)
  from accepted_targets [OF flow(1) this, where r = "\<lparr>te_output = Null, te_directive = None\<rparr>"] show ?thesis
    by (simp add: final_directive_def sample_compiled_def parse_directive_def lit_def)
qed

text \<open>C28: A definition in which some task, at any depth, names a timeout or a retry policy that is not
  among the reusable components does not compile.\<close>

theorem undefined_references_rejected:
  assumes "task_within t (skw_do d)"
    and "skf_timeout (sdk_common t) = Some (TimeoutReference n) \<and> components_get skm_timeouts (skw_use d) n = None
      \<or> retry_reference t = Some n \<and> components_get skm_retries (skw_use d) n = None"
  shows "\<exists>f. runtime_compile pf sz d = Inl f"
proof (cases "runtime_compile pf sz d")
  case (Inr flow)
  from compile_task_within [OF assms(1) compile_parts(2) [OF runtime_compile_parts(1) [OF Inr]]] obtain m r ct
    where "compile_task pf sz (skw_use d) m r t = Inr ct" by blast
  from compile_task_references [OF this] assms(2) show ?thesis by auto
qed simp

theorem undefined_references_rejected_witness:
  "\<exists>f. runtime_compile sample_platform sample_serializer (sample_definition\<lparr>skw_do :=
     [Some (lit ''a'', SdkSet (no_fields\<lparr>skf_timeout := Some (TimeoutReference (lit ''slow''))\<rparr>) (SetMap []))]\<rparr>)
     = Inl f"
  by (rule undefined_references_rejected
      [where t = "SdkSet (no_fields\<lparr>skf_timeout := Some (TimeoutReference (lit ''slow''))\<rparr>) (SetMap [])"
        and n = "lit ''slow''"])
     (auto intro: task_within.here simp: components_get_def sample_definition_def)

text \<open>C17: Every \<open>$secrets.name\<close> in any string of a definition that compiled names a secret the
  definition declares, wherever in the string it stands.\<close>

theorem secrets_declared:
  assumes "runtime_compile pf sz d = Inr flow"
    and "(k, before @ lit ''$secrets.'' @ name @ rest) \<in> set (keyed_strings None (cw_definition flow))"
    and "name \<noteq> []" "list_all secret_char name" "rest = [] \<or> \<not> secret_char (hd rest)"
  shows "name \<in> set (cw_secrets flow)"
proof -
  from dot_refs_found [OF assms(4,3,5)] collect_secret_refs_string [OF assms(2)]
  have "name \<in> set (collect_secret_refs (cw_definition flow))" by (auto simp: dot_prefix_def)
  with compile_parts(4) [OF runtime_compile_parts(1) [OF assms(1)]] show ?thesis
    by (auto simp: enforce_declared_ok)
qed

theorem secrets_declared_witness:
  "\<exists>flow. runtime_compile sample_platform sample_serializer sample_definition = Inr flow
    \<and> lit ''key'' \<in> set (cw_secrets flow)"
proof (rule sample_compiles)
  fix flow
  assume flow: "runtime_compile sample_platform sample_serializer sample_definition = Inr flow"
    "cw_definition flow = String (lit ''a $secrets.key b'')"
  have "lit ''key'' \<in> set (cw_secrets flow)"
    by (rule secrets_declared [OF flow(1), where k = None and before = "lit ''a ''" and rest = "lit '' b''"])
       (simp_all add: flow(2) lit_def secret_char_def)
  with flow(1) show ?thesis by blast
qed

text \<open>C30: An interval schedule starts one execution per wait that ran to its end before the first
  cancellation, a schedule with a delay after completion one more; both stop at the cancellation.\<close>

theorem intervals_fire:
  assumes "trigger = Every d \<or> trigger = After d"
    and "run_schedule h cl n flow waits trigger st = Inr (e, st')"
  shows "ss_triggered st' = ss_triggered st + of_nat (completed waits + (if trigger = After d then 1 else 0))
    \<and> e = loop_end_of waits"
  using assms by (auto dest!: run_every_counts run_after_counts)

lemma sample_fires:
  assumes "w_cancel (ss_world st) = None"
  shows "\<exists>w. fire sample_host (Suc (Suc 0)) sample_flow v st =
    Inr \<lparr>ss_world = w, ss_triggered = ss_triggered st + 1\<rparr>"
proof -
  let ?run = "execute sample_host (Suc (Suc 0)) sample_flow v default_options (snd (next_uuid sample_host (ss_world st)))"
  have "fst ?run = Inr v"
    using assms by (intro execute_empty) (simp_all add: publishes_def sample_host_def sample_flow_def next_uuid_def)
  then show ?thesis by (cases ?run) (simp add: fire_def runtime_execute_def case_prod_beta Let_def)
qed

definition sample_cron :: cron_library where
  "sample_cron = \<lparr>cl_parse = \<lambda>e. Inl (lit ''no cron''), cl_is_date = \<lambda>t. True\<rparr>"

definition sample_schedule :: schedule_state where
  "sample_schedule = \<lparr>ss_world = sample_world, ss_triggered = 0\<rparr>"

theorem intervals_fire_witness:
  "\<exists>st'. run_schedule sample_host sample_cron (Suc (Suc 0)) sample_flow [Slept, Interrupted] (Every 5) sample_schedule
      = Inr (Stopped, st') \<and> ss_triggered st' = 1"
proof -
  have "w_cancel (ss_world (slept 5 sample_schedule)) = None"
    by (simp add: slept_def sample_schedule_def sample_world_def)
  from sample_fires [OF this, of Null] obtain st' where
    run: "run_schedule sample_host sample_cron (Suc (Suc 0)) sample_flow [Slept, Interrupted] (Every 5) sample_schedule
      = Inr (Stopped, st')" by auto
  from intervals_fire [OF _ run] show ?thesis
    using run by (simp add: completed_def sample_schedule_def)
qed

text \<open>C29: An event schedule starts one execution per delivered event that its filters accept, in the
  order of delivery and with the envelope of the event as input, and nothing else.\<close>

theorem events_fire_matching:
  assumes "h_subscribe h (w_calls (ss_world st)) = Answer (delivered, fin)"
  shows "run_schedule h cl n flow waits (OnEvents filters) st =
    bindR (fire_all (fire h n flow)
        (map (\<lambda>e. Array [event_envelope e]) (filter (\<lambda>e. trigger_accepts e filters) delivered)) (subscribed st))
      (\<lambda>st'. Inr (if fin \<in> {FeedClosed, FeedCancelled} then Stopped else StillWaiting, st'))"
  by (simp add: assms run_on_events_fire_all)

theorem events_fire_matching_witness:
  "run_schedule (sample_host\<lparr>h_subscribe := \<lambda>k. Answer ([event_message_new [] [] (lit ''a'')], FeedClosed)\<rparr>) sample_cron 2
     sample_flow [] (OnEvents [\<lparr>eml_type = lit ''b'', eml_source = None\<rparr>]) sample_schedule
   = Inr (Stopped, subscribed sample_schedule)"
  by (subst events_fire_matching [where delivered = "[event_message_new [] [] (lit ''a'')]" and fin = FeedClosed])
     (simp_all add: trigger_accepts_def event_message_new_def)

text \<open>The strategy \<open>all\<close> of an event schedule is dropped by the compiler, and the schedule then accepts
  every event.\<close>

theorem all_strategy_accepts_everything:
  assumes "runtime_compile pf sz d = Inr flow" "skw_schedule d = Some s"
    and "skq_every s = None" "skq_after s = None" "skq_cron s = None"
    and "skq_on s = Some (SdkStrategy None (Some filters) None u)"
  shows "\<exists>accepted. cw_schedule flow = Some \<lparr>sh_trigger = OnEvents accepted\<rparr> \<and> (\<forall>e. trigger_accepts e accepted)"
  using compile_parts(8) [OF runtime_compile_parts(1) [OF assms(1)]] assms(2-6)
  by (simp add: build_schedule_trigger_def trigger_accepts_def)

theorem all_strategy_accepts_everything_witness:
  "\<exists>flow accepted. runtime_compile sample_platform sample_serializer sample_definition = Inr flow
    \<and> cw_schedule flow = Some \<lparr>sh_trigger = OnEvents accepted\<rparr> \<and> (\<forall>e. trigger_accepts e accepted)"
proof (rule sample_compiles)
  fix flow
  assume flow: "runtime_compile sample_platform sample_serializer sample_definition = Inr flow"
  from all_strategy_accepts_everything [OF flow] flow show ?thesis
    by (auto simp: sample_definition_def)
qed

section \<open>Sets of schedules\<close>

lemma sample_returns: "executions_return sample_host (Suc (Suc 0)) sample_flow"
  unfolding executions_return_def
proof (intro allI impI)
  fix v and st :: schedule_state
  assume idle_token: "w_cancel (ss_world st) = None"
  let ?before = "st\<lparr>ss_triggered := ss_triggered st - 1\<rparr>"
  have "count_firing ?before = st" by (simp add: count_firing_def)
  with sample_fires [of ?before v] idle_token show "\<exists>st'. execution_done sample_host (Suc (Suc 0)) sample_flow v st = Inr st'"
    by (auto simp: fire_split)
qed

text \<open>C14: From a cancelled set on in which every loop sleeps (interval, delay, cron; no event loops) and
  every execution returns, which the cancellation of the set leaves alone, an interval or cron loop
  starts no execution any more and a delay loop at most the first one, if it was not polled before;
  each loop takes at most two more turns, and from every state that is reached the set can come to
  one that is joined.\<close>

theorem cancelled_schedules_end:
  assumes "set_run h cl n S as T" "sl_cancelled S" "sleepers_only h n S"
  shows "(\<forall>i < length (sl_loops S).
        length (starts_of i as) \<le> starts_left (sl_loops S ! i) \<and> turns_of i as \<le> turns_left (sl_loops S ! i))
    \<and> (\<exists>bs U. set_run h cl n T bs U \<and> set_joined U)"
proof -
  have "length (starts_of i as) \<le> starts_left (sl_loops S ! i) \<and> turns_of i as \<le> turns_left (sl_loops S ! i)"
    if i: "i < length (sl_loops S)" for i
    using stopping.run_keeps [where vs = "[]" and k = 0 and i = i and a = "starts_left (sl_loops S ! i)"
        and b = "turns_left (sl_loops S ! i)", OF assms(1)] assms(2,3) i by (simp add: sleepers_only_def)
  with cancelled_sleepers_end sleepers_stay [OF assms] show ?thesis by blast
qed

definition sample_set :: "schedule_loop list \<Rightarrow> schedule_set" where
  "sample_set ls = \<lparr>sl_shared = sample_schedule, sl_cancelled = False, sl_loops = ls\<rparr>"

theorem cancelled_schedules_end_witness:
  "\<exists>bs U. set_run sample_host sample_cron (Suc (Suc 0))
      (set_cancel (sample_set [Asleep sample_flow (SleepEvery 5) 5 False, Spawned sample_flow (After 3)])) bs U
    \<and> set_joined U"
  using cancelled_schedules_end [OF set_run.stay, of
      "set_cancel (sample_set [Asleep sample_flow (SleepEvery 5) 5 False, Spawned sample_flow (After 3)])"
      sample_host "Suc (Suc 0)" sample_cron] sample_returns
  by (simp add: set_cancel_def sample_set_def sleepers_only_def sample_schedule_def sample_world_def)

text \<open>C13: A cancellation that comes while an event schedule executes its workflow is lost: the loop
  goes on to start an execution for every further event its filters accept, and the set is not joined
  unless it is cancelled again, whatever the loops do.\<close>

theorem missed_cancellation:
  assumes "sl_loops S ! i = Firing flow (ThenReceive filters es FeedSilent) v" "i < length (sl_loops S)"
    and "executions_return h n flow" "w_cancel (ss_world (sl_shared S)) = None"
  shows "(\<forall>as T. set_run h cl n (set_cancel S) as T \<and> CancelAll \<notin> set as \<longrightarrow> \<not> set_joined T)
    \<and> (\<exists>as T. set_run h cl n (set_cancel S) as T \<and> CancelAll \<notin> set as \<and> starts_of i as = event_inputs filters es)"
proof (intro conjI allI impI)
  have at: "sl_loops (set_cancel S) ! i = sl_loops S ! i" "i < length (sl_loops (set_cancel S))"
    "sl_shared (set_cancel S) = sl_shared S"
    using assms(1,2) by (simp_all add: set_cancel_def)
  show "\<not> set_joined T" if "set_run h cl n (set_cancel S) as T \<and> CancelAll \<notin> set as" for as T
  proof -
    from that have run: "set_run h cl n (set_cancel S) as T" by blast
    have "deaf h (sl_loops T ! i)"
      using missing.run_keeps [OF run, of i] at assms(1) that by simp
    then have "sl_loops T ! i \<noteq> Finished" by (intro notI) simp
    moreover have "i < length (sl_loops T)" using at(2) set_run_length [OF run] by simp
    ultimately show ?thesis using nth_mem [of i "sl_loops T"] unfolding set_joined_def by blast
  qed
  from executions_returnD [OF assms(3), of "sl_shared S"] assms(4) obtain st where
    st: "execution_done h n flow v (sl_shared S) = Inr st" by blast
  let ?T = "(set_cancel S)\<lparr>sl_shared := st,
      sl_loops := (sl_loops (set_cancel S))[i := Receiving flow filters es FeedSilent False]\<rparr>"
  have run: "set_run h cl n (set_cancel S) [Turn i None] ?T"
    using at st assms(1) by (intro turn_run) (auto simp: loop_turn_simps)
  have "w_cancel (ss_world (sl_shared ?T)) = None" using run_untouched [OF run] assms(4) at by simp
  moreover have "sl_loops ?T ! i = Receiving flow filters es FeedSilent False" "i < length (sl_loops ?T)"
    using at(2) by simp_all
  ultimately obtain bs U where "set_run h cl n ?T bs U" "CancelAll \<notin> set bs"
      "starts_of i bs = event_inputs filters es"
    using deaf_serves [of ?T i flow filters es h n cl] assms(3) by blast
  with set_run_append [OF run this(1)]
  show "\<exists>as T. set_run h cl n (set_cancel S) as T \<and> CancelAll \<notin> set as \<and> starts_of i as = event_inputs filters es"
    by (intro exI [of _ "[Turn i None] @ bs"] exI [of _ U]) simp
qed

theorem missed_cancellation_witness:
  "\<exists>as T. set_run sample_host sample_cron (Suc (Suc 0)) (set_cancel (sample_set
      [Firing sample_flow (ThenReceive [] [event_message_new [] [] (lit ''a''), event_message_new [] [] (lit ''b'')] FeedSilent) Null]))
      as T \<and> length (starts_of 0 as) = 2 \<and> \<not> set_joined T"
proof -
  let ?es = "[event_message_new [] [] (lit ''a''), event_message_new [] [] (lit ''b'')]"
  let ?S = "sample_set [Firing sample_flow (ThenReceive [] ?es FeedSilent) Null]"
  have "(\<forall>as T. set_run sample_host sample_cron (Suc (Suc 0)) (set_cancel ?S) as T \<and> CancelAll \<notin> set as
        \<longrightarrow> \<not> set_joined T)
    \<and> (\<exists>as T. set_run sample_host sample_cron (Suc (Suc 0)) (set_cancel ?S) as T \<and> CancelAll \<notin> set as
        \<and> starts_of 0 as = event_inputs [] ?es)"
    by (rule missed_cancellation [OF _ _ sample_returns])
       (simp_all add: sample_set_def sample_schedule_def sample_world_def)
  moreover have "length (event_inputs [] ?es) = 2" by (simp add: event_inputs_def trigger_accepts_def)
  ultimately show ?thesis by (metis (no_types, lifting))
qed

text \<open>C15: However the loops of a set interleave, an event schedule starts its executions for the accepted
  events in the order of delivery, none twice and none left out before it ends; and the counter of the
  set is the number of executions that all loops have started, modulo the width of the counter.\<close>

theorem event_loops_in_order:
  assumes "set_run h cl n S as T" "i < length (sl_loops S)" "receiving_loop (sl_loops S ! i)"
  shows "(if sl_loops T ! i = Finished then \<exists>rest. starts_of i as @ rest = owed (sl_loops S ! i)
      else starts_of i as @ owed (sl_loops T ! i) = owed (sl_loops S ! i))
    \<and> set_triggered T = set_triggered S + of_nat (length (all_starts as))"
  using serving.run_keeps [where vs = "[]" and i = i and ws = "owed (sl_loops S ! i)", OF assms(1)]
    run_triggered [OF assms(1)] assms(2,3) by auto

theorem event_loops_in_order_witness:
  "\<exists>as T. set_run sample_host sample_cron (Suc (Suc 0))
      (sample_set [Receiving sample_flow [] [event_message_new [] [] (lit ''a'')] FeedSilent False,
        Asleep sample_flow (SleepEvery 5) 5 False]) as T
    \<and> starts_of 0 as = [Array [event_envelope (event_message_new [] [] (lit ''a''))]] \<and> set_triggered T = 2"
proof -
  let ?e = "event_message_new [] [] (lit ''a'')"
  let ?S = "sample_set [Receiving sample_flow [] [?e] FeedSilent False, Asleep sample_flow (SleepEvery 5) 5 False]"
  let ?v = "Array [event_envelope ?e]"
  let ?firing = "Firing sample_flow (ThenReceive [] [] FeedSilent) ?v"
  let ?T = "?S\<lparr>sl_shared := count_firing sample_schedule, sl_loops := (sl_loops ?S)[0 := ?firing]\<rparr>"
  let ?U = "?T\<lparr>sl_shared := count_firing (slept 5 (count_firing sample_schedule)),
      sl_loops := (sl_loops ?T)[1 := Firing sample_flow (ThenSleep (SleepEvery 5)) Null]\<rparr>"
  have one: "set_run sample_host sample_cron (Suc (Suc 0)) ?S [Turn 0 (Some ?v)] ?T"
    by (rule turn_run) (simp_all add: sample_set_def loop_turn_simps trigger_accepts_def)
  have two: "set_run sample_host sample_cron (Suc (Suc 0)) ?T [Turn 1 (Some Null)] ?U"
    by (rule turn_run) (simp_all add: sample_set_def loop_turn_simps)
  note run = set_run_append [OF one two]
  from event_loops_in_order [OF run, of 0] have "set_triggered ?U = 2"
    by (simp add: sample_set_def set_triggered_def sample_schedule_def)
  with run show ?thesis by (intro exI [of _ "[Turn 0 (Some ?v)] @ [Turn 1 (Some Null)]"] exI [of _ ?U]) simp
qed

text \<open>A schedule that is run by itself, along the ends of its waits, is a run of the set with that loop
  alone: the same services and the same counter at the end, and the loop has returned exactly if the
  schedule stopped.\<close>

theorem schedule_alone:
  assumes "run_schedule h cl n flow waits trigger st = Inr (e, st')"
    and "\<And>k. (\<exists>x. h_subscribe h k = Answer x) \<or> (\<exists>err. h_subscribe h k = Refused err)"
  shows "\<exists>as c l. set_run h cl n (alone st False (Spawned flow trigger)) as (alone st' c l)
    \<and> (e = Stopped \<longleftrightarrow> l = Finished)"
  using run_schedule_alone [OF assms] unfolding ends_as_def reaches_def by blast

theorem schedule_alone_witness:
  "\<exists>as c st'. set_run sample_host sample_cron (Suc (Suc 0)) (alone sample_schedule False (Spawned sample_flow (Every 5)))
      as (alone st' c Finished) \<and> ss_triggered st' = 1"
proof -
  have "w_cancel (ss_world (slept 5 sample_schedule)) = None"
    by (simp add: slept_def sample_schedule_def sample_world_def)
  from sample_fires [OF this, of Null] obtain st' where
    run: "run_schedule sample_host sample_cron (Suc (Suc 0)) sample_flow [Slept, Interrupted] (Every 5) sample_schedule
      = Inr (Stopped, st')" and one: "ss_triggered st' = 1"
    by (auto simp: sample_schedule_def slept_def)
  have "(\<exists>x. h_subscribe sample_host k = Answer x) \<or> (\<exists>err. h_subscribe sample_host k = Refused err)" for k
    by (simp add: sample_host_def)
  from schedule_alone [OF run this] one show ?thesis by auto
qed

section \<open>Call functions and catalogs\<close>

definition sample_components :: sdk_components where
  "sample_components = \<lparr>skm_authentications = None, skm_catalogs = Some [(lit ''c'', EndpointUri (lit ''here''))],
     skm_timeouts = None, skm_retries = None, skm_errors = None, skm_functions = None, skm_extensions = None,
     skm_secrets = None\<rparr>"

definition sample_catalogs :: catalog_library where
  "sample_catalogs =
     \<lparr>ck_yaml = \<lambda>t. Inl (lit ''no YAML''), ck_json = \<lambda>t. Inl (lit ''no JSON''),
      ck_components = \<lambda>v. Inr sample_components, ck_file = \<lambda>p. Inl (lit ''no file''),
      ck_get = \<lambda>u. Inl (lit ''no network'')\<rparr>"

definition sample_spec :: json where
  "sample_spec = Object
     [(lit ''paths'', Object [(lit ''/x'', Object [(lit ''get'', Object [(lit ''operationId'', String (lit ''op''))])])]),
      (lit ''servers'', Array [Object [(lit ''url'', String (lit ''there''))]])]"

definition sample_library :: http_library where
  "sample_library =
     \<lparr>hl_send = \<lambda>n r. Inr \<lparr>hs_status = 200, hs_headers = [], hs_body = Inr []\<rparr>,
      hl_response_json = \<lambda>r. Inr sample_spec, hl_from_json = \<lambda>b. Inr Null, hl_from_utf8 = \<lambda>b. Some [],
      hl_url = \<lambda>u. Inr (lit ''https'', Some u), hl_method = Some, hl_uppercase = id, hl_base64 = \<lambda>b. [],
      hl_base64_text = id, hl_visit = id, hl_publish = \<lambda>e. Inr (), hl_subscribe = Inr ([], FeedClosed)\<rparr>"

definition guarded_host :: host where
  "guarded_host = sample_host\<lparr>h_policy := default_policy\<lparr>allow_network := True, allowed_hosts := [lit ''here'']\<rparr>\<rparr>"

definition quiet :: net_state where
  "quiet = \<lparr>ns_sent = [], ns_published = []\<rparr>"

text \<open>What the policy says of a destination, spelled out: the network is on, the scheme is among the
  allowed ones or none are listed, and the host is an allowed one or a subdomain of one, or none are
  listed.  An empty list admits everything, contrary to the comments of the fields (policy.rs) and
  to security.md, which say that it admits nothing.\<close>

definition admits :: "runtime_policy \<Rightarrow> str \<Rightarrow> str \<Rightarrow> bool" where
  "admits policy scheme host \<longleftrightarrow> allow_network policy
     \<and> (allowed_schemes policy = [] \<or> scheme \<in> set (allowed_schemes policy))
     \<and> (allowed_hosts policy = []
        \<or> (\<exists>a \<in> set (allowed_hosts policy). host = a \<or> (\<exists>p. host = p @ lit ''.'' @ a)))"

lemma admits_iff: "scheme_allowed policy scheme \<and> host_allowed policy host \<longleftrightarrow> admits policy scheme host"
  by (auto simp: scheme_allowed_def host_allowed_def admits_def list_ex_iff ends_with_iff)

lemma permitted_admits:
  "permitted lib h q \<longleftrightarrow> (\<exists>scheme host. hl_url lib (hr_uri q) = Inr (scheme, host)
     \<and> admits (h_policy h) scheme (case host of Some t \<Rightarrow> t | None \<Rightarrow> []))"
  by (auto simp: permitted_def admits_iff split: sum.split)

lemma enforced_admits:
  "enforce_network_policy lib h uri = Inr () \<longleftrightarrow> (\<exists>scheme host. hl_url lib uri = Inr (scheme, host)
     \<and> admits (h_policy h) scheme (case host of Some t \<Rightarrow> t | None \<Rightarrow> []))"
  by (auto simp: enforce_network_policy_def network_denied_def Let_def simp flip: admits_iff split: sum.split)

theorem empty_lists_admit_all:
  assumes "allow_network (h_policy h)" "allowed_hosts (h_policy h) = []" "allowed_schemes (h_policy h) = []"
    and "hl_url lib uri = Inr url"
  shows "enforce_network_policy lib h uri = Inr ()"
  using assms by (cases url) (simp add: enforced_admits admits_def)

text \<open>C3: Whatever its arguments, a built-in call function hands only requests to the HTTP client whose URL
  the policy admits: the network is on, the scheme is a listed one or no schemes are listed, and the
  host is a listed one, a subdomain of one, or no hosts are listed.  OpenAPI is excluded unless the
  network is off.  What a client does with the redirects that an answer asks for is not covered.\<close>

theorem requests_respect_policy:
  assumes "map_of builtin_functions name = Some f"
    and "name \<noteq> lit ''openapi'' \<or> \<not> allow_network (h_policy h)"
  shows "\<exists>qs. ns_sent (snd (f lib h args ectx s)) = ns_sent s @ qs
    \<and> (\<forall>q \<in> set qs. \<exists>scheme host. hl_url lib (hr_uri q) = Inr (scheme, host)
          \<and> admits (h_policy h) scheme (case host of Some t \<Rightarrow> t | None \<Rightarrow> []))"
proof -
  have "\<exists>qs. ns_sent (snd (f lib h args ectx s)) = ns_sent s @ qs \<and> list_all (permitted lib h) qs"
  proof (cases "name = lit ''openapi''")
    case True
    with assms builtins_offline [of h name f lib args ectx] show ?thesis
      by (auto simp: sends_only_def list_all_iff)
  next
    case False
    with builtins_permitted [OF assms(1), of lib h args ectx] show ?thesis by (simp add: sends_only_def)
  qed
  then show ?thesis by (simp add: list_all_iff permitted_admits)
qed

text \<open>A policy with both lists, and a call of a subdomain, which is sent.\<close>

definition policed_host :: host where
  "policed_host = sample_host\<lparr>h_policy := default_policy\<lparr>allow_network := True,
     allowed_hosts := [lit ''example.org''], allowed_schemes := [lit ''https'']\<rparr>\<rparr>"

theorem requests_respect_policy_witness:
  "\<exists>q. ns_sent (snd (invoke_http sample_library policed_host [lit ''method'' \<mapsto> String (lit ''get''),
        lit ''endpoint'' \<mapsto> String (lit ''api.example.org'')] sample_context quiet)) = [q]
    \<and> (\<exists>scheme host. hl_url sample_library (hr_uri q) = Inr (scheme, host)
          \<and> admits (h_policy policed_host) scheme (case host of Some t \<Rightarrow> t | None \<Rightarrow> []))"
proof -
  let ?sent = "ns_sent (snd (invoke_http sample_library policed_host [lit ''method'' \<mapsto> String (lit ''get''),
        lit ''endpoint'' \<mapsto> String (lit ''api.example.org'')] sample_context quiet))"
  have "length ?sent = 1" by code_simp
  then obtain q where q: "?sent = [q]" by (auto simp: length_Suc_conv)
  with requests_respect_policy [of "lit ''http''" invoke_http policed_host sample_library
      "[lit ''method'' \<mapsto> String (lit ''get''), lit ''endpoint'' \<mapsto> String (lit ''api.example.org'')]"
      sample_context quiet]
  show ?thesis by (auto simp: builtin_functions_def quiet_def)
qed

text \<open>An OpenAPI call asks the policy for the document only: once the document is there, the second
  request goes to the server that the document names, whatever the policy says of it.\<close>

theorem openapi_server_unchecked:
  assumes "document_uri args = Inr uri" "Option.bind (args (lit ''operationId'')) as_str = Some op"
    and "enforce_network_policy lib h uri = Inr ()" "args (lit ''parameters'') = None"
    and "hl_send lib (length (ns_sent s)) (get_request uri) = Inr r" "hl_response_json lib r = Inr spec"
    and "find_operation spec op = Some (verb, path)" "hl_visit lib [] = []"
  shows "\<exists>q. ns_sent (snd (invoke_openapi lib h args ectx s)) = ns_sent s @ [get_request uri, q]
    \<and> hr_uri q = trim_slashes (server_url spec uri) @ path"
  using openapi_second_request [OF assms(1-7)] operation_request_plain [OF assms(8)] by simp

theorem openapi_server_unchecked_witness:
  "\<exists>q \<in> set (ns_sent (snd (invoke_openapi sample_library guarded_host
       [lit ''document'' \<mapsto> Object [(lit ''endpoint'', String (lit ''here''))], lit ''operationId'' \<mapsto> String (lit ''op'')]
       sample_context quiet))). \<not> permitted sample_library guarded_host q"
proof -
  let ?args = "[lit ''document'' \<mapsto> Object [(lit ''endpoint'', String (lit ''here''))],
    lit ''operationId'' \<mapsto> String (lit ''op'')]"
  have "\<exists>q. ns_sent (snd (invoke_openapi sample_library guarded_host ?args sample_context quiet))
      = ns_sent quiet @ [get_request (lit ''here''), q]
    \<and> hr_uri q = trim_slashes (server_url sample_spec (lit ''here'')) @ lit ''/x''"
    by (rule openapi_server_unchecked [where op = "lit ''op''" and verb = "lit ''get''"
          and r = "\<lparr>hs_status = 200, hs_headers = [], hs_body = Inr []\<rparr>"])
       (simp_all add: document_uri_def require_def enforce_network_policy_def network_denied_def
         sample_library_def guarded_host_def default_policy_def scheme_allowed_def host_allowed_def
         find_operation_def sample_spec_def has_operation_def path_methods_def)
  then obtain q where sent: "ns_sent (snd (invoke_openapi sample_library guarded_host ?args sample_context quiet))
      = ns_sent quiet @ [get_request (lit ''here''), q]"
    and target: "hr_uri q = trim_slashes (server_url sample_spec (lit ''here'')) @ lit ''/x''" by blast
  have uri: "hr_uri q = lit ''there/x''"
    by (simp add: target server_url_def sample_spec_def trim_slashes_def lit_def)
  have "\<not> permitted sample_library guarded_host q"
    by (simp add: permitted_def uri sample_library_def guarded_host_def default_policy_def host_allowed_def
        ends_with_def lit_def)
  with sent show ?thesis by simp
qed

text \<open>C25: The import of catalogs ends whenever finitely many catalogs refer to each other, cycles
  included.  Where it succeeds it has visited exactly the catalogs that the queue leads to, directly
  or through the catalogs that another one names, each of them once and after its check, and the
  result is the merge of their components in the order of the visits.  Where it fails, the error is
  that of the check or of the fetch of a catalog that the queue leads to.\<close>

theorem imports_end:
  assumes "finite U" "imports_closed (catalog_resolve ck cr) U" "catalog_uris queue \<subseteq> U"
  shows "\<exists>r. import_loop (catalog_check lib h cr) (catalog_resolve ck cr) [] queue merged = Some r
    \<and> (\<forall>m vs. r = Inr (m, vs) \<longrightarrow> distinct vs
        \<and> set vs = {u. catalog_reached (catalog_resolve ck cr) (catalog_uris queue) u}
        \<and> (\<forall>u \<in> set vs. catalog_check lib h cr u = Inr ())
        \<and> m = merge_fetched (catalog_resolve ck cr) (rev vs) merged)
    \<and> (\<forall>e. r = Inl e \<longrightarrow> (\<exists>u. catalog_reached (catalog_resolve ck cr) (catalog_uris queue) u
        \<and> (catalog_check lib h cr u = Inl e
           \<or> catalog_check lib h cr u = Inr () \<and> (\<exists>f. catalog_resolve ck cr u = Inl f \<and> e = Failed f))))"
proof -
  obtain r where r: "import_loop (catalog_check lib h cr) (catalog_resolve ck cr) [] queue merged = Some r"
    using import_loop_ends [OF assms] by blast
  note result = import_loop_result [OF r]
  show ?thesis
    by (intro exI [of _ r] conjI allI impI r) (erule result)+
qed

text \<open>Two catalogs that name each other: the loop visits both, though only one is asked for.\<close>

definition naming_components :: "str \<Rightarrow> sdk_components" where
  "naming_components u = sample_components\<lparr>skm_catalogs := Some [(lit ''other'', EndpointUri u)]\<rparr>"

definition cyclic_catalogs :: catalog_resolver where
  "cyclic_catalogs = StaticCatalog
     [lit ''here'' \<mapsto> naming_components (lit ''there''), lit ''there'' \<mapsto> naming_components (lit ''here'')]"

theorem imports_end_witness:
  "(\<exists>r. import_loop (catalog_check sample_library sample_host cyclic_catalogs)
      (catalog_resolve sample_catalogs cyclic_catalogs) [] [EndpointUri (lit ''here'')] sample_components = Some r
    \<and> (\<forall>m vs. r = Inr (m, vs) \<longrightarrow> distinct vs
        \<and> set vs = {u. catalog_reached (catalog_resolve sample_catalogs cyclic_catalogs)
                     (catalog_uris [EndpointUri (lit ''here'')]) u}
        \<and> (\<forall>u \<in> set vs. catalog_check sample_library sample_host cyclic_catalogs u = Inr ())
        \<and> m = merge_fetched (catalog_resolve sample_catalogs cyclic_catalogs) (rev vs) sample_components))
    \<and> catalog_reached (catalog_resolve sample_catalogs cyclic_catalogs)
        (catalog_uris [EndpointUri (lit ''here'')]) (lit ''there'')"
proof
  have "imports_closed (catalog_resolve sample_catalogs cyclic_catalogs) {lit ''here'', lit ''there''}"
    by (auto simp: imports_closed_def catalog_uris_def catalog_endpoint_uri_def cyclic_catalogs_def
        naming_components_def or_empty_def)
  then show "\<exists>r. import_loop (catalog_check sample_library sample_host cyclic_catalogs)
      (catalog_resolve sample_catalogs cyclic_catalogs) [] [EndpointUri (lit ''here'')] sample_components = Some r
    \<and> (\<forall>m vs. r = Inr (m, vs) \<longrightarrow> distinct vs
        \<and> set vs = {u. catalog_reached (catalog_resolve sample_catalogs cyclic_catalogs)
                     (catalog_uris [EndpointUri (lit ''here'')]) u}
        \<and> (\<forall>u \<in> set vs. catalog_check sample_library sample_host cyclic_catalogs u = Inr ())
        \<and> m = merge_fetched (catalog_resolve sample_catalogs cyclic_catalogs) (rev vs) sample_components)"
    using imports_end [of "{lit ''here'', lit ''there''}" sample_catalogs cyclic_catalogs
        "[EndpointUri (lit ''here'')]" sample_library sample_host sample_components]
    by (simp add: catalog_uris_def catalog_endpoint_uri_def) blast
  show "catalog_reached (catalog_resolve sample_catalogs cyclic_catalogs)
        (catalog_uris [EndpointUri (lit ''here'')]) (lit ''there'')"
    by (rule reached_nested [OF reached_root [of "lit ''here''"]])
       (auto simp: catalog_uris_def catalog_endpoint_uri_def nested_uris_def cyclic_catalogs_def
          naming_components_def or_empty_def)
qed

section \<open>Stores\<close>

definition sample_record :: execution_record where
  "sample_record =
     \<lparr>er_execution_id = lit ''e'', er_workflow = lit ''n/w'', er_namespace = lit ''n'', er_name = lit ''w'',
      er_version = lit ''1'', er_phase = Running, er_context = Null, er_pointer = Null, er_error = None,
      er_started_at = 0\<rparr>"

definition sample_entry :: stored_event where
  "sample_entry = \<lparr>sv_execution_id = lit ''e'', sv_sequence = 1, sv_event_type = lit ''workflow.started'',
     sv_payload = Null, sv_timestamp = 0\<rparr>"

definition sample_codec :: codec where
  "sample_codec =
     \<lparr>cx_text = \<lambda>v. lit ''null'', cx_parse = \<lambda>s. Inr Null, cx_record = \<lambda>r. [],
      cx_read_record = \<lambda>s. Inr sample_record, cx_event = \<lambda>e. [], cx_read_event = \<lambda>s. Inr sample_entry\<rparr>"

text \<open>C7: Whatever is created, updated and appended, within the range of the event counter, the stores on
  SQLite, PostgreSQL and Redis answer every look-up of a record and of a history as the in-memory
  store does, as long as the encoding reads back what it wrote.\<close>

theorem durable_stores_agree:
  assumes "length ps \<le> event_room" "list_all (op_ok (storable cx) (loggable cx)) ps"
    and "list_all (op_ok (redis_storable cx) (redis_loggable cx)) ps"
  shows "\<exists>lite pg db. run_steps (sqlite_step cx) ps tables_new = Inr lite
    \<and> run_steps (postgres_step cx) ps tables_new = Inr pg \<and> run_steps (redis_step cx) ps Map.empty = Inr db
    \<and> (\<forall>i. let r = Inr (store_load (fold memory_step ps store_new) i);
              es = Inr (store_events (fold memory_step ps store_new) i)
         in sqlite_load cx None lite i = r \<and> sqlite_events cx None lite i = es
          \<and> postgres_load cx None pg i = r \<and> postgres_events cx None pg i = es
          \<and> redis_load cx None db i = r \<and> redis_events cx None db i = es)"
  using sql.behaves_as_memory [OF assms(1,2), of sqlite_error sqlite_full]
    sql.behaves_as_memory [OF assms(1,2), of postgres_error postgres_full]
    redis.behaves_as_memory [OF assms(1,3)]
  by (simp add: sqlite_step_sql postgres_step_sql sqlite_load_def sqlite_events_def postgres_load_def
      postgres_events_def Let_def) blast

theorem durable_stores_agree_witness:
  "\<exists>lite db. run_steps (sqlite_step sample_codec) [CreateOp sample_record, AppendOp sample_entry] tables_new = Inr lite
    \<and> run_steps (redis_step sample_codec) [CreateOp sample_record, AppendOp sample_entry] Map.empty = Inr db
    \<and> sqlite_load sample_codec None lite (lit ''e'') = Inr (Some sample_record)
    \<and> redis_events sample_codec None db (lit ''e'') = Inr [sample_entry]"
  using durable_stores_agree [of "[CreateOp sample_record, AppendOp sample_entry]" sample_codec]
  by (force simp: event_room_def i64_max_def storable_def loggable_def reads_back_def redis_storable_def
      redis_loggable_def sample_codec_def sample_record_def sample_entry_def mem.load_create mem.load_append
      mem.events_append mem.events_create mem.events_empty Let_def)

section \<open>Telemetry\<close>

text \<open>C31: The metrics count the events that were published: each counter is the number of events that
  increment it, as long as that number fits.\<close>

theorem metrics_count_events:
  assumes "length es < 2 ^ 63 - 1"
  shows "\<exists>m. run_steps (record_event pf) es metrics_new = Inr m
    \<and> (\<forall>k. sint (counter m k) = int (length (filter (\<lambda>e. k \<in> set (counted e)) es)))"
proof -
  obtain m where m: "run_steps (record_event pf) es metrics_new = Inr m"
    "\<And>k. counter m k = word_of_int (int (hits k es))"
    using record_events_count [OF assms] by blast
  have small: "hits k es < 2 ^ 63" for k
    using assms le_less_trans [OF length_filter_le [of "\<lambda>e. k \<in> set (counted e)" es]] by (simp add: hits_def)
  have "fits_i64 (int (hits k es))" for k
    using small [of k] by (simp add: fits_i64_def i64_min_def i64_max_def)
  then have "sint (counter m k) = int (hits k es)" for k
    unfolding m(2) by (rule sint_word_of_int_fits)
  with m(1) show ?thesis by (auto simp: hits_def)
qed

theorem metrics_count_events_witness:
  "\<exists>m. run_steps (record_event sample_platform)
      [event_message_new [] [] (lit ''io.workflow.completed.v1''), event_message_new [] [] (lit ''b'')] metrics_new = Inr m
    \<and> sint (counter m (lit ''ows.workflow.completed'')) = 1 \<and> sint (counter m (lit ''ows.events.b'')) = 1"
proof -
  have "str_contains (lit ''io.workflow.completed.v1'') (lit ''workflow.completed'')"
    "\<not> str_contains (lit ''b'') (lit ''workflow.completed'')" "\<not> str_contains (lit ''b'') (lit ''workflow.faulted'')"
    by code_simp+
  then show ?thesis
  using metrics_count_events [of "[event_message_new [] [] (lit ''io.workflow.completed.v1''), event_message_new [] [] (lit ''b'')]"
      sample_platform]
  by (force simp: counted_def event_message_new_def lit_def)
qed


text \<open>C32: The request over HTTP and the message over gRPC carry the same span: over gRPC the identifiers
  are sixteen and eight bytes, not all of them zero, whose text in lower-case hexadecimal digits, two for each byte,
  is what the request over HTTP holds, and the name, times and status are the same.\<close>

theorem spans_of_transports:
  "\<exists>v j s. encode_trace_request co e service = Inr v \<and> request_span v = Some j
    \<and> span_from_event co e = Inr s
    \<and> length (sn_trace_id s) = 16 \<and> (\<exists>b \<in> set (sn_trace_id s). b \<noteq> 0)
    \<and> json_get j (lit ''traceId'') = Some (String (hex_text (sn_trace_id s)))
    \<and> length (sn_span_id s) = 8 \<and> (\<exists>b \<in> set (sn_span_id s). b \<noteq> 0)
    \<and> json_get j (lit ''spanId'') = Some (String (hex_text (sn_span_id s)))
    \<and> json_get j (lit ''name'') = Some (String (sn_name s))
    \<and> json_get j (lit ''startTimeUnixNano'') = Some (String (nat_str (sn_start s)))
    \<and> json_get j (lit ''endTimeUnixNano'') = Some (String (nat_str (sn_end s)))
    \<and> json_get j (lit ''status'') = Some (obj [(lit ''code'', json_of_nat (sn_status_code s))])"
  by (rule transports_agree)

section \<open>The runtime as it is built\<close>

definition sample_surroundings :: surroundings where
  "sample_surroundings =
     \<lparr>su_platform = sample_platform, su_version = lit ''1'', su_environment = \<lambda>n. None, su_uuid = nat_str,
      su_random = \<lambda>n. f64_zero False, su_clock = clock_new, su_schema = \<lambda>d v. None,
      su_network = \<lambda>n. sample_library, su_native_grpc = None, su_iso_time = \<lambda>t. lit ''now'',
      su_join_error = id, su_completion = \<lambda>n. rev [0..<n]\<rparr>"

text \<open>C4: In a runtime that is built without network access and without functions registered by the
  embedder, a workflow without extensions whose directives lead forward and whose first task is an
  unguarded call of a network function (HTTP, OpenAPI, MCP, A2A, gRPC, native or not) has no result:
  whatever the network would answer, it fails in some way, given the nested steps that its definition
  determines.\<close>

theorem offline_workflow_fails:
  assumes "\<not> allow_network (rb_policy b)" "rb_functions b = Map.empty" "cw_tasks flow = t # ts" "network_task t"
    and "cw_extensions flow = []" "scope_bounded (cw_tasks flow)" "scope_need (cw_tasks flow) < n"
  shows "\<exists>f. fst (execute (fst (build su b)) n flow v default_options w) = Inl f \<and> f \<noteq> OutOfFuel"
  using built_offline_execution [OF assms(1-5)] execute_settles [OF assms(5-7)]
  by (metis sumE)

lemma sample_network_task: "network_task (call_task (lit ''a'') (lit ''http''))"
  by (simp add: network_task_call network_calls_def)

theorem offline_workflow_fails_witness:
  "\<exists>f. fst (execute (fst (build sample_surroundings (builder_new sample_surroundings))) 9
      (sample_flow\<lparr>cw_tasks := [call_task (lit ''a'') (lit ''http'')]\<rparr>) Null default_options sample_world) = Inl f
    \<and> f \<noteq> OutOfFuel"
  by (rule offline_workflow_fails [OF _ _ _ sample_network_task])
     (simp_all add: sample_flow_def builder_new_def default_policy_def sample_network_task call_task_def
       scope_bounded_def directives_forward_def own_directives_def goes_forward_def plain_task_def scope_need_def)

definition sample_grpc :: grpc_library where
  "sample_grpc =
     \<lparr>gl_parse = \<lambda>n c. Inr [], gl_exists = \<lambda>p. False, gl_parent = \<lambda>p. None, gl_compile = \<lambda>p d. Inl [],
      gl_pool = \<lambda>b. Inr [\<lparr>sd_full_name = lit ''p.S'', sd_methods = [\<lparr>md_name = lit ''M'', md_full_name = lit ''p.S.M'',
        md_service = lit ''p.S'', md_input = lit ''p.In'', md_output = lit ''p.Out''\<rparr>]\<rparr>],
      gl_encode = \<lambda>m v. Inr [], gl_reply_value = \<lambda>m b. Inr Null, gl_path = \<lambda>p. None,
      gl_connect = \<lambda>u. Connected, gl_ready = \<lambda>u. None, gl_unary = \<lambda>u p m. Inr []\<rparr>"

text \<open>C5: Whatever its descriptors and arguments, a native gRPC call connects to and calls only endpoints
  that the policy admits: the network is on, the scheme is a listed one or no schemes are listed, and
  the host is a listed one, a subdomain of one, or no hosts are listed.\<close>

theorem native_calls_respect_policy:
  assumes "a \<in> set (snd (invoke_native_grpc lib g h args))"
  shows "\<exists>scheme host. hl_url lib (action_uri a) = Inr (scheme, host)
    \<and> admits (h_policy h) scheme (case host of Some t \<Rightarrow> t | None \<Rightarrow> [])"
  using native_actions_permitted [OF assms] by (simp only: enforced_admits)

definition local_library :: http_library where
  "local_library = sample_library\<lparr>hl_url := \<lambda>u. Inr (lit ''http'', Some (lit ''localhost''))\<rparr>"

definition local_host :: host where
  "local_host = sample_host\<lparr>h_policy := default_policy\<lparr>allow_network := True,
     allowed_hosts := [lit ''localhost''], allowed_schemes := [lit ''http'']\<rparr>\<rparr>"

theorem native_calls_respect_policy_witness:
  "Connect (lit ''http://localhost:80'') \<in> set (snd (invoke_native_grpc local_library sample_grpc local_host
      [lit ''proto'' \<mapsto> Object [(lit ''content'', String [])], lit ''service'' \<mapsto> Object [(lit ''name'', String (lit ''S''))],
       lit ''method'' \<mapsto> String (lit ''M'')]))
   \<and> (\<exists>scheme host. hl_url local_library (lit ''http://localhost:80'') = Inr (scheme, host)
      \<and> admits (h_policy local_host) scheme (case host of Some t \<Rightarrow> t | None \<Rightarrow> []))"
proof
  show called: "Connect (lit ''http://localhost:80'') \<in> set (snd (invoke_native_grpc local_library sample_grpc local_host
      [lit ''proto'' \<mapsto> Object [(lit ''content'', String [])], lit ''service'' \<mapsto> Object [(lit ''name'', String (lit ''S''))],
       lit ''method'' \<mapsto> String (lit ''M'')]))"
    by code_simp
  from native_calls_respect_policy [OF called]
  show "\<exists>scheme host. hl_url local_library (lit ''http://localhost:80'') = Inr (scheme, host)
      \<and> admits (h_policy local_host) scheme (case host of Some t \<Rightarrow> t | None \<Rightarrow> [])" by simp
qed


section \<open>Conformance\<close>

text \<open>C19: A feature that is written out, with names and texts without white space at their ends and documents
  that do not contain the fence, is read back as it was.\<close>

theorem feature_roundtrip:
  assumes "trimmed name" "list_all scenario_written ss"
  shows "parse_feature_str (doc_text (feature_lines name ss)) file
    = \<lparr>fe_name = name, fe_file = file, fe_scenarios = map scenario_of ss\<rparr>"
  by (rule feature_read_back [OF assms])

definition sample_scenario :: "str \<times> written_step list" where
  "sample_scenario = (lit ''s'', [\<lparr>ws_keyword = lit ''When'', ws_text = lit ''x'', ws_doc = Some [lit ''  y'']\<rparr>])"

theorem feature_roundtrip_witness:
  "fe_scenarios (parse_feature_str (doc_text (feature_lines (lit ''f'') [sample_scenario])) [])
    = [\<lparr>so_name = lit ''s'', so_steps = [\<lparr>gs_keyword = lit ''When'', gs_text = lit ''x'', gs_doc = Some (lit ''  y'' @ [10])\<rparr>]\<rparr>]"
proof -
  have "trimmed (lit ''f'')" "list_all scenario_written [sample_scenario]" by code_simp+
  from feature_roundtrip [OF this, of "[]"] show ?thesis
    by (simp add: sample_scenario_def scenario_of_def step_of_def doc_text_def)
qed

text \<open>C26: The report of a run has an entry for every scenario of the features in the order of their paths, one
  for every feature that cannot be read, and its counts are those of its entries.\<close>

theorem report_counts:
  assumes "run_ctk_with tk rf n paths net = Inr rep"
  shows "report_entries rep = concat (map (file_entries rf) (sort paths)) \<and> tallied rep
    \<and> cr_passes rep + cr_failures rep + cr_skips rep = report_total rep"
  using run_ctk_report [OF assms] tallied_total [of rep] by (simp add: report_total_def)

definition sample_kit :: test_kit where
  "sample_kit =
     \<lparr>tk_yaml = \<lambda>s. Inr (Object []),
      tk_definition = \<lambda>v. Inr (sample_definition\<lparr>skw_do := [Some (lit ''a'', SdkSet no_fields (SetMap []))],
        skw_schedule := None, skw_use := None\<rparr>),
      tk_serializer = \<lparr>sz_task = \<lambda>t. Inr Null, sz_workflow = \<lambda>d. Inr Null\<rparr>, tk_error = \<lambda>e. [], tk_debug = concat,
      tk_runtime = \<lambda>p. Some (sample_host, sample_world)\<rparr>"

theorem report_counts_witness:
  "\<exists>rep. run_ctk_with (sample_kit\<lparr>tk_runtime := \<lambda>p. None\<rparr>)
      (\<lambda>p. if p = lit ''a'' then Inr (doc_text (feature_lines (lit ''f'') [sample_scenario])) else Inl (lit ''gone''))
      9 [lit ''b'', lit ''a''] False = Inr rep
    \<and> report_entries rep = [(lit ''f'', lit ''s''), (lit ''b'', lit ''<parse error>'')] \<and> cr_failures rep = 2"
proof -
  let ?rf = "\<lambda>p. if p = lit ''a'' then Inr (doc_text (feature_lines (lit ''f'') [sample_scenario])) else Inl (lit ''gone'')"
  have "case run_ctk_with (sample_kit\<lparr>tk_runtime := \<lambda>p. None\<rparr>) ?rf 9 [lit ''b'', lit ''a''] False of
      Inl e \<Rightarrow> False | Inr rep \<Rightarrow> cr_passes rep = 0 \<and> cr_skips rep = 0 \<and> report_total rep = 2"
    by code_simp
  then obtain rep where rep: "run_ctk_with (sample_kit\<lparr>tk_runtime := \<lambda>p. None\<rparr>) ?rf 9 [lit ''b'', lit ''a''] False = Inr rep"
    "cr_passes rep = 0" "cr_skips rep = 0" "report_total rep = 2" by (auto split: sum.splits)
  have "concat (map (file_entries ?rf) (sort [lit ''b'', lit ''a''])) = [(lit ''f'', lit ''s''), (lit ''b'', lit ''<parse error>'')]"
    by code_simp
  with report_counts [OF rep(1)] rep show ?thesis by auto
qed


text \<open>A definition whose only entry names no task, on the runtime of the samples: it compiles to a
  workflow without tasks, whose output is its input.\<close>

definition hollow_definition :: sdk_workflow where
  "hollow_definition = sample_definition\<lparr>skw_do := [None], skw_schedule := None, skw_use := None\<rparr>"

definition hollow_kit :: test_kit where
  "hollow_kit = sample_kit\<lparr>tk_yaml := \<lambda>s. Inr Null, tk_definition := \<lambda>v. Inr hollow_definition\<rparr>"

lemma hollow_valid: "is_valid (validate (seen_workflow hollow_definition))"
  by code_simp

lemma hollow_flow:
  "case runtime_compile sample_platform (tk_serializer hollow_kit) hollow_definition of Inl e \<Rightarrow> False
   | Inr flow \<Rightarrow> cw_tasks flow = [] \<and> cw_input flow = no_data \<and> cw_output flow = no_data"
  by code_simp

lemma hollow_outcome: "scenario_outcome hollow_kit 2 (sample_host, sample_world) [] = Inr (Some (Inr Null))"
proof -
  obtain flow where flow: "runtime_compile sample_platform (tk_serializer hollow_kit) hollow_definition = Inr flow"
    "cw_tasks flow = []" "cw_input flow = no_data" "cw_output flow = no_data"
    using hollow_flow by (auto split: sum.splits)
  let ?h = "sample_host\<lparr>h_workflow := register flow (h_workflow sample_host)\<rparr>"
  let ?w = "sample_world\<lparr>w_task_order := []\<rparr>"
  have "fst (execute ?h (Suc (Suc 0)) flow Null default_options (snd (next_uuid ?h ?w))) = Inr Null"
    by (rule execute_empty)
       (simp_all add: publishes_def sample_host_def sample_world_def flow next_uuid_def)
  then have "fst (snd (runtime_execute ?h 2 flow Null ?w)) = Inr Null"
    by (simp add: runtime_execute_def case_prod_beta Let_def numeral_2_eq_2)
  moreover have "h_platform sample_host = sample_platform" by (simp add: sample_host_def)
  ultimately show ?thesis
    using flow(1) hollow_valid by (simp add: scenario_outcome_def hollow_kit_def)
qed

text \<open>C27: A scenario that gives a definition, executes it and compares the output passes exactly when the
  definition is accepted, the workflow completes, and its output equals the expected one.\<close>

theorem output_scenario_verdict:
  assumes "tk_runtime tk (scenario_policy net) = Some start"
    and "so_steps sc = [definition_step doc, execute_step, output_step expected]"
    and "run_scenario tk n f sc net = Inr r"
  shows "rs_status r = Pass \<longleftrightarrow> (\<exists>out. scenario_outcome tk n start doc = Inr (Some (Inr out))
    \<and> num_equal out (yaml_or_null tk (Some expected)))"
  by (rule output_scenario_passes [OF assms])


theorem output_scenario_verdict_witness:
  "\<exists>r. run_scenario hollow_kit 2 \<lparr>fe_name = [], fe_file = [], fe_scenarios = []\<rparr>
      \<lparr>so_name = [], so_steps = [definition_step [], execute_step, output_step []]\<rparr> False = Inr r
    \<and> rs_status r = Pass"
proof -
  let ?sc = "\<lparr>so_name = [], so_steps = [definition_step [], execute_step, output_step []]\<rparr>"
  let ?f = "\<lparr>fe_name = [], fe_file = [], fe_scenarios = []\<rparr>"
  have start: "tk_runtime hollow_kit (scenario_policy False) = Some (sample_host, sample_world)"
    and steps: "so_steps ?sc = [definition_step [], execute_step, output_step []]"
    by (simp_all add: hollow_kit_def sample_kit_def)
  from run_scenario_returns [OF start steps hollow_outcome] obtain r
    where r: "run_scenario hollow_kit 2 ?f ?sc False = Inr r" by blast
  with output_scenario_verdict [OF start steps r] hollow_outcome show ?thesis
    by (simp add: hollow_kit_def yaml_or_null_def)
qed


end
